(* ===== verification/Prelude.thy ===== *)
theory Prelude
  imports Main "HOL-Library.Word"
begin

text \<open>
  The types and generic facts the component theories share: the C integer types as words of
  their width, byte order conversions, and lemmas on lists that the array and buffer
  operations of the code need. Every platform the build files name has a 64-bit \<open>size_t\<close>.
\<close>

unbundle bit_operations_syntax

section \<open>C integer types\<close>

type_synonym u8 = "8 word"
type_synonym u16 = "16 word"
type_synonym u32 = "32 word"
type_synonym u64 = "64 word"
type_synonym size_t = "64 word"

named_theorems width_simps \<open>reading words of a fixed width as natural numbers\<close>

lemma unat_less_2_64 [width_simps]: "unat (x :: 64 word) < 18446744073709551616"
  using unsigned_less [of x] by simp

lemma unat_less_2_32 [width_simps]: "unat (x :: 32 word) < 4294967296"
  using unsigned_less [of x] by simp

lemma unat_of_nat_64 [width_simps]:
  "n < 18446744073709551616 \<Longrightarrow> unat (word_of_nat n :: 64 word) = n"
  by (simp add: unsigned_of_nat take_bit_nat_eq_self)

lemma unat_of_nat_32 [width_simps]:
  "n < 4294967296 \<Longrightarrow> unat (word_of_nat n :: 32 word) = n"
  by (simp add: unsigned_of_nat take_bit_nat_eq_self)

lemma unat_plus_small:
  "unat (x :: 'a::len word) + unat y < 2 ^ LENGTH('a) \<Longrightarrow> unat (x + y) = unat x + unat y"
  by (simp add: unat_word_ariths)

lemma unat_minus_small: "y \<le> x \<Longrightarrow> unat (x - y) = unat x - unat (y :: 'a::len word)"
  by (simp add: unat_sub)

text \<open>A \<open>size_t\<close> stored in an \<open>int\<close> and read back.\<close>

lemma scast_ucast_small:
  assumes "unat (s :: size_t) < 2147483648"
  shows "scast (ucast s :: u32) = s"
proof -
  have lt: "uint s < 2147483648" using assms unfolding unat_eq_nat_uint by linarith
  have ge: "- 2147483648 \<le> uint s" using unsigned_greater_eq [of s, where ?'a = int] by linarith
  have "signed_take_bit 31 (uint s) = uint s" using lt ge by (intro signed_take_bit_int_eq_self) simp_all
  moreover have "take_bit 32 (uint s) = uint s" using lt by (intro take_bit_int_eq_self) simp_all
  ultimately have "sint (ucast s :: u32) = uint s" by (simp add: sint_uint unsigned_ucast_eq)
  moreover have "(word_of_int (sint (ucast s :: u32)) :: size_t) = scast (ucast s :: u32)"
    by (rule of_int_sint)
  ultimately show ?thesis by simp
qed

section \<open>Byte order\<close>

text \<open>
  \<open>htons\<close>/\<open>ntohs\<close> applied to a value that is then stored in memory, or loaded from it, amount
  to the big-endian bytes of the value on every host.
\<close>

definition be16 :: "u16 \<Rightarrow> u8 list" where
  "be16 x = [ucast (drop_bit 8 x), ucast x]"

definition be16_get :: "u8 \<Rightarrow> u8 \<Rightarrow> u16" where
  "be16_get hi lo = push_bit 8 (ucast hi) OR ucast lo"

lemma length_be16 [simp]: "length (be16 x) = 2"
  by (simp add: be16_def)

lemma be16_get_be16 [simp]: "be16_get (ucast (drop_bit 8 x)) (ucast x) = x"
  unfolding be16_get_def
  by (rule bit_word_eqI) (auto simp: bit_simps)

text \<open>The bytes of a 32-bit word, the most significant first.\<close>

definition be32 :: "u32 \<Rightarrow> u8 list" where
  "be32 x = [ucast (drop_bit 24 x), ucast (drop_bit 16 x), ucast (drop_bit 8 x), ucast x]"

definition be32_get :: "u8 \<Rightarrow> u8 \<Rightarrow> u8 \<Rightarrow> u8 \<Rightarrow> u32" where
  "be32_get a b c d =
     push_bit 24 (ucast a) OR push_bit 16 (ucast b) OR push_bit 8 (ucast c) OR ucast d"

lemma length_be32 [simp]: "length (be32 x) = 4"
  by (simp add: be32_def)

lemma be32_get_be32 [simp]:
  "be32_get (ucast (drop_bit 24 x)) (ucast (drop_bit 16 x)) (ucast (drop_bit 8 x)) (ucast x) = x"
  unfolding be32_get_def
proof (rule bit_word_eqI)
  fix n assume n: "n < LENGTH(32)"
  then consider "n < 8" | "8 \<le> n \<and> n < 16" | "16 \<le> n \<and> n < 24" | "24 \<le> n \<and> n < 32"
    by fastforce
  then show "bit (push_bit 24 (ucast (ucast (drop_bit 24 x) :: u8) :: u32) OR
      push_bit 16 (ucast (ucast (drop_bit 16 x) :: u8)) OR
      push_bit 8 (ucast (ucast (drop_bit 8 x) :: u8)) OR ucast (ucast x :: u8)) n \<longleftrightarrow> bit x n"
    by cases (auto simp: bit_simps)
qed

section \<open>Lists as C arrays\<close>

text \<open>
  \<open>memcpy (dst + i, src, n)\<close> on lists: the cells from \<open>i\<close> on are overwritten.
\<close>

definition blit :: "'a list \<Rightarrow> nat \<Rightarrow> 'a list \<Rightarrow> 'a list" where
  "blit dst i src = take i dst @ src @ drop (i + length src) dst"

lemma length_blit [simp]:
  "i + length src \<le> length dst \<Longrightarrow> length (blit dst i src) = length dst"
  by (simp add: blit_def)

lemma take_blit [simp]:
  "i + length src \<le> length dst \<Longrightarrow> take (i + length src) (blit dst i src) = take i dst @ src"
  by (simp add: blit_def)

text \<open>Removing \<open>n\<close> cells at \<open>i\<close>, as \<open>arr_splice\<close> and the list deletions of the code do.\<close>

definition splice_out :: "'a list \<Rightarrow> nat \<Rightarrow> nat \<Rightarrow> 'a list" where
  "splice_out xs i n = take i xs @ drop (i + n) xs"

lemma length_splice_out [simp]:
  "i + n \<le> length xs \<Longrightarrow> length (splice_out xs i n) = length xs - n"
  by (simp add: splice_out_def)

lemma splice_out_append [simp]: "splice_out (xs @ y # ys) (length xs) (Suc 0) = xs @ ys"
  by (simp add: splice_out_def)

lemma splice_out_0 [simp]: "splice_out (x # xs) 0 (Suc 0) = xs"
  by (simp add: splice_out_def)

lemma splice_out_Suc [simp]: "splice_out (x # xs) (Suc i) n = x # splice_out xs i n"
  by (simp add: splice_out_def)

lemma set_splice_out: "set (splice_out xs i n) \<subseteq> set xs"
  by (auto simp: splice_out_def dest: in_set_takeD in_set_dropD)

text \<open>
  Removing the first element that satisfies a predicate: what the search loops of the code
  that end in \<open>arr_splice (\<dots>); break;\<close> compute.
\<close>

fun remove_first :: "('a \<Rightarrow> bool) \<Rightarrow> 'a list \<Rightarrow> 'a list" where
  "remove_first p [] = []"
| "remove_first p (x # xs) = (if p x then xs else x # remove_first p xs)"

lemma remove_first_id [simp]: "\<forall>x \<in> set xs. \<not> p x \<Longrightarrow> remove_first p xs = xs"
  by (induction xs) auto

lemma set_remove_first_subset: "set (remove_first p xs) \<subseteq> set xs"
  by (induction xs) auto

lemma distinct_remove_first: "distinct xs \<Longrightarrow> distinct (remove_first p xs)"
  using set_remove_first_subset by (induction xs) fastforce+

lemma remove_first_eq_distinct:
  "distinct xs \<Longrightarrow> set (remove_first (\<lambda>y. y = x) xs) = set xs - {x}"
  by (induction xs) auto

lemma remove_first_eq_remove1: "remove_first (\<lambda>y. y = x) xs = remove1 x xs"
  by (induction xs) auto

lemma takeWhile_shorter: "\<exists>x \<in> set xs. \<not> p x \<Longrightarrow> length (takeWhile p xs) < length xs"
  by (induction xs) auto

lemma takeWhile_remove_first:
  "\<exists>x \<in> set xs. p x \<Longrightarrow> splice_out xs (length (takeWhile (\<lambda>x. \<not> p x) xs)) (Suc 0) = remove_first p xs"
  by (induction xs) auto

section \<open>Folding an operation that may abort\<close>

fun fold_opt :: "('x \<Rightarrow> 's \<Rightarrow> 's option) \<Rightarrow> 'x list \<Rightarrow> 's \<Rightarrow> 's option" where
  "fold_opt f [] s = Some s"
| "fold_opt f (x # xs) s = (case f x s of None \<Rightarrow> None | Some t \<Rightarrow> fold_opt f xs t)"

lemma fold_opt_append:
  "fold_opt f (xs @ ys) s = (case fold_opt f xs s of None \<Rightarrow> None | Some t \<Rightarrow> fold_opt f ys t)"
  by (induction xs arbitrary: s) (auto split: option.splits)

end
