(* ===== verification/Dyn_Array.thy ===== *)
theory Dyn_Array
  imports Prelude
begin

text \<open>
  The growable array of \<^verbatim>\<open>include/allonet/arr.h\<close> and \<^verbatim>\<open>src/arr.c\<close>: the struct
  \<open>{ T* data; size_t length, capacity; }\<close>, its growth by doubling with the wrap-around of
  \<open>size_t\<close>, and the push, pop, append, splice and clear macros. The interface the other
  components rely on is the locale \<open>vector\<close>, interpreted on this code at the end.
\<close>

section \<open>Capacity growth\<close>

text \<open>
  The loop of \<open>__arr_reserve\<close>: the capacity is shifted left until it reaches \<open>n\<close>; the
  assertion inside the loop fails when the shift has pushed out every bit. \<open>None\<close> is the
  failed assertion. The loop stops since every turn moves the lowest set bit up by one.
\<close>

definition lowest_bit :: "size_t \<Rightarrow> nat" where
  "lowest_bit c = (LEAST i. bit c i)"

lemma lowest_bit_props:
  assumes "c \<noteq> 0"
  shows "bit c (lowest_bit c)" and "lowest_bit c < 64"
proof -
  from assms obtain i where "bit c i" by (metis bit_word_eqI bit_0_eq bot_apply bot_bool_def)
  then show b: "bit c (lowest_bit c)" unfolding lowest_bit_def by (rule LeastI)
  then show "lowest_bit c < 64" using bit_imp_le_length [of c] by fastforce
qed

lemma lowest_bit_shift:
  fixes c :: size_t
  assumes "push_bit 1 c \<noteq> 0"
  shows "lowest_bit (push_bit 1 c) = Suc (lowest_bit c)"
proof -
  from assms have c0: "c \<noteq> 0" by auto
  let ?l = "lowest_bit (push_bit 1 c)"
  from lowest_bit_props(1) [OF assms] have b: "1 \<le> ?l" "bit c (?l - 1)"
    by (auto simp: bit_push_bit_iff simp del: push_bit_Suc push_bit_of_Suc_0)
  then have "lowest_bit c \<le> ?l - 1"
    unfolding lowest_bit_def [of c] by (auto intro: Least_le)
  moreover have "?l \<le> Suc (lowest_bit c)"
  proof (cases "Suc (lowest_bit c) < 64")
    case True
    then have "bit (push_bit 1 c) (Suc (lowest_bit c))"
      using lowest_bit_props(1) [OF c0]
      by (simp only: bit_push_bit_iff) simp
    then show ?thesis unfolding lowest_bit_def [of "push_bit 1 c"] by (rule Least_le)
  next
    case False
    then show ?thesis using lowest_bit_props(2) [OF assms] by simp
  qed
  ultimately show ?thesis using b(1) by linarith
qed

function grow_capacity :: "size_t \<Rightarrow> size_t \<Rightarrow> size_t option" where
  "grow_capacity n c =
     (if c < n
      then (let c' = push_bit 1 c in if 0 < c' then grow_capacity n c' else None)
      else Some c)"
  by pat_completeness auto
termination
proof (relation "measure (\<lambda>(n, c). 64 - lowest_bit c)")
  fix n c c' :: size_t
  assume "c' = push_bit 1 c" "0 < c'"
  then show "((n, c'), (n, c)) \<in> measure (\<lambda>(n, c). 64 - lowest_bit c)"
    using lowest_bit_shift [of c] lowest_bit_props(2) [of c'] by (auto simp: word_neq_0_conv)
qed auto

declare grow_capacity.simps [simp del]

section \<open>The array\<close>

text \<open>
  \<open>cells\<close> are the initialised cells \<open>data[0 .. length)\<close>; what lies between \<open>length\<close> and
  \<open>capacity\<close> is allocated and never read. \<open>realloc\<close> is the C library's: \<open>alloc\<close> tells
  for a byte count whether it succeeds, and a NULL result fails the assertion.
\<close>

record 'a arr =
  cells :: "'a list"
  len :: size_t
  cap :: size_t

definition arr_init :: "'a arr" where
  "arr_init = \<lparr>cells = [], len = 0, cap = 0\<rparr>"

definition arr_grow :: "(size_t \<Rightarrow> bool) \<Rightarrow> size_t \<Rightarrow> 'a arr \<Rightarrow> size_t \<Rightarrow> 'a arr option" where
  "arr_grow alloc stride a n =
     (case grow_capacity n (if cap a = 0 then 1 else cap a) of
        None \<Rightarrow> None
      | Some c \<Rightarrow> if alloc (c * stride) then Some (a\<lparr>cap := c\<rparr>) else None)"

definition arr_reserve :: "(size_t \<Rightarrow> bool) \<Rightarrow> size_t \<Rightarrow> 'a arr \<Rightarrow> size_t \<Rightarrow> 'a arr option" where
  "arr_reserve alloc stride a n = (if cap a < n then arr_grow alloc stride a n else Some a)"

definition arr_push :: "(size_t \<Rightarrow> bool) \<Rightarrow> size_t \<Rightarrow> 'a arr \<Rightarrow> 'a \<Rightarrow> 'a arr option" where
  "arr_push alloc stride a x =
     (case arr_reserve alloc stride a (len a + 1) of
        None \<Rightarrow> None
      | Some b \<Rightarrow> Some (b\<lparr>cells := take (unat (len b)) (cells b) @ [x], len := len b + 1\<rparr>))"

text \<open>\<open>arr_pop\<close> of an empty array reads \<open>data[SIZE_MAX]\<close>: \<open>None\<close>.\<close>

definition arr_pop :: "'a arr \<Rightarrow> ('a \<times> 'a arr) option" where
  "arr_pop a =
     (let i = len a - 1 in
      if unat i < length (cells a)
      then Some (cells a ! unat i, a\<lparr>cells := take (unat i) (cells a), len := i\<rparr>) else None)"

definition arr_append :: "(size_t \<Rightarrow> bool) \<Rightarrow> size_t \<Rightarrow> 'a arr \<Rightarrow> 'a list \<Rightarrow> 'a arr option" where
  "arr_append alloc stride a xs =
     (let n = word_of_nat (length xs) in
      case arr_reserve alloc stride a (len a + n) of
        None \<Rightarrow> None
      | Some b \<Rightarrow> Some (b\<lparr>cells := take (unat (len b)) (cells b) @ xs, len := len b + n\<rparr>))"

text \<open>
  \<open>arr_splice\<close> moves \<open>length - i - n\<close> cells down; the count is a \<open>size_t\<close>, so for
  \<open>length < i + n\<close> it wraps and \<open>memmove\<close> runs off the array: \<open>None\<close>.
\<close>

definition arr_splice :: "'a arr \<Rightarrow> size_t \<Rightarrow> size_t \<Rightarrow> 'a arr option" where
  "arr_splice a i n =
     (let moved = len a - i - n in
      if unat i + unat n + unat moved \<le> length (cells a)
      then Some (a\<lparr>cells := take (unat i) (cells a) @
                     take (unat moved) (drop (unat i + unat n) (cells a)), len := len a - n\<rparr>)
      else None)"

definition arr_clear :: "'a arr \<Rightarrow> 'a arr" where
  "arr_clear a = a\<lparr>cells := [], len := 0\<rparr>"

section \<open>Invariant\<close>

text \<open>
  The length field counts the cells and stays within the capacity, which is 0 or a power of
  two, as no capacity is ever set but by \<open>__arr_reserve\<close>.
\<close>

definition arr_inv :: "'a arr \<Rightarrow> bool" where
  "arr_inv a \<longleftrightarrow> unat (len a) = length (cells a) \<and> len a \<le> cap a \<and>
     (cap a = 0 \<or> (\<exists>k < 64. cap a = 2 ^ k))"

lemma unat_pow2: "k < 64 \<Longrightarrow> unat ((2 :: size_t) ^ k) = 2 ^ k"
  using unat_of_nat [of "2 ^ k", where ?'a = 64] power_strict_increasing [of k 64 "2 :: nat"]
  by simp

lemma shift_pow2: "push_bit 1 ((2 :: size_t) ^ k) = 2 ^ Suc k"
  by (simp add: push_bit_eq_mult)

text \<open>
  What the growth loop computes: from \<open>2 ^ k\<close> it reaches the least power of two from
  \<open>2 ^ k\<close> on that is at least \<open>n\<close>, and it aborts exactly when no such power fits.
\<close>

lemma grow_capacity_power:
  assumes "k < 64"
  shows "grow_capacity n (2 ^ k) =
    (if unat n \<le> 2 ^ 63 then Some (2 ^ (LEAST j. k \<le> j \<and> unat n \<le> 2 ^ j)) else None)"
  using assms
proof (induction "64 - k" arbitrary: k)
  case 0
  then show ?case by simp
next
  case (Suc d)
  note k = \<open>k < 64\<close>
  let ?P = "\<lambda>k j. k \<le> j \<and> unat n \<le> 2 ^ j"
  have lt: "((2::size_t) ^ k < n) = (2 ^ k < unat n)"
    using unat_pow2 [OF k] by (simp add: word_less_nat_alt)
  show ?case
  proof (cases "2 ^ k < unat n")
    case False
    have "(LEAST j. ?P k j) = k" using False by (intro Least_equality) auto
    moreover have "unat n \<le> 2 ^ 63"
      using False k power_increasing [of k 63 "2::nat"] by linarith
    ultimately show ?thesis using False lt by (subst grow_capacity.simps) simp
  next
    case True
    have Leq: "(LEAST j. ?P k j) = (LEAST j. ?P (Suc k) j)"
      using True by (metis (mono_tags, lifting) Suc_leD Suc_leI le_neq_implies_less not_le)
    show ?thesis
    proof (cases "Suc k < 64")
      case True': True
      from unat_pow2 [OF this] have "0 < (2::size_t) ^ Suc k"
        unfolding word_less_nat_alt by simp
      then have "grow_capacity n (2 ^ k) = grow_capacity n (2 ^ Suc k)"
        using True by (subst grow_capacity.simps) (simp only: lt Let_def shift_pow2 if_True)
      also have "\<dots> = (if unat n \<le> 2 ^ 63 then Some (2 ^ (LEAST j. ?P (Suc k) j)) else None)"
        by (rule Suc.hyps(1)) (use Suc.hyps(2) True' in auto)
      finally show ?thesis by (simp only: Leq)
    next
      case False
      with k have k63: "k = 63" by simp
      have "(2::size_t) ^ Suc 63 = 0" by simp
      then show ?thesis using True unfolding k63
        by (subst grow_capacity.simps) (simp only: lt [unfolded k63] Let_def shift_pow2, simp)
    qed
  qed
qed


lemma least_power_bound:
  assumes "unat n \<le> 2 ^ 63" and "k < 64"
  defines "j \<equiv> LEAST j. k \<le> j \<and> unat (n :: size_t) \<le> 2 ^ j"
  shows "j < 64" and "unat n \<le> 2 ^ j"
proof -
  from assms have "k \<le> 63 \<and> unat n \<le> 2 ^ 63" by simp
  then have "j \<le> 63" and p: "k \<le> j \<and> unat n \<le> 2 ^ j"
    unfolding j_def by (rule Least_le, rule LeastI)
  then show "j < 64" and "unat n \<le> 2 ^ j" by simp_all
qed

lemma grow_capacity_ok:
  assumes "grow_capacity n (2 ^ k) = Some c" and "k < 64"
  shows "n \<le> c \<and> (\<exists>j < 64. c = 2 ^ j)"
proof -
  let ?j = "LEAST j. k \<le> j \<and> unat n \<le> 2 ^ j"
  from assms have n: "unat n \<le> 2 ^ 63" and c: "c = 2 ^ ?j"
    by (auto simp: grow_capacity_power split: if_splits)
  from least_power_bound [OF n assms(2)] have "?j < 64" "unat n \<le> 2 ^ ?j" .
  then show ?thesis using c unat_pow2 by (auto simp: word_le_nat_alt)
qed

section \<open>The operations on the sequence of cells\<close>

lemma arr_reserve_ok:
  assumes "arr_inv a" and "arr_reserve alloc stride a n = Some b"
  shows "arr_inv b \<and> cells b = cells a \<and> len b = len a \<and> n \<le> cap b"
proof (cases "cap a < n")
  case False
  with assms show ?thesis by (auto simp: arr_reserve_def)
next
  case True
  let ?c0 = "if cap a = 0 then 1 else cap a"
  from True assms(2) obtain c where c: "grow_capacity n ?c0 = Some c" and b: "b = a\<lparr>cap := c\<rparr>"
    by (auto simp: arr_reserve_def arr_grow_def split: option.splits if_splits)
  from assms(1) obtain k where "k < 64" "?c0 = 2 ^ k"
    by (cases "cap a = 0") (auto simp: arr_inv_def intro: that [of 0])
  with c have "n \<le> c" "\<exists>j < 64. c = 2 ^ j" by (auto dest: grow_capacity_ok)
  moreover from \<open>n \<le> c\<close> True assms(1) have "len a \<le> c" by (auto simp: arr_inv_def)
  ultimately show ?thesis using assms(1) b by (auto simp: arr_inv_def)
qed

lemma arr_init_ok: "arr_inv arr_init \<and> cells arr_init = []"
  by (simp add: arr_init_def arr_inv_def)

lemma arr_append_ok:
  assumes inv: "arr_inv a" and fits: "length (cells a) + length xs < 2 ^ 64"
    and app: "arr_append alloc stride a xs = Some b"
  shows "arr_inv b \<and> cells b = cells a @ xs"
proof -
  let ?n = "word_of_nat (length xs) :: size_t"
  from app obtain c where r: "arr_reserve alloc stride a (len a + ?n) = Some c"
    and b: "b = c\<lparr>cells := take (unat (len c)) (cells c) @ xs, len := len c + ?n\<rparr>"
    by (auto simp: arr_append_def Let_def split: option.splits)
  from arr_reserve_ok [OF inv r] have c: "arr_inv c" "cells c = cells a" "len c = len a"
    "len a + ?n \<le> cap c" by auto
  have "unat ?n = length xs" using fits by (simp add: unat_of_nat_64)
  then have "unat (len a + ?n) = length (cells a) + length xs"
    using fits inv by (subst unat_plus_small) (auto simp: arr_inv_def)
  then show ?thesis using b c by (simp add: arr_inv_def)
qed

lemma arr_push_append: "arr_push alloc stride a x = arr_append alloc stride a [x]"
  by (simp add: arr_push_def arr_append_def)

lemma arr_push_ok:
  "\<lbrakk>arr_inv a; length (cells a) + 1 < 2 ^ 64; arr_push alloc stride a x = Some b\<rbrakk>
    \<Longrightarrow> arr_inv b \<and> cells b = cells a @ [x]"
  using arr_append_ok [of a "[x]"] by (simp add: arr_push_append)

lemma arr_pop_ok:
  assumes "arr_inv a" and "cells a \<noteq> []"
  shows "\<exists>b. arr_pop a = Some (last (cells a), b) \<and> arr_inv b \<and> cells b = butlast (cells a)"
proof -
  from assms have "1 \<le> len a"
    by (cases "len a = 0") (auto simp: arr_inv_def word_le_nat_alt unat_eq_zero Suc_le_eq)
  then have u: "unat (len a - 1) = length (cells a) - 1" "len a - 1 \<le> len a"
    using assms(1) by (simp_all add: unat_minus_small arr_inv_def word_le_nat_alt)
  show ?thesis
    using assms u by (auto simp: arr_pop_def Let_def arr_inv_def last_conv_nth butlast_conv_take)
qed

lemma arr_splice_ok:
  assumes inv: "arr_inv a" and fits: "unat i + unat n \<le> length (cells a)"
  shows "\<exists>b. arr_splice a i n = Some b \<and> arr_inv b \<and>
    cells b = splice_out (cells a) (unat i) (unat n)"
proof -
  from inv fits have le: "i \<le> len a" "n \<le> len a - i" "n \<le> len a"
    by (auto simp: arr_inv_def word_le_nat_alt unat_minus_small)
  then have u: "unat (len a - i - n) = length (cells a) - unat i - unat n"
    "unat (len a - n) = length (cells a) - unat n"
    using inv by (simp_all add: unat_minus_small arr_inv_def)
  have "len a - n \<le> cap a"
    using le(3) inv by (metis arr_inv_def order_trans word_sub_le)
  then show ?thesis
    using inv fits u by (auto simp: arr_splice_def Let_def splice_out_def arr_inv_def)
qed

lemma arr_clear_ok: "arr_inv a \<Longrightarrow> arr_inv (arr_clear a) \<and> cells (arr_clear a) = []"
  by (auto simp: arr_clear_def arr_inv_def)

section \<open>The interface of the other components\<close>

text \<open>
  What a user of the array relies on: a sequence that \<open>push\<close> extends at its end and
  \<open>splice\<close> shortens, as long as it stays below \<open>bound\<close> elements.
\<close>

locale vector =
  fixes inv :: "'v \<Rightarrow> bool"
    and view :: "'v \<Rightarrow> 'a list"
    and bound :: nat
    and empty :: 'v
    and push :: "'v \<Rightarrow> 'a \<Rightarrow> 'v option"
    and splice :: "'v \<Rightarrow> nat \<Rightarrow> nat \<Rightarrow> 'v option"
  assumes empty: "inv empty" "view empty = []"
    and push: "\<lbrakk>inv v; length (view v) < bound; push v x = Some w\<rbrakk> \<Longrightarrow> inv w \<and> view w = view v @ [x]"
    and splice: "\<lbrakk>inv v; length (view v) \<le> bound; i + n \<le> length (view v)\<rbrakk> \<Longrightarrow>
      \<exists>w. splice v i n = Some w \<and> inv w \<and> view w = splice_out (view v) i n"
begin

lemma push_all:
  "\<lbrakk>inv v; length (view v) + length xs \<le> bound; fold_opt (\<lambda>x v. push v x) xs v = Some w\<rbrakk>
    \<Longrightarrow> inv w \<and> view w = view v @ xs"
proof (induction xs arbitrary: v)
  case (Cons x xs)
  from Cons.prems(3) obtain u where u: "push v x = Some u"
    and rest: "fold_opt (\<lambda>x v. push v x) xs u = Some w" by (auto split: option.splits)
  from push [OF Cons.prems(1) _ u] Cons.prems(2) have "inv u" "view u = view v @ [x]" by auto
  with Cons.IH [OF _ _ rest] Cons.prems(2) show ?case by simp
qed simp

lemma push_all_from_empty:
  "\<lbrakk>length xs \<le> bound; fold_opt (\<lambda>x v. push v x) xs empty = Some w\<rbrakk> \<Longrightarrow> inv w \<and> view w = xs"
  using push_all [OF empty(1)] empty(2) by simp

lemma splice_one:
  assumes "inv v" and "length (view v) \<le> bound" and "view v = xs @ y # ys"
  shows "\<exists>w. splice v (length xs) 1 = Some w \<and> inv w \<and> view w = xs @ ys"
  using splice [OF assms(1,2), of "length xs" 1] assms(3) by simp

end

text \<open>With memory to spare the pushes all succeed.\<close>

locale vector_total = vector +
  assumes push_succeeds: "\<lbrakk>inv v; length (view v) < bound\<rbrakk> \<Longrightarrow> \<exists>w. push v x = Some w"
begin

lemma push_all_succeeds:
  "\<lbrakk>inv v; length (view v) + length xs \<le> bound\<rbrakk>
    \<Longrightarrow> \<exists>w. fold_opt (\<lambda>x v. push v x) xs v = Some w \<and> inv w \<and> view w = view v @ xs"
proof (induction xs arbitrary: v)
  case (Cons x xs)
  then obtain u where u: "push v x = Some u" using push_succeeds [of v x] by auto
  from push [OF Cons.prems(1) _ u] Cons.prems(2) have "inv u" "view u = view v @ [x]" by auto
  with Cons.IH [of u] Cons.prems(2) u show ?case by auto
qed simp

end

interpretation arr_vec: vector arr_inv cells "2 ^ 64 - 1" arr_init "arr_push alloc stride"
  "\<lambda>a i n. arr_splice a (word_of_nat i) (word_of_nat n)" for alloc stride
proof unfold_locales
  fix v w :: "'a arr" and x :: 'a
  assume "arr_inv v" "length (cells v) < 2 ^ 64 - 1" "arr_push alloc stride v x = Some w"
  then show "arr_inv w \<and> cells w = cells v @ [x]" by (intro arr_push_ok) auto
next
  fix v :: "'a arr" and i n :: nat
  assume "arr_inv v" "length (cells v) \<le> 2 ^ 64 - 1" "i + n \<le> length (cells v)"
  then show "\<exists>w. arr_splice v (word_of_nat i) (word_of_nat n) = Some w \<and> arr_inv w \<and>
      cells w = splice_out (cells v) i n"
    using arr_splice_ok [of v "word_of_nat i" "word_of_nat n"] by (simp add: unat_of_nat_64)
qed (simp_all add: arr_init_ok)

text \<open>Up to \<open>2 ^ 63\<close> elements the doubling never wraps, so only \<open>realloc\<close> could fail.\<close>

lemma arr_push_succeeds:
  assumes "arr_inv a" and "length (cells a) < 2 ^ 63"
  shows "\<exists>b. arr_push (\<lambda>_. True) stride a x = Some b"
proof -
  let ?c0 = "if cap a = 0 then 1 else cap a"
  from assms(1) obtain k where k: "k < 64" "?c0 = 2 ^ k"
    by (cases "cap a = 0") (auto simp: arr_inv_def intro: that [of 0])
  have "unat (len a + 1) \<le> 2 ^ 63"
    using assms by (subst unat_plus_small) (auto simp: arr_inv_def)
  then have "grow_capacity (len a + 1) ?c0 \<noteq> None"
    unfolding k(2) by (simp add: grow_capacity_power [OF k(1)])
  then show ?thesis by (auto simp: arr_push_def arr_reserve_def arr_grow_def)
qed

interpretation arr_vec_total: vector_total arr_inv cells "2 ^ 63" arr_init
  "arr_push (\<lambda>_. True) stride" "\<lambda>a i n. arr_splice a (word_of_nat i) (word_of_nat n)" for stride
proof unfold_locales
  fix v w :: "'a arr" and x :: 'a
  assume "arr_inv v" "length (cells v) < 2 ^ 63" "arr_push (\<lambda>_. True) stride v x = Some w"
  then show "arr_inv w \<and> cells w = cells v @ [x]" by (intro arr_vec.push) auto
next
  fix v :: "'a arr" and i n :: nat
  assume "arr_inv v" "length (cells v) \<le> 2 ^ 63" "i + n \<le> length (cells v)"
  then show "\<exists>w. arr_splice v (word_of_nat i) (word_of_nat n) = Some w \<and> arr_inv w \<and>
      cells w = splice_out (cells v) i n"
    by (intro arr_vec.splice) auto
qed (simp_all add: arr_init_ok arr_push_succeeds)

end
