(* ===== verification/Jobs.thy ===== *)
theory Jobs
  imports Dyn_Array
begin

text \<open>
  The job scheduler of \<^verbatim>\<open>src/jobs.c\<close>: an array of jobs, each a function pointer with its
  data, run in order at every tick and removed when its function returns false. A job is user
  code, so what calling it does is a parameter: it may change anything, the scheduler's own
  array included, which is how a job that adds or stops jobs is expressed.
\<close>

section \<open>State and operations\<close>

record ('f, 'd) job =
  work :: 'f
  data :: 'd

type_synonym ('f, 'd) jobs = "('f, 'd) job arr"

text \<open>\<open>sizeof (job)\<close>: two pointers.\<close>

definition sizeof_job :: size_t where
  "sizeof_job = 16"

definition scheduler_init :: "('f, 'd) jobs" where
  "scheduler_init = arr_init"

definition scheduler_add ::
  "(size_t \<Rightarrow> bool) \<Rightarrow> ('f, 'd) jobs \<Rightarrow> 'd \<Rightarrow> 'f \<Rightarrow> ('f, 'd) jobs option" where
  "scheduler_add alloc s d w = arr_push alloc sizeof_job s \<lparr>work = w, data = d\<rparr>"

definition scheduler_remove_all :: "('f, 'd) jobs \<Rightarrow> ('f, 'd) jobs" where
  "scheduler_remove_all s = arr_clear s"

text \<open>
  \<open>scheduler_stop\<close> removes the first job with the same function and data. The loop over the
  indices is a recursion on what is left of the array; \<open>i\<close> is the index it has reached.
\<close>

fun scheduler_stop_from ::
  "('f, 'd) job list \<Rightarrow> size_t \<Rightarrow> ('f, 'd) jobs \<Rightarrow> ('f, 'd) job \<Rightarrow> ('f, 'd) jobs option" where
  "scheduler_stop_from [] i s j = Some s"
| "scheduler_stop_from (k # ks) i s j =
     (if data k = data j \<and> work k = work j then arr_splice s i 1
      else scheduler_stop_from ks (i + 1) s j)"

definition scheduler_stop :: "('f, 'd) jobs \<Rightarrow> ('f, 'd) job \<Rightarrow> ('f, 'd) jobs option" where
  "scheduler_stop s j = scheduler_stop_from (cells s) 0 s j"

text \<open>
  \<open>scheduler_tick\<close>. \<open>call f d\<close> is the effect of calling function pointer \<open>f\<close> on \<open>d\<close>:
  from the array and the rest of the world to the returned bool and the new array and world.
  The loop re-reads the length at every turn and need not end, as a job may keep adding jobs:
  the outer \<open>None\<close> is a loop that does not end. \<open>Inl ()\<close> is a splice out of bounds.
\<close>

type_synonym ('f, 'd, 'w) callbacks =
  "'f \<Rightarrow> 'd \<Rightarrow> ('f, 'd) jobs \<times> 'w \<Rightarrow> bool \<times> ('f, 'd) jobs \<times> 'w"

partial_function (option) scheduler_tick_from ::
  "('f, 'd, 'w) callbacks \<Rightarrow> size_t \<Rightarrow> ('f, 'd) jobs \<times> 'w \<Rightarrow> (unit + ('f, 'd) jobs \<times> 'w) option" where
  "scheduler_tick_from call i st =
     (if i < len (fst st)
      then (case call (work (cells (fst st) ! unat i)) (data (cells (fst st) ! unat i)) st of
              (keep, st') \<Rightarrow>
                if keep then scheduler_tick_from call (i + 1) st'
                else (case arr_splice (fst st') i 1 of
                        None \<Rightarrow> Some (Inl ())
                      | Some s \<Rightarrow> scheduler_tick_from call i (s, snd st')))
      else Some (Inr st))"

definition scheduler_tick ::
  "('f, 'd, 'w) callbacks \<Rightarrow> ('f, 'd) jobs \<times> 'w \<Rightarrow> (unit + ('f, 'd) jobs \<times> 'w) option" where
  "scheduler_tick call st = scheduler_tick_from call 0 st"

section \<open>What a tick computes\<close>

text \<open>
  Jobs that leave the scheduler alone: \<open>step f d\<close> only changes the world. The abstract tick
  runs through the jobs once, threading the world, and keeps those that returned true.
\<close>

definition plain_call :: "('f \<Rightarrow> 'd \<Rightarrow> 'w \<Rightarrow> bool \<times> 'w) \<Rightarrow> ('f, 'd, 'w) callbacks" where
  "plain_call step f d st = (case step f d (snd st) of (keep, w) \<Rightarrow> (keep, fst st, w))"

lemma plain_call_apply [simp]:
  "plain_call step f d (s, w) = (case step f d w of (keep, w') \<Rightarrow> (keep, s, w'))"
  by (simp add: plain_call_def)

fun run_jobs ::
  "('f \<Rightarrow> 'd \<Rightarrow> 'w \<Rightarrow> bool \<times> 'w) \<Rightarrow> ('f, 'd) job list \<Rightarrow> 'w \<Rightarrow> ('f, 'd) job list \<times> 'w" where
  "run_jobs step [] w = ([], w)"
| "run_jobs step (j # js) w =
     (case step (work j) (data j) w of (keep, w') \<Rightarrow>
        (case run_jobs step js w' of (ks, w'') \<Rightarrow> (if keep then j # ks else ks, w'')))"

lemma scheduler_tick_from_run:
  assumes "arr_inv s" and "cells s = done @ js" and "unat i = length done"
  shows "\<exists>t. scheduler_tick_from (plain_call step) i (s, w) =
               Some (Inr (t, snd (run_jobs step js w))) \<and> arr_inv t \<and>
             cells t = done @ fst (run_jobs step js w)"
  using assms
proof (induction js arbitrary: "done" i s w)
  case Nil
  then have "\<not> i < len s" by (simp add: arr_inv_def word_less_nat_alt)
  with Nil show ?case by (subst scheduler_tick_from.simps) simp
next
  case (Cons j js)
  from Cons.prems have ilt: "i < len s" and ij: "cells s ! unat i = j"
    by (simp_all add: arr_inv_def word_less_nat_alt)
  obtain keep w' where st: "step (work j) (data j) w = (keep, w')" by fastforce
  show ?case
  proof (cases keep)
    case True
    have "unat (i + 1) = length (done @ [j])"
      using Cons.prems ilt unat_less_2_64 [of "len s"]
      by (subst unat_plus_small) (auto simp: word_less_nat_alt arr_inv_def)
    from Cons.IH [OF Cons.prems(1) _ this, of w'] Cons.prems(2) show ?thesis
      using True st ilt ij
      by (subst scheduler_tick_from.simps) (auto split: prod.splits)
  next
    case False
    from arr_splice_ok [OF Cons.prems(1), of i 1] Cons.prems(2,3)
    obtain u where u: "arr_splice s i 1 = Some u" "arr_inv u" "cells u = done @ js"
      by auto
    from Cons.IH [OF u(2,3) Cons.prems(3), of w'] show ?thesis
      using False st ilt ij u(1)
      by (subst scheduler_tick_from.simps) (auto split: prod.splits)
  qed
qed

lemma scheduler_stop_from_remove:
  assumes "arr_inv s" and "cells s = done @ js" and "unat i = length done"
  shows "\<exists>t. scheduler_stop_from js i s j = Some t \<and> arr_inv t \<and>
           cells t = done @ remove_first (\<lambda>k. k = j) js"
  using assms
proof (induction js arbitrary: "done" i)
  case Nil
  then show ?case by simp
next
  case (Cons k js)
  have same: "data k = data j \<and> work k = work j \<longleftrightarrow> k = j" by (metis job.equality unit.exhaust)
  show ?case
  proof (cases "k = j")
    case True
    from arr_splice_ok [OF Cons.prems(1), of i 1] Cons.prems(2,3) True show ?thesis by auto
  next
    case False
    have "unat (i + 1) = length (done @ [k])"
      using Cons.prems unat_less_2_64 [of "len s"]
      by (subst unat_plus_small) (auto simp: arr_inv_def)
    from Cons.IH [OF Cons.prems(1) _ this] Cons.prems(2) False show ?thesis by (simp add: same)
  qed
qed

section \<open>Properties\<close>

text \<open>
  C36. A tick over jobs that leave the scheduler alone returns, calls every job exactly once in
  the order they were added, threading the world from one to the next, and keeps exactly the
  jobs that returned true, in their order.
\<close>

theorem scheduler_tick_runs_each_job_once:
  assumes "arr_inv s"
  shows "\<exists>t. scheduler_tick (plain_call step) (s, w) = Some (Inr (t, snd (run_jobs step (cells s) w))) \<and>
    arr_inv t \<and> cells t = fst (run_jobs step (cells s) w)"
  using scheduler_tick_from_run [of s "[]" "cells s" 0 step w] assms
  by (simp add: scheduler_tick_def)

theorem scheduler_tick_runs_each_job_once_witness:
  "\<exists>t. scheduler_tick (plain_call (\<lambda>f d w. (f < d, w @ [d])))
        (\<lparr>cells = [\<lparr>work = 1, data = 2\<rparr>, \<lparr>work = 5, data = 3\<rparr>, \<lparr>work = 0, data = (4::nat)\<rparr>],
           len = 3, cap = 4\<rparr>, []) = Some (Inr (t, [2, 3, 4])) \<and>
     arr_inv t \<and> cells t = [\<lparr>work = 1, data = 2\<rparr>, \<lparr>work = 0, data = 4\<rparr>]"
proof -
  let ?s = "\<lparr>cells = [\<lparr>work = 1, data = 2\<rparr>, \<lparr>work = 5, data = 3\<rparr>, \<lparr>work = 0, data = (4::nat)\<rparr>],
    len = 3, cap = 4\<rparr>"
  have "arr_inv ?s" unfolding arr_inv_def
    by (auto intro!: exI [of _ 2] simp: word_le_nat_alt)
  from scheduler_tick_runs_each_job_once [OF this, of "\<lambda>f d w. (f < d, w @ [d])" "[]"]
  show ?thesis by simp
qed

text \<open>
  Stopping a job removes its first occurrence, compared by function and data, leaves the
  order of the others and never splices out of bounds; a job that is not there changes nothing.
\<close>

theorem scheduler_stop_removes_first:
  assumes "arr_inv s"
  shows "\<exists>t. scheduler_stop s j = Some t \<and> arr_inv t \<and> cells t = remove1 j (cells s)"
  using scheduler_stop_from_remove [of s "[]" "cells s" 0 j] assms
  by (simp add: scheduler_stop_def remove_first_eq_remove1)

theorem scheduler_stop_removes_first_witness:
  "\<exists>t. scheduler_stop \<lparr>cells = [\<lparr>work = 1, data = 2\<rparr>, \<lparr>work = 5, data = (3::nat)\<rparr>], len = 2, cap = 2\<rparr>
      \<lparr>work = 5, data = 3\<rparr> = Some t \<and> arr_inv t \<and> cells t = [\<lparr>work = (1::nat), data = 2\<rparr>]"
proof -
  let ?s = "\<lparr>cells = [\<lparr>work = 1, data = 2\<rparr>, \<lparr>work = (5::nat), data = (3::nat)\<rparr>], len = 2, cap = 2\<rparr>"
  have "arr_inv ?s" unfolding arr_inv_def
    by (auto intro!: exI [of _ 1])
  from scheduler_stop_removes_first [OF this, of "\<lparr>work = 5, data = 3\<rparr>"]
  show ?thesis by simp
qed

text \<open>
  A job that touches the scheduler from its own callback is another matter. Job 1 stops the
  earlier job 0 and finishes: the array has shifted under the loop, so the splice of the tick
  removes job 2, which has not run, while job 1 stays.
\<close>

definition stop_earlier :: "(nat, nat, nat list) callbacks" where
  "stop_earlier f d st =
     (if f = 1 then (False, the (scheduler_stop (fst st) \<lparr>work = 0, data = 0\<rparr>), snd st @ [f])
      else (True, fst st, snd st @ [f]))"

lemma stop_earlier_drops_unrun_job:
  "scheduler_tick stop_earlier
     (\<lparr>cells = [\<lparr>work = 0, data = 0\<rparr>, \<lparr>work = 1, data = 0\<rparr>, \<lparr>work = 2, data = 0\<rparr>],
        len = 3, cap = 4\<rparr>, []) =
   Some (Inr (\<lparr>cells = [\<lparr>work = 1, data = 0\<rparr>], len = 1, cap = 4\<rparr>, [0, 1]))"
  by (simp add: scheduler_tick_def scheduler_tick_from.simps stop_earlier_def scheduler_stop_def
      arr_splice_def)

end
