(* ===== verification/Sha1.thy ===== *)
theory Sha1
  imports Sha256
begin

text \<open>
  The SHA-1 of \<^verbatim>\<open>src/sha1.c\<close> on a little-endian host, with \<open>SHA1HANDSOFF\<close> as the file defines it, and the
  identifier that \<^verbatim>\<open>src/asset.c\<close> would make with it. \<open>None\<close> is an access outside an array, or a loop
  that does not end.
\<close>

section \<open>Macros\<close>

definition rol :: "u32 \<Rightarrow> nat \<Rightarrow> u32" where
  "rol x n = push_bit n x OR drop_bit (32 - n) x"

text \<open>The macros \<open>blk0\<close> and \<open>blk\<close> assign to the block; they give the word and the block after it.\<close>

definition blk0 :: "u32 list \<Rightarrow> nat \<Rightarrow> u32 \<times> u32 list" where
  "blk0 block i =
     (let w = (rol (block ! i) 24 AND 0xFF00FF00) OR (rol (block ! i) 8 AND 0x00FF00FF) in (w, block[i := w]))"

definition blk :: "u32 list \<Rightarrow> nat \<Rightarrow> u32 \<times> u32 list" where
  "blk block i =
     (let w = rol (block ! ((i + 13) mod 16) XOR block ! ((i + 8) mod 16) XOR block ! ((i + 2) mod 16) XOR block ! (i mod 16)) 1
      in (w, block[i mod 16 := w]))"

text \<open>
  The macros take the five variables in an order that moves on by one with each call: the first of one
  call is the second of the next. So a call on \<open>(v, w, x, y, z)\<close> gives the variables in the order of
  the next call.
\<close>

type_synonym sha1_chain = "u32 \<times> u32 \<times> u32 \<times> u32 \<times> u32"

fun R0 :: "nat \<Rightarrow> sha1_chain \<times> u32 list \<Rightarrow> sha1_chain \<times> u32 list" where
  "R0 i ((v, w, x, y, z), block) =
     (case blk0 block i of (l, block') \<Rightarrow>
        ((z + (((w AND (x XOR y)) XOR y) + l + 0x5A827999 + rol v 5), v, rol w 30, x, y), block'))"

fun R1 :: "nat \<Rightarrow> sha1_chain \<times> u32 list \<Rightarrow> sha1_chain \<times> u32 list" where
  "R1 i ((v, w, x, y, z), block) =
     (case blk block i of (l, block') \<Rightarrow>
        ((z + (((w AND (x XOR y)) XOR y) + l + 0x5A827999 + rol v 5), v, rol w 30, x, y), block'))"

fun R2 :: "nat \<Rightarrow> sha1_chain \<times> u32 list \<Rightarrow> sha1_chain \<times> u32 list" where
  "R2 i ((v, w, x, y, z), block) =
     (case blk block i of (l, block') \<Rightarrow>
        ((z + ((w XOR x XOR y) + l + 0x6ED9EBA1 + rol v 5), v, rol w 30, x, y), block'))"

fun R3 :: "nat \<Rightarrow> sha1_chain \<times> u32 list \<Rightarrow> sha1_chain \<times> u32 list" where
  "R3 i ((v, w, x, y, z), block) =
     (case blk block i of (l, block') \<Rightarrow>
        ((z + ((((w OR x) AND y) OR (w AND x)) + l + 0x8F1BBCDC + rol v 5), v, rol w 30, x, y), block'))"

fun R4 :: "nat \<Rightarrow> sha1_chain \<times> u32 list \<Rightarrow> sha1_chain \<times> u32 list" where
  "R4 i ((v, w, x, y, z), block) =
     (case blk block i of (l, block') \<Rightarrow>
        ((z + ((w XOR x XOR y) + l + 0xCA62C1D6 + rol v 5), v, rol w 30, x, y), block'))"

section \<open>One block\<close>

fun sha1_add :: "sha1_chain \<Rightarrow> sha1_chain \<Rightarrow> sha1_chain" where
  "sha1_add (a, b, c, d, e) (a', b', c', d', e') = (a + a', b + b', c + c', d + d', e + e')"

text \<open>The eighty calls, after which the variables are in their first order again.\<close>

definition SHA1Transform :: "sha1_chain \<Rightarrow> u8 list \<Rightarrow> sha1_chain" where
  "SHA1Transform state buffer =
     (let s16 = fold R0 [0 ..< 16] (state, buffer_words buffer);
          s20 = fold R1 [16 ..< 20] s16;
          s40 = fold R2 [20 ..< 40] s20;
          s60 = fold R3 [40 ..< 60] s40;
          s80 = fold R4 [60 ..< 80] s60
      in sha1_add state (fst s80))"

section \<open>The context\<close>

record sha1_ctx =
  sha1_state :: sha1_chain
  count0 :: u32
  count1 :: u32
  sha1_buffer :: "u8 list"

definition sha1_H0 :: sha1_chain where
  "sha1_H0 = (0x67452301, 0xEFCDAB89, 0x98BADCFE, 0x10325476, 0xC3D2E1F0)"

definition SHA1Init :: "u8 list \<Rightarrow> sha1_ctx" where
  "SHA1Init mem = \<lparr>sha1_state = sha1_H0, count0 = 0, count1 = 0, sha1_buffer = mem\<rparr>"

text \<open>The loop over the whole blocks of the data from \<open>i\<close> on, and where it stops.\<close>

partial_function (option) transform_blocks :: "sha1_chain \<Rightarrow> u8 list \<Rightarrow> u32 \<Rightarrow> u32 \<Rightarrow> (sha1_chain \<times> u32) option" where
  "transform_blocks state data i len =
     (if i + 63 < len
      then (if unat i + 64 \<le> length data
            then transform_blocks (SHA1Transform state (take 64 (drop (unat i) data))) data (i + 64) len
            else None)
      else Some (state, i))"

text \<open>\<open>memcpy (&buffer[j], &data[i], n)\<close> on a buffer of 64 bytes.\<close>

definition copy_to_buffer :: "u8 list \<Rightarrow> nat \<Rightarrow> u8 list \<Rightarrow> nat \<Rightarrow> nat \<Rightarrow> u8 list option" where
  "copy_to_buffer buffer j data i n =
     (if j + n \<le> 64 \<and> i + n \<le> length data then Some (blit buffer j (take n (drop i data))) else None)"

definition SHA1Update :: "sha1_ctx \<Rightarrow> u8 list \<Rightarrow> u32 \<Rightarrow> sha1_ctx option" where
  "SHA1Update ctx data len =
     (let c0 = count0 ctx + push_bit 3 len;
          c1 = (if c0 < count0 ctx then count1 ctx + 1 else count1 ctx) + drop_bit 29 len;
          j = drop_bit 3 (count0 ctx) AND 63;
          filled = (if j + len > 63
            then (case copy_to_buffer (sha1_buffer ctx) (unat j) data 0 (unat (64 - j)) of
                    None \<Rightarrow> None
                  | Some buf \<Rightarrow>
                      map_option (\<lambda>(state, i). (state, buf, 0, i))
                        (transform_blocks (SHA1Transform (sha1_state ctx) buf) data (64 - j) len))
            else Some (sha1_state ctx, sha1_buffer ctx, j, 0))
      in case filled of
           None \<Rightarrow> None
         | Some (state, buf, j', i) \<Rightarrow>
             map_option (\<lambda>buf'. \<lparr>sha1_state = state, count0 = c0, count1 = c1, sha1_buffer = buf'\<rparr>)
               (copy_to_buffer buf (unat j') data (unat i) (unat (len - i))))"

section \<open>The digest\<close>

partial_function (option) pad_zeros :: "sha1_ctx \<Rightarrow> sha1_ctx option" where
  "pad_zeros ctx =
     (if count0 ctx AND 504 \<noteq> 448
      then (case SHA1Update ctx [0] 1 of None \<Rightarrow> None | Some ctx' \<Rightarrow> pad_zeros ctx')
      else Some ctx)"

definition sha1_bytes :: "sha1_chain \<Rightarrow> u8 list" where
  "sha1_bytes hs = (case hs of (a, b, c, d, e) \<Rightarrow> concat (map be32 [a, b, c, d, e]))"

definition SHA1Final :: "sha1_ctx \<Rightarrow> u8 list option" where
  "SHA1Final ctx =
     (let finalcount = be32 (count1 ctx) @ be32 (count0 ctx)
      in case SHA1Update ctx [0x80] 1 of
           None \<Rightarrow> None
         | Some ctx1 \<Rightarrow>
             (case pad_zeros ctx1 of
                None \<Rightarrow> None
              | Some ctx2 \<Rightarrow> map_option (\<lambda>ctx3. sha1_bytes (sha1_state ctx3)) (SHA1Update ctx2 finalcount 8)))"

text \<open>
  \<open>SHA1\<close> into memory of \<open>room\<close> bytes: the digest and a terminator behind it. \<open>len\<close> is an \<open>int\<close>, so a
  negative one hashes nothing.
\<close>

fun SHA1_loop :: "u8 list \<Rightarrow> sha1_ctx \<Rightarrow> sha1_ctx option" where
  "SHA1_loop [] ctx = Some ctx"
| "SHA1_loop (b # bs) ctx = (case SHA1Update ctx [b] 1 of None \<Rightarrow> None | Some ctx' \<Rightarrow> SHA1_loop bs ctx')"

definition SHA1 :: "u8 list \<Rightarrow> nat \<Rightarrow> u8 list \<Rightarrow> u32 \<Rightarrow> u8 list option" where
  "SHA1 mem room str len =
     (if int (length str) < sint len then None
      else case SHA1_loop (take (nat (sint len)) str) (SHA1Init mem) of
             None \<Rightarrow> None
           | Some ctx \<Rightarrow>
               (case SHA1Final ctx of
                  None \<Rightarrow> None
                | Some digest \<Rightarrow> if room < 21 then None else Some (digest @ [0])))"

text \<open>
  \<open>_asset_generate_identifier_sha1\<close>: it hashes into 20 bytes; \<open>%02x\<close> of a \<open>char\<close> prints a negative one
  with its sign extended, and the text is cut at the size of the buffer.
\<close>

definition hex_char :: "u8 \<Rightarrow> string" where
  "hex_char x = (if bit x 7 then ''ffffff'' else []) @ hex_byte x"

definition identifier_text :: "u8 list \<Rightarrow> string" where
  "identifier_text sha = take (11 + 20 * 2) (''asset:sha1:'' @ concat (map hex_char sha))"

definition asset_generate_identifier_sha1 :: "u8 list \<Rightarrow> u8 list \<Rightarrow> size_t \<Rightarrow> string option" where
  "asset_generate_identifier_sha1 mem data sz =
     map_option (\<lambda>sha. identifier_text (take 20 sha)) (SHA1 mem 20 data (ucast sz))"

end
