(* ===== verification/Sha256_Correct.thy ===== *)
theory Sha256_Correct
  imports Sha256
begin

text \<open>
  SHA-256 as the Secure Hash Standard states it (functions, message schedule, padding, block
  iteration), and the proof that \<^verbatim>\<open>sha256.c\<close> computes it: first block by block, then for
  the incremental interface, whatever the lengths of the pieces the message arrives in.
\<close>

section \<open>The standard\<close>

definition rotr :: "nat \<Rightarrow> u32 \<Rightarrow> u32" where
  "rotr n x = word_rotr n x"

definition ch :: "u32 \<Rightarrow> u32 \<Rightarrow> u32 \<Rightarrow> u32" where
  "ch x y z = (x AND y) XOR (NOT x AND z)"

definition maj :: "u32 \<Rightarrow> u32 \<Rightarrow> u32 \<Rightarrow> u32" where
  "maj x y z = (x AND y) XOR (x AND z) XOR (y AND z)"

definition big_sigma0 :: "u32 \<Rightarrow> u32" where
  "big_sigma0 x = rotr 2 x XOR rotr 13 x XOR rotr 22 x"

definition big_sigma1 :: "u32 \<Rightarrow> u32" where
  "big_sigma1 x = rotr 6 x XOR rotr 11 x XOR rotr 25 x"

definition small_sigma0 :: "u32 \<Rightarrow> u32" where
  "small_sigma0 x = rotr 7 x XOR rotr 18 x XOR drop_bit 3 x"

definition small_sigma1 :: "u32 \<Rightarrow> u32" where
  "small_sigma1 x = rotr 17 x XOR rotr 19 x XOR drop_bit 10 x"

text \<open>Word \<open>t\<close> of a message block, the block's bytes read big-endian, and of its schedule.\<close>

definition message_word :: "u8 list \<Rightarrow> nat \<Rightarrow> u32" where
  "message_word m t = be32_get (m ! (4 * t)) (m ! (4 * t + 1)) (m ! (4 * t + 2)) (m ! (4 * t + 3))"

fun schedule_word :: "u8 list \<Rightarrow> nat \<Rightarrow> u32" where
  "schedule_word m t =
     (if t < 16 then message_word m t
      else small_sigma1 (schedule_word m (t - 2)) + schedule_word m (t - 7)
         + small_sigma0 (schedule_word m (t - 15)) + schedule_word m (t - 16))"

declare schedule_word.simps [simp del]

fun round_step :: "u8 list \<Rightarrow> chain \<Rightarrow> nat \<Rightarrow> chain" where
  "round_step m (a, b, c, d, e, f, g, h) t =
     (let t1 = h + big_sigma1 e + ch e f g + K ! t + schedule_word m t;
          t2 = big_sigma0 a + maj a b c
      in (t1 + t2, a, b, c, d + t1, e, f, g))"

definition compress :: "chain \<Rightarrow> u8 list \<Rightarrow> chain" where
  "compress hs m = chain_add hs (foldl (round_step m) hs [0 ..< 64])"

text \<open>The 64-byte blocks of a message; a shorter rest is left out.\<close>

fun blocks :: "'a list \<Rightarrow> 'a list list" where
  "blocks m = (if length m < 64 then [] else take 64 m # blocks (drop 64 m))"

declare blocks.simps [simp del]

definition be64 :: "u64 \<Rightarrow> u8 list" where
  "be64 x = map (\<lambda>i. ucast (drop_bit (56 - 8 * i) x)) [0 ..< 8]"

text \<open>One bit 1, zeros up to 8 bytes below a block boundary, the length in bits.\<close>

definition pad :: "u8 list \<Rightarrow> u8 list" where
  "pad m = m @ [0x80] @ replicate ((119 - length m mod 64) mod 64) 0
             @ be64 (word_of_nat (8 * length m))"

definition sha256 :: "u8 list \<Rightarrow> u8 list" where
  "sha256 m = hash_bytes (foldl compress H0 (blocks (pad m)))"

section \<open>The macros compute the functions of the standard\<close>

lemma ROTR_rotr:
  assumes "n < 32"
  shows "ROTR x n = rotr n x"
proof (rule bit_word_eqI)
  fix i assume "i < LENGTH(32)"
  then have i: "i < 32" by simp
  have r: "bit (rotr n x) i \<longleftrightarrow> bit x ((i + n) mod 32)"
    using i by (simp add: rotr_def bit_word_rotr_iff)
  have l: "bit (ROTR x n) i \<longleftrightarrow> bit x (n + i) \<or> 32 - n \<le> i \<and> bit x (i - (32 - n))"
    using i by (simp add: ROTR_def bit_simps)
  show "bit (ROTR x n) i \<longleftrightarrow> bit (rotr n x) i"
  proof (cases "i + n < 32")
    case True
    then have "(i + n) mod 32 = n + i" "\<not> 32 - n \<le> i" by auto
    then show ?thesis unfolding r l by (simp add: add.commute)
  next
    case False
    then have "(i + n) mod 32 = i - (32 - n)" "\<not> bit x (n + i)" "32 - n \<le> i"
      using i assms by (auto simp: le_mod_geq dest: bit_imp_le_length)
    with False show ?thesis unfolding r l by simp
  qed
qed

lemma Ch_ch: "Ch x y z = ch x y z"
  unfolding Ch_def ch_def by (rule bit_word_eqI) (auto simp: bit_simps)

lemma Maj_maj: "Maj x y z = maj x y z"
  unfolding Maj_def maj_def by (rule bit_word_eqI) (auto simp: bit_simps)

lemmas sigma_defs = SIGMA0_def SIGMA1_def sigma0_def sigma1_def
  big_sigma0_def big_sigma1_def small_sigma0_def small_sigma1_def

lemma sigmas:
  "SIGMA0 x = big_sigma0 x" "SIGMA1 x = big_sigma1 x"
  "sigma0 x = small_sigma0 x" "sigma1 x = small_sigma1 x"
  by (simp_all add: sigma_defs ROTR_rotr)

text \<open>Swapping the bytes of a little-endian load gives the big-endian load.\<close>

lemma bit_mask_ff00ff00:
  "bit (0xff00ff00 :: u32) n \<longleftrightarrow> (8 \<le> n \<and> n < 16) \<or> (24 \<le> n \<and> n < 32)"
proof -
  have "(0xff00ff00 :: u32) = push_bit 8 (mask 8) OR push_bit 24 (mask 8)"
    by (simp add: mask_eq_decr_exp)
  then show ?thesis by (simp only: bit_or_iff bit_push_bit_iff bit_mask_iff) auto
qed

lemma bit_mask_00ff00ff:
  "bit (0x00ff00ff :: u32) n \<longleftrightarrow> n < 8 \<or> (16 \<le> n \<and> n < 24)"
proof -
  have "(0x00ff00ff :: u32) = mask 8 OR push_bit 16 (mask 8)"
    by (simp add: mask_eq_decr_exp)
  then show ?thesis by (simp only: bit_or_iff bit_push_bit_iff bit_mask_iff) auto
qed

lemma byte_index_cases:
  assumes "n < (32 :: nat)"
  obtains "n < 8" | "8 \<le> n \<and> n < 16" | "16 \<le> n \<and> n < 24" | "24 \<le> n \<and> n < 32"
  using assms by fastforce

lemma bit_BYTESWAP:
  "bit (BYTESWAP x) n \<longleftrightarrow>
     (if n < 8 then bit x (n + 24) else if n < 16 then bit x (n + 8)
      else if n < 24 then bit x (n - 8) else n < 32 \<and> bit x (n - 24))"
  unfolding BYTESWAP_def bit_or_iff bit_and_iff bit_mask_ff00ff00 bit_mask_00ff00ff ROTR_def ROTL_def
  by (auto simp: bit_simps algebra_simps dest: bit_imp_le_length)

lemma BYTESWAP_le32_get: "BYTESWAP (le32_get a b c d) = be32_get a b c d"
proof (rule bit_word_eqI)
  fix n assume "n < LENGTH(32)"
  then have "n < 32" by simp
  then show "bit (BYTESWAP (le32_get a b c d)) n \<longleftrightarrow> bit (be32_get a b c d) n"
    by (cases rule: byte_index_cases)
      (auto simp: bit_BYTESWAP le32_get_def be32_get_def bit_simps dest: bit_imp_le_length)
qed

section \<open>One block\<close>

lemma length_buffer_words [simp]: "length (buffer_words m) = length m div 4"
  by (induction m rule: buffer_words.induct) auto

lemma nth_buffer_words:
  "t < length m div 4 \<Longrightarrow>
    buffer_words m ! t = le32_get (m ! (4 * t)) (m ! (4 * t + 1)) (m ! (4 * t + 2)) (m ! (4 * t + 3))"
proof (induction m arbitrary: t rule: buffer_words.induct)
  case (1 a b c d rest)
  then show ?case by (cases t) (auto simp: add.commute)
qed auto

lemma length_expand [simp]: "length (expand n buf) = length buf + n"
  by (induction n buf rule: expand.induct) (auto simp: Let_def)

lemma expand_schedule:
  assumes "16 \<le> length buf" and "\<forall>t < length buf. buf ! t = schedule_word m t"
  shows "\<forall>t < length buf + n. expand n buf ! t = schedule_word m t"
  using assms
proof (induction n buf rule: expand.induct)
  case (1 buf)
  then show ?case by simp
next
  case (2 i buf)
  from 2(2) obtain k where len: "length buf = k + 16" by (metis add.commute le_iff_add)
  let ?w = "sigma1 (buf ! (k + 14)) + buf ! (k + 9) + sigma0 (buf ! (k + 1)) + buf ! k"
  have "schedule_word m (k + 16) = small_sigma1 (schedule_word m (k + 14)) + schedule_word m (k + 9)
      + small_sigma0 (schedule_word m (k + 1)) + schedule_word m k"
    by (subst schedule_word.simps) (simp add: add.commute)
  also have "\<dots> = ?w" using 2(3) by (simp add: sigmas len add.commute)
  finally have "schedule_word m (length buf) = ?w" by (simp add: len)
  then have "\<forall>t < length (buf @ [?w]). (buf @ [?w]) ! t = schedule_word m t"
    using 2(3) by (auto simp: nth_append less_Suc_eq)
  from 2(1) [of k] this 2(2) show ?case by (simp add: Let_def len)
qed

lemma expand_block:
  assumes "length m = 64"
  shows "expand 48 (map BYTESWAP (buffer_words m)) = map (schedule_word m) [0 ..< 64]"
proof (rule nth_equalityI)
  let ?b = "map BYTESWAP (buffer_words m)"
  have "\<forall>t < length ?b. ?b ! t = schedule_word m t"
    using assms by (subst schedule_word.simps)
      (simp add: nth_buffer_words BYTESWAP_le32_get message_word_def)
  from expand_schedule [OF _ this, of 48] assms
  show "t < length (expand 48 ?b) \<Longrightarrow> expand 48 ?b ! t = map (schedule_word m) [0 ..< 64] ! t" for t
    by simp
qed (use assms in simp)

lemma length_K: "length K = 64"
  by (simp add: K_def)

lemma DO_ROUND_step: "DO_ROUND hs (K ! t, schedule_word m t) = round_step m hs t"
proof -
  obtain a b c d e f g h where "hs = (a, b, c, d, e, f, g, h)" by (metis prod.exhaust)
  then show ?thesis by (simp add: sigmas Ch_ch Maj_maj)
qed

lemma SHA256Guts_compress:
  assumes "length m = 64"
  shows "SHA256Guts hs m = compress hs m"
proof -
  have "zip K (map (schedule_word m) [0 ..< 64]) = map (\<lambda>t. (K ! t, schedule_word m t)) [0 ..< 64]"
    by (rule nth_equalityI) (simp_all add: length_K)
  then show ?thesis
    by (simp add: SHA256Guts_def compress_def expand_block [OF assms] foldl_map DO_ROUND_step)
qed

section \<open>Blocks of a message\<close>

lemma blocks_short: "length m < 64 \<Longrightarrow> blocks m = []"
  by (subst blocks.simps) simp

lemma blocks_append_block: "length b = 64 \<Longrightarrow> blocks (b @ m) = b # blocks m"
  by (subst blocks.simps) simp

lemma blocks_append: "64 dvd length m \<Longrightarrow> blocks (m @ n) = blocks m @ blocks n"
proof (induction m rule: blocks.induct)
  case (1 m)
  show ?case
  proof (cases "length m < 64")
    case True
    with 1(2) have "m = []" by (auto dest: dvd_imp_le)
    then show ?thesis by (simp add: blocks_short)
  next
    case False
    with 1 have IH: "blocks (drop 64 m @ n) = blocks (drop 64 m) @ blocks n" by (simp add: dvd_diff_nat)
    have "blocks (m @ n) = take 64 m # blocks (drop 64 m @ n)"
      using False by (subst blocks.simps) simp
    also have "\<dots> = blocks m @ blocks n"
      unfolding IH using False by (subst (2) blocks.simps) simp
    finally show ?thesis .
  qed
qed

text \<open>The bytes of a message after its last full block.\<close>

definition tail_bytes :: "'a list \<Rightarrow> 'a list" where
  "tail_bytes m = drop (64 * (length m div 64)) m"

lemma length_tail_bytes [simp]: "length (tail_bytes m) = length m mod 64"
  by (simp add: tail_bytes_def minus_mult_div_eq_mod)

lemma blocks_append_tail: "blocks (m @ d) = blocks m @ blocks (tail_bytes m @ d)"
proof -
  let ?f = "take (64 * (length m div 64)) m"
  have m: "m = ?f @ tail_bytes m" by (simp add: tail_bytes_def)
  have "64 dvd length ?f" by (simp add: min_absorb2)
  then have "blocks (?f @ x) = blocks ?f @ blocks x" for x by (rule blocks_append)
  from this [of "tail_bytes m"] this [of "tail_bytes m @ d"] m show ?thesis
    by (simp add: blocks_short flip: append_assoc)
qed

lemma tail_bytes_append:
  assumes "length m mod 64 + length d \<le> 64"
  shows "tail_bytes (m @ d) = (if length m mod 64 + length d < 64 then tail_bytes m @ d else [])"
proof (cases "length m mod 64 + length d < 64")
  case True
  have "(length m + length d) div 64 = (64 * (length m div 64) + (length m mod 64 + length d)) div 64"
    by (metis add.assoc mult_div_mod_eq)
  also have "\<dots> = length m div 64"
  proof -
    have "(64 * q + r) div 64 = q" if "r < 64" for q r :: nat using that by simp
    from this [OF True] show ?thesis .
  qed
  finally have "(length m + length d) div 64 = length m div 64" .
  with True show ?thesis by (simp add: tail_bytes_def)
next
  case False
  then have "(length m + length d) mod 64 = 0"
    using assms by (metis le_antisym linorder_not_less mod_add_left_eq mod_self)
  then have "length (tail_bytes (m @ d)) = 0" by (simp only: length_tail_bytes length_append)
  then have "tail_bytes (m @ d) = []" by (simp only: length_0_conv)
  with False show ?thesis by simp
qed

section \<open>The incremental interface\<close>

text \<open>What a context stands for: the bytes absorbed so far.\<close>

definition absorbed :: "sha256_ctx \<Rightarrow> u8 list \<Rightarrow> bool" where
  "absorbed sc m \<longleftrightarrow>
     totalLength sc = word_of_nat (8 * length m) \<and>
     hash sc = foldl compress H0 (blocks m) \<and>
     unat (bufferLength sc) = length m mod 64 \<and>
     length (bytes sc) = 64 \<and>
     take (length m mod 64) (bytes sc) = tail_bytes m"

lemma absorbed_init: "length mem = 64 \<Longrightarrow> absorbed (sha256_init mem) []"
  by (simp add: absorbed_def sha256_init_def blocks_short tail_bytes_def)

text \<open>One turn of the copy loop, for \<open>d\<close> that fits the free part of the buffer.\<close>

lemma absorbed_copy:
  assumes a: "absorbed sc m" and d: "length m mod 64 + length d \<le> 64"
  defines "buf \<equiv> blit (bytes sc) (unat (bufferLength sc)) d"
  defines "tot \<equiv> totalLength sc + word_of_nat (length d) * 8"
  shows "length m mod 64 + length d < 64 \<Longrightarrow>
      absorbed \<lparr>totalLength = tot, hash = hash sc,
        bufferLength = bufferLength sc + word_of_nat (length d), bytes = buf\<rparr> (m @ d)"
    and "length m mod 64 + length d = 64 \<Longrightarrow>
      absorbed \<lparr>totalLength = tot, hash = SHA256Guts (hash sc) buf, bufferLength = 0, bytes = buf\<rparr> (m @ d)"
proof -
  have t: "tot = word_of_nat (8 * length (m @ d))"
    using a by (simp add: tot_def absorbed_def algebra_simps)
  have lb: "length buf = 64" using a d by (simp add: absorbed_def buf_def)
  have tb: "take (length m mod 64 + length d) buf = tail_bytes m @ d"
    using a take_blit [of "length m mod 64" d "bytes sc"] d by (simp add: absorbed_def buf_def)
  have mod: "length (m @ d) mod 64 = length (tail_bytes (m @ d))" by simp
  note tail = tail_bytes_append [OF d]
  {
    assume lt: "length m mod 64 + length d < 64"
    have "unat (bufferLength sc + word_of_nat (length d)) = length m mod 64 + length d"
      using a lt by (subst unat_plus_small) (auto simp: absorbed_def unat_of_nat_32)
    moreover have "blocks (m @ d) = blocks m"
      using lt by (simp add: blocks_append_tail [of m d] blocks_short)
    ultimately show "absorbed \<lparr>totalLength = tot, hash = hash sc,
        bufferLength = bufferLength sc + word_of_nat (length d), bytes = buf\<rparr> (m @ d)"
      using a lt t lb tb tail unfolding absorbed_def mod by simp
  next
    assume eq: "length m mod 64 + length d = 64"
    have "buf = tail_bytes m @ d" using tb lb eq by simp
    moreover from this have "blocks (m @ d) = blocks m @ [buf]"
      using lb blocks_append_block [of buf "[]"]
      by (simp add: blocks_append_tail [of m d] blocks_short)
    ultimately show "absorbed \<lparr>totalLength = tot, hash = SHA256Guts (hash sc) buf,
        bufferLength = 0, bytes = buf\<rparr> (m @ d)"
      using a eq t lb tail SHA256Guts_compress [OF lb] unfolding absorbed_def mod by simp
  }
qed

lemma sha256_update_absorbs:
  "\<lbrakk>absorbed sc m; unat n \<le> length data\<rbrakk>
    \<Longrightarrow> \<exists>sc'. sha256_update sc data n = Some sc' \<and> absorbed sc' (m @ take (unat n) data)"
proof (induction "unat n" arbitrary: n sc m data rule: less_induct)
  case less
  note a = less.prems(1)
  show ?case
  proof (cases "n = 0")
    case True
    with a show ?thesis by (subst sha256_update.simps) simp
  next
    case False
    let ?left = "64 - bufferLength sc"
    define c where "c = (if ?left > n then n else ?left)"
    let ?r = "length m mod 64"
    let ?d = "take (unat c) data"
    have buf: "unat (bufferLength sc) = ?r" using a by (simp add: absorbed_def)
    have r: "?r < 64" by simp
    then have "bufferLength sc \<le> 64" by (simp add: word_le_nat_alt buf)
    then have left: "unat ?left = 64 - ?r" by (simp add: unat_minus_small buf)
    then have c: "unat c = min (unat n) (64 - ?r)"
      by (simp add: c_def word_less_nat_alt min_def)
    then have cn: "c \<le> n" and c0: "0 < unat c"
      using False r by (auto simp: word_le_nat_alt unat_gt_0)
    have d1: "length ?d = unat c" using less.prems(2) c by simp
    have d: "length ?d = unat c" "word_of_nat (length ?d) = c" unfolding d1 by simp_all
    have fits: "?r + length ?d \<le> 64" using c d(1) r by linarith
    have rest: "unat (n - c) = unat n - unat c" using cn by (rule unat_minus_small)
    have ucopy: "ucast c = (word_of_nat (length ?d) :: u64)"
      using d(1) by (metis of_nat_unat)
    have full: "bufferLength sc + c = 64 \<longleftrightarrow> ?r + length ?d = 64"
    proof -
      have "unat (bufferLength sc + c) = ?r + length ?d"
        using fits d(1) buf by (subst unat_plus_small) auto
      then show ?thesis by (simp add: unat_arith_simps)
    qed
    define sc' where "sc' = (if ?r + length ?d = 64
      then \<lparr>totalLength = totalLength sc + ucast c * 8, hash = SHA256Guts (hash sc)
          (blit (bytes sc) (unat (bufferLength sc)) ?d), bufferLength = 0,
          bytes = blit (bytes sc) (unat (bufferLength sc)) ?d\<rparr>
      else \<lparr>totalLength = totalLength sc + ucast c * 8, hash = hash sc,
          bufferLength = bufferLength sc + c,
          bytes = blit (bytes sc) (unat (bufferLength sc)) ?d\<rparr>)"
    have step: "sha256_update sc data n = sha256_update sc' (drop (unat c) data) (n - c)"
      using False by (subst sha256_update.simps) (simp add: Let_def full sc'_def flip: c_def)
    have "absorbed sc' (m @ ?d)"
      using absorbed_copy [OF a fits] fits d(2) by (auto simp: sc'_def ucopy)
    moreover have "unat (n - c) < unat n" using rest c0 cn by (simp add: word_le_nat_alt)
    moreover have "unat (n - c) \<le> length (drop (unat c) data)"
      using less.prems(2) rest by simp
    ultimately obtain sc2 where "sha256_update sc' (drop (unat c) data) (n - c) = Some sc2"
      and "absorbed sc2 ((m @ ?d) @ take (unat (n - c)) (drop (unat c) data))"
      using less.hyps by blast
    moreover have "(m @ ?d) @ take (unat (n - c)) (drop (unat c) data) = m @ take (unat n) data"
      using rest cn by (simp add: word_le_nat_alt flip: take_add)
    ultimately show ?thesis using step by simp
  qed
qed

text \<open>Swapping the bytes of the length and storing it little-endian stores it big-endian.\<close>

lemma bit_BYTESWAP64:
  "j < 64 \<Longrightarrow> bit (BYTESWAP64 x) j \<longleftrightarrow>
     (if j < 32 then bit (BYTESWAP (ucast (drop_bit 32 x))) j
      else bit (BYTESWAP (ucast x)) (j - 32))"
  by (auto simp: BYTESWAP64_def Let_def bit_simps dest: bit_imp_le_length)

lemma le64_BYTESWAP64: "le64 (BYTESWAP64 x) = be64 x"
proof -
  have "(ucast (drop_bit (8 * i) (BYTESWAP64 x)) :: u8) = ucast (drop_bit (56 - 8 * i) x)"
    if "i < 8" for i
  proof (rule bit_word_eqI)
    fix n assume "n < LENGTH(8)"
    then have n: "n < 8" by simp
    have "i \<in> {0, 1, 2, 3, 4, 5, 6, 7}" using that by auto
    then show "bit (ucast (drop_bit (8 * i) (BYTESWAP64 x)) :: u8) n \<longleftrightarrow>
        bit (ucast (drop_bit (56 - 8 * i) x) :: u8) n"
      using n by (elim insertE emptyE)
        (simp_all add: bit_simps bit_BYTESWAP64 bit_BYTESWAP add.commute)
  qed
  then show ?thesis by (simp add: le64_def be64_def)
qed

lemma length_be64 [simp]: "length (be64 x) = 8"
  by (simp add: be64_def)

lemma take_padding: "0 < n \<Longrightarrow> n \<le> 64 \<Longrightarrow> take n padding = 0x80 # replicate (n - 1) 0"
  by (cases n) (simp_all add: padding_def)

text \<open>The number of padding bytes, and where it leads.\<close>

definition pad_bytes :: "nat \<Rightarrow> nat" where
  "pad_bytes r = (if r < 56 then 56 - r else 120 - r)"

lemma pad_bytes_props:
  assumes "r < 64"
  shows "0 < pad_bytes r" "pad_bytes r \<le> 64" "pad_bytes r - 1 = (119 - r) mod 64"
proof -
  have "(119 - r) mod 64 = (if r < 56 then 55 - r else 119 - r)"
    using assms by (simp add: mod_if)
  then show "0 < pad_bytes r" "pad_bytes r \<le> 64" "pad_bytes r - 1 = (119 - r) mod 64"
    using assms by (auto simp: pad_bytes_def)
qed

lemma final_pad_count:
  fixes b :: u32
  assumes "unat b < 64"
  defines "n \<equiv> 120 - b"
  shows "unat (if n > 64 then n - 64 else n) = pad_bytes (unat b)"
proof -
  have "b \<le> 120" using assms(1) by (simp add: word_le_nat_alt)
  then have n: "unat n = 120 - unat b" by (simp add: n_def unat_minus_small)
  show ?thesis
    using assms(1) n by (auto simp: word_less_nat_alt word_le_nat_alt unat_minus_small pad_bytes_def)
qed

lemma pad_eq: "pad m = (m @ take (pad_bytes (length m mod 64)) padding) @ be64 (word_of_nat (8 * length m))"
  using pad_bytes_props [of "length m mod 64"] by (simp add: pad_def take_padding)

lemma sha256_final_absorbed:
  assumes a: "absorbed sc m"
  shows "sha256_final sc = Some (sha256 m)"
proof -
  let ?b = "bufferLength sc"
  let ?n = "if 120 - ?b > 64 then 120 - ?b - 64 else 120 - ?b"
  from a have b: "unat ?b = length m mod 64" by (simp add: absorbed_def)
  then have n: "unat ?n = pad_bytes (length m mod 64)" using final_pad_count [of ?b] by simp
  have "unat ?n \<le> length padding" unfolding n using pad_bytes_props(2) by (simp add: padding_def)
  from sha256_update_absorbs [OF a this] obtain sc1 where
    s1: "sha256_update sc padding ?n = Some sc1" "absorbed sc1 (m @ take (unat ?n) padding)" by auto
  have "unat (8 :: u32) \<le> length (be64 (word_of_nat (8 * length m)))" by simp
  from sha256_update_absorbs [OF s1(2) this] obtain sc2 where
    s2: "sha256_update sc1 (be64 (word_of_nat (8 * length m))) 8 = Some sc2" "absorbed sc2 (pad m)"
    by (auto simp: pad_eq n)
  from a have "le64 (BYTESWAP64 (totalLength sc)) = be64 (word_of_nat (8 * length m))"
    by (simp add: absorbed_def le64_BYTESWAP64)
  with s1(1) s2 show ?thesis
    by (simp add: sha256_final_def Let_def sha256_def absorbed_def split: if_splits)
qed

text \<open>The identifier of an asset.\<close>

lemma asset_generate_identifier_eq:
  assumes "length mem = 64" and "unat sz = length data"
  shows "asset_generate_identifier mem data sz =
    Some (''asset:sha256:'' @ concat (map hex_byte (sha256 (take (length data mod 2 ^ 32) data))))"
proof -
  have n: "unat (ucast sz :: u32) = length data mod 2 ^ 32"
    using assms(2) by (simp add: unsigned_ucast_eq take_bit_eq_mod)
  then have "unat (ucast sz :: u32) \<le> length data" by simp
  from sha256_update_absorbs [OF absorbed_init [OF assms(1)] this] obtain c where
    "sha256_update (sha256_init mem) data (ucast sz) = Some c"
    "absorbed c (take (length data mod 2 ^ 32) data)" by (auto simp: n)
  then show ?thesis by (simp add: asset_generate_identifier_def sha256_final_absorbed)
qed

section \<open>Properties\<close>

text \<open>
  The code's block function is the compression function of the standard: byte-swapped
  little-endian loads, the pointer-walked schedule, the rewritten Boolean functions and the
  shifted rotations together compute it on every 64-byte block.
\<close>

theorem sha256_block_is_standard:
  assumes "length block = 64"
  shows "SHA256Guts hs block = compress hs block"
  using assms by (rule SHA256Guts_compress)

theorem sha256_block_is_standard_witness:
  "SHA256Guts H0 (replicate 64 0) = compress H0 (replicate 64 0)"
  by (rule sha256_block_is_standard) simp

text \<open>
  C12. Feeding a message in two pieces, whatever their lengths, and finishing gives the
  standard's digest of the whole message; no call loops or fails. \<open>mem\<close> is the uninitialised
  buffer.
\<close>

theorem sha256_incremental:
  assumes "length mem = 64" and "length xs < 2 ^ 32" and "length ys < 2 ^ 32"
  shows "\<exists>c1 c2. sha256_update (sha256_init mem) xs (word_of_nat (length xs)) = Some c1 \<and>
    sha256_update c1 ys (word_of_nat (length ys)) = Some c2 \<and>
    sha256_final c2 = Some (sha256 (xs @ ys))"
proof -
  have u: "unat (word_of_nat (length zs) :: u32) = length zs" if "length zs < 2 ^ 32" for zs :: "u8 list"
    using that by (simp add: unat_of_nat_32)
  from sha256_update_absorbs [OF absorbed_init [OF assms(1)], of "word_of_nat (length xs)" xs]
  obtain c1 where c1: "sha256_update (sha256_init mem) xs (word_of_nat (length xs)) = Some c1"
    "absorbed c1 xs" by (auto simp: u [OF assms(2)])
  from sha256_update_absorbs [OF c1(2), of "word_of_nat (length ys)" ys]
  obtain c2 where "sha256_update c1 ys (word_of_nat (length ys)) = Some c2" "absorbed c2 (xs @ ys)"
    by (auto simp: u [OF assms(3)])
  with c1(1) sha256_final_absorbed show ?thesis by blast
qed

theorem sha256_incremental_witness:
  "\<exists>c1 c2. sha256_update (sha256_init (replicate 64 7)) [1, 2, 3] (word_of_nat (length [1, 2, 3 :: u8])) = Some c1 \<and>
    sha256_update c1 (replicate 70 9) (word_of_nat (length (replicate 70 (9 :: u8)))) = Some c2 \<and>
    sha256_final c2 = Some (sha256 ([1, 2, 3] @ replicate 70 9))"
  by (rule sha256_incremental) simp_all

text \<open>
  An asset's identifier is the prefix with the 64 lower-case hex digits of the SHA-256 of
  its bytes, taken modulo 4 GiB: the \<open>size_t\<close> size is cut to the 32-bit length of
  \<open>sha256_update\<close>, so only the first \<open>size mod 2^32\<close> bytes count.
\<close>

theorem asset_identifier_correct:
  assumes "length mem = 64" and "unat sz = length data"
  shows "asset_generate_identifier mem data sz =
    Some (''asset:sha256:'' @ concat (map hex_byte (sha256 (take (length data mod 2 ^ 32) data))))"
  by (rule asset_generate_identifier_eq [OF assms])

theorem asset_identifier_correct_witness:
  "asset_generate_identifier (replicate 64 0) [104, 105] 2 =
    Some (''asset:sha256:'' @ concat (map hex_byte (sha256 (take (length [104, 105 :: u8] mod 2 ^ 32) [104, 105]))))"
  by (rule asset_identifier_correct) simp_all

end
