(* ===== verification/Sha1_Correct.thy ===== *)
theory Sha1_Correct
  imports Sha1 Sha256_Correct
begin

text \<open>
  SHA-1 as the Secure Hash Standard states it, and the proof that \<^verbatim>\<open>sha1.c\<close> computes it: the block
  function with its words expanded in place, updates of any length, the padding byte by byte. Blocks and padding
  are those of SHA-256. And the identifier that overruns its buffer.
\<close>

section \<open>The standard\<close>

definition parity :: "u32 \<Rightarrow> u32 \<Rightarrow> u32 \<Rightarrow> u32" where
  "parity x y z = x XOR y XOR z"

definition sha1_f :: "nat \<Rightarrow> u32 \<Rightarrow> u32 \<Rightarrow> u32 \<Rightarrow> u32" where
  "sha1_f t = (if t < 20 then ch else if t < 40 then parity else if t < 60 then maj else parity)"

definition sha1_k :: "nat \<Rightarrow> u32" where
  "sha1_k t = (if t < 20 then 0x5A827999 else if t < 40 then 0x6ED9EBA1 else if t < 60 then 0x8F1BBCDC else 0xCA62C1D6)"

fun sha1_word :: "u8 list \<Rightarrow> nat \<Rightarrow> u32" where
  "sha1_word m t =
     (if t < 16 then message_word m t
      else word_rotl 1 (sha1_word m (t - 3) XOR sha1_word m (t - 8) XOR sha1_word m (t - 14) XOR sha1_word m (t - 16)))"

declare sha1_word.simps [simp del]

fun sha1_step :: "u8 list \<Rightarrow> nat \<Rightarrow> sha1_chain \<Rightarrow> sha1_chain" where
  "sha1_step m t (a, b, c, d, e) =
     (word_rotl 5 a + sha1_f t b c d + e + sha1_k t + sha1_word m t, a, word_rotl 30 b, c, d)"

definition sha1_compress :: "sha1_chain \<Rightarrow> u8 list \<Rightarrow> sha1_chain" where
  "sha1_compress hs m = sha1_add hs (fold (sha1_step m) [0 ..< 80] hs)"

definition sha1 :: "u8 list \<Rightarrow> u8 list" where
  "sha1 m = sha1_bytes (foldl sha1_compress sha1_H0 (blocks (pad m)))"

section \<open>The macros\<close>

lemma rol_rotl:
  assumes "0 < n" and "n < 32"
  shows "rol x n = word_rotl n x"
proof (rule bit_word_eqI)
  fix i assume "i < LENGTH(32)"
  then have i: "i < 32" by simp
  have r: "bit (word_rotl n x) i \<longleftrightarrow> bit x ((i + (32 - n)) mod 32)"
    using i assms(2) by (simp add: bit_word_rotl_iff)
  have l: "bit (rol x n) i \<longleftrightarrow> n \<le> i \<and> bit x (i - n) \<or> bit x (32 - n + i)"
    using i by (simp add: rol_def bit_simps)
  show "bit (rol x n) i \<longleftrightarrow> bit (word_rotl n x) i"
  proof (cases "n \<le> i")
    case True
    then have "(i + (32 - n)) mod 32 = i - n" "\<not> bit x (32 - n + i)"
      using i assms by (auto simp: le_mod_geq dest: bit_imp_le_length)
    with True show ?thesis unfolding r l by simp
  next
    case False
    then have "(i + (32 - n)) mod 32 = 32 - n + i" using assms(2) by (subst mod_less) auto
    with False show ?thesis unfolding r l by simp
  qed
qed

lemma rol_8_24: "(rol x 24 AND 0xFF00FF00) OR (rol x 8 AND 0x00FF00FF) = BYTESWAP x"
proof -
  have "rol x 24 = ROTR x 8" "rol x 8 = ROTL x 8"
    by (simp_all add: rol_def ROTR_def ROTL_def or.commute)
  then show ?thesis by (simp add: BYTESWAP_def)
qed

lemma sha1_choice: "(x AND (y XOR z)) XOR z = ch x y z"
  unfolding ch_def by (rule bit_word_eqI) (auto simp: bit_simps)

lemma sha1_majority: "((x OR y) AND z) OR (x AND y) = maj x y z"
  unfolding maj_def by (rule bit_word_eqI) (auto simp: bit_simps)

section \<open>The words are expanded in place\<close>

text \<open>
  Before round \<open>i\<close> the sixteen cells hold the last sixteen words of the schedule, or, in the first
  rounds, the words made so far and the rest of the buffer as it was read.
\<close>

definition ring :: "u8 list \<Rightarrow> nat \<Rightarrow> u32 list \<Rightarrow> bool" where
  "ring m i block \<longleftrightarrow> length block = 16 \<and>
     (\<forall>k. k < i \<and> i \<le> k + 16 \<longrightarrow> block ! (k mod 16) = sha1_word m k) \<and>
     (\<forall>k. i \<le> k \<and> k < 16 \<longrightarrow> BYTESWAP (block ! k) = message_word m k)"

lemma ring_start: "length m = 64 \<Longrightarrow> ring m 0 (buffer_words m)"
  by (auto simp: ring_def nth_buffer_words BYTESWAP_le32_get message_word_def)

lemma blk0_ring:
  assumes "ring m i block" and "i < 16"
  shows "\<exists>block'. blk0 block i = (sha1_word m i, block') \<and> ring m (Suc i) block'"
proof -
  have w: "BYTESWAP (block ! i) = sha1_word m i"
    using assms by (subst sha1_word.simps) (simp add: ring_def)
  have "ring m (Suc i) (block[i := sha1_word m i])"
    using assms by (auto simp: ring_def less_Suc_eq nth_list_update)
  then show ?thesis by (simp add: blk0_def rol_8_24 w Let_def)
qed

lemma blk_ring:
  assumes "ring m i block" and "16 \<le> i"
  shows "\<exists>block'. blk block i = (sha1_word m i, block') \<and> ring m (Suc i) block'"
proof -
  obtain n where n: "i = n + 16" using assms(2) by (metis add.commute le_iff_add)
  have cell: "block ! (k mod 16) = sha1_word m k" if "n \<le> k" "k < n + 16" for k
    using assms(1) that n by (simp add: ring_def)
  have older: "block ! ((i + k) mod 16) = sha1_word m (n + k)" if "k < 16" for k
  proof -
    have "i + k = n + k + 16" by (simp add: n)
    then have "(i + k) mod 16 = (n + k) mod 16" by (simp only: mod_add_self2)
    then show ?thesis using cell [of "n + k"] that by simp
  qed
  have "n + 13 = i - 3" "n + 8 = i - 8" "n + 2 = i - 14" "n + 0 = i - 16" by (simp_all add: n)
  then have "block ! ((i + 13) mod 16) = sha1_word m (i - 3)" "block ! ((i + 8) mod 16) = sha1_word m (i - 8)"
    "block ! ((i + 2) mod 16) = sha1_word m (i - 14)" "block ! (i mod 16) = sha1_word m (i - 16)"
    using older [of 13] older [of 8] older [of 2] older [of 0] by simp_all
  then have w: "rol (block ! ((i + 13) mod 16) XOR block ! ((i + 8) mod 16) XOR block ! ((i + 2) mod 16) XOR block ! (i mod 16)) 1
      = sha1_word m i"
    using assms(2) by (subst sha1_word.simps) (simp add: rol_rotl)
  have "ring m (Suc i) (block[i mod 16 := sha1_word m i])"
    unfolding ring_def
  proof (intro conjI allI impI)
    show "length (block[i mod 16 := sha1_word m i]) = 16" using assms(1) by (simp add: ring_def)
    fix k
    show "block[i mod 16 := sha1_word m i] ! (k mod 16) = sha1_word m k" if "k < Suc i \<and> Suc i \<le> k + 16"
    proof (cases "k = i")
      case False
      have "i mod 16 \<noteq> k mod 16"
      proof
        assume "i mod 16 = k mod 16"
        moreover have "k \<le> i" using that by simp
        ultimately have "16 dvd i - k" by (simp add: mod_eq_dvd_iff_nat)
        then have "16 \<le> i - k" using False \<open>k \<le> i\<close> by (intro dvd_imp_le) simp_all
        then show False using that by linarith
      qed
      then show ?thesis using assms(1) that False by (simp add: ring_def)
    qed (use assms(1) in \<open>simp add: ring_def\<close>)
    show "BYTESWAP (block[i mod 16 := sha1_word m i] ! k) = message_word m k" if "Suc i \<le> k \<and> k < 16"
      using that assms(2) by simp
  qed
  then show ?thesis unfolding blk_def w Let_def by blast
qed

section \<open>The rounds\<close>

text \<open>The macro of round \<open>i\<close>.\<close>

definition sha1_round :: "nat \<Rightarrow> sha1_chain \<times> u32 list \<Rightarrow> sha1_chain \<times> u32 list" where
  "sha1_round i = (if i < 16 then R0 i else if i < 20 then R1 i else if i < 40 then R2 i else if i < 60 then R3 i else R4 i)"

lemma sha1_round_step:
  assumes "ring m i block" and "i < 80"
  shows "\<exists>block'. sha1_round i (hs, block) = (sha1_step m i hs, block') \<and> ring m (Suc i) block'"
proof -
  obtain v w x y z where hs: "hs = (v, w, x, y, z)" by (metis prod.exhaust)
  note fs = sha1_choice sha1_majority rol_rotl sha1_f_def sha1_k_def parity_def
  show ?thesis
  proof (cases "i < 16")
    case True
    then show ?thesis
      using blk0_ring [OF assms(1) True] by (auto simp: sha1_round_def hs fs algebra_simps)
  next
    case False
    then obtain block' where "blk block i = (sha1_word m i, block')" "ring m (Suc i) block'"
      using blk_ring [OF assms(1)] by auto
    then show ?thesis using False assms(2)
      by (auto simp: sha1_round_def hs fs xor.assoc algebra_simps)
  qed
qed

lemma sha1_rounds:
  "ring m 0 block \<Longrightarrow> n \<le> 80 \<Longrightarrow>
   \<exists>block'. fold sha1_round [0 ..< n] (hs, block) = (fold (sha1_step m) [0 ..< n] hs, block') \<and> ring m n block'"
proof (induction n)
  case (Suc n)
  then obtain block' where "fold sha1_round [0 ..< n] (hs, block) = (fold (sha1_step m) [0 ..< n] hs, block')" "ring m n block'"
    by auto
  then show ?case using sha1_round_step [of m n block' "fold (sha1_step m) [0 ..< n] hs"] Suc.prems(2) by auto
qed simp

lemma fold_upt_split: "i \<le> j \<Longrightarrow> j \<le> k \<Longrightarrow> fold f [j ..< k] (fold f [i ..< j] s) = fold f [i ..< k] s"
  using upt_add_eq_append [of i j "k - j"] by simp

lemma fold_segment: "(\<And>i. j \<le> i \<Longrightarrow> i < k \<Longrightarrow> f i = g i) \<Longrightarrow> fold f [j ..< k] = fold g [j ..< k]"
  by (rule ext, rule fold_cong) auto

lemma rounds_in_turn:
  "fold R4 [60 ..< 80] (fold R3 [40 ..< 60] (fold R2 [20 ..< 40] (fold R1 [16 ..< 20] (fold R0 [0 ..< 16] s)))) =
   fold sha1_round [0 ..< 80] s"
proof -
  have "fold R0 [0 ..< 16] = fold sha1_round [0 ..< 16]" "fold R1 [16 ..< 20] = fold sha1_round [16 ..< 20]"
    "fold R2 [20 ..< 40] = fold sha1_round [20 ..< 40]" "fold R3 [40 ..< 60] = fold sha1_round [40 ..< 60]"
    "fold R4 [60 ..< 80] = fold sha1_round [60 ..< 80]"
    by (rule fold_segment; auto simp: sha1_round_def)+
  moreover have "fold sha1_round [j ..< k] (fold sha1_round [0 ..< j] s') = fold sha1_round [0 ..< k] s'" if "j \<le> k" for j k s'
    using fold_upt_split [of 0 j k] that by simp
  from this [of 16 20] this [of 20 40] this [of 40 60] this [of 60 80]
  have "fold sha1_round [16 ..< 20] (fold sha1_round [0 ..< 16] s') = fold sha1_round [0 ..< 20] s'"
    "fold sha1_round [20 ..< 40] (fold sha1_round [0 ..< 20] s') = fold sha1_round [0 ..< 40] s'"
    "fold sha1_round [40 ..< 60] (fold sha1_round [0 ..< 40] s') = fold sha1_round [0 ..< 60] s'"
    "fold sha1_round [60 ..< 80] (fold sha1_round [0 ..< 60] s') = fold sha1_round [0 ..< 80] s'" for s'
    by (auto simp del: upt.simps upt_rec_numeral)
  ultimately show ?thesis by (simp only:)
qed

lemma SHA1Transform_compress:
  assumes "length m = 64"
  shows "SHA1Transform hs m = sha1_compress hs m"
proof -
  obtain block' where "fold sha1_round [0 ..< 80] (hs, buffer_words m) = (fold (sha1_step m) [0 ..< 80] hs, block')"
    using sha1_rounds [OF ring_start [OF assms], of 80 hs] by blast
  then show ?thesis
    unfolding SHA1Transform_def Let_def rounds_in_turn sha1_compress_def by (simp only: fst_conv)
qed

section \<open>The context\<close>

text \<open>What a context stands for: the bytes absorbed so far, counted in bits over two words.\<close>

definition sha1_absorbed :: "sha1_ctx \<Rightarrow> u8 list \<Rightarrow> bool" where
  "sha1_absorbed ctx m \<longleftrightarrow>
     8 * length m < 2 ^ 64 \<and>
     unat (count1 ctx) * 2 ^ 32 + unat (count0 ctx) = 8 * length m \<and>
     sha1_state ctx = foldl sha1_compress sha1_H0 (blocks m) \<and>
     length (sha1_buffer ctx) = 64 \<and> take (length m mod 64) (sha1_buffer ctx) = tail_bytes m"

lemma sha1_absorbed_init: "length mem = 64 \<Longrightarrow> sha1_absorbed (SHA1Init mem) []"
  by (simp add: sha1_absorbed_def SHA1Init_def blocks_short tail_bytes_def)


subsection \<open>The counter\<close>

lemma unat_shift3: "unat (push_bit 3 (len :: u32)) = 8 * unat len mod 2 ^ 32"
  by (simp add: push_bit_eq_mult unat_word_ariths mult.commute)

lemma unat_shift29: "unat (drop_bit 29 (len :: u32)) = unat len div 2 ^ 29"
  unfolding unat_drop_bit_eq by (simp add: drop_bit_eq_div)

lemma bits_of_length: "unat (len :: u32) div 2 ^ 29 * 2 ^ 32 + 8 * unat len mod 2 ^ 32 = 8 * unat len"
proof -
  have "8 * unat len div 2 ^ 32 = unat len div 2 ^ 29" by simp
  then show ?thesis by (metis div_mult_mod_eq)
qed

lemma counts_add:
  fixes c0 c1 len :: u32
  assumes n: "unat c1 * 2 ^ 32 + unat c0 = n" and b: "n + 8 * unat len < 2 ^ 64"
  defines "s \<equiv> c0 + push_bit 3 len"
  shows "unat ((if s < c0 then c1 + 1 else c1) + drop_bit 29 len) * 2 ^ 32 + unat s = n + 8 * unat len"
proof -
  define l where "l = 8 * unat len mod 2 ^ 32"
  define h where "h = unat len div 2 ^ 29"
  have lh: "h * 2 ^ 32 + l = 8 * unat len" unfolding l_def h_def by (rule bits_of_length)
  have s: "unat s = (unat c0 + l) mod 2 ^ 32"
    by (simp only: s_def l_def unat_shift3 unat_word_ariths) simp
  have c0: "unat c0 < 2 ^ 32" using unsigned_less [of c0] by simp
  have l: "l < 2 ^ 32" by (simp add: l_def)
  have h: "unat (drop_bit 29 len) = h" by (simp only: unat_shift29 h_def)
  show ?thesis
  proof (cases "unat c0 + l < 2 ^ 32")
    case True
    then have s: "unat s = unat c0 + l" using s by simp
    then have "\<not> s < c0" by (simp add: word_less_nat_alt)
    moreover have "unat c1 + h < 2 ^ 32" using n b lh by simp
    then have "unat (c1 + drop_bit 29 len) = unat c1 + h" by (subst unat_plus_small) (simp_all add: h)
    ultimately show ?thesis using s lh n by simp
  next
    case False
    have "unat s = unat c0 + l - 2 ^ 32" unfolding s using c0 l False by (subst le_mod_geq) auto
    then have s: "unat s + 2 ^ 32 = unat c0 + l" using False by linarith
    then have "s < c0" using l by (simp add: word_less_nat_alt)
    moreover have h1: "unat c1 + 1 + h < 2 ^ 32" using n b lh False by simp
    then have "unat (c1 + 1) = unat c1 + 1" by (subst unat_plus_small) auto
    then have "unat (c1 + 1 + drop_bit 29 len) = unat c1 + 1 + h"
      using h1 by (subst unat_plus_small) (simp_all add: h)
    ultimately show ?thesis using s lh n by simp
  qed
qed

lemma counter_position:
  assumes "unat c1 * 2 ^ 32 + unat c0 = 8 * n"
  shows "unat (drop_bit 3 (c0 :: u32) AND 63) = n mod 64"
proof -
  have "drop_bit 3 c0 AND 63 = take_bit 6 (drop_bit 3 c0)"
    by (simp add: take_bit_eq_mask mask_eq_decr_exp)
  then have "unat (drop_bit 3 c0 AND 63) = unat c0 div 8 mod 64"
    by (simp only: unsigned_take_bit_eq unat_drop_bit_eq) (simp add: take_bit_eq_mod drop_bit_eq_div)
  moreover have "b div 8 + 64 * (a * 8388608) = n" if "a * 4294967296 + b = 8 * n" for a b :: nat
  proof -
    have "8 * n div 8 = (b + 8 * (a * 536870912)) div 8" using that by (intro arg_cong2 [where f = "(div)"]) simp_all
    then show ?thesis by simp
  qed
  from this [of "unat c1" "unat c0"] assms have "n = unat c0 div 8 + 64 * (unat c1 * 8388608)" by simp
  ultimately show ?thesis by (simp only: mod_mult_self2)
qed

subsection \<open>Blocks of the data\<close>

lemma blocks_of_rest:
  assumes "i + 64 \<le> len" and "len \<le> length data"
  shows "blocks (take (len - i) (drop i data)) =
    take 64 (drop i data) # blocks (take (len - (i + 64)) (drop (i + 64) data))"
proof -
  have "take (len - i) (drop i data) = take 64 (drop i data) @ take (len - (i + 64)) (drop (i + 64) data)"
    using assms(1) take_add [of 64 "len - (i + 64)" "drop i data"] by (simp add: add.commute)
  then show ?thesis using assms by (simp add: blocks_append_block)
qed

lemma transform_blocks_all:
  assumes "unat i \<le> unat len" and "unat len \<le> length data" and "unat len + 63 < 2 ^ 32"
  shows "\<exists>i'. transform_blocks st data i len =
      Some (foldl sha1_compress st (blocks (take (unat len - unat i) (drop (unat i) data))), i') \<and>
    unat i' = unat i + 64 * ((unat len - unat i) div 64)"
  using assms
proof (induction "unat len - unat i" arbitrary: i st rule: less_induct)
  case less
  have i63: "unat (i + 63) = unat i + 63" using less.prems by (subst unat_plus_small) simp_all
  show ?case
  proof (cases "i + 63 < len")
    case False
    then have short: "unat len - unat i < 64" unfolding word_less_nat_alt i63 by linarith
    then have "blocks (take (unat len - unat i) (drop (unat i) data)) = []" by (intro blocks_short) simp
    then show ?thesis using False short by (subst transform_blocks.simps) simp
  next
    case True
    then have big: "unat i + 64 \<le> unat len" unfolding word_less_nat_alt i63 by linarith
    then have i64: "unat (i + 64) = unat i + 64" using less.prems(3) by (subst unat_plus_small) simp_all
    let ?b = "take 64 (drop (unat i) data)"
    have lt: "unat len - (unat i + 64) < unat len - unat i" using big by linarith
    obtain i' where
      t: "transform_blocks (sha1_compress st ?b) data (i + 64) len =
        Some (foldl sha1_compress (sha1_compress st ?b) (blocks (take (unat len - (unat i + 64)) (drop (unat i + 64) data))), i')"
      and i': "unat i' = unat i + 64 + 64 * ((unat len - (unat i + 64)) div 64)"
      using less.hyps [of "i + 64" "sha1_compress st ?b", unfolded i64, OF lt big less.prems(2,3)] by (elim exE conjE)
    have "length ?b = 64" using big less.prems(2) by simp
    then have "transform_blocks st data i len = transform_blocks (sha1_compress st ?b) data (i + 64) len"
      using True big less.prems(2) by (subst transform_blocks.simps) (simp add: SHA1Transform_compress)
    moreover have "unat i' = unat i + 64 * ((unat len - unat i) div 64)"
    proof -
      obtain d where "unat len = unat i + 64 + d" using big le_Suc_ex by blast
      then show ?thesis unfolding i' by (simp add: div_add_self1)
    qed
    ultimately show ?thesis using t blocks_of_rest [OF big less.prems(2)] by simp
  qed
qed

subsection \<open>An update of any length\<close>

lemma tail_bytes_after_blocks: "64 dvd length a \<Longrightarrow> tail_bytes (a @ x) = tail_bytes x"
  unfolding tail_bytes_def by (elim dvdE) simp

text \<open>The bytes that fill the buffer, and the block they make.\<close>

lemma fill_block:
  assumes "length d + length m mod 64 = 64"
  shows "64 dvd length (m @ d)" "blocks (m @ d) = blocks m @ [tail_bytes m @ d]"
proof -
  have "length m + length d = 64 * (length m div 64) + 64" using assms div_mult_mod_eq [of "length m" 64] by linarith
  then show "64 dvd length (m @ d)" by simp
  have "length (tail_bytes m @ d) = 64" using assms by simp
  then show "blocks (m @ d) = blocks m @ [tail_bytes m @ d]"
    using blocks_append_block [of "tail_bytes m @ d" "[]"] by (simp add: blocks_append_tail [of m d] blocks_short)
qed

lemma SHA1Update_absorbs:
  assumes a: "sha1_absorbed ctx m" and len: "unat len \<le> length data" "unat len + 63 < 2 ^ 32"
    and size: "8 * (length m + unat len) < 2 ^ 64"
  shows "\<exists>ctx'. SHA1Update ctx data len = Some ctx' \<and> sha1_absorbed ctx' (m @ take (unat len) data)"
proof -
  let ?r = "length m mod 64" and ?L = "unat len" and ?buf = "sha1_buffer ctx"
  define j where "j = drop_bit 3 (count0 ctx) AND 63"
  define c0 where "c0 = count0 ctx + push_bit 3 len"
  define c1 where "c1 = (if c0 < count0 ctx then count1 ctx + 1 else count1 ctx) + drop_bit 29 len"
  note defs = SHA1Update_def Let_def j_def [symmetric] c0_def [symmetric] c1_def [symmetric]
  have cnt: "unat (count1 ctx) * 2 ^ 32 + unat (count0 ctx) = 8 * length m"
    and st: "sha1_state ctx = foldl sha1_compress sha1_H0 (blocks m)"
    and buf: "length ?buf = 64" "take ?r ?buf = tail_bytes m" using a by (simp_all add: sha1_absorbed_def)
  have r: "?r < 64" by simp
  have j: "unat j = ?r" unfolding j_def by (rule counter_position [OF cnt])
  have lm: "length (m @ take ?L data) = length m + ?L" using len(1) by simp
  have cnt': "unat c1 * 2 ^ 32 + unat c0 = 8 * length (m @ take ?L data)"
    using counts_add [OF cnt, of len] size unfolding c0_def c1_def lm by simp
  have "unat (j + len) = ?r + ?L" using len(2) r j by (subst unat_plus_small) simp_all
  then have test: "63 < j + len \<longleftrightarrow> 63 < ?r + ?L" by (simp add: word_less_nat_alt)
  show ?thesis
  proof (cases "63 < ?r + ?L")
    case False
    let ?buf' = "blit ?buf ?r (take ?L data)"
    have upd: "SHA1Update ctx data len = Some \<lparr>sha1_state = sha1_state ctx, count0 = c0, count1 = c1, sha1_buffer = ?buf'\<rparr>"
      unfolding defs using False test j len(1) by (simp add: copy_to_buffer_def)
    have "length m mod 64 + length (take ?L data) \<le> 64" using False len(1) by simp
    then have tail: "tail_bytes (m @ take ?L data) = tail_bytes m @ take ?L data"
      using False len(1) by (subst tail_bytes_append) simp_all
    then have "length (m @ take ?L data) mod 64 = ?r + ?L"
      using len(1) by (subst length_tail_bytes [symmetric]) (simp del: length_tail_bytes add: length_tail_bytes [of m])
    moreover have "blocks (m @ take ?L data) = blocks m"
      using False len(1) by (simp add: blocks_append_tail [of m] blocks_short)
    moreover have "take (?r + ?L) ?buf' = tail_bytes m @ take ?L data" "length ?buf' = 64"
      using take_blit [of ?r "take ?L data" ?buf] False len(1) buf by simp_all
    ultimately have "sha1_absorbed \<lparr>sha1_state = sha1_state ctx, count0 = c0, count1 = c1, sha1_buffer = ?buf'\<rparr> (m @ take ?L data)"
      using cnt' size st unfolding sha1_absorbed_def lm tail by simp
    with upd show ?thesis by blast
  next
    case True
    define n where "n = 64 - ?r"
    have n: "n \<le> ?L" "?r + n = 64" "n \<le> 64" using True by (simp_all add: n_def)
    have "unat (64 - j) = n" unfolding n_def j [symmetric] using j r by (subst unat_minus_small) (simp_all add: word_le_nat_alt)
    note nj = this
    define b where "b = blit ?buf ?r (take n data)"
    define x where "x = take (?L - n) (drop n data)"
    have d: "length (take n data) = n" using n(1) len(1) by simp
    have lb: "length b = 64" unfolding b_def using buf(1) n(2) d by simp
    have "?r + n \<le> length ?buf" using buf(1) n(2) by simp
    then have "take (?r + n) b = tail_bytes m @ take n data"
      using take_blit [of ?r "take n data" ?buf, unfolded d] unfolding b_def buf(2) by blast
    then have b: "b = tail_bytes m @ take n data" using lb unfolding n(2) by simp
    have full: "64 dvd length (m @ take n data)" "blocks (m @ take n data) = blocks m @ [b]"
      using fill_block [of "take n data" m] d n(2) unfolding b by simp_all
    have split: "m @ take ?L data = (m @ take n data) @ x"
      using n(1) take_add [of n "?L - n" data] by (simp add: x_def)
    have lx: "length x = ?L - n" using len(1) by (simp add: x_def)
    obtain i' where i': "transform_blocks (SHA1Transform (sha1_state ctx) b) data (64 - j) len =
        Some (foldl sha1_compress (SHA1Transform (sha1_state ctx) b) (blocks x), i')"
      "unat i' = n + 64 * (length x div 64)"
      using transform_blocks_all [of "64 - j" len data "SHA1Transform (sha1_state ctx) b"] n(1) len
      unfolding nj lx x_def [symmetric] by blast
    have tail: "tail_bytes (m @ take ?L data) = tail_bytes x" "length (m @ take ?L data) mod 64 = length x mod 64"
      unfolding split using tail_bytes_after_blocks [OF full(1)] length_tail_bytes by metis+
    have "64 * (length x div 64) + length x mod 64 = length x" by simp
    then have "unat i' \<le> ?L" "?L - unat i' = length x mod 64" using n(1) lx unfolding i'(2) by linarith+
    then have li: "unat (len - i') = length x mod 64" "unat i' + length x mod 64 = ?L"
      by (simp_all add: unat_minus_small word_le_nat_alt)
    have rest: "take (length x mod 64) (drop (unat i') data) = tail_bytes x"
    proof -
      have "drop q x = take (length x - q) (drop (n + q) data)" for q
        unfolding lx by (simp add: x_def drop_take add.commute)
      from this [of "64 * (length x div 64)"] show ?thesis
        unfolding i'(2) tail_bytes_def minus_mult_div_eq_mod by simp
    qed
    let ?ctx = "\<lparr>sha1_state = foldl sha1_compress (SHA1Transform (sha1_state ctx) b) (blocks x), count0 = c0, count1 = c1,
      sha1_buffer = blit b 0 (tail_bytes x)\<rparr>"
    have "copy_to_buffer ?buf (unat j) data 0 (unat (64 - j)) = Some b"
    proof -
      have "copy_to_buffer ?buf ?r data 0 n = Some (blit ?buf ?r (take n data))"
        unfolding copy_to_buffer_def using n(1,2) len(1) by simp
      then show ?thesis unfolding nj j b_def .
    qed
    moreover have "copy_to_buffer b (unat 0) data (unat i') (unat (len - i')) = Some (blit b 0 (tail_bytes x))"
      unfolding li copy_to_buffer_def rest using len(1) li(2) by simp
    ultimately have "SHA1Update ctx data len = Some ?ctx"
      unfolding defs using True test i'(1) by simp
    moreover have "sha1_absorbed ?ctx (m @ take ?L data)"
    proof -
      have "take (length x mod 64) (blit b 0 (tail_bytes x)) = tail_bytes x"
        using take_blit [of 0 "tail_bytes x" b] lb by simp
      moreover have "foldl sha1_compress (SHA1Transform (sha1_state ctx) b) (blocks x)
          = foldl sha1_compress sha1_H0 (blocks (m @ take ?L data))"
        unfolding split blocks_append [OF full(1)] full(2) SHA1Transform_compress [OF lb] st by simp
      moreover have "(length m + ?L) mod 64 = length x mod 64" using tail(2) unfolding lm .
      ultimately show ?thesis
        using cnt' size lb unfolding sha1_absorbed_def tail(1) lm by simp
    qed
    ultimately show ?thesis by blast
  qed
qed

section \<open>The digest\<close>

text \<open>One byte, as the padding and \<open>SHA1\<close> itself give them.\<close>

lemma SHA1Update_byte:
  assumes "sha1_absorbed ctx m" and "8 * (length m + 1) < 2 ^ 64"
  shows "\<exists>ctx'. SHA1Update ctx [b] 1 = Some ctx' \<and> sha1_absorbed ctx' (m @ [b])"
  using SHA1Update_absorbs [OF assms(1), of 1 "[b]"] assms(2) by simp

lemma SHA1_loop_absorbs:
  "sha1_absorbed ctx m \<Longrightarrow> 8 * (length m + length bs) < 2 ^ 64 \<Longrightarrow>
   \<exists>ctx'. SHA1_loop bs ctx = Some ctx' \<and> sha1_absorbed ctx' (m @ bs)"
proof (induction bs arbitrary: ctx m)
  case (Cons b bs)
  then obtain ctx1 where u: "SHA1Update ctx [b] 1 = Some ctx1" "sha1_absorbed ctx1 (m @ [b])"
    using SHA1Update_byte [of ctx m b] by auto
  from Cons.IH [OF u(2)] Cons.prems(2) u(1) show ?case by auto
qed simp

text \<open>The test of the padding loop: the position in a block, in bits, is not 448.\<close>

lemma pad_test:
  assumes "sha1_absorbed ctx m"
  shows "count0 ctx AND 504 = 448 \<longleftrightarrow> length m mod 64 = 56"
proof -
  let ?c = "count0 ctx"
  have pos: "unat (drop_bit 3 ?c AND 63) = length m mod 64"
    using assms counter_position [of "count1 ctx" ?c "length m"] by (simp add: sha1_absorbed_def)
  have p: "push_bit 3 (drop_bit 3 ?c AND 63) = ?c AND 504"
  proof -
    have m: "(504 :: u32) = push_bit 3 (mask 6)" "(63 :: u32) = mask 6" by (simp_all add: mask_eq_decr_exp)
    show ?thesis unfolding m by (rule bit_word_eqI) (auto simp: bit_simps)
  qed
  have "?c AND 504 = 448 \<longleftrightarrow> drop_bit 3 ?c AND 63 = 56"
  proof
    assume "?c AND 504 = 448"
    then have "drop_bit 3 (?c AND 504) = drop_bit 3 448" by (rule arg_cong)
    then show "drop_bit 3 ?c AND 63 = 56" by (simp add: drop_bit_and)
  next
    assume "drop_bit 3 ?c AND 63 = 56"
    then show "?c AND 504 = 448" unfolding p [symmetric] by simp
  qed
  also have "\<dots> \<longleftrightarrow> unat (drop_bit 3 ?c AND 63) = 56" by (simp add: unat_arith_simps)
  finally show ?thesis unfolding pos .
qed

lemma pad_zeros_absorbs:
  "\<lbrakk>sha1_absorbed ctx m; (length m + k) mod 64 = 56; k < 64; 8 * (length m + k) < 2 ^ 64\<rbrakk> \<Longrightarrow>
   \<exists>ctx'. pad_zeros ctx = Some ctx' \<and> sha1_absorbed ctx' (m @ replicate k 0)"
proof (induction k arbitrary: ctx m)
  case 0
  then show ?case using pad_test [of ctx m] by (subst pad_zeros.simps) simp
next
  case (Suc k)
  have "length m mod 64 \<noteq> 56"
  proof
    assume "length m mod 64 = 56"
    then have "(56 + Suc k) mod 64 = 56" using Suc.prems(2) by (metis mod_add_left_eq)
    then show False using Suc.prems(3) by presburger
  qed
  then have go: "count0 ctx AND 504 \<noteq> 448" using pad_test [OF Suc.prems(1)] by simp
  obtain ctx1 where u: "SHA1Update ctx [0] 1 = Some ctx1" "sha1_absorbed ctx1 (m @ [0])"
    using SHA1Update_byte [OF Suc.prems(1), of 0] Suc.prems(4) by auto
  from Suc.IH [OF u(2)] Suc.prems obtain ctx2 where
    "pad_zeros ctx1 = Some ctx2" "sha1_absorbed ctx2 ((m @ [0]) @ replicate k 0)" by auto
  with go u(1) show ?case by (subst pad_zeros.simps) simp
qed

lemma pad_position: "(n + 1 + (119 - n mod 64) mod 64) mod 64 = (56 :: nat)"
proof -
  have r: "n mod 64 < 64" by simp
  have "n + 1 + (119 - n mod 64) mod 64 = n + pad_bytes (n mod 64)"
    using pad_bytes_props [OF r] by linarith
  also have "\<dots> = 56 + 64 * (n div 64 + (if n mod 64 < 56 then 0 else 1))"
  proof -
    have "64 * q + r + pad_bytes r = 56 + 64 * (q + (if r < 56 then 0 else 1))" if "r < 64" for q r :: nat
      using that by (simp add: pad_bytes_def)
    from this [OF r, of "n div 64"] show ?thesis by simp
  qed
  finally show ?thesis by (simp only: mod_mult_self2) simp
qed

text \<open>The two counters, stored big-endian.\<close>

lemma counters_be64:
  assumes "unat (c1 :: u32) * 2 ^ 32 + unat (c0 :: u32) = n"
  shows "be32 c1 @ be32 c0 = be64 (word_of_nat n)"
proof -
  have "word_of_nat n = push_bit 32 (ucast c1) + (ucast c0 :: u64)"
    unfolding assms [symmetric] by (simp add: push_bit_eq_mult)
  also have "\<dots> = push_bit 32 (ucast c1) OR ucast c0"
    by (subst disjunctive_add) (auto simp: bit_simps dest: bit_imp_le_length)
  finally have n: "word_of_nat n = (push_bit 32 (ucast c1) OR ucast c0 :: u64)" .
  define w where "w = (push_bit 32 (ucast c1) OR ucast c0 :: u64)"
  have byte: "(ucast (drop_bit k w) :: u8) =
      (if k < 32 then ucast (drop_bit k c0) else ucast (drop_bit (k - 32) c1))" if "k \<in> {0, 8, 16, 24, 32, 40, 48, 56}" for k
    by (rule bit_word_eqI) (use that in \<open>auto simp: w_def bit_simps dest: bit_imp_le_length\<close>)
  have "be64 w = map (\<lambda>k. ucast (drop_bit k w)) [56, 48, 40, 32, 24, 16, 8, 0]"
    by (simp add: be64_def upt_rec)
  also have "\<dots> = be32 c1 @ be32 c0"
    using byte [of 0] by (simp add: byte be32_def)
  finally show ?thesis unfolding n w_def [symmetric] by simp
qed

lemma SHA1Final_absorbed:
  assumes a: "sha1_absorbed ctx m" and size: "length m + 128 < 2 ^ 61"
  shows "SHA1Final ctx = Some (sha1 m)"
proof -
  let ?k = "(119 - length m mod 64) mod 64" and ?fc = "be32 (count1 ctx) @ be32 (count0 ctx)"
  have k: "?k < 64" by simp
  have pos: "(length (m @ [0x80]) + ?k) mod 64 = 56" using pad_position [of "length m"] by simp
  have "unat (count1 ctx) * 2 ^ 32 + unat (count0 ctx) = 8 * length m" using a by (simp add: sha1_absorbed_def)
  then have fc: "?fc = be64 (word_of_nat (8 * length m))" by (rule counters_be64)
  obtain ctx1 where 1: "SHA1Update ctx [0x80] 1 = Some ctx1" "sha1_absorbed ctx1 (m @ [0x80])"
    using SHA1Update_byte [OF a, of "0x80"] size by auto
  obtain ctx2 where 2: "pad_zeros ctx1 = Some ctx2" "sha1_absorbed ctx2 ((m @ [0x80]) @ replicate ?k 0)"
    using pad_zeros_absorbs [OF 1(2) pos k] size k by fastforce
  have "8 * (length ((m @ [0x80]) @ replicate ?k (0 :: u8)) + unat (8 :: u32)) < 2 ^ 64"
    using size k by simp
  from SHA1Update_absorbs [OF 2(2) _ _ this, of ?fc] obtain ctx3 where
    3: "SHA1Update ctx2 ?fc 8 = Some ctx3" "sha1_absorbed ctx3 (pad m)"
    unfolding fc by (auto simp: pad_def)
  have "SHA1Final ctx = Some (sha1_bytes (sha1_state ctx3))"
    unfolding SHA1Final_def Let_def 1(1) using 2(1) 3(1) by simp
  moreover have "sha1_bytes (sha1_state ctx3) = sha1 m"
    using 3(2) unfolding sha1_absorbed_def sha1_def by (elim conjE) simp
  ultimately show ?thesis by simp
qed

section \<open>Properties\<close>

lemma sint_small: "n < 2 ^ 31 \<Longrightarrow> sint (word_of_nat n :: u32) = int n"
  by (simp add: signed_of_nat signed_take_bit_int_eq_self)

text \<open>
  C35. \<open>SHA1\<close>, which hashes byte by byte, leaves the digest of the standard and a terminator, for every string
  an \<open>int\<close> can count; no loop hangs and no access is out of bounds.
\<close>

theorem SHA1_digest:
  assumes "length mem = 64" and "length str < 2 ^ 31" and "21 \<le> room"
  shows "SHA1 mem room str (word_of_nat (length str)) = Some (sha1 str @ [0])"
proof -
  obtain ctx where "SHA1_loop str (SHA1Init mem) = Some ctx" "sha1_absorbed ctx str"
    using SHA1_loop_absorbs [OF sha1_absorbed_init [OF assms(1)], of str] assms(2) by auto
  moreover from this(2) have "SHA1Final ctx = Some (sha1 str)"
    by (rule SHA1Final_absorbed) (use assms(2) in simp)
  ultimately show ?thesis using assms(3) by (simp add: SHA1_def sint_small [OF assms(2)])
qed

theorem SHA1_digest_witness:
  "SHA1 (replicate 64 7) 21 [97, 98, 99] (word_of_nat (length [97, 98, 99 :: u8])) = Some (sha1 [97, 98, 99] @ [0])"
  by (rule SHA1_digest) simp_all

text \<open>The identifier hashes into twenty bytes and so always writes one byte behind them.\<close>

theorem sha1_identifier_overruns: "asset_generate_identifier_sha1 mem data sz = None"
  by (simp add: asset_generate_identifier_sha1_def SHA1_def split: option.split)

end
