(* ===== verification/Cjson.thy ===== *)
theory Cjson
  imports Prelude Complex_Main
begin

text \<open>
  The interface of cJSON, a submodule of the repository (\<^verbatim>\<open>lib/cJSON\<close>): the operations the
  program calls are the fields of a record, a parameter of every definition that handles JSON,
  and what the program relies on are the laws of the locale \<open>cjson_lib\<close>, which restate the
  documentation of \<^verbatim>\<open>cJSON.h\<close>. A node is a value of the type \<open>'j\<close>: an operation that changes a
  node in place returns the changed node. The last section interprets the locale on JSON trees.
\<close>

section \<open>Operations\<close>

type_synonym i32 = "32 word"

text \<open>
  \<open>chain j\<close> is the list of children behind \<open>j->child\<close>, which the program also walks itself
  through \<open>next\<close> and \<open>cJSON_ArrayForEach\<close>, each child with its \<open>string\<close> (the key, in an
  object). \<open>put j n v\<close> is \<open>j\<close> after its child number \<open>n\<close> has been changed to \<open>v\<close> through a
  pointer to it, \<open>with_valuedouble j r\<close> is \<open>j\<close> after \<open>j->valuedouble = r\<close>. Numbers are doubles: the ones here are integers below $2^{53}$ or time stamps,
  read as rationals.
\<close>

record 'j cjson =
  chain :: "'j \<Rightarrow> (string \<times> 'j) list"
  put :: "'j \<Rightarrow> nat \<Rightarrow> 'j \<Rightarrow> 'j"
  valueint :: "'j \<Rightarrow> i32"
  valuedouble :: "'j \<Rightarrow> rat"
  valuestring :: "'j \<Rightarrow> string"
  with_valuedouble :: "'j \<Rightarrow> rat \<Rightarrow> 'j"
  SetNumberValue :: "'j \<Rightarrow> rat \<Rightarrow> 'j"
  IsNull :: "'j \<Rightarrow> bool"
  IsBool :: "'j \<Rightarrow> bool"
  IsTrue :: "'j \<Rightarrow> bool"
  IsNumber :: "'j \<Rightarrow> bool"
  IsString :: "'j \<Rightarrow> bool"
  IsArray :: "'j \<Rightarrow> bool"
  IsObject :: "'j \<Rightarrow> bool"
  CreateBool :: "bool \<Rightarrow> 'j"
  CreateNumber :: "rat \<Rightarrow> 'j"
  CreateString :: "string \<Rightarrow> 'j"
  CreateIntArray :: "i32 list \<Rightarrow> 'j"
  CreateDoubleArray :: "rat list \<Rightarrow> 'j"
  CreateArray :: 'j
  CreateObject :: 'j
  GetArraySize :: "'j \<Rightarrow> int"
  GetArrayItem :: "'j \<Rightarrow> int \<Rightarrow> 'j option"
  AddItemToArray :: "'j \<Rightarrow> 'j \<Rightarrow> 'j"
  InsertItemInArray :: "'j \<Rightarrow> int \<Rightarrow> 'j \<Rightarrow> 'j"
  DeleteItemFromArray :: "'j \<Rightarrow> int \<Rightarrow> 'j"
  GetObjectItem :: "'j \<Rightarrow> string \<Rightarrow> 'j option"
  GetObjectItemCS :: "'j \<Rightarrow> string \<Rightarrow> 'j option"
  AddItemToObject :: "'j \<Rightarrow> string \<Rightarrow> 'j \<Rightarrow> 'j"
  ReplaceItemInObjectCS :: "'j \<Rightarrow> string \<Rightarrow> 'j \<Rightarrow> 'j"
  DeleteItemFromObject :: "'j \<Rightarrow> string \<Rightarrow> 'j"
  DeleteItemFromObjectCS :: "'j \<Rightarrow> string \<Rightarrow> 'j"
  DetachChild :: "'j \<Rightarrow> nat \<Rightarrow> 'j"

text \<open>The key comparison of the functions without \<open>CaseSensitive\<close> in their name.\<close>

definition lower :: "char \<Rightarrow> char" where
  "lower c = (if 65 \<le> (of_char c :: nat) \<and> (of_char c :: nat) \<le> 90
              then char_of ((of_char c :: nat) + 32) else c)"

definition same_key :: "string \<Rightarrow> string \<Rightarrow> bool" where
  "same_key k l \<longleftrightarrow> map lower k = map lower l"

lemma same_key_refl [simp]: "same_key k k"
  by (simp add: same_key_def)

lemma same_key_sym: "same_key k l = same_key l k"
  by (auto simp: same_key_def)

section \<open>Association lists with a key comparison\<close>

text \<open>Looking up, replacing and deleting the first entry whose key matches.\<close>

fun assoc :: "(string \<Rightarrow> bool) \<Rightarrow> (string \<times> 'v) list \<Rightarrow> 'v option" where
  "assoc p [] = None"
| "assoc p ((k, v) # kvs) = (if p k then Some v else assoc p kvs)"

fun assoc_index :: "(string \<Rightarrow> bool) \<Rightarrow> (string \<times> 'v) list \<Rightarrow> nat" where
  "assoc_index p [] = 0"
| "assoc_index p ((k, v) # kvs) = (if p k then 0 else Suc (assoc_index p kvs))"

fun assoc_put :: "(string \<Rightarrow> bool) \<Rightarrow> 'v \<Rightarrow> (string \<times> 'v) list \<Rightarrow> (string \<times> 'v) list" where
  "assoc_put p w [] = []"
| "assoc_put p w ((k, v) # kvs) = (if p k then (k, w) # kvs else (k, v) # assoc_put p w kvs)"

definition assoc_delete :: "(string \<Rightarrow> bool) \<Rightarrow> (string \<times> 'v) list \<Rightarrow> (string \<times> 'v) list" where
  "assoc_delete p kvs = remove_first (p \<circ> fst) kvs"

lemma assoc_delete_simps [simp]:
  "assoc_delete p [] = []"
  "assoc_delete p ((k, v) # kvs) = (if p k then kvs else (k, v) # assoc_delete p kvs)"
  by (simp_all add: assoc_delete_def)

lemma assoc_append:
  "assoc p (kvs @ kvs') = (case assoc p kvs of None \<Rightarrow> assoc p kvs' | Some v \<Rightarrow> Some v)"
  by (induction p kvs rule: assoc.induct) (auto split: option.splits)

lemma assoc_put_same [simp]: "assoc p kvs = Some v \<Longrightarrow> assoc p (assoc_put p w kvs) = Some w"
  by (induction p kvs rule: assoc.induct) (auto split: if_splits)

lemma assoc_put_other:
  "(\<And>k. p k \<Longrightarrow> \<not> q k) \<Longrightarrow> assoc q (assoc_put p w kvs) = assoc q kvs"
  by (induction p w kvs rule: assoc_put.induct) auto

lemma assoc_delete_other:
  "(\<And>k. p k \<Longrightarrow> \<not> q k) \<Longrightarrow> assoc q (assoc_delete p kvs) = assoc q kvs"
  by (induction kvs) auto

lemma assoc_None_iff: "assoc p kvs = None \<longleftrightarrow> (\<forall>k \<in> set (map fst kvs). \<not> p k)"
  by (induction p kvs rule: assoc.induct) auto

lemma assoc_delete_same:
  "distinct (map (map lower \<circ> fst) kvs) \<Longrightarrow> assoc (same_key k) (assoc_delete (same_key k) kvs) = None"
  by (induction kvs) (fastforce simp: assoc_None_iff same_key_def image_iff split: if_splits)+

lemma assoc_put_list_update:
  "assoc p kvs = Some v \<Longrightarrow>
   kvs[assoc_index p kvs := (fst (kvs ! assoc_index p kvs), w)] = assoc_put p w kvs"
  by (induction p kvs rule: assoc.induct) (auto split: if_splits)

lemma assoc_index_less [simp]: "assoc p kvs = Some v \<Longrightarrow> assoc_index p kvs < length kvs"
  by (induction p kvs rule: assoc.induct) (auto split: if_splits)

lemma fst_assoc_put [simp]: "map fst (assoc_put p w kvs) = map fst kvs"
  by (induction p w kvs rule: assoc_put.induct) auto

lemma assoc_SomeD: "assoc p kvs = Some v \<Longrightarrow> \<exists>k. p k \<and> (k, v) \<in> set kvs"
  by (induction p kvs rule: assoc.induct) (auto split: if_splits)

lemma assoc_NoneD: "assoc p kvs = None \<Longrightarrow> (k, v) \<in> set kvs \<Longrightarrow> \<not> p k"
  by (induction p kvs rule: assoc.induct) (auto split: if_splits)

section \<open>Changing a child in place\<close>

text \<open>
  The node \<open>j\<close> after the child that \<open>cJSON_GetObjectItem (j, k)\<close> points to has been changed
  to \<open>v\<close> through that pointer.
\<close>

definition put_item :: "('j, 'z) cjson_scheme \<Rightarrow> 'j \<Rightarrow> string \<Rightarrow> 'j \<Rightarrow> 'j" where
  "put_item C j k v = put C j (assoc_index (same_key k) (chain C j)) v"

definition items :: "('j, 'z) cjson_scheme \<Rightarrow> 'j \<Rightarrow> 'j list" where
  "items C j = map snd (chain C j)"

text \<open>The helpers of \<^verbatim>\<open>src/util.cpp\<close>.\<close>

definition cjson_create_object :: "('j, 'z) cjson_scheme \<Rightarrow> (string \<times> 'j) list \<Rightarrow> 'j" where
  "cjson_create_object C kvs = foldl (\<lambda>parent (k, v). AddItemToObject C parent k v) (CreateObject C) kvs"

text \<open>The arguments of \<open>cjson_create_object\<close> end at the first null pointer, also when it stands for a value.\<close>

definition create_object_until :: "('j, 'z) cjson_scheme \<Rightarrow> (string \<times> 'j option) list \<Rightarrow> 'j" where
  "create_object_until C kvs =
     cjson_create_object C (map (\<lambda>(k, v). (k, the v)) (takeWhile (\<lambda>(k, v). v \<noteq> None) kvs))"

definition cjson_get_int64_value :: "('j, 'z) cjson_scheme \<Rightarrow> 'j option \<Rightarrow> int" where
  "cjson_get_int64_value C v =
     (case v of None \<Rightarrow> 0
      | Some j \<Rightarrow> if 0 \<le> valuedouble C j then \<lfloor>valuedouble C j\<rfloor> else - \<lfloor>- valuedouble C j\<rfloor>)"

fun find_from :: "('j, 'z) cjson_scheme \<Rightarrow> 'j list \<Rightarrow> string \<Rightarrow> int \<Rightarrow> int" where
  "find_from C [] s i = - 1"
| "find_from C (j # js) s i = (if valuestring C j = s then i else find_from C js s (i + 1))"

definition cjson_find_in_array :: "('j, 'z) cjson_scheme \<Rightarrow> 'j \<Rightarrow> string \<Rightarrow> int" where
  "cjson_find_in_array C arr s = find_from C (items C arr) s 0"

definition cjson_delete_from_array :: "('j, 'z) cjson_scheme \<Rightarrow> 'j \<Rightarrow> string \<Rightarrow> 'j" where
  "cjson_delete_from_array C arr s =
     (let i = cjson_find_in_array C arr s in if i \<noteq> - 1 then DeleteItemFromArray C arr i else arr)"

text \<open>
  \<open>cjson_create_list\<close> takes its arguments up to the first null pointer. \<open>cjson_clear\<close> detaches the
  children one by one.
\<close>

fun cjson_create_list :: "('j, 'z) cjson_scheme \<Rightarrow> 'j option list \<Rightarrow> 'j" where
  "cjson_create_list C vs =
     foldl (AddItemToArray C) (CreateArray C) (map the (takeWhile (\<lambda>v. v \<noteq> None) vs))"

fun cjson_clear_children :: "('j, 'z) cjson_scheme \<Rightarrow> (string \<times> 'j) list \<Rightarrow> 'j \<Rightarrow> 'j" where
  "cjson_clear_children C [] j = j"
| "cjson_clear_children C (kv # kvs) j = cjson_clear_children C kvs (DetachChild C j 0)"

definition cjson_clear :: "('j, 'z) cjson_scheme \<Rightarrow> 'j \<Rightarrow> 'j" where
  "cjson_clear C j = cjson_clear_children C (chain C j) j"

text \<open>
  The getters of cJSON take null pointers: a field of nothing is nothing, and so is the string of
  a node that is not one.
\<close>

definition get_cs :: "('j, 'z) cjson_scheme \<Rightarrow> 'j option \<Rightarrow> string \<Rightarrow> 'j option" where
  "get_cs C v k = (case v of None \<Rightarrow> None | Some j \<Rightarrow> GetObjectItemCS C j k)"

definition string_value :: "('j, 'z) cjson_scheme \<Rightarrow> 'j option \<Rightarrow> string option" where
  "string_value C v =
     (case v of None \<Rightarrow> None | Some j \<Rightarrow> if IsString C j then Some (valuestring C j) else None)"

definition number_value :: "('j, 'z) cjson_scheme \<Rightarrow> 'j option \<Rightarrow> rat option" where
  "number_value C v =
     (case v of None \<Rightarrow> None | Some j \<Rightarrow> if IsNumber C j then Some (valuedouble C j) else None)"

definition array_size :: "('j, 'z) cjson_scheme \<Rightarrow> 'j option \<Rightarrow> int" where
  "array_size C v = (case v of None \<Rightarrow> 0 | Some j \<Rightarrow> GetArraySize C j)"

lemma get_cs_simps [simp]: "get_cs C None k = None" "get_cs C (Some j) k = GetObjectItemCS C j k"
  by (simp_all add: get_cs_def)

lemma string_value_None [simp]: "string_value C None = None"
  by (simp add: string_value_def)

lemma array_size_simps [simp]: "array_size C None = 0" "array_size C (Some j) = GetArraySize C j"
  by (simp_all add: array_size_def)

section \<open>Laws\<close>

locale cjson_lib =
  fixes C :: "'j cjson"
  assumes size_law: "GetArraySize C j = int (length (chain C j))"
    and item_law: "GetArrayItem C j i =
      (if 0 \<le> i \<and> i < int (length (chain C j)) then Some (items C j ! nat i) else None)"
    and add_array_law: "items C (AddItemToArray C j v) = items C j @ [v]"
    and insert_law: "0 \<le> i \<Longrightarrow> items C (InsertItemInArray C j i v) =
      take (nat i) (items C j) @ v # drop (nat i) (items C j)"
    and delete_array_law: "0 \<le> i \<Longrightarrow> i < int (length (chain C j)) \<Longrightarrow>
      items C (DeleteItemFromArray C j i) = splice_out (items C j) (nat i) 1"
    and int_array_law: "map (valueint C) (items C (CreateIntArray C ns)) = ns"
    and int_array_number: "\<And>x. x \<in> set (items C (CreateIntArray C ns)) \<Longrightarrow> IsNumber C x"
    and double_array_law: "items C (CreateDoubleArray C rs) = map (CreateNumber C) rs"
    and array_kind: "IsArray C (CreateArray C)" "IsArray C (CreateIntArray C ns)"
      "IsArray C (CreateDoubleArray C rs)"
      "IsArray C (AddItemToArray C j v) = IsArray C j"
      "IsArray C (InsertItemInArray C j i v) = IsArray C j"
      "IsArray C (DeleteItemFromArray C j i) = IsArray C j"
    and empty_law: "chain C (CreateArray C) = []" "chain C (CreateObject C) = []"
    and object_law: "GetObjectItem C j k = assoc (same_key k) (chain C j)"
    and object_cs_law: "GetObjectItemCS C j k = assoc ((=) k) (chain C j)"
    and add_object_law: "chain C (AddItemToObject C j k v) = chain C j @ [(k, v)]"
    and replace_law: "chain C (ReplaceItemInObjectCS C j k v) = assoc_put ((=) k) v (chain C j)"
    and delete_object_law: "chain C (DeleteItemFromObject C j k) = assoc_delete (same_key k) (chain C j)"
    and delete_object_cs_law: "chain C (DeleteItemFromObjectCS C j k) = assoc_delete ((=) k) (chain C j)"
    and detach_law: "n < length (chain C j) \<Longrightarrow> chain C (DetachChild C j n) = splice_out (chain C j) n 1"
    and put_law: "n < length (chain C j) \<Longrightarrow> chain C (put C j n v) = (chain C j)[n := (fst (chain C j ! n), v)]"
    and object_kind: "IsObject C (CreateObject C)" "IsObject C (AddItemToObject C j k v) = IsObject C j"
      "IsObject C (ReplaceItemInObjectCS C j k v) = IsObject C j"
      "IsObject C (DeleteItemFromObject C j k) = IsObject C j"
      "IsObject C (DeleteItemFromObjectCS C j k) = IsObject C j"
      "IsObject C (DetachChild C j n) = IsObject C j" "IsObject C (put C j n v) = IsObject C j"
    and bool_law: "IsBool C (CreateBool C b)" "IsTrue C (CreateBool C b) = b"
      "\<not> IsNumber C (CreateBool C b)"
    and number_law: "IsNumber C (CreateNumber C r)" "valuedouble C (CreateNumber C r) = r"
      "\<not> IsBool C (CreateNumber C r)" "\<not> IsString C (CreateNumber C r)"
    and assign_law: "IsNumber C (with_valuedouble C j r) = IsNumber C j"
      "valuedouble C (with_valuedouble C j r) = r"
      "IsNumber C (SetNumberValue C j r) = IsNumber C j" "valuedouble C (SetNumberValue C j r) = r"
    and int_law: "- 2147483648 \<le> z \<Longrightarrow> z < 2147483648 \<Longrightarrow> valueint C (CreateNumber C (of_int z)) = word_of_int z"
    and string_law: "IsString C (CreateString C s)" "valuestring C (CreateString C s) = s"
begin

lemma length_items [simp]: "length (items C j) = length (chain C j)"
  by (simp add: items_def)

lemma put_item_law:
  "GetObjectItem C j k = Some v \<Longrightarrow> chain C (put_item C j k w) = assoc_put (same_key k) w (chain C j)"
  by (simp add: put_item_def object_law put_law assoc_put_list_update)

lemma get_put_item_same:
  "GetObjectItem C j k = Some v \<Longrightarrow> GetObjectItem C (put_item C j k w) k = Some w"
  by (simp add: object_law [of "put_item C j k w"] put_item_law)
    (simp add: object_law)

lemma get_put_item_other:
  "GetObjectItem C j k = Some v \<Longrightarrow> \<not> same_key k l \<Longrightarrow>
   GetObjectItem C (put_item C j k w) l = GetObjectItem C j l"
  by (simp add: object_law [of "put_item C j k w"] put_item_law)
    (subst assoc_put_other; auto simp: object_law same_key_def)

lemma get_add_same: "GetObjectItem C j k = None \<Longrightarrow> GetObjectItem C (AddItemToObject C j k v) k = Some v"
  by (simp add: object_law add_object_law assoc_append)

lemma get_add_other:
  "\<not> same_key k l \<Longrightarrow> GetObjectItem C (AddItemToObject C j k v) l = GetObjectItem C j l"
  by (auto simp: object_law add_object_law assoc_append same_key_sym split: option.splits)

lemma get_delete_other:
  "\<not> same_key k l \<Longrightarrow> GetObjectItem C (DeleteItemFromObject C j k) l = GetObjectItem C j l"
  by (simp add: object_law delete_object_law) (subst assoc_delete_other; auto simp: same_key_def)

lemma chain_foldl_add:
  "chain C (foldl (\<lambda>parent (k, v). AddItemToObject C parent k v) j kvs) = chain C j @ kvs"
  by (induction kvs arbitrary: j) (auto simp: add_object_law)

lemma chain_create_object [simp]: "chain C (cjson_create_object C kvs) = kvs"
  by (simp add: cjson_create_object_def chain_foldl_add empty_law)

lemma find_from_spec:
  "find_from C js s i = (if \<exists>j \<in> set js. valuestring C j = s
     then i + int (length (takeWhile (\<lambda>j. valuestring C j \<noteq> s) js)) else - 1)"
  by (induction js arbitrary: i) auto

lemma cjson_delete_from_array_removes:
  "items C (cjson_delete_from_array C arr s) = remove_first (\<lambda>j. valuestring C j = s) (items C arr)"
proof (cases "\<exists>j \<in> set (items C arr). valuestring C j = s")
  case True
  let ?n = "length (takeWhile (\<lambda>j. valuestring C j \<noteq> s) (items C arr))"
  have "?n < length (items C arr)"
    using True by (intro takeWhile_shorter) auto
  then show ?thesis
    using True delete_array_law [of "int ?n" arr] takeWhile_remove_first [OF True]
    by (simp add: cjson_delete_from_array_def cjson_find_in_array_def find_from_spec Let_def items_def)
qed (simp add: cjson_delete_from_array_def cjson_find_in_array_def find_from_spec Let_def)

lemma items_create_list:
  "items C (cjson_create_list C vs) = map the (takeWhile (\<lambda>v. v \<noteq> None) vs)"
proof -
  have "items C (foldl (AddItemToArray C) j ws) = items C j @ ws" for j ws
    by (induction ws arbitrary: j) (simp_all add: add_array_law)
  then show ?thesis by (simp add: items_def empty_law)
qed

lemma create_list_array: "IsArray C (cjson_create_list C vs)"
proof -
  have "IsArray C (foldl (AddItemToArray C) j ws) = IsArray C j" for j ws
    by (induction ws arbitrary: j) (simp_all add: array_kind)
  then show ?thesis by (simp add: array_kind)
qed

lemma cjson_clear_empties: "chain C (cjson_clear C j) = []"
proof -
  have "chain C (cjson_clear_children C kvs j) = []" if "kvs = chain C j" for kvs
    using that
  proof (induction kvs arbitrary: j)
    case (Cons kv kvs)
    then have "chain C (DetachChild C j 0) = kvs" by (subst detach_law) (auto simp: splice_out_def simp flip: Cons.prems)
    with Cons.IH [of "DetachChild C j 0"] show ?case by simp
  qed simp
  then show ?thesis by (simp add: cjson_clear_def)
qed

lemma object_put_item [simp]: "IsObject C (put_item C j k v) = IsObject C j"
  by (simp add: put_item_def object_kind)

end

section \<open>The interface on JSON trees\<close>

text \<open>A node with the fields of \<^verbatim>\<open>struct cJSON\<close>: its type, its number, its string, its children.\<close>

datatype jtype = TNull | TFalse | TTrue | TNumber | TString | TArray | TObject

datatype json = Node (jtype: jtype) (number: rat) (jtext: string) (kids: "(string \<times> json) list")

fun with_kids :: "json \<Rightarrow> ((string \<times> json) list \<Rightarrow> (string \<times> json) list) \<Rightarrow> json" where
  "with_kids (Node t r s kvs) f = Node t r s (f kvs)"

definition jbool :: "bool \<Rightarrow> json" where
  "jbool b = Node (if b then TTrue else TFalse) 0 [] []"

definition jnum :: "rat \<Rightarrow> json" where
  "jnum r = Node TNumber r [] []"

definition jstr :: "string \<Rightarrow> json" where
  "jstr s = Node TString 0 s []"

definition jarr :: "json list \<Rightarrow> json" where
  "jarr js = Node TArray 0 [] (map (Pair []) js)"

definition jobj :: "(string \<times> json) list \<Rightarrow> json" where
  "jobj kvs = Node TObject 0 [] kvs"

definition json_ops :: "json cjson" where
  "json_ops = \<lparr>
     chain = kids,
     put = (\<lambda>j n v. with_kids j (\<lambda>kvs. kvs[n := (fst (kvs ! n), v)])),
     valueint = (\<lambda>j. word_of_int \<lfloor>number j\<rfloor>),
     valuedouble = number,
     valuestring = jtext,
     with_valuedouble = (\<lambda>j r. Node (jtype j) r (jtext j) (kids j)),
     SetNumberValue = (\<lambda>j r. Node (jtype j) r (jtext j) (kids j)),
     IsNull = (\<lambda>j. jtype j = TNull),
     IsBool = (\<lambda>j. jtype j = TFalse \<or> jtype j = TTrue),
     IsTrue = (\<lambda>j. jtype j = TTrue),
     IsNumber = (\<lambda>j. jtype j = TNumber),
     IsString = (\<lambda>j. jtype j = TString),
     IsArray = (\<lambda>j. jtype j = TArray),
     IsObject = (\<lambda>j. jtype j = TObject),
     CreateBool = jbool,
     CreateNumber = jnum,
     CreateString = jstr,
     CreateIntArray = (\<lambda>ns. jarr (map (\<lambda>n. jnum (of_int (sint n))) ns)),
     CreateDoubleArray = (\<lambda>rs. jarr (map jnum rs)),
     CreateArray = jarr [],
     CreateObject = jobj [],
     GetArraySize = (\<lambda>j. int (length (kids j))),
     GetArrayItem = (\<lambda>j i. if 0 \<le> i \<and> i < int (length (kids j)) then Some (snd (kids j ! nat i)) else None),
     AddItemToArray = (\<lambda>j v. with_kids j (\<lambda>kvs. kvs @ [([], v)])),
     InsertItemInArray = (\<lambda>j i v. with_kids j (\<lambda>kvs. take (nat i) kvs @ ([], v) # drop (nat i) kvs)),
     DeleteItemFromArray = (\<lambda>j i. with_kids j (\<lambda>kvs. splice_out kvs (nat i) 1)),
     GetObjectItem = (\<lambda>j k. assoc (same_key k) (kids j)),
     GetObjectItemCS = (\<lambda>j k. assoc ((=) k) (kids j)),
     AddItemToObject = (\<lambda>j k v. with_kids j (\<lambda>kvs. kvs @ [(k, v)])),
     ReplaceItemInObjectCS = (\<lambda>j k v. with_kids j (assoc_put ((=) k) v)),
     DeleteItemFromObject = (\<lambda>j k. with_kids j (assoc_delete (same_key k))),
     DeleteItemFromObjectCS = (\<lambda>j k. with_kids j (assoc_delete ((=) k))),
     DetachChild = (\<lambda>j n. with_kids j (\<lambda>kvs. splice_out kvs n 1))\<rparr>"

lemma kids_with_kids [simp]: "kids (with_kids j f) = f (kids j)"
  by (cases j) simp

lemma jtype_with_kids [simp]: "jtype (with_kids j f) = jtype j"
  by (cases j) simp

lemma splice_out_map: "splice_out (map f xs) i n = map f (splice_out xs i n)"
  by (simp add: splice_out_def take_map drop_map)

lemma floor_signed [simp]: "\<lfloor>signed (n :: 'a::len word) :: rat\<rfloor> = sint n"
  by (metis floor_of_int of_int_sint)

lemmas json_defs = json_ops_def jbool_def jnum_def jstr_def jarr_def jobj_def

interpretation json: cjson_lib json_ops
  by unfold_locales
    (auto simp: json_defs items_def take_map drop_map splice_out_map comp_def of_int_sint)

text \<open>The operations one by one, for evaluation.\<close>

lemma json_ops_sel:
  "chain json_ops j = kids j" "GetObjectItemCS json_ops j k = assoc ((=) k) (kids j)"
  "GetArraySize json_ops j = int (length (kids j))"
  "GetArrayItem json_ops j i = (if 0 \<le> i \<and> i < int (length (kids j)) then Some (snd (kids j ! nat i)) else None)"
  "IsNumber json_ops j = (jtype j = TNumber)" "IsString json_ops j = (jtype j = TString)"
  "IsTrue json_ops j = (jtype j = TTrue)" "IsNull json_ops j = (jtype j = TNull)"
  "valuedouble json_ops j = number j" "valuestring json_ops j = jtext j"
  "put json_ops j n v = with_kids j (\<lambda>kvs. kvs[n := (fst (kvs ! n), v)])"
  "with_valuedouble json_ops j r = Node (jtype j) r (jtext j) (kids j)"
  "SetNumberValue json_ops j r = Node (jtype j) r (jtext j) (kids j)"
  "AddItemToObject json_ops j k v = with_kids j (\<lambda>kvs. kvs @ [(k, v)])"
  "CreateNumber json_ops r = jnum r" "CreateString json_ops s = jstr s" "CreateObject json_ops = jobj []"
  "DetachChild json_ops j n = with_kids j (\<lambda>kvs. splice_out kvs n 1)"
  by (simp_all add: json_ops_def)

lemma json_node_sel:
  "jtype (jnum r) = TNumber" "number (jnum r) = r" "kids (jnum r) = []"
  "jtype (jstr s) = TString" "jtext (jstr s) = s" "kids (jstr s) = []"
  "jtype (jobj kvs) = TObject" "kids (jobj kvs) = kvs" "jtype (jarr js) = TArray" "kids (jarr js) = map (Pair []) js"
  "jtype (jbool b) = (if b then TTrue else TFalse)"
  by (simp_all add: jnum_def jstr_def jobj_def jarr_def jbool_def)

lemmas json_eval = json_ops_sel json_node_sel

end
