(* ===== verification/Ranges.thy ===== *)
theory Ranges
  imports Cjson
begin

text \<open>
  The byte ranges of an asset that have arrived: the first part of \<^verbatim>\<open>src/assetstore.c\<close>, from
  \<open>_first\<close> to \<open>_merge_range\<close>. A JSON array of two-element integer arrays holds the ranges, both
  ends inclusive. \<open>None\<close> stands for a failed assertion or the dereference of a null pointer.
  The second half of the theory reads the array as a list of pairs of numbers and shows that
  the code keeps it sorted and apart and that it covers what has been merged.
\<close>

section \<open>The code\<close>

definition first_of :: "'j cjson \<Rightarrow> 'j \<Rightarrow> size_t option" where
  "first_of C r = map_option (\<lambda>x. scast (valueint C x)) (GetArrayItem C r 0)"

definition last_of :: "'j cjson \<Rightarrow> 'j \<Rightarrow> size_t option" where
  "last_of C r = map_option (\<lambda>x. scast (valueint C x)) (GetArrayItem C r 1)"

text \<open>
  \<open>_missing_ranges\<close>: the loop over the ranges, with the variables \<open>low\<close> and \<open>count\<close> and the
  array \<open>out_ranges\<close> as the list of what has been stored in it (it is not stored when the
  caller passes \<open>NULL\<close>). The count is returned as an \<open>int\<close>.
\<close>

fun missing_from ::
  "'j cjson \<Rightarrow> size_t \<Rightarrow> size_t \<Rightarrow> 'j list \<Rightarrow> size_t \<Rightarrow> size_t \<Rightarrow> size_t list \<Rightarrow> (size_t \<times> size_t list) option"
where
  "missing_from C total_size count_max [] low count out =
     Some (if low < total_size \<and> count < count_max then (count + 1, out @ [low, total_size]) else (count, out))"
| "missing_from C total_size count_max (r # rs) low count out =
     (if count_max \<le> count then Some (count, out)
      else case (first_of C r, last_of C r) of
             (Some f, Some l) \<Rightarrow>
               if low < f then missing_from C total_size count_max rs (l + 1) (count + 1) (out @ [low, f - 1])
               else missing_from C total_size count_max rs (l + 1) count out
           | _ \<Rightarrow> None)"

definition missing_ranges :: "'j cjson \<Rightarrow> 'j \<Rightarrow> size_t \<Rightarrow> size_t \<Rightarrow> (i32 \<times> size_t list) option" where
  "missing_ranges C ranges total_size count_max =
     (if count_max = 0 then Some (0, [])
      else map_option (\<lambda>(count, out). (ucast count, out))
             (missing_from C total_size count_max (items C ranges) 0 0 []))"

text \<open>\<open>__missing_ranges_count\<close>: \<open>ULONG_MAX\<close> ranges at most, and the \<open>int\<close> widened again.\<close>

definition missing_ranges_count :: "'j cjson \<Rightarrow> 'j \<Rightarrow> size_t \<Rightarrow> size_t option" where
  "missing_ranges_count C ranges total_size =
     map_option (\<lambda>(count, out). scast count) (missing_ranges C ranges total_size (- 1))"

text \<open>
  The binary search of \<open>_merge_range\<close> for the place of a range that begins at \<open>start\<close>; \<open>i\<close> is
  the last index probed and \<open>v\<close> the begin of the range there.
\<close>

function find_slot ::
  "'j cjson \<Rightarrow> 'j \<Rightarrow> size_t \<Rightarrow> int \<Rightarrow> int \<Rightarrow> int \<times> size_t \<Rightarrow> (int \<times> size_t) option" where
  "find_slot C ranges start low high iv =
     (if low \<le> high
      then let i = (low + high) div 2
           in case GetArrayItem C ranges i of
                None \<Rightarrow> None
              | Some r \<Rightarrow>
                  (case first_of C r of
                     None \<Rightarrow> None
                   | Some v \<Rightarrow>
                       if v < start then find_slot C ranges start (i + 1) high (i, v)
                       else if start < v then find_slot C ranges start low (i - 1) (i, v)
                       else Some (i, v))
      else Some iv)"
  by pat_completeness auto
termination
  by (relation "measure (\<lambda>(C, ranges, start, low, high, iv). nat (high + 1 - low))") auto

declare find_slot.simps [simp del]

text \<open>Merging everything that meets the new range on its right.\<close>

partial_function (option) merge_right ::
  "'j cjson \<Rightarrow> int \<Rightarrow> size_t \<Rightarrow> size_t \<Rightarrow> 'j \<Rightarrow> (size_t \<times> size_t \<times> 'j) option" where
  "merge_right C i start fin ranges =
     (case GetArrayItem C ranges i of
        None \<Rightarrow> Some (start, fin, ranges)
      | Some r \<Rightarrow>
          (case first_of C r of
             None \<Rightarrow> None
           | Some f \<Rightarrow>
               (case last_of C r of
                  None \<Rightarrow> None
                | Some l \<Rightarrow>
                    if f - 1 \<le> fin \<and> start \<le> l + 1
                    then merge_right C i (if start < f then start else f) (if l < fin then fin else l)
                           (DeleteItemFromArray C ranges i)
                    else Some (start, fin, ranges))))"

text \<open>The one range on the left that may meet it, then the insertion.\<close>

definition merge_left ::
  "'j cjson \<Rightarrow> int \<Rightarrow> size_t \<Rightarrow> size_t \<Rightarrow> 'j \<Rightarrow> (int \<times> size_t \<times> size_t \<times> 'j) option" where
  "merge_left C i start fin ranges =
     (case (if 0 < i then GetArrayItem C ranges (i - 1) else None) of
        None \<Rightarrow> Some (i, start, fin, ranges)
      | Some r \<Rightarrow>
          (case (first_of C r, last_of C r) of
             (Some f, Some l) \<Rightarrow>
               if start \<le> l + 1
               then Some (i - 1, if start < f then start else f, if l < fin then fin else l,
                          DeleteItemFromArray C ranges (i - 1))
               else Some (i, start, fin, ranges)
           | _ \<Rightarrow> None))"

definition merge_range :: "'j cjson \<Rightarrow> 'j \<Rightarrow> size_t \<Rightarrow> size_t \<Rightarrow> 'j option" where
  "merge_range C ranges start fin =
     (if fin < start then None
      else if GetArraySize C ranges = 0
      then Some (AddItemToArray C ranges (CreateIntArray C [ucast start, ucast fin]))
      else case find_slot C ranges start 0 (GetArraySize C ranges - 1) (0, 0) of
             None \<Rightarrow> None
           | Some (i, v) \<Rightarrow>
               (let i = (if v \<le> start then i + 1 else i)
                in case merge_right C i start fin ranges of
                     None \<Rightarrow> None
                   | Some (start, fin, ranges) \<Rightarrow>
                       (case merge_left C i start fin ranges of
                          None \<Rightarrow> None
                        | Some (i, start, fin, ranges) \<Rightarrow>
                            Some (InsertItemInArray C ranges i (CreateIntArray C [ucast start, ucast fin])))))"

section \<open>Ranges as pairs of numbers\<close>

definition apart :: "(nat \<times> nat) list \<Rightarrow> bool" where
  "apart xs \<longleftrightarrow> sorted_wrt (\<lambda>x y. snd x + 1 < fst y) xs \<and> (\<forall>x \<in> set xs. fst x \<le> snd x)"

definition covered :: "(nat \<times> nat) list \<Rightarrow> nat set" where
  "covered xs = (\<Union>x \<in> set xs. {fst x .. snd x})"

fun absorb :: "nat \<Rightarrow> (nat \<times> nat) list \<Rightarrow> nat \<times> (nat \<times> nat) list" where
  "absorb e [] = (e, [])"
| "absorb e (x # xs) = (if fst x \<le> e + 1 then absorb (max e (snd x)) xs else (e, x # xs))"

definition add_left :: "nat \<Rightarrow> nat \<Rightarrow> (nat \<times> nat) list \<Rightarrow> (nat \<times> nat) list" where
  "add_left s e xs =
     (if xs \<noteq> [] \<and> s \<le> snd (last xs) + 1
      then butlast xs @ [(min s (fst (last xs)), max e (snd (last xs)))] else xs @ [(s, e)])"

definition merge_pairs :: "nat \<Rightarrow> nat \<Rightarrow> (nat \<times> nat) list \<Rightarrow> (nat \<times> nat) list" where
  "merge_pairs s e xs =
     (case absorb e (dropWhile (\<lambda>x. fst x \<le> s) xs) of
        (e', ys) \<Rightarrow> add_left s e' (takeWhile (\<lambda>x. fst x \<le> s) xs) @ ys)"

lemma covered_simps [simp]:
  "covered [] = {}" "covered (x # xs) = {fst x .. snd x} \<union> covered xs"
  "covered (xs @ ys) = covered xs \<union> covered ys"
  by (auto simp: covered_def)

lemma apart_append:
  "apart (xs @ ys) \<longleftrightarrow> apart xs \<and> apart ys \<and> (\<forall>x \<in> set xs. \<forall>y \<in> set ys. snd x + 1 < fst y)"
  by (auto simp: apart_def sorted_wrt_append)

lemma apart_Cons:
  "apart (x # xs) \<longleftrightarrow> fst x \<le> snd x \<and> apart xs \<and> (\<forall>y \<in> set xs. snd x + 1 < fst y)"
  by (auto simp: apart_def)

lemma apart_Nil [simp]: "apart []"
  by (simp add: apart_def)

lemma absorb_spec:
  assumes "apart xs" and "\<forall>x \<in> set xs. s < fst x" and "s \<le> e" and "absorb e xs = (e', ys)"
  shows "e \<le> e' \<and> apart ys \<and> set ys \<subseteq> set xs \<and> (\<forall>y \<in> set ys. e' + 1 < fst y) \<and>
    {s .. e} \<union> covered xs = {s .. e'} \<union> covered ys"
  using assms
proof (induction e xs rule: absorb.induct)
  case (1 e)
  then show ?case by simp
next
  case (2 e x xs)
  show ?case
  proof (cases "fst x \<le> e + 1")
    case True
    moreover from 2(4) have "s \<le> max e (snd x)" by simp
    ultimately have ih: "max e (snd x) \<le> e' \<and> apart ys \<and> set ys \<subseteq> set xs \<and> (\<forall>y \<in> set ys. e' + 1 < fst y) \<and>
      {s .. max e (snd x)} \<union> covered xs = {s .. e'} \<union> covered ys"
      using 2 by (simp add: apart_Cons)
    have "{s .. e} \<union> {fst x .. snd x} = {s .. max e (snd x)}"
      using 2 True by (auto simp: apart_Cons)
    then have "{s .. e} \<union> covered (x # xs) = {s .. max e (snd x)} \<union> covered xs" by auto
    with ih show ?thesis by auto
  next
    case False
    with 2 show ?thesis by (fastforce simp: apart_Cons)
  qed
qed

lemma merge_pairs_apart:
  assumes "apart xs" and "s \<le> e"
  shows "apart (merge_pairs s e xs)" and "covered (merge_pairs s e xs) = covered xs \<union> {s .. e}"
proof -
  let ?L = "takeWhile (\<lambda>x. fst x \<le> s) xs" and ?R = "dropWhile (\<lambda>x. fst x \<le> s) xs"
  obtain e' ys where ab: "absorb e ?R = (e', ys)" by fastforce
  have LR: "apart ?L \<and> apart ?R \<and> (\<forall>x \<in> set ?L. \<forall>y \<in> set ?R. snd x + 1 < fst y)"
    using assms(1) apart_append [of ?L ?R] by simp
  have Rs: "\<forall>y \<in> set ?R. s < fst y"
  proof
    fix y assume y: "y \<in> set ?R"
    then obtain z zs where zs: "?R = z # zs" by (cases ?R) auto
    then have "\<not> fst z \<le> s" by (metis hd_dropWhile list.distinct(1) list.sel(1))
    moreover have "fst z \<le> fst y" using LR y zs by (auto simp: apart_Cons)
    ultimately show "s < fst y" by simp
  qed
  from absorb_spec [OF _ Rs assms(2) ab] LR
  have sp: "e \<le> e'" "apart ys" "set ys \<subseteq> set ?R" "\<forall>y \<in> set ys. e' + 1 < fst y"
    and cov: "{s .. e} \<union> covered ?R = {s .. e'} \<union> covered ys" by auto
  have Lys: "\<forall>x \<in> set ?L. \<forall>y \<in> set ys. snd x + 1 < fst y" using LR sp(3) by blast
  have xs: "covered xs = covered ?L \<union> covered ?R" by (metis covered_simps(3) takeWhile_dropWhile_id)
  have eq: "merge_pairs s e xs = add_left s e' ?L @ ys" by (simp add: merge_pairs_def ab)
  have "apart (merge_pairs s e xs) \<and> covered (merge_pairs s e xs) = covered xs \<union> {s .. e}"
  proof (cases "?L \<noteq> [] \<and> s \<le> snd (last ?L) + 1")
    case True
    then obtain zs z where L: "?L = zs @ [z]" by (metis append_butlast_last_id)
    have zs: "fst z \<le> s" using L set_takeWhileD [of z "\<lambda>x. fst x \<le> s" xs] by simp
    from True L have sz: "s \<le> snd z + 1" by simp
    have "add_left s e' ?L = zs @ [(fst z, max e' (snd z))]"
      using sz zs by (simp add: add_left_def L)
    moreover have "{fst z .. snd z} \<union> {s .. e'} = {fst z .. max e' (snd z)}"
      using zs sz sp(1) assms(2) LR L by (auto simp: apart_append apart_Cons)
    moreover have "\<forall>y \<in> set ys. max e' (snd z) + 1 < fst y"
    proof
      fix y assume "y \<in> set ys"
      with sp(3,4) LR L have "snd z + 1 < fst y" "e' + 1 < fst y" by auto
      then show "max e' (snd z) + 1 < fst y" by simp
    qed
    moreover have "\<forall>x \<in> set zs. \<forall>y \<in> set ys. snd x + 1 < fst y" using Lys L by simp
    moreover have "apart zs" "\<forall>x \<in> set zs. snd x + 1 < fst z" "fst z \<le> snd z"
      using LR L by (auto simp: apart_append apart_Cons)
    moreover have "{s .. e} \<subseteq> {s .. e'}" using sp(1) by auto
    ultimately show ?thesis
      using L sp(2) xs cov zs unfolding eq by (auto simp: apart_append apart_Cons le_max_iff_disj)
  next
    case False
    then have add: "add_left s e' ?L = ?L @ [(s, e')]" by (auto simp: add_left_def)
    have "\<forall>x \<in> set ?L. snd x + 1 < s"
    proof
      fix x assume x: "x \<in> set ?L"
      then obtain zs z where L: "?L = zs @ [z]" by (metis append_butlast_last_id empty_iff empty_set)
      with False have "snd z + 1 < s" by simp
      moreover have "x = z \<or> snd x + 1 < fst z \<and> fst z \<le> snd z"
        using x L LR by (auto simp: apart_append apart_Cons)
      ultimately show "snd x + 1 < s" by auto
    qed
    with Lys show ?thesis
      using LR sp(1,2,4) xs cov assms(2) unfolding eq add by (auto simp: apart_append apart_Cons)
  qed
  then show "apart (merge_pairs s e xs)" "covered (merge_pairs s e xs) = covered xs \<union> {s .. e}" by auto
qed

section \<open>The code computes on the pairs\<close>

definition range_ok :: "'j cjson \<Rightarrow> 'j \<Rightarrow> bool" where
  "range_ok C r \<longleftrightarrow> (case (first_of C r, last_of C r) of
     (Some f, Some l) \<Rightarrow> unat f < 2147483648 \<and> unat l < 2147483648 | _ \<Rightarrow> False)"

definition ranges_ok :: "'j cjson \<Rightarrow> 'j \<Rightarrow> bool" where
  "ranges_ok C ranges \<longleftrightarrow> IsArray C ranges \<and> (\<forall>r \<in> set (items C ranges). range_ok C r)"

definition pair_of :: "'j cjson \<Rightarrow> 'j \<Rightarrow> nat \<times> nat" where
  "pair_of C r = (unat (the (first_of C r)), unat (the (last_of C r)))"

definition pairs :: "'j cjson \<Rightarrow> 'j \<Rightarrow> (nat \<times> nat) list" where
  "pairs C ranges = map (pair_of C) (items C ranges)"

lemma range_okE:
  assumes "range_ok C r"
  obtains f l where "first_of C r = Some f" "last_of C r = Some l" "pair_of C r = (unat f, unat l)"
    "unat f < 2147483648" "unat l < 2147483648"
  using assms by (auto simp: range_ok_def pair_of_def split: option.splits)

text \<open>A strictly sorted list of begins, and the slot of a new one.\<close>

lemma sorted_slot:
  assumes "apart xs" and "k < length xs"
  shows "fst (xs ! k) \<le> s \<longleftrightarrow> k < length (takeWhile (\<lambda>x. fst x \<le> s) xs)"
proof
  let ?p = "length (takeWhile (\<lambda>x. fst x \<le> s) xs)"
  assume "k < ?p"
  then show "fst (xs ! k) \<le> s" by (metis nth_mem set_takeWhileD takeWhile_nth)
next
  let ?p = "length (takeWhile (\<lambda>x. fst x \<le> s) xs)"
  assume le: "fst (xs ! k) \<le> s"
  show "k < ?p"
  proof (rule ccontr)
    assume "\<not> k < ?p"
    then have p: "?p \<le> k" "?p < length xs" using assms(2) by auto
    then have "s < fst (xs ! ?p)" using nth_length_takeWhile [of "\<lambda>x. fst x \<le> s" xs] by simp
    moreover have "fst (xs ! ?p) \<le> fst (xs ! k)"
    proof (cases "?p = k")
      case False
      with p assms have "snd (xs ! ?p) + 1 < fst (xs ! k)" "fst (xs ! ?p) \<le> snd (xs ! ?p)"
        by (auto simp: apart_def sorted_wrt_iff_nth_less)
      then show ?thesis by simp
    qed simp
    ultimately show False using le by simp
  qed
qed

text \<open>
  The gaps the code reports: inclusive pairs before each range, then from the end of the last
  range up to the total size, which is not a byte of the asset.
\<close>

fun gaps :: "nat \<Rightarrow> nat \<Rightarrow> (nat \<times> nat) list \<Rightarrow> (nat \<times> nat) list" where
  "gaps tot low [] = (if low < tot then [(low, tot)] else [])"
| "gaps tot low (x # xs) = (if low < fst x then [(low, fst x - 1)] else []) @ gaps tot (snd x + 1) xs"

definition flat :: "(nat \<times> nat) list \<Rightarrow> size_t list" where
  "flat g = concat (map (\<lambda>x. [word_of_nat (fst x), word_of_nat (snd x)]) g)"

lemma length_gaps: "length (gaps tot low xs) \<le> Suc (length xs)"
  by (induction xs arbitrary: low) (auto intro: le_SucI)

lemma gaps_cover:
  assumes "apart xs" and "\<forall>x \<in> set xs. low \<le> fst x"
  shows "covered (gaps tot low xs) \<subseteq> {low ..} \<and>
    covered (gaps tot low xs) \<inter> {low ..< tot} = {low ..< tot} - covered xs"
  using assms
proof (induction xs arbitrary: low)
  case (Cons x xs)
  have x: "fst x \<le> snd x" "low \<le> fst x" using Cons.prems by (auto simp: apart_Cons)
  let ?G = "covered (gaps tot (snd x + 1) xs)"
  have above: "?G \<subseteq> {snd x + 1 ..}" and ih: "?G \<inter> {snd x + 1 ..< tot} = {snd x + 1 ..< tot} - covered xs"
  proof -
    have "\<forall>y \<in> set xs. snd x + 1 \<le> fst y" "apart xs" using Cons.prems by (auto simp: apart_Cons)
    with Cons.IH [of "snd x + 1"] show "?G \<subseteq> {snd x + 1 ..}"
      "?G \<inter> {snd x + 1 ..< tot} = {snd x + 1 ..< tot} - covered xs" by blast+
  qed
  have far: "covered xs \<inter> {.. snd x} = {}"
    using Cons.prems by (fastforce simp: apart_Cons covered_def)
  have split: "{low ..< tot} \<inter> {snd x + 1 ..} = {snd x + 1 ..< tot}" using x by auto
  have "?G \<inter> {low ..< tot} = {snd x + 1 ..< tot} - covered xs"
    using above ih split by blast
  moreover have "{low ..< tot} - covered (x # xs) =
    ({low ..< fst x} \<inter> {low ..< tot}) \<union> ({snd x + 1 ..< tot} - covered xs)"
    using x far by auto
  moreover have "covered (if low < fst x then [(low, fst x - 1)] else []) = {low ..< fst x}" by auto
  ultimately have "covered (gaps tot low (x # xs)) \<inter> {low ..< tot} = {low ..< tot} - covered (x # xs)"
    by (simp only: gaps.simps covered_simps(3) Int_Un_distrib2)
  then show ?case using above x by auto
qed auto

lemma ucast_of_nat_32: "ucast (word_of_nat k :: size_t) = (word_of_nat k :: i32)"
  by (simp add: unsigned_of_nat word_of_nat_eq_iff)

lemma unat_count: "c \<le> unat (m :: size_t) \<Longrightarrow> unat (word_of_nat c :: size_t) = c"
  using unat_less_2_64 [of m] by (intro unat_of_nat_64) linarith

context cjson_lib
begin

lemma create_range:
  assumes "unat (s :: size_t) < 2147483648" and "unat (e :: size_t) < 2147483648"
  shows "range_ok C (CreateIntArray C [ucast s, ucast e])"
    and "pair_of C (CreateIntArray C [ucast s, ucast e]) = (unat s, unat e)"
proof -
  let ?r = "CreateIntArray C [ucast s, ucast e]"
  have l: "map (valueint C) (items C ?r) = [ucast s, ucast e]" by (rule int_array_law)
  then have "length (items C ?r) = 2" by (metis length_map list.size(3) list.size(4) One_nat_def Suc_1 add.right_neutral add_Suc_right)
  moreover have "valueint C (items C ?r ! 0) = ucast s" "valueint C (items C ?r ! 1) = ucast e"
    using l by auto
  ultimately have "first_of C ?r = Some s" "last_of C ?r = Some e"
    using assms by (simp_all add: first_of_def last_of_def item_law scast_ucast_small)
  with assms show "range_ok C ?r" "pair_of C ?r = (unat s, unat e)"
    by (simp_all add: range_ok_def pair_of_def)
qed

lemma item_range:
  assumes "ranges_ok C rs" and "0 \<le> i" and "i < int (length (pairs C rs))"
  obtains r f l where "GetArrayItem C rs i = Some r" "first_of C r = Some f" "last_of C r = Some l"
    "pairs C rs ! nat i = (unat f, unat l)" "unat f < 2147483648" "unat l < 2147483648"
proof -
  let ?r = "items C rs ! nat i"
  have n: "nat i < length (items C rs)" using assms by (simp add: pairs_def nat_less_iff)
  then have "range_ok C ?r" using assms by (simp add: ranges_ok_def)
  then obtain f l where "first_of C ?r = Some f" "last_of C ?r = Some l" "pair_of C ?r = (unat f, unat l)"
    "unat f < 2147483648" "unat l < 2147483648" by (rule range_okE)
  moreover have "GetArrayItem C rs i = Some ?r" using assms by (simp add: item_law pairs_def)
  ultimately show thesis using that n by (simp add: pairs_def)
qed

lemma find_slot_finds:
  assumes "ranges_ok C rs" and "apart (pairs C rs)"
    and "p = length (takeWhile (\<lambda>x. fst x \<le> unat start) (pairs C rs))"
    and "0 \<le> low" and "low \<le> high + 1" and "high < int (length (pairs C rs))"
    and "low \<le> int p" and "int p \<le> high + 1"
    and "low \<le> high \<or> (if snd iv \<le> start then fst iv + 1 else fst iv) = int p"
  shows "\<exists>i v. find_slot C rs start low high iv = Some (i, v) \<and>
           (if v \<le> start then i + 1 else i) = int p"
  using assms(4-)
proof (induction "nat (high + 1 - low)" arbitrary: low high iv rule: less_induct)
  case less
  show ?case
  proof (cases "low \<le> high")
    case True
    define i where "i = (low + high) div 2"
    have i: "low \<le> i" "i \<le> high" using True by (auto simp: i_def)
    obtain r f and l :: size_t where r: "GetArrayItem C rs i = Some r" "first_of C r = Some f"
      "pairs C rs ! nat i = (unat f, unat l)"
    proof (rule item_range [OF assms(1), of i])
      show "0 \<le> i" "i < int (length (pairs C rs))" using i less.prems by auto
    qed blast
    have slot: "f \<le> start \<longleftrightarrow> i < int p"
      using sorted_slot [OF assms(2), of "nat i" "unat start"] i less.prems r(3) assms(3)
      by (simp add: word_le_nat_alt nat_less_iff)
    have eq: "find_slot C rs start low high iv =
      (if f < start then find_slot C rs start (i + 1) high (i, f)
       else if start < f then find_slot C rs start low (i - 1) (i, f) else Some (i, f))"
      using True r by (subst find_slot.simps) (simp add: i_def Let_def)
    consider "f < start" | "start < f" | "f = start" by fastforce
    then show ?thesis
    proof cases
      case 1
      then have eq1: "find_slot C rs start low high iv = find_slot C rs start (i + 1) high (i, f)"
        using eq by simp
      show ?thesis unfolding eq1 by (rule less.hyps) (use 1 i slot less.prems in auto)
    next
      case 2
      then have eq1: "find_slot C rs start low high iv = find_slot C rs start low (i - 1) (i, f)"
        using eq by (simp add: less_not_sym)
      show ?thesis unfolding eq1 by (rule less.hyps) (use 2 i slot less.prems in \<open>auto simp: not_le\<close>)
    next
      case 3
      have "int p \<le> i + 1"
      proof (rule ccontr)
        assume "\<not> int p \<le> i + 1"
        then have lt: "nat (i + 1) < p" "nat i < p" using i less.prems by auto
        then have len: "nat (i + 1) < length (pairs C rs)"
          using assms(3) length_takeWhile_le [of "\<lambda>x. fst x \<le> unat start" "pairs C rs"] by linarith
        then have "fst (pairs C rs ! nat (i + 1)) \<le> unat start"
          using sorted_slot [OF assms(2)] lt assms(3) by simp
        moreover have "snd (pairs C rs ! nat i) + 1 < fst (pairs C rs ! nat (i + 1))"
          "fst (pairs C rs ! nat i) \<le> snd (pairs C rs ! nat i)"
          using assms(2) len i less.prems by (auto simp: apart_def sorted_wrt_iff_nth_less)
        ultimately show False using r(3) 3 by simp
      qed
      then show ?thesis using 3 slot eq by simp
    qed
  next
    case False
    then have eq: "find_slot C rs start low high iv = Some iv" by (subst find_slot.simps) simp
    obtain i v where iv: "iv = (i, v)" by fastforce
    from False less.prems have "(if v \<le> start then i + 1 else i) = int p"
      unfolding iv fst_conv snd_conv by argo
    then show ?thesis unfolding eq unfolding iv by blast
  qed
qed

lemma merge_right_absorbs:
  assumes "IsArray C rs" and "items C rs = L @ R" and "length L = nat i" and "0 \<le> i"
    and "\<forall>r \<in> set R. range_ok C r \<and> unat start < fst (pair_of C r) \<and> fst (pair_of C r) \<le> snd (pair_of C r)"
    and "unat fin < 2147483648"
  shows "\<exists>fin' rs' R'. merge_right C i start fin rs = Some (start, fin', rs') \<and>
    absorb (unat fin) (map (pair_of C) R) = (unat fin', map (pair_of C) R') \<and>
    items C rs' = L @ R' \<and> IsArray C rs' \<and> set R' \<subseteq> set R \<and> unat fin' < 2147483648"
  using assms
proof (induction R arbitrary: rs fin)
  case Nil
  then have "GetArrayItem C rs i = None" by (simp add: item_law flip: length_items)
  then have eq: "merge_right C i start fin rs = Some (start, fin, rs)"
    by (subst merge_right.simps) simp
  show ?case using Nil by (intro exI [of _ fin] exI [of _ rs] exI [of _ "[]"]) (simp add: eq)
next
  case (Cons r R)
  then have get: "GetArrayItem C rs i = Some r"
    by (simp add: item_law nth_append flip: length_items)
  from Cons.prems obtain f l where r: "first_of C r = Some f" "last_of C r = Some l"
    "pair_of C r = (unat f, unat l)" "unat f < 2147483648" "unat l < 2147483648"
    by (auto elim: range_okE)
  with Cons.prems have lt: "unat start < unat f" "unat f \<le> unat l" by auto
  then have sl: "start < f" "start \<le> l + 1" and f1: "unat (f - 1) = unat f - 1"
    using r by (auto simp: word_less_nat_alt word_le_nat_alt unat_plus_small unat_minus_small)
  have meet: "f - 1 \<le> fin \<longleftrightarrow> unat f \<le> unat fin + 1"
    using lt by (simp add: word_le_nat_alt f1) linarith
  show ?case
  proof (cases "f - 1 \<le> fin")
    case False
    then have eq: "merge_right C i start fin rs = Some (start, fin, rs)"
      using get r by (subst merge_right.simps) simp
    show ?thesis using False meet Cons.prems r
      by (intro exI [of _ fin] exI [of _ rs] exI [of _ "r # R"]) (simp add: eq)
  next
    case True
    let ?rs = "DeleteItemFromArray C rs i" and ?fin = "if l < fin then fin else l"
    have ufin: "unat ?fin = max (unat fin) (unat l)" by (auto simp: word_less_nat_alt)
    have eq: "merge_right C i start fin rs = merge_right C i start ?fin ?rs"
      using get r True sl by (subst merge_right.simps) simp
    have "i < int (length (chain C rs))" using Cons.prems by (simp flip: length_items)
    then have items: "items C ?rs = L @ R"
      using Cons.prems(2-4) delete_array_law [of i rs] by (simp flip: Cons.prems(3))
    obtain fin' rs' R' where step: "merge_right C i start ?fin ?rs = Some (start, fin', rs')"
      "absorb (unat ?fin) (map (pair_of C) R) = (unat fin', map (pair_of C) R')"
      "items C rs' = L @ R'" "IsArray C rs'" "set R' \<subseteq> set R" "unat fin' < 2147483648"
    proof -
      have "IsArray C ?rs" "unat ?fin < 2147483648" using Cons.prems r by (simp_all add: array_kind)
      moreover have "\<forall>r \<in> set R. range_ok C r \<and> unat start < fst (pair_of C r) \<and>
        fst (pair_of C r) \<le> snd (pair_of C r)" using Cons.prems(5) by simp
      ultimately show thesis using Cons.IH [OF _ items Cons.prems(3,4)] that by blast
    qed
    have "absorb (unat fin) (map (pair_of C) (r # R)) = (unat fin', map (pair_of C) R')"
      using step(2) True meet r by (simp add: ufin)
    with step eq show ?thesis by auto
  qed
qed

lemma merge_left_inserts:
  assumes "IsArray C rs" and "items C rs = L @ R" and "length L = nat i" and "0 \<le> i"
    and "\<forall>r \<in> set L. range_ok C r" and "unat start < 2147483648" and "unat fin < 2147483648"
  shows "\<exists>i' s' e' rs' L'. merge_left C i start fin rs = Some (i', s', e', rs') \<and>
    0 \<le> i' \<and> length L' = nat i' \<and> items C rs' = L' @ R \<and> IsArray C rs' \<and> set L' \<subseteq> set L \<and>
    unat s' < 2147483648 \<and> unat e' < 2147483648 \<and>
    add_left (unat start) (unat fin) (map (pair_of C) L) = map (pair_of C) L' @ [(unat s', unat e')]"
proof (cases L rule: rev_cases)
  case Nil
  with assms have eq: "merge_left C i start fin rs = Some (i, start, fin, rs)"
    by (simp add: merge_left_def)
  with Nil assms show ?thesis by (simp add: add_left_def)
next
  case (snoc K r)
  then have i: "0 < i" "nat (i - 1) = length K" "0 \<le> i - 1" "i - 1 < int (length (chain C rs))"
    using assms by (auto simp flip: length_items)
  then have get: "GetArrayItem C rs (i - 1) = Some r"
    using assms snoc by (simp add: item_law nth_append)
  obtain f l where r: "first_of C r = Some f" "last_of C r = Some l"
    "pair_of C r = (unat f, unat l)" "unat f < 2147483648" "unat l < 2147483648"
    using assms snoc by (auto elim: range_okE)
  have meet: "start \<le> l + 1 \<longleftrightarrow> unat start \<le> unat l + 1"
    using r by (simp add: word_le_nat_alt unat_plus_small)
  show ?thesis
  proof (cases "start \<le> l + 1")
    case False
    with get r i have "merge_left C i start fin rs = Some (i, start, fin, rs)"
      by (simp add: merge_left_def)
    with False meet r snoc assms show ?thesis by (simp add: add_left_def)
  next
    case True
    let ?s = "if start < f then start else f" and ?e = "if l < fin then fin else l"
    let ?rs = "DeleteItemFromArray C rs (i - 1)"
    have se: "unat ?s = min (unat start) (unat f)" "unat ?e = max (unat fin) (unat l)"
      by (auto simp: word_less_nat_alt)
    have eq: "merge_left C i start fin rs = Some (i - 1, ?s, ?e, ?rs)"
      using True get r i by (simp add: merge_left_def)
    have "items C ?rs = K @ R"
      using delete_array_law [OF i(3,4)] assms(2) snoc i(2) by simp
    moreover have "add_left (unat start) (unat fin) (map (pair_of C) L) =
        map (pair_of C) K @ [(unat ?s, unat ?e)]"
      using True meet r snoc by (simp add: add_left_def se)
    moreover have "unat ?s < 2147483648" "unat ?e < 2147483648" using assms(6,7) r by simp_all
    moreover have "set K \<subseteq> set L" using snoc by auto
    moreover have "IsArray C ?rs" using assms(1) by (simp add: array_kind)
    ultimately show ?thesis using eq i(2,3) by metis
  qed
qed

lemma merge_range_pairs:
  assumes ok: "ranges_ok C rs" and ap: "apart (pairs C rs)"
    and le: "start \<le> fin" and b: "unat fin < 2147483648"
  shows "\<exists>rs'. merge_range C rs start fin = Some rs' \<and> ranges_ok C rs' \<and>
    pairs C rs' = merge_pairs (unat start) (unat fin) (pairs C rs)"
proof -
  have bs: "unat start < 2147483648" using le b by (simp add: word_le_nat_alt)
  have arr: "IsArray C rs" and each: "\<forall>r \<in> set (items C rs). range_ok C r"
    using ok by (auto simp: ranges_ok_def)
  let ?P = "\<lambda>x. fst x \<le> unat start"
  define p where "p = length (takeWhile ?P (pairs C rs))"
  have new: "range_ok C (CreateIntArray C [ucast s, ucast e])"
    "pair_of C (CreateIntArray C [ucast s, ucast e]) = (unat s, unat e)"
    if "unat s < 2147483648" "unat e < 2147483648" for s e :: size_t
    using create_range that by auto
  show ?thesis
  proof (cases "chain C rs")
    case Nil
    then have "items C rs = []" by (simp add: items_def)
    with new [OF bs b] arr le Nil show ?thesis
      by (auto simp: merge_range_def size_law ranges_ok_def pairs_def add_array_law array_kind
          merge_pairs_def add_left_def not_less)
  next
    case Cons
    define n where "n = length (items C rs)"
    have n: "0 < n" "GetArraySize C rs = int n" using Cons by (simp_all add: n_def size_law)
    have pn: "p \<le> n" using length_takeWhile_le [of ?P "pairs C rs"] by (simp add: p_def n_def pairs_def)
    obtain i v where slot: "find_slot C rs start 0 (int n - 1) (0, 0) = Some (i, v)"
      "(if v \<le> start then i + 1 else i) = int p"
      using find_slot_finds [OF ok ap p_def, of 0 "int n - 1" "(0, 0)"] n pn
      by (auto simp: pairs_def n_def)
    let ?L = "take p (items C rs)" and ?R = "drop p (items C rs)"
    have LR: "map (pair_of C) ?L = takeWhile ?P (pairs C rs)" "map (pair_of C) ?R = dropWhile ?P (pairs C rs)"
      by (simp_all add: p_def pairs_def take_map [symmetric] drop_map [symmetric]
          takeWhile_eq_take [symmetric] dropWhile_eq_drop [symmetric])
    have R: "\<forall>r \<in> set ?R. range_ok C r \<and> unat start < fst (pair_of C r) \<and> fst (pair_of C r) \<le> snd (pair_of C r)"
    proof
      fix r assume r: "r \<in> set ?R"
      then obtain k where k: "k < n - p" "r = items C rs ! (p + k)"
        by (auto simp: in_set_conv_nth n_def)
      then have nth: "pairs C rs ! (p + k) = pair_of C r" and len: "p + k < length (pairs C rs)"
        by (simp_all add: pairs_def n_def)
      have "unat start < fst (pair_of C r)"
        using sorted_slot [OF ap len, of "unat start"] nth by (simp flip: p_def)
      moreover have "pair_of C r \<in> set (pairs C rs)" using nth len nth_mem by metis
      ultimately show "range_ok C r \<and> unat start < fst (pair_of C r) \<and> fst (pair_of C r) \<le> snd (pair_of C r)"
        using ap each r by (auto simp: apart_def dest: in_set_dropD)
    qed
    from merge_right_absorbs [OF arr, of ?L ?R "int p" start fin] R b pn
    obtain fin' rs1 R' where right: "merge_right C (int p) start fin rs = Some (start, fin', rs1)"
      "absorb (unat fin) (map (pair_of C) ?R) = (unat fin', map (pair_of C) R')"
      "items C rs1 = ?L @ R'" "IsArray C rs1" "set R' \<subseteq> set ?R" "unat fin' < 2147483648"
      by (auto simp: n_def)
    have okL: "\<forall>r \<in> set ?L. range_ok C r" using each by (auto dest: in_set_takeD)
    have lenL: "length ?L = nat (int p)" using pn by (simp add: n_def)
    from merge_left_inserts [OF right(4,3) lenL _ okL bs right(6)]
    obtain i' s' e' rs2 L' where left: "merge_left C (int p) start fin' rs1 = Some (i', s', e', rs2)"
      "0 \<le> i'" "length L' = nat i'" "items C rs2 = L' @ R'" "IsArray C rs2" "set L' \<subseteq> set ?L"
      "unat s' < 2147483648" "unat e' < 2147483648"
      "add_left (unat start) (unat fin') (map (pair_of C) ?L) = map (pair_of C) L' @ [(unat s', unat e')]"
      by auto
    let ?new = "CreateIntArray C [ucast s', ucast e']"
    let ?rs' = "InsertItemInArray C rs2 i' ?new"
    have "merge_range C rs start fin = Some ?rs'"
      using le n slot right(1) left(1)
      by (simp add: merge_range_def not_less del: if_split)
    moreover have items': "items C ?rs' = L' @ ?new # R'"
      using insert_law [OF left(2), of rs2 ?new] left(3,4) by simp
    moreover have "ranges_ok C ?rs'"
      using items' left(5,6) right(5) each new(1) [OF left(7,8)] okL R
      by (auto simp: ranges_ok_def array_kind)
    moreover have "pairs C ?rs' = merge_pairs (unat start) (unat fin) (pairs C rs)"
      using items' left(9) right(2) new(2) [OF left(7,8)]
      by (simp add: pairs_def merge_pairs_def LR [unfolded pairs_def])
    ultimately show ?thesis by blast
  qed
qed

lemma missing_from_gaps:
  assumes "\<forall>r \<in> set rs. range_ok C r" and "c \<le> unat count_max"
  shows "missing_from C total_size count_max rs low (word_of_nat c) out =
    Some (word_of_nat (c + length (take (unat count_max - c) (gaps (unat total_size) (unat low) (map (pair_of C) rs)))),
      out @ flat (take (unat count_max - c) (gaps (unat total_size) (unat low) (map (pair_of C) rs))))"
  using assms
proof (induction rs arbitrary: low c out)
  case Nil
  have "unat (word_of_nat c :: size_t) = c"
    using Nil by (simp add: unat_count)
  with Nil show ?case
    by (auto simp: word_less_nat_alt flat_def take_Cons' add.commute)
next
  case (Cons r rs)
  have c: "unat (word_of_nat c :: size_t) = c"
    using Cons.prems by (simp add: unat_count)
  from Cons.prems obtain f l where r: "first_of C r = Some f" "last_of C r = Some l"
    "pair_of C r = (unat f, unat l)" "unat f < 2147483648" "unat l < 2147483648"
    by (auto elim: range_okE)
  then have l1: "unat (l + 1) = Suc (unat l)" by (simp add: unat_plus_small)
  show ?case
  proof (cases "c = unat count_max")
    case True
    with c have "count_max \<le> word_of_nat c" by (simp add: word_le_nat_alt)
    with True show ?thesis by (simp add: flat_def)
  next
    case False
    with Cons.prems have c': "Suc c \<le> unat count_max" by simp
    then have nle: "\<not> count_max \<le> word_of_nat c" by (simp add: word_le_nat_alt c)
    obtain d where d: "unat count_max - c = Suc d" "unat count_max - Suc c = d"
      using c' by (metis Suc_diff_Suc Suc_le_lessD)
    have f1: "low < f \<Longrightarrow> unat (f - 1) = unat f - 1"
      by (subst unat_minus_small) (auto simp: word_le_nat_alt word_less_nat_alt)
    show ?thesis
    proof (cases "low < f")
      case True
      have "missing_from C total_size count_max (r # rs) low (word_of_nat c) out =
        missing_from C total_size count_max rs (l + 1) (word_of_nat (Suc c)) (out @ [low, f - 1])"
        using nle r True by (simp add: add.commute)
      also note Cons.IH [OF _ c']
      finally show ?thesis
        using Cons.prems True d r by (simp add: word_less_nat_alt flat_def l1)
    next
      case False
      then show ?thesis
        using nle r Cons.IH [OF _ Cons.prems(2)] Cons.prems by (simp add: word_less_nat_alt l1)
    qed
  qed
qed

lemma missing_ranges_gaps:
  assumes "ranges_ok C rs"
  shows "missing_ranges C rs total_size count_max =
    (let g = take (unat count_max) (gaps (unat total_size) 0 (pairs C rs))
     in Some (word_of_nat (length g), flat g))"
proof (cases "count_max = 0")
  case True
  then show ?thesis by (simp add: missing_ranges_def flat_def)
next
  case False
  show ?thesis
    using False assms missing_from_gaps [of "items C rs" 0 count_max total_size 0 "[]"]
    by (simp add: missing_ranges_def ranges_ok_def pairs_def Let_def ucast_of_nat_32 del: of_nat_add)
qed

end

section \<open>Properties\<close>

text \<open>
  C5. Merging a byte range into the ranges of an asset returns, without a failed assertion or
  a null dereference, for every sorted array of ranges that are apart (neither overlapping nor
  adjacent): the array stays sorted and apart, and covers exactly what it covered before
  together with the new range. It is the result of \<open>merge_pairs\<close>: the right neighbours the new
  range meets are absorbed, then the left one.
\<close>

theorem merge_range_adds_range:
  assumes "cjson_lib C" and "ranges_ok C ranges" and "apart (pairs C ranges)"
    and "start \<le> fin" and "unat fin < 2147483648"
  shows "\<exists>ranges'. merge_range C ranges start fin = Some ranges' \<and> ranges_ok C ranges' \<and>
    pairs C ranges' = merge_pairs (unat start) (unat fin) (pairs C ranges) \<and>
    apart (pairs C ranges') \<and>
    covered (pairs C ranges') = covered (pairs C ranges) \<union> {unat start .. unat fin}"
  using cjson_lib.merge_range_pairs [OF assms] merge_pairs_apart [OF assms(3), of "unat start" "unat fin"]
    assms(4) by (auto simp: word_le_nat_alt)

text \<open>The ranges of the witnesses: \<open>[[2, 4], [8, 9], [20, 30]]\<close>.\<close>

definition sample_ranges :: json where
  "sample_ranges = jarr [jarr [jnum 2, jnum 4], jarr [jnum 8, jnum 9], jarr [jnum 20, jnum 30]]"

lemma sample_ranges_ok: "ranges_ok json_ops sample_ranges"
  and sample_ranges_pairs: "pairs json_ops sample_ranges = [(2, 4), (8, 9), (20, 30)]"
  by (simp_all add: sample_ranges_def ranges_ok_def range_ok_def pairs_def pair_of_def items_def
      first_of_def last_of_def json_defs)

theorem merge_range_adds_range_witness:
  "\<exists>ranges'. merge_range json_ops sample_ranges 5 18 = Some ranges' \<and>
     pairs json_ops ranges' = [(2, 18), (20, 30)] \<and> apart (pairs json_ops ranges')"
  using merge_range_adds_range [OF json.cjson_lib_axioms sample_ranges_ok, of 5 18]
  by (auto simp: sample_ranges_pairs apart_def merge_pairs_def add_left_def)

text \<open>
  C33. Asked for at most \<open>count_max\<close> missing ranges, the code returns the number of gaps it found
  and their bounds: the gaps before the ranges in ascending order, then the one up to the total
  size, the first \<open>count_max\<close> of them. With room for all of them, they cover exactly the bytes
  below the total size that no range covers.
\<close>

theorem missing_ranges_reports_gaps:
  assumes "cjson_lib C" and "ranges_ok C ranges" and "apart (pairs C ranges)"
  shows "\<exists>g. missing_ranges C ranges total_size count_max = Some (word_of_nat (length g), flat g) \<and>
    g = take (unat count_max) (gaps (unat total_size) 0 (pairs C ranges)) \<and>
    (length (pairs C ranges) < unat count_max \<longrightarrow>
     covered g \<inter> {..< unat total_size} = {..< unat total_size} - covered (pairs C ranges))"
  using cjson_lib.missing_ranges_gaps [OF assms(1,2)] length_gaps [of "unat total_size" 0 "pairs C ranges"]
    gaps_cover [OF assms(3), of 0 "unat total_size"]
  by (auto simp: Let_def lessThan_atLeast0)

theorem missing_ranges_reports_gaps_witness:
  "missing_ranges json_ops sample_ranges 40 8 =
     Some (4, [0, 1, 5, 7, 10, 19, 31, 40]) \<and>
   missing_ranges json_ops sample_ranges 40 2 = Some (2, [0, 1, 5, 7])"
proof -
  have ap: "apart (pairs json_ops sample_ranges)" by (simp add: sample_ranges_pairs apart_def)
  from missing_ranges_reports_gaps [OF json.cjson_lib_axioms sample_ranges_ok ap, of 40]
  show ?thesis by (auto simp: sample_ranges_pairs flat_def)
qed

end
