(* ===== verification/Asset_Store.thy ===== *)
theory Asset_Store
  imports Ranges Sha256 "HOL-Library.Multiset"
begin

text \<open>
  The asset store of \<^verbatim>\<open>src/assetstore.c\<close>: one JSON object per asset (\<open>complete\<close>, \<open>total_size\<close>,
  \<open>ranges\<close> while incomplete, \<open>data\<close> with the address of the bytes printed in decimal, \<open>lru\<close> with
  the time of the last use or \<open>true\<close> for an asset that is never evicted), the blocks of memory
  the addresses stand for, and the pruning of the cache. Every operation holds the mutex of the
  store from its first line to its last, so each is one step. \<open>None\<close> is a failed assertion, a
  null dereference, an access outside a block or a free of what is not allocated. cJSON's functions
  return a null pointer or false for a null pointer.
\<close>

section \<open>State\<close>

type_synonym blocks = "size_t \<Rightarrow> u8 list option"

record 'j store =
  root :: 'j
  use_cache :: bool
  cache_count :: size_t
  cache_size :: size_t
  next_state_prune :: rat
  mem :: blocks

definition assetstore_init :: "'j cjson \<Rightarrow> blocks \<Rightarrow> 'j store" where
  "assetstore_init C m = \<lparr>root = CreateObject C, use_cache = False, cache_count = 0,
     cache_size = 0, next_state_prune = 0, mem = m\<rparr>"

definition asset_memstore_init :: "'j cjson \<Rightarrow> blocks \<Rightarrow> 'j store" where
  "asset_memstore_init C m = (assetstore_init C m)\<lparr>use_cache := True\<rparr>"

definition kCacheCheckInterval :: rat where "kCacheCheckInterval = 10"
definition kCacheMinAge :: rat where "kCacheMinAge = 5"
definition kCacheMaxAge :: rat where "kCacheMaxAge = 60 * 10"
definition kCacheMaxCount :: int where "kCacheMaxCount = 400"
definition kCacheMaxBytes :: size_t where "kCacheMaxBytes = 1024 * 1024 * 1024"

subsection \<open>Addresses as decimal strings\<close>

text \<open>\<open>sprintf (num, "%llu", p)\<close> and \<open>strtoll (s, NULL, 10)\<close>, which saturates.\<close>

definition digit :: "nat \<Rightarrow> char" where
  "digit d = ''0123456789'' ! d"

fun decimal :: "nat \<Rightarrow> string" where
  "decimal n = (if n < 10 then [digit n] else decimal (n div 10) @ [digit (n mod 10)])"

definition strtoll :: "string \<Rightarrow> size_t" where
  "strtoll s = word_of_nat (min 9223372036854775807
     (foldl (\<lambda>a c. 10 * a + ((of_char c :: nat) - 48)) 0 (takeWhile (\<lambda>c. c \<in> set ''0123456789'') s)))"

declare decimal.simps [simp del]

lemma digit_value: "d < 10 \<Longrightarrow> (of_char (digit d) :: nat) - 48 = d \<and> digit d \<in> set ''0123456789''"
proof -
  assume "d < 10"
  then have "d \<in> {0, 1, 2, 3, 4, 5, 6, 7, 8, 9}" by auto
  then show ?thesis by (auto simp: digit_def)
qed

lemma decimal_digits: "set (decimal n) \<subseteq> set ''0123456789''"
proof (induction n rule: decimal.induct)
  case (1 n)
  then show ?case
    using digit_value [of n] digit_value [of "n mod 10"] by (subst decimal.simps) auto
qed

lemma decimal_value: "foldl (\<lambda>a c. 10 * a + ((of_char c :: nat) - 48)) 0 (decimal n) = n"
proof (induction n rule: decimal.induct)
  case (1 n)
  then show ?case
    using digit_value [of n] digit_value [of "n mod 10"] by (subst decimal.simps) simp
qed

lemma strtoll_decimal:
  assumes "unat p < 9223372036854775808"
  shows "strtoll (decimal (unat p)) = p"
proof -
  have "takeWhile (\<lambda>c. c \<in> set ''0123456789'') (decimal (unat p)) = decimal (unat p)"
    using decimal_digits by (intro takeWhile_eq_all_conv [THEN iffD2]) blast
  with assms show ?thesis
    unfolding strtoll_def by (simp only: decimal_value) simp
qed

section \<open>Pruning\<close>

text \<open>\<open>free\<close>, which accepts the null pointer.\<close>

definition free_block :: "blocks \<Rightarrow> size_t \<Rightarrow> blocks option" where
  "free_block m p = (if p = 0 then Some m else if m p = None then None else Some (m(p := None)))"

definition clear_state :: "'j cjson \<Rightarrow> 'j \<Rightarrow> blocks \<Rightarrow> blocks option" where
  "clear_state C state m =
     (if IsObject C state
      then (case GetObjectItem C state ''data'' of
              None \<Rightarrow> Some m
            | Some file \<Rightarrow> if IsString C file then free_block m (strtoll (valuestring C file)) else Some m)
      else Some m)"

definition lru_tag :: "'j cjson \<Rightarrow> rat \<Rightarrow> 'j \<Rightarrow> 'j" where
  "lru_tag C now state =
     (case GetObjectItem C state ''lru'' of
        None \<Rightarrow> AddItemToObject C state ''lru'' (CreateNumber C now)
      | Some lru \<Rightarrow>
          if IsNumber C lru then put_item C state ''lru'' (with_valuedouble C lru now) else state)"

definition size_of :: "'j cjson \<Rightarrow> 'j \<Rightarrow> size_t option" where
  "size_of C state = map_option (\<lambda>x. scast (valueint C x)) (GetObjectItemCS C state ''total_size'')"

text \<open>An entry whose \<open>lru\<close> is a time before \<open>barrier\<close>.\<close>

definition used_before :: "'j cjson \<Rightarrow> rat \<Rightarrow> 'j \<Rightarrow> bool" where
  "used_before C barrier state =
     (case GetObjectItemCS C state ''lru'' of
        None \<Rightarrow> False
      | Some lru \<Rightarrow> IsNumber C lru \<and> valuedouble C lru < barrier)"

text \<open>
  The comparison functions of \<open>qsort\<close>: the difference of two doubles, converted to an \<open>int\<close>
  by truncation. A candidate is the number of an entry among the children, which stands for
  the pointer to it, and the entry.
\<close>

definition truncated :: "rat \<Rightarrow> int" where
  "truncated r = (if 0 \<le> r then \<lfloor>r\<rfloor> else - \<lfloor>- r\<rfloor>)"

definition lru_compare_size :: "'j cjson \<Rightarrow> nat \<times> 'j \<Rightarrow> nat \<times> 'j \<Rightarrow> int" where
  "lru_compare_size C a b =
     (let x = (case GetObjectItemCS C (snd a) ''total_size'' of None \<Rightarrow> 0 | Some s \<Rightarrow> sint (valueint C s));
          y = (case GetObjectItemCS C (snd b) ''total_size'' of None \<Rightarrow> 0 | Some s \<Rightarrow> sint (valueint C s))
      in y - x)"

definition lru_compare_age :: "'j cjson \<Rightarrow> nat \<times> 'j \<Rightarrow> nat \<times> 'j \<Rightarrow> int" where
  "lru_compare_age C a b =
     (let x = (case GetObjectItemCS C (snd a) ''lru'' of None \<Rightarrow> 0 | Some s \<Rightarrow> valuedouble C s);
          y = (case GetObjectItemCS C (snd b) ''lru'' of None \<Rightarrow> 0 | Some s \<Rightarrow> valuedouble C s)
      in truncated (x - y))"

text \<open>
  The first loop of \<open>_lru_prune\<close>, over the children; \<open>n\<close> is where the current one stands in the
  list that is being shortened. It returns the number of entries and of bytes it has seen.
\<close>

fun prune_old ::
  "'j cjson \<Rightarrow> rat \<Rightarrow> 'j list \<Rightarrow> nat \<Rightarrow> 'j \<times> blocks \<Rightarrow> int \<Rightarrow> size_t \<Rightarrow> ('j \<times> blocks \<times> int \<times> size_t) option"
where
  "prune_old C barrier [] n (rt, m) cnt memory = Some (rt, m, cnt, memory)"
| "prune_old C barrier (s # ss) n (rt, m) cnt memory =
     (case size_of C s of
        None \<Rightarrow> None
      | Some sz \<Rightarrow>
          if used_before C barrier s
          then (case clear_state C s m of
                  None \<Rightarrow> None
                | Some m' \<Rightarrow> prune_old C barrier ss n (DetachChild C rt n, m') (cnt + 1) (memory + sz))
          else prune_old C barrier ss (Suc n) (rt, m) (cnt + 1) (memory + sz))"

text \<open>
  The eviction of candidates in the order \<open>qsort\<close> put them in; \<open>alive\<close> are the numbers of the
  children that are left, so that a pointer finds its place in the list again.
\<close>

fun evict ::
  "'j cjson \<Rightarrow> bool \<Rightarrow> (nat \<times> 'j) list \<Rightarrow> nat list \<Rightarrow> 'j \<times> blocks \<Rightarrow> int \<Rightarrow> size_t \<Rightarrow> ('j \<times> blocks) option"
where
  "evict C by_size [] alive (rt, m) count_to_evict bytes_to_free = Some (rt, m)"
| "evict C by_size ((n, s) # cs) alive (rt, m) count_to_evict bytes_to_free =
     (case size_of C s of
        None \<Rightarrow> None
      | Some sz \<Rightarrow>
          (case clear_state C s m of
             None \<Rightarrow> None
           | Some m' \<Rightarrow>
               (let rt' = DetachChild C rt (length (takeWhile (\<lambda>k. k \<noteq> n) alive));
                    alive' = remove1 n alive
                in if \<not> by_size
                   then if count_to_evict - 1 \<le> 0 then Some (rt', m')
                        else evict C by_size cs alive' (rt', m') (count_to_evict - 1) bytes_to_free
                   else if bytes_to_free - sz < kCacheMaxBytes then Some (rt', m')
                        else evict C by_size cs alive' (rt', m') count_to_evict (bytes_to_free - sz))))"

definition candidates :: "'j cjson \<Rightarrow> rat \<Rightarrow> 'j \<Rightarrow> (nat \<times> 'j) list" where
  "candidates C barrier rt =
     filter (\<lambda>c. used_before C barrier (snd c)) (enumerate 0 (items C rt))"

type_synonym 'j sorter = "(nat \<times> 'j \<Rightarrow> nat \<times> 'j \<Rightarrow> int) \<Rightarrow> (nat \<times> 'j) list \<Rightarrow> (nat \<times> 'j) list"

definition lru_prune :: "'j cjson \<Rightarrow> 'j sorter \<Rightarrow> rat \<Rightarrow> 'j store \<Rightarrow> 'j store option" where
  "lru_prune C qsort time st =
     (if \<not> use_cache st then Some st
      else if next_state_prune st < time \<or> kCacheMaxCount < int (unat (cache_count st)) \<or>
              kCacheMaxBytes < cache_size st
      then (case prune_old C (time - kCacheMaxAge) (items C (root st)) 0 (root st, mem st) 0 0 of
              None \<Rightarrow> None
            | Some (rt, m, cnt, memory) \<Rightarrow>
                let st1 = st\<lparr>root := rt, mem := m, next_state_prune := time + kCacheCheckInterval\<rparr>
                in if kCacheMaxCount < cnt \<or> kCacheMaxBytes < memory
                   then (let by_size = kCacheMaxBytes < memory;
                             cs = candidates C (time - kCacheMinAge) rt;
                             sorted = qsort (if by_size then lru_compare_size C else lru_compare_age C) cs
                         in map_option (\<lambda>(rt', m'). st1\<lparr>root := rt', mem := m'\<rparr>)
                              (evict C by_size sorted [0 ..< length (items C rt)] (rt, m)
                                 (if by_size then 0 else cnt - kCacheMaxCount)
                                 (if by_size then memory - kCacheMaxBytes else 0)))
                   else Some st1)
      else Some st)"

section \<open>Reading and writing\<close>

text \<open>The entry of an asset and where it stands among the children.\<close>

definition locate :: "'j cjson \<Rightarrow> 'j \<Rightarrow> string \<Rightarrow> (nat \<times> 'j) option" where
  "locate C rt asset_id =
     (case GetObjectItem C rt asset_id of
        None \<Rightarrow> None
      | Some s \<Rightarrow> if IsObject C s then Some (assoc_index (same_key asset_id) (chain C rt), s) else None)"

text \<open>\<open>_update_asset_state\<close>: one range from 0 to the total size makes the asset complete.\<close>

definition update_asset_state :: "'j cjson \<Rightarrow> 'j \<Rightarrow> string \<Rightarrow> 'j option" where
  "update_asset_state C rt asset_id =
     (case GetObjectItem C rt asset_id of
        None \<Rightarrow> Some rt
      | Some s \<Rightarrow>
          (case GetObjectItem C s ''ranges'' of
             None \<Rightarrow> Some rt
           | Some ranges \<Rightarrow>
               if GetArraySize C ranges \<noteq> 1 then Some rt
               else case GetArrayItem C ranges 0 of
                      None \<Rightarrow> None
                    | Some r \<Rightarrow>
                        (case (first_of C r, last_of C r) of
                           (Some f, Some l) \<Rightarrow>
                             if f \<noteq> 0 then Some rt
                             else (case GetObjectItem C s ''total_size'' of
                                     None \<Rightarrow> None
                                   | Some t \<Rightarrow>
                                       if l = scast (valueint C t)
                                       then Some (put_item C rt asset_id
                                              (DeleteItemFromObject C
                                                (ReplaceItemInObjectCS C s ''complete'' (CreateBool C True)) ''ranges''))
                                       else Some rt)
                         | _ \<Rightarrow> None)))"

text \<open>
  The tail that both write functions share, from \<open>_merge_range\<close> on; \<open>s\<close> is the entry and \<open>n\<close> its
  place. \<open>now\<close> and \<open>time\<close> are the two readings of the clock.
\<close>

definition mark_written ::
  "'j cjson \<Rightarrow> 'j sorter \<Rightarrow> rat \<Rightarrow> rat \<Rightarrow> 'j store \<Rightarrow> string \<Rightarrow> nat \<Rightarrow> 'j \<Rightarrow> size_t \<Rightarrow> size_t \<Rightarrow> 'j store option"
where
  "mark_written C qsort now time st asset_id n s offset len =
     (if offset + len < offset then None
      else case (case GetObjectItem C s ''ranges'' of
                   None \<Rightarrow> Some s
                 | Some ranges \<Rightarrow> map_option (put_item C s ''ranges'') (merge_range C ranges offset (offset + len))) of
             None \<Rightarrow> None
           | Some s1 \<Rightarrow>
               (case update_asset_state C (put C (root st) n s1) asset_id of
                  None \<Rightarrow> None
                | Some rt \<Rightarrow>
                    lru_prune C qsort time (st\<lparr>root := put C rt n (lru_tag C now (items C rt ! n))\<rparr>)))"

text \<open>A new entry: what the write functions add for an asset they have not heard of.\<close>

definition new_entry :: "'j cjson \<Rightarrow> size_t \<Rightarrow> 'j" where
  "new_entry C total_size =
     AddItemToObject C
       (AddItemToObject C
         (AddItemToObject C (CreateObject C) ''complete'' (CreateBool C False))
         ''total_size'' (CreateNumber C (of_nat (unat total_size))))
       ''ranges'' (CreateArray C)"

definition entry_assertions :: "'j cjson \<Rightarrow> 'j \<Rightarrow> bool" where
  "entry_assertions C s \<longleftrightarrow>
     (GetObjectItem C s ''ranges'' \<noteq> None \<or>
      (case GetObjectItem C s ''complete'' of None \<Rightarrow> False | Some c \<Rightarrow> IsTrue C c)) \<and>
     (case GetObjectItem C s ''data'' of None \<Rightarrow> False | Some file \<Rightarrow> IsString C file)"

text \<open>The functions of the plain store, which tracks what has been transferred and holds no bytes.\<close>

definition assetstore_read ::
  "'j cjson \<Rightarrow> 'j sorter \<Rightarrow> rat \<Rightarrow> rat \<Rightarrow> 'j store \<Rightarrow> string \<Rightarrow> (i32 \<times> 'j store) option" where
  "assetstore_read C qsort now time st asset_id =
     (case locate C (root st) asset_id of
        None \<Rightarrow> Some (- 1, st)
      | Some (n, s) \<Rightarrow>
          map_option (Pair (- 1)) (lru_prune C qsort time (st\<lparr>root := put C (root st) n (lru_tag C now s)\<rparr>)))"

definition assetstore_write ::
  "'j cjson \<Rightarrow> 'j sorter \<Rightarrow> rat \<Rightarrow> rat \<Rightarrow> 'j store \<Rightarrow> string \<Rightarrow> size_t \<Rightarrow> size_t \<Rightarrow> size_t \<Rightarrow> (i32 \<times> 'j store) option"
where
  "assetstore_write C qsort now time st asset_id offset len total_size =
     (case locate C (root st) asset_id of
        Some (n, s) \<Rightarrow>
          if entry_assertions C s
          then map_option (Pair (ucast len)) (mark_written C qsort now time st asset_id n s offset len)
          else None
      | None \<Rightarrow>
          (let s = new_entry C total_size;
               st1 = st\<lparr>root := AddItemToObject C (root st) asset_id s\<rparr>
           in map_option (Pair (ucast len))
                (mark_written C qsort now time st1 asset_id (length (chain C (root st))) s offset len)))"

text \<open>
  The functions of the memory store. \<open>memcpy\<close> into and out of a block stays inside the block and
  inside the buffer of the caller, or the result is \<open>None\<close>. \<open>malloc\<close> returns an address and the
  bytes that happen to be there.
\<close>

type_synonym allocator = "blocks \<Rightarrow> size_t \<Rightarrow> (size_t \<times> u8 list) option"

definition copy_into :: "blocks \<Rightarrow> size_t \<Rightarrow> size_t \<Rightarrow> u8 list \<Rightarrow> size_t \<Rightarrow> blocks option" where
  "copy_into m p offset data len =
     (case m p of
        None \<Rightarrow> None
      | Some block \<Rightarrow>
          if unat offset + unat len \<le> length block \<and> unat len \<le> length data
          then Some (m(p := Some (blit block (unat offset) (take (unat len) data)))) else None)"

definition copy_out :: "blocks \<Rightarrow> size_t \<Rightarrow> size_t \<Rightarrow> size_t \<Rightarrow> u8 list option" where
  "copy_out m p offset len =
     (case m p of
        None \<Rightarrow> None
      | Some block \<Rightarrow>
          if unat offset + unat len \<le> length block then Some (take (unat len) (drop (unat offset) block)) else None)"

definition memstore_read ::
  "'j cjson \<Rightarrow> 'j sorter \<Rightarrow> rat \<Rightarrow> rat \<Rightarrow> 'j store \<Rightarrow> string \<Rightarrow> size_t \<Rightarrow> size_t \<Rightarrow>
   (i32 \<times> u8 list \<times> size_t option \<times> 'j store) option" where
  "memstore_read C qsort now time st asset_id offset len =
     (case locate C (root st) asset_id of
        None \<Rightarrow> Some (- 1, [], None, st)
      | Some (n, s) \<Rightarrow>
          (case GetObjectItem C s ''total_size'' of
             None \<Rightarrow> Some (- 2, [], None, st)
           | Some t \<Rightarrow>
               if \<not> IsNumber C t then Some (- 2, [], None, st)
               else let total_size = word_of_int \<lfloor>valuedouble C t\<rfloor>
                    in case GetObjectItem C s ''data'' of
                         None \<Rightarrow> Some (- 3, [], Some total_size, st)
                       | Some file \<Rightarrow>
                           if \<not> IsString C file then Some (- 3, [], Some total_size, st)
                           else let len = (if len < total_size - offset then len else total_size - offset)
                                in case copy_out (mem st) (strtoll (valuestring C file)) offset len of
                                     None \<Rightarrow> None
                                   | Some out \<Rightarrow>
                                       map_option (\<lambda>st'. (ucast len, out, Some total_size, st'))
                                         (lru_prune C qsort time
                                           (st\<lparr>root := put C (root st) n (lru_tag C now s)\<rparr>))))"

definition memstorestore_write ::
  "'j cjson \<Rightarrow> 'j sorter \<Rightarrow> allocator \<Rightarrow> rat \<Rightarrow> rat \<Rightarrow> 'j store \<Rightarrow> string \<Rightarrow> size_t \<Rightarrow> u8 list \<Rightarrow> size_t \<Rightarrow> size_t \<Rightarrow>
   (i32 \<times> 'j store) option" where
  "memstorestore_write C qsort malloc now time st asset_id offset data len total_size =
     (let store_data = (\<lambda>st n s p.
            if p = 0 \<or> total_size < offset + len then None
            else case copy_into (mem st) p offset data len of
                   None \<Rightarrow> None
                 | Some m \<Rightarrow>
                     map_option (Pair (ucast len))
                       (mark_written C qsort now time (st\<lparr>mem := m\<rparr>) asset_id n s offset len))
      in case locate C (root st) asset_id of
           Some (n, s) \<Rightarrow>
             if entry_assertions C s
             then (case GetObjectItem C s ''data'' of
                     None \<Rightarrow> None
                   | Some file \<Rightarrow> store_data st n s (strtoll (valuestring C file)))
             else None
         | None \<Rightarrow>
             (case malloc (mem st) total_size of
                None \<Rightarrow> Some (- 1, st\<lparr>root := AddItemToObject C (root st) asset_id (CreateObject C)\<rparr>)
              | Some (p, block) \<Rightarrow>
                  (let s = AddItemToObject C (new_entry C total_size) ''data''
                             (CreateString C (decimal (unat p)))
                   in store_data
                        (st\<lparr>root := AddItemToObject C (root st) asset_id s, mem := (mem st)(p := Some block)\<rparr>)
                        (length (chain C (root st))) s p)))"

section \<open>Registering and asking\<close>

definition clear_state_asset :: "'j cjson \<Rightarrow> 'j store \<Rightarrow> string \<Rightarrow> 'j store option" where
  "clear_state_asset C st asset_id =
     (case (case GetObjectItem C (root st) asset_id of
              None \<Rightarrow> Some (mem st)
            | Some s \<Rightarrow> clear_state C s (mem st)) of
        None \<Rightarrow> None
      | Some m \<Rightarrow> Some (st\<lparr>root := DeleteItemFromObjectCS C (root st) asset_id, mem := m\<rparr>))"

text \<open>
  \<open>asset_memstore_register_asset_nocopy\<close>; the bytes are those of the block at the address \<open>p\<close>,
  and \<open>buf\<close> is the uninitialised buffer of the hash. Addresses are below $2^{63}$.
\<close>

definition asset_memstore_register_asset_nocopy ::
  "'j cjson \<Rightarrow> u8 list \<Rightarrow> 'j store \<Rightarrow> size_t \<Rightarrow> size_t \<Rightarrow> 'j store option" where
  "asset_memstore_register_asset_nocopy C buf st p len =
     (case mem st p of
        None \<Rightarrow> None
      | Some data \<Rightarrow>
          (case asset_generate_identifier buf data len of
             None \<Rightarrow> None
           | Some i \<Rightarrow>
               (case clear_state_asset C st i of
                  None \<Rightarrow> None
                | Some st1 \<Rightarrow>
                    (let s1 = AddItemToObject C (CreateObject C) ''complete'' (CreateBool C True);
                         s2 = AddItemToObject C s1 ''data'' (CreateString C (decimal (unat p)));
                         s3 = AddItemToObject C s2 ''total_size'' (CreateNumber C (of_nat (unat len)));
                         s4 = AddItemToObject C s3 ''lru'' (CreateBool C True)
                     in Some (st1\<lparr>root := AddItemToObject C (root st1) i s4\<rparr>)))))"

definition asset_memstore_get_data_pointer :: "'j cjson \<Rightarrow> 'j store \<Rightarrow> string \<Rightarrow> size_t" where
  "asset_memstore_get_data_pointer C st asset_id =
     (case locate C (root st) asset_id of
        None \<Rightarrow> 0
      | Some (n, s) \<Rightarrow>
          (case GetObjectItemCS C s ''complete'' of
             None \<Rightarrow> 0
           | Some c \<Rightarrow>
               if \<not> IsBool C c \<or> \<not> IsTrue C c then 0
               else (case GetObjectItem C s ''data'' of
                       None \<Rightarrow> 0
                     | Some file \<Rightarrow> if IsString C file then strtoll (valuestring C file) else 0)))"

text \<open>\<open>_missing_ranges_count\<close>, with its assertions.\<close>

definition entry_missing_count :: "'j cjson \<Rightarrow> 'j \<Rightarrow> string \<Rightarrow> size_t option" where
  "entry_missing_count C rt asset_id =
     (case GetObjectItem C rt asset_id of
        None \<Rightarrow> None
      | Some s \<Rightarrow>
          if \<not> IsObject C s then None
          else if (case GetObjectItem C s ''complete'' of None \<Rightarrow> False | Some c \<Rightarrow> IsTrue C c) then Some 0
          else (case (GetObjectItem C s ''ranges'', GetObjectItem C s ''total_size'') of
                  (Some ranges, Some t) \<Rightarrow>
                    if IsArray C ranges \<and> IsNumber C t
                    then missing_ranges_count C ranges (scast (valueint C t)) else None
                | _ \<Rightarrow> None))"

text \<open>
  \<open>_memstore_state\<close>: the first four arguments say which of the out pointers are given; what is
  stored through them comes back as \<open>Some\<close>. Its result is always 0 here.
\<close>

record state_out =
  out_exists :: "bool option"
  out_complete :: "bool option"
  out_regions_count :: "size_t option"
  out_total_size :: "size_t option"

definition memstore_state ::
  "'j cjson \<Rightarrow> bool \<times> bool \<times> bool \<times> bool \<Rightarrow> 'j store \<Rightarrow> string \<Rightarrow> state_out option" where
  "memstore_state C wants st asset_id =
     (case wants of (want_exists, want_complete, want_regions, want_total) \<Rightarrow>
       (case GetObjectItem C (root st) asset_id of
          None \<Rightarrow> Some \<lparr>out_exists = (if want_exists then Some False else None),
                      out_complete = (if want_complete then Some False else None),
                      out_regions_count = None, out_total_size = None\<rparr>
        | Some s \<Rightarrow>
            if \<not> IsObject C s then None
            else case (if want_regions then map_option Some (entry_missing_count C (root st) asset_id) else Some None) of
                   None \<Rightarrow> None
                 | Some regions \<Rightarrow>
                     (let tot = (case GetObjectItemCS C s ''total_size'' of
                                   None \<Rightarrow> None
                                 | Some t \<Rightarrow> if want_total \<and> IsNumber C t then Some (scast (valueint C t)) else None)
                      in case (if want_complete
                               then (case GetObjectItem C s ''complete'' of
                                       None \<Rightarrow> Some (Some False)
                                     | Some c \<Rightarrow> if IsBool C c then Some (Some (IsTrue C c)) else None)
                               else Some None) of
                           None \<Rightarrow> None
                         | Some cpl \<Rightarrow>
                             Some \<lparr>out_exists = (if want_exists then Some True else None),
                                   out_complete = cpl, out_regions_count = regions,
                                   out_total_size = tot\<rparr>)))"

definition assetstore_get_is_asset_complete :: "'j cjson \<Rightarrow> 'j store \<Rightarrow> string \<Rightarrow> bool option" where
  "assetstore_get_is_asset_complete C st asset_id =
     map_option (\<lambda>out. case out_complete out of None \<Rightarrow> False | Some c \<Rightarrow> c)
       (memstore_state C (False, True, False, False) st asset_id)"

text \<open>
  \<open>_memstore_get_missing_ranges\<close>; \<open>out\<close> is the array of the caller. The last loop turns ends
  into lengths, the one at index \<open>i + 1\<close> in turn \<open>i\<close>.
\<close>

definition adjust_ranges :: "size_t list \<Rightarrow> nat \<Rightarrow> size_t list" where
  "adjust_ranges out result = foldl (\<lambda>out i. out[i + 1 := out ! (i + 1) - out ! i]) out [0 ..< result]"

definition memstore_get_missing_ranges ::
  "'j cjson \<Rightarrow> 'j store \<Rightarrow> string \<Rightarrow> size_t list \<Rightarrow> size_t \<Rightarrow> (size_t \<times> size_t list) option" where
  "memstore_get_missing_ranges C st asset_id out cnt =
     (if cnt = 0 then Some (0, out)
      else case GetObjectItem C (root st) asset_id of
             None \<Rightarrow> Some (0, out)
           | Some s \<Rightarrow>
               (case (GetObjectItem C s ''total_size'', GetObjectItem C s ''ranges'') of
                  (Some t, Some ranges) \<Rightarrow>
                    if IsNumber C t \<and> IsArray C ranges
                    then map_option
                           (\<lambda>(result, stored).
                              (scast result, adjust_ranges (stored @ drop (length stored) out) (unat result)))
                           (missing_ranges C ranges (scast (valueint C t)) cnt)
                    else None
                | _ \<Rightarrow> None))"

text \<open>\<open>asset_memstore_deinit\<close> frees the bytes of every entry, then the entries.\<close>

definition asset_memstore_deinit :: "'j cjson \<Rightarrow> 'j store \<Rightarrow> blocks option" where
  "asset_memstore_deinit C st = fold_opt (clear_state C) (items C (root st)) (mem st)"

end
