(* ===== verification/Asset_Store_Correct.thy ===== *)
theory Asset_Store_Correct
  imports Asset_Store Sha256_Correct
begin

text \<open>
  The invariant of the memory store, what pruning keeps, and what a write and a read do to an
  asset, for every cJSON that satisfies the laws and every \<open>qsort\<close> that permutes its input.
\<close>

section \<open>Keys\<close>

lemma key_lower:
  "map lower ''complete'' = ''complete''" "map lower ''total_size'' = ''total_size''"
  "map lower ''ranges'' = ''ranges''" "map lower ''data'' = ''data''" "map lower ''lru'' = ''lru''"
  by (simp_all add: lower_def)

definition lowercase :: "(string \<times> 'v) list \<Rightarrow> bool" where
  "lowercase kvs \<longleftrightarrow> (\<forall>kv \<in> set kvs. map lower (fst kv) = fst kv)"

lemma lowercase_simps [simp]:
  "lowercase []" "lowercase (kv # kvs) \<longleftrightarrow> map lower (fst kv) = fst kv \<and> lowercase kvs"
  "lowercase (kvs @ kvs') \<longleftrightarrow> lowercase kvs \<and> lowercase kvs'"
  by (auto simp: lowercase_def)

lemma lowercase_put [simp]: "lowercase (assoc_put p w kvs) = lowercase kvs"
  by (induction p w kvs rule: assoc_put.induct) auto

lemma lowercase_delete [simp]: "lowercase kvs \<Longrightarrow> lowercase (assoc_delete p kvs)"
  by (induction kvs) auto

lemma assoc_exact:
  "lowercase kvs \<Longrightarrow> map lower k = k \<Longrightarrow> assoc ((=) k) kvs = assoc (same_key k) kvs"
  by (induction kvs) (auto simp: same_key_def)

lemma assoc_put_exact:
  "lowercase kvs \<Longrightarrow> map lower k = k \<Longrightarrow> assoc_put ((=) k) w kvs = assoc_put (same_key k) w kvs"
  by (induction kvs) (auto simp: same_key_def)

lemmas exact_keys =
  assoc_exact [OF _ key_lower(1)] assoc_exact [OF _ key_lower(2)] assoc_exact [OF _ key_lower(3)]
  assoc_exact [OF _ key_lower(4)] assoc_exact [OF _ key_lower(5)]
  assoc_put_exact [OF _ key_lower(1)]

lemma same_key_exact: "map lower k = k \<Longrightarrow> map lower l = l \<Longrightarrow> same_key k l \<longleftrightarrow> k = l"
  by (simp add: same_key_def)

lemma assoc_put_get:
  "assoc (same_key l) (assoc_put (same_key k) w kvs) =
   (if same_key k l then map_option (\<lambda>v. w) (assoc (same_key k) kvs) else assoc (same_key l) kvs)"
  unfolding same_key_def [abs_def] by (induction kvs) auto

lemma assoc_delete_get:
  assumes "distinct (map fst kvs)" and "lowercase kvs"
  shows "assoc (same_key l) (assoc_delete (same_key k) kvs) =
    (if same_key k l then None else assoc (same_key l) kvs)"
  using assms unfolding same_key_def [abs_def]
proof (induction kvs)
  case (Cons kv kvs)
  have "assoc (\<lambda>k'. map lower l = map lower k') kvs = None" if "map lower l = map lower (fst kv)"
    using Cons.prems that by (force simp: assoc_None_iff lowercase_def)
  then show ?case using Cons by (cases kv) auto
qed simp

lemma assoc_unique:
  assumes "distinct (map (map lower \<circ> fst) kvs)" and "(k, v) \<in> set kvs" and "same_key i k"
  shows "assoc (same_key i) kvs = Some v"
  using assms
proof (induction kvs)
  case (Cons kv kvs)
  then show ?case by (cases kv) (force simp: same_key_def)
qed simp

lemma assoc_split:
  assumes "assoc p kvs = Some v"
  obtains xs k ys where "kvs = xs @ (k, v) # ys" "length xs = assoc_index p kvs" "p k"
  using assms
proof (induction p kvs arbitrary: thesis rule: assoc.induct)
  case (2 p k w kvs)
  show ?case
  proof (cases "p k")
    case True
    then show ?thesis using 2 by (intro "2.prems"(1) [of "[]"]) auto
  next
    case False
    then obtain xs l ys where "kvs = xs @ (l, v) # ys" "length xs = assoc_index p kvs" "p l"
      using 2 by auto
    with False show ?thesis by (intro "2.prems"(1) [of "(k, w) # xs"]) auto
  qed
qed simp

lemma assoc_distinct_delete: "distinct (map fst kvs) \<Longrightarrow> distinct (map fst (assoc_delete p kvs))"
proof (induction kvs)
  case (Cons kv kvs)
  have "set (assoc_delete p kvs) \<subseteq> set kvs"
    unfolding assoc_delete_def by (rule set_remove_first_subset)
  with Cons show ?case by (cases kv) auto
qed simp

section \<open>The invariant\<close>

definition data_ptr :: "'j cjson \<Rightarrow> 'j \<Rightarrow> size_t" where
  "data_ptr C s = (case GetObjectItem C s ''data'' of None \<Rightarrow> 0 | Some file \<Rightarrow> strtoll (valuestring C file))"

definition number_is :: "'j cjson \<Rightarrow> 'j \<Rightarrow> nat \<Rightarrow> bool" where
  "number_is C t n \<longleftrightarrow> IsNumber C t \<and> n < 2147483648 \<and>
     valuedouble C t = of_nat n \<and> valueint C t = word_of_nat n"

text \<open>An entry: its fields are there, and its address is that of a block of its size.\<close>

definition entry_ok :: "'j cjson \<Rightarrow> blocks \<Rightarrow> 'j \<Rightarrow> bool" where
  "entry_ok C m s \<longleftrightarrow>
     IsObject C s \<and> lowercase (chain C s) \<and> distinct (map fst (chain C s)) \<and>
     (\<exists>t n f block. GetObjectItem C s ''total_size'' = Some t \<and> number_is C t n \<and>
        GetObjectItem C s ''data'' = Some f \<and> IsString C f \<and> data_ptr C s \<noteq> 0 \<and>
        m (data_ptr C s) = Some block \<and> length block = n) \<and>
     (\<exists>c. GetObjectItem C s ''complete'' = Some c \<and> IsBool C c \<and>
        (IsTrue C c \<or> GetObjectItem C s ''ranges'' \<noteq> None)) \<and>
     (\<forall>ranges. GetObjectItem C s ''ranges'' = Some ranges \<longrightarrow> ranges_ok C ranges \<and> apart (pairs C ranges))"

definition entries_ok :: "'j cjson \<Rightarrow> blocks \<Rightarrow> (string \<times> 'j) list \<Rightarrow> bool" where
  "entries_ok C m kvs \<longleftrightarrow>
     distinct (map (map lower \<circ> fst) kvs) \<and> distinct (map (data_ptr C \<circ> snd) kvs) \<and>
     (\<forall>kv \<in> set kvs. entry_ok C m (snd kv))"

definition store_ok :: "'j cjson \<Rightarrow> 'j store \<Rightarrow> bool" where
  "store_ok C st \<longleftrightarrow> entries_ok C (mem st) (chain C (root st))"

lemma entry_ok_cong:
  "m (data_ptr C s) = m' (data_ptr C s) \<Longrightarrow> entry_ok C m s = entry_ok C m' s"
  unfolding entry_ok_def by simp

lemma entries_ok_cong:
  assumes "entries_ok C m kvs" and "\<And>kv. kv \<in> set kvs \<Longrightarrow> m' (data_ptr C (snd kv)) = m (data_ptr C (snd kv))"
  shows "entries_ok C m' kvs"
  using assms entry_ok_cong [of m C _ m'] by (auto simp: entries_ok_def)

text \<open>The blocks of these entries are the same in two memories.\<close>

definition same_blocks :: "'j cjson \<Rightarrow> blocks \<Rightarrow> blocks \<Rightarrow> (string \<times> 'j) list \<Rightarrow> bool" where
  "same_blocks C m m' kvs \<longleftrightarrow> (\<forall>kv \<in> set kvs. m' (data_ptr C (snd kv)) = m (data_ptr C (snd kv)))"

lemma same_blocks_trans:
  "same_blocks C m m' kvs \<Longrightarrow> same_blocks C m' m'' kvs' \<Longrightarrow> set kvs' \<subseteq> set kvs \<Longrightarrow> same_blocks C m m'' kvs'"
  by (auto simp: same_blocks_def)

text \<open>The second memory is the first one without the blocks of the entries that are no longer there.\<close>

definition data_ptrs :: "'j cjson \<Rightarrow> (string \<times> 'j) list \<Rightarrow> size_t set" where
  "data_ptrs C kvs = (\<lambda>kv. data_ptr C (snd kv)) ` set kvs"

definition freed :: "'j cjson \<Rightarrow> blocks \<Rightarrow> blocks \<Rightarrow> (string \<times> 'j) list \<Rightarrow> (string \<times> 'j) list \<Rightarrow> bool" where
  "freed C m m' kvs kvs' \<longleftrightarrow> m' = (\<lambda>p. if p \<in> data_ptrs C kvs - data_ptrs C kvs' then None else m p)"

lemma freed_refl: "freed C m m kvs kvs"
  by (simp add: freed_def)

lemma freed_trans:
  assumes "freed C m m1 kvs kvs1" and "freed C m1 m2 kvs1 kvs2" and "set kvs1 \<subseteq> set kvs" and "set kvs2 \<subseteq> set kvs1"
  shows "freed C m m2 kvs kvs2"
proof -
  have "data_ptrs C kvs1 \<subseteq> data_ptrs C kvs" "data_ptrs C kvs2 \<subseteq> data_ptrs C kvs1"
    using assms(3,4) by (auto simp: data_ptrs_def)
  then show ?thesis using assms(1,2) by (auto simp: freed_def fun_eq_iff)
qed

lemma freed_same_blocks: "freed C m m' kvs kvs' \<Longrightarrow> same_blocks C m m' kvs'"
  by (simp add: freed_def same_blocks_def data_ptrs_def)

lemma entries_ok_remove:
  assumes "entries_ok C m (xs @ kv # ys)"
  shows "\<exists>m'. clear_state C (snd kv) m = Some m' \<and> entries_ok C m' (xs @ ys) \<and>
    freed C m m' (xs @ kv # ys) (xs @ ys)"
proof -
  let ?s = "snd kv"
  have "entry_ok C m ?s" using assms by (simp add: entries_ok_def)
  then obtain f block where s: "IsObject C ?s" "GetObjectItem C ?s ''data'' = Some f" "IsString C f"
    "data_ptr C ?s \<noteq> 0" "m (data_ptr C ?s) = Some block"
    by (auto simp: entry_ok_def)
  let ?m = "m(data_ptr C ?s := None)"
  have "clear_state C ?s m = Some ?m"
    using s by (simp add: clear_state_def free_block_def data_ptr_def)
  moreover have free: "freed C m ?m (xs @ kv # ys) (xs @ ys)"
  proof -
    have "data_ptr C (snd kv') \<noteq> data_ptr C ?s" if "kv' \<in> set (xs @ ys)" for kv'
      using assms that by (auto simp: entries_ok_def) (metis image_eqI snd_conv)+
    then have "data_ptrs C (xs @ kv # ys) - data_ptrs C (xs @ ys) = {data_ptr C ?s}"
      by (force simp: data_ptrs_def)
    then show ?thesis by (auto simp: freed_def)
  qed
  moreover have "entries_ok C m (xs @ ys)" using assms by (auto simp: entries_ok_def)
  ultimately show ?thesis
    using entries_ok_cong [of C m "xs @ ys" ?m] freed_same_blocks [OF free] by (auto simp: same_blocks_def)
qed

lemma entry_size_of:
  assumes "cjson_lib C" and "entry_ok C m s"
  shows "\<exists>sz. size_of C s = Some sz"
proof -
  obtain t where "GetObjectItem C s ''total_size'' = Some t" and "lowercase (chain C s)"
    using assms by (auto simp: entry_ok_def)
  then show ?thesis
    using assms(1)
    by (simp add: size_of_def cjson_lib.object_cs_law cjson_lib.object_law exact_keys)
qed

section \<open>Pruning keeps the invariant and what is in use\<close>

text \<open>What \<open>qsort\<close> promises of every comparison function: the same elements.\<close>

definition permutes :: "'j sorter \<Rightarrow> bool" where
  "permutes qsort \<longleftrightarrow> (\<forall>cmp xs. mset (qsort cmp xs) = mset xs)"

lemma permutesD: "permutes qsort \<Longrightarrow> mset (qsort cmp xs) = mset xs"
  by (simp add: permutes_def)

context cjson_lib
begin

lemma detach_append: "chain C rt = xs @ kv # ys \<Longrightarrow> chain C (DetachChild C rt (length xs)) = xs @ ys"
  by (simp add: detach_law)

lemma prune_old_ok:
  assumes "entries_ok C m (chain C rt)" and "chain C rt = xs @ ys"
  shows "\<exists>rt' m' cnt' memory'. prune_old C b (map snd ys) (length xs) (rt, m) cnt memory = Some (rt', m', cnt', memory') \<and>
    entries_ok C m' (chain C rt') \<and> chain C rt' = xs @ filter (\<lambda>kv. \<not> used_before C b (snd kv)) ys \<and>
    freed C m m' (chain C rt) (chain C rt')"
  using assms
proof (induction ys arbitrary: rt m xs cnt memory)
  case Nil
  then show ?case by (simp add: freed_refl)
next
  case (Cons kv ys)
  obtain sz where sz: "size_of C (snd kv) = Some sz"
    using Cons.prems entry_size_of [OF cjson_lib_axioms, of m "snd kv"] by (auto simp: entries_ok_def)
  show ?case
  proof (cases "used_before C b (snd kv)")
    case True
    obtain m1 where m1: "clear_state C (snd kv) m = Some m1" "entries_ok C m1 (xs @ ys)"
      "freed C m m1 (xs @ kv # ys) (xs @ ys)"
      using entries_ok_remove [of C m xs kv ys] Cons.prems by auto
    have ch: "chain C (DetachChild C rt (length xs)) = xs @ ys"
      using detach_append Cons.prems(2) by blast
    obtain rt' m' cnt' memory' where rec:
      "prune_old C b (map snd ys) (length xs) (DetachChild C rt (length xs), m1) (cnt + 1) (memory + sz) =
        Some (rt', m', cnt', memory')" "entries_ok C m' (chain C rt')"
      "chain C rt' = xs @ filter (\<lambda>kv. \<not> used_before C b (snd kv)) ys" "freed C m1 m' (xs @ ys) (chain C rt')"
      using Cons.IH [of m1 "DetachChild C rt (length xs)" xs "cnt + 1" "memory + sz"] m1(2) ch by auto
    moreover have "freed C m m' (chain C rt) (chain C rt')"
      unfolding Cons.prems(2) by (rule freed_trans [OF m1(3) rec(4)]) (auto simp: rec(3))
    ultimately show ?thesis using True sz m1(1) by simp
  next
    case False
    from Cons.IH [of m rt "xs @ [kv]" "cnt + 1" "memory + sz"] Cons.prems False sz
    show ?thesis by simp
  qed
qed

lemma evict_ok:
  assumes "entries_ok C m (chain C rt)" and "chain C rt = map ((!) kvs) alive" and "distinct alive"
    and "distinct (map fst cs)" and "\<forall>c \<in> set cs. fst c \<in> set alive \<and> snd c = snd (kvs ! fst c)"
  shows "\<exists>rt' m' alive'. evict C by_size cs alive (rt, m) cnt left = Some (rt', m') \<and>
    entries_ok C m' (chain C rt') \<and> chain C rt' = map ((!) kvs) alive' \<and>
    set alive' \<subseteq> set alive \<and> (\<forall>k \<in> set alive. k \<notin> fst ` set cs \<longrightarrow> k \<in> set alive') \<and>
    freed C m m' (chain C rt) (chain C rt')"
  using assms
proof (induction cs arbitrary: rt m alive cnt left)
  case Nil
  then show ?case by (auto simp: freed_refl)
next
  case (Cons c cs)
  obtain n s where c: "c = (n, s)" by fastforce
  obtain as bs where alive: "alive = as @ n # bs" "n \<notin> set as"
    using Cons.prems(5) c split_list_first [of n alive] by auto
  then have place: "length (takeWhile (\<lambda>k. k \<noteq> n) alive) = length as" "remove1 n alive = as @ bs"
  proof -
    have "takeWhile (\<lambda>k. k \<noteq> n) as = as" using alive(2) by (auto simp: takeWhile_eq_all_conv)
    then show "length (takeWhile (\<lambda>k. k \<noteq> n) alive) = length as"
      using alive by (auto simp: takeWhile_append)
    show "remove1 n alive = as @ bs" using alive by (simp add: remove1_append)
  qed
  have kv: "snd (kvs ! n) = s" using Cons.prems(5) c by auto
  have ch: "chain C rt = map ((!) kvs) as @ kvs ! n # map ((!) kvs) bs"
    using Cons.prems(2) alive by simp
  obtain sz where sz: "size_of C s = Some sz"
    using Cons.prems(1) ch kv entry_size_of [OF cjson_lib_axioms, of m s] by (auto simp: entries_ok_def)
  obtain m1 where m1: "clear_state C s m = Some m1" "entries_ok C m1 (map ((!) kvs) (as @ bs))"
    "freed C m m1 (chain C rt) (map ((!) kvs) (as @ bs))"
    using entries_ok_remove [of C m "map ((!) kvs) as" "kvs ! n" "map ((!) kvs) bs"] Cons.prems(1) ch kv by auto
  define rt1 where "rt1 = DetachChild C rt (length as)"
  have ch1: "chain C rt1 = map ((!) kvs) (as @ bs)"
    using detach_append [OF ch] by (simp add: rt1_def)
  have stop: "\<exists>rt' m' alive'. Some (rt1, m1) = Some (rt', m') \<and>
      entries_ok C m' (chain C rt') \<and> chain C rt' = map ((!) kvs) alive' \<and>
      set alive' \<subseteq> set alive \<and> (\<forall>k \<in> set alive. k \<notin> fst ` set (c # cs) \<longrightarrow> k \<in> set alive') \<and>
      freed C m m' (chain C rt) (chain C rt')"
    using m1 ch1 alive c by (auto intro!: exI [of _ "as @ bs"])
  have step: "\<exists>rt' m' alive'. evict C by_size cs (as @ bs) (rt1, m1) cnt' left' = Some (rt', m') \<and>
      entries_ok C m' (chain C rt') \<and> chain C rt' = map ((!) kvs) alive' \<and>
      set alive' \<subseteq> set alive \<and> (\<forall>k \<in> set alive. k \<notin> fst ` set (c # cs) \<longrightarrow> k \<in> set alive') \<and>
      freed C m m' (chain C rt) (chain C rt')" for cnt' left'
  proof -
    have d: "distinct (as @ bs)" "distinct (map fst cs)" using Cons.prems(3,4) alive by auto
    have mem: "\<forall>c \<in> set cs. fst c \<in> set (as @ bs) \<and> snd c = snd (kvs ! fst c)"
      using Cons.prems(4,5) alive c by (force simp: image_iff)
    from Cons.IH [of m1 rt1 "as @ bs" cnt' left', OF _ ch1 d mem] m1(2) ch1
    obtain rt' m' alive' where r: "evict C by_size cs (as @ bs) (rt1, m1) cnt' left' = Some (rt', m')"
      "entries_ok C m' (chain C rt')" "chain C rt' = map ((!) kvs) alive'" "set alive' \<subseteq> set (as @ bs)"
      "\<forall>k \<in> set (as @ bs). k \<notin> fst ` set cs \<longrightarrow> k \<in> set alive'" "freed C m1 m' (map ((!) kvs) (as @ bs)) (chain C rt')"
      by auto
    have "freed C m m' (chain C rt) (chain C rt')"
      by (rule freed_trans [OF m1(3) r(6)]) (use r(3,4) ch in auto)
    with r alive c show ?thesis by (auto intro!: exI [of _ alive'])
  qed
  have eq: "evict C by_size (c # cs) alive (rt, m) cnt left =
    (if \<not> by_size
     then if cnt - 1 \<le> 0 then Some (rt1, m1) else evict C by_size cs (as @ bs) (rt1, m1) (cnt - 1) left
     else if left - sz < kCacheMaxBytes then Some (rt1, m1)
     else evict C by_size cs (as @ bs) (rt1, m1) cnt (left - sz))"
    by (simp add: c sz m1(1) place rt1_def Let_def)
  show ?case unfolding eq using stop step by (simp only: split: if_split) blast
qed

lemma candidates_facts:
  "distinct (map fst (candidates C b rt))"
  "c \<in> set (candidates C b rt) \<Longrightarrow>
   fst c < length (chain C rt) \<and> snd c = snd (chain C rt ! fst c) \<and> used_before C b (snd c)"
proof -
  show "distinct (map fst (candidates C b rt))"
    unfolding candidates_def by (rule distinct_map_filter) (simp flip: enumerate_eq_zip)
  assume "c \<in> set (candidates C b rt)"
  then show "fst c < length (chain C rt) \<and> snd c = snd (chain C rt ! fst c) \<and> used_before C b (snd c)"
    by (auto simp: candidates_def in_set_enumerate_eq items_def)
qed

lemma lru_prune_ok:
  assumes "store_ok C st" and sorter: "permutes qsort"
  shows "\<exists>st'. lru_prune C qsort time st = Some st' \<and> store_ok C st' \<and>
    set (chain C (root st')) \<subseteq> set (chain C (root st)) \<and>
    (\<forall>kv \<in> set (chain C (root st)). \<not> used_before C (time - kCacheMinAge) (snd kv) \<longrightarrow>
       kv \<in> set (chain C (root st'))) \<and>
    freed C (mem st) (mem st') (chain C (root st)) (chain C (root st'))"
    (is "\<exists>st'. _ = Some st' \<and> ?post st'")
proof -
  let ?old = "\<lambda>kv. used_before C (time - kCacheMaxAge) (snd kv)"
  have old: "used_before C (time - kCacheMaxAge) s \<Longrightarrow> used_before C (time - kCacheMinAge) s" for s
    by (auto simp: used_before_def kCacheMaxAge_def kCacheMinAge_def split: option.splits)
  have ok: "entries_ok C (mem st) (chain C (root st))" using assms(1) by (simp add: store_ok_def)
  have same: "?post st" using assms(1) by (simp add: freed_refl)
  obtain rt m cnt memory where po:
    "prune_old C (time - kCacheMaxAge) (items C (root st)) 0 (root st, mem st) 0 0 = Some (rt, m, cnt, memory)"
    "entries_ok C m (chain C rt)" "chain C rt = filter (\<lambda>kv. \<not> ?old kv) (chain C (root st))"
    "freed C (mem st) m (chain C (root st)) (chain C rt)"
    using prune_old_ok [OF ok, of "[]" "chain C (root st)" "time - kCacheMaxAge" 0 0] by (auto simp: items_def)
  let ?st1 = "st\<lparr>root := rt, mem := m, next_state_prune := time + kCacheCheckInterval\<rparr>"
  have one: "?post ?st1" using po old by (auto simp: store_ok_def)
  have two: "\<exists>rt' m'. evict C by_size (qsort cmp (candidates C (time - kCacheMinAge) rt))
      [0 ..< length (items C rt)] (rt, m) c left = Some (rt', m') \<and> ?post (?st1\<lparr>root := rt', mem := m'\<rparr>)"
    for by_size cmp c left
  proof -
    let ?cs = "candidates C (time - kCacheMinAge) rt" and ?alive = "[0 ..< length (items C rt)]"
    have sets: "set (qsort cmp ?cs) = set ?cs" using permutesD [OF sorter, of cmp ?cs] by (metis set_mset_mset)
    have dist: "distinct (map fst (qsort cmp ?cs))"
      using candidates_facts(1) [of "time - kCacheMinAge" rt] permutesD [OF sorter, of cmp ?cs]
      by (metis mset_eq_imp_distinct_iff mset_map)
    obtain rt' m' alive' where ev: "evict C by_size (qsort cmp ?cs) ?alive (rt, m) c left = Some (rt', m')"
      "entries_ok C m' (chain C rt')" "chain C rt' = map ((!) (chain C rt)) alive'" "set alive' \<subseteq> set ?alive"
      "\<forall>k \<in> set ?alive. k \<notin> fst ` set (qsort cmp ?cs) \<longrightarrow> k \<in> set alive'" "freed C m m' (chain C rt) (chain C rt')"
      using evict_ok [OF po(2), of "chain C rt" ?alive "qsort cmp ?cs" by_size c left] dist sets
        candidates_facts(2) [of _ "time - kCacheMinAge" rt] by (auto simp: map_nth)
    have sub: "set (chain C rt') \<subseteq> set (chain C rt)" using ev(3,4) by auto
    have kept: "kv \<in> set (chain C rt')"
      if "kv \<in> set (chain C (root st))" "\<not> used_before C (time - kCacheMinAge) (snd kv)" for kv
    proof -
      have "kv \<in> set (chain C rt)" using that old po(3) by auto
      then obtain k where k: "k < length (chain C rt)" "kv = chain C rt ! k" by (auto simp: in_set_conv_nth)
      have "k \<notin> fst ` set (qsort cmp ?cs)"
        using candidates_facts(2) [of _ "time - kCacheMinAge" rt] sets that(2) k by force
      then show ?thesis using ev(3,5) k by auto
    qed
    have "freed C (mem st) m' (chain C (root st)) (chain C rt')"
      by (rule freed_trans [OF po(4) ev(6) _ sub]) (auto simp: po(3))
    then show ?thesis using ev(1,2) sub po(3) kept by (auto simp: store_ok_def)
  qed
  show ?thesis
  proof (cases "use_cache st \<and> (next_state_prune st < time \<or> kCacheMaxCount < int (unat (cache_count st)) \<or>
      kCacheMaxBytes < cache_size st)")
    case False
    then have "lru_prune C qsort time st = Some st" by (auto simp: lru_prune_def)
    with same show ?thesis by blast
  next
    case True
    show ?thesis
    proof (cases "kCacheMaxCount < cnt \<or> kCacheMaxBytes < memory")
      case False
      with True po(1) have "lru_prune C qsort time st = Some ?st1" by (simp add: lru_prune_def)
      with one show ?thesis by blast
    next
      case over: True
      from two [of "kCacheMaxBytes < memory" "if kCacheMaxBytes < memory then lru_compare_size C else lru_compare_age C"
          "if kCacheMaxBytes < memory then 0 else cnt - kCacheMaxCount"
          "if kCacheMaxBytes < memory then memory - kCacheMaxBytes else 0"]
      obtain rt' m' where "lru_prune C qsort time st = Some (?st1\<lparr>root := rt', mem := m'\<rparr>)"
        "?post (?st1\<lparr>root := rt', mem := m'\<rparr>)"
        using True over po(1) by (auto simp: lru_prune_def Let_def)
      then show ?thesis by blast
    qed
  qed
qed

end

section \<open>Changing an entry\<close>

lemma entries_ok_replace:
  assumes "entries_ok C m (xs @ (k, s) # ys)" and "entry_ok C m s'" and "data_ptr C s' = data_ptr C s"
  shows "entries_ok C m (xs @ (k, s') # ys)"
  using assms by (simp add: entries_ok_def)

lemma entries_ok_write:
  assumes ok: "entries_ok C m (xs @ (k, s) # ys)" and "m (data_ptr C s) = Some block" and "length block' = length block"
  shows "entries_ok C (m(data_ptr C s := Some block')) (xs @ (k, s) # ys)"
    and "same_blocks C m (m(data_ptr C s := Some block')) (xs @ ys)"
proof -
  let ?m = "m(data_ptr C s := Some block')"
  have other: "data_ptr C (snd kv) \<noteq> data_ptr C s" if "kv \<in> set (xs @ ys)" for kv
    using ok that by (auto simp: entries_ok_def) (metis image_eqI snd_conv)+
  then show "same_blocks C m ?m (xs @ ys)" by (auto simp: same_blocks_def)
  have "entry_ok C ?m s" using ok assms(2,3) by (auto simp: entries_ok_def entry_ok_def)
  moreover have "entry_ok C ?m (snd kv)" if "kv \<in> set (xs @ ys)" for kv
    using ok that other [OF that] entry_ok_cong [of ?m C "snd kv" m] by (auto simp: entries_ok_def)
  ultimately show "entries_ok C ?m (xs @ (k, s) # ys)" using ok by (auto simp: entries_ok_def)
qed

lemma assoc_put_append:
  "\<forall>kv \<in> set xs. \<not> p (fst kv) \<Longrightarrow> p k \<Longrightarrow> assoc_put p w (xs @ (k, v) # ys) = xs @ (k, w) # ys"
  by (induction xs) auto

lemma key_unique:
  "distinct (map (map lower \<circ> fst) (xs @ (k, s) # ys)) \<Longrightarrow> same_key i k \<Longrightarrow>
   \<forall>kv \<in> set xs. \<not> same_key i (fst kv)"
  by (force simp: same_key_def)

text \<open>The fields the invariant speaks of are the same in two entries, and so is its form.\<close>

definition same_fields :: "'j cjson \<Rightarrow> 'j \<Rightarrow> 'j \<Rightarrow> bool" where
  "same_fields C s s' \<longleftrightarrow> IsObject C s' = IsObject C s \<and>
     (\<forall>k \<in> {''complete'', ''total_size'', ''ranges'', ''data''}. GetObjectItem C s' k = GetObjectItem C s k)"

lemma same_fields_ptr: "same_fields C s s' \<Longrightarrow> data_ptr C s' = data_ptr C s"
  by (simp add: same_fields_def data_ptr_def)

lemma same_fields_ok:
  assumes "same_fields C s s'" and "lowercase (chain C s')" and "distinct (map fst (chain C s'))"
    and "entry_ok C m s"
  shows "entry_ok C m s'"
  using assms same_fields_ptr [OF assms(1)] unfolding entry_ok_def same_fields_def by simp

lemma other_keys [simp]:
  "\<not> same_key ''lru'' ''complete''" "\<not> same_key ''lru'' ''total_size''" "\<not> same_key ''lru'' ''ranges''"
  "\<not> same_key ''lru'' ''data''" "\<not> same_key ''ranges'' ''complete''" "\<not> same_key ''ranges'' ''total_size''"
  "\<not> same_key ''ranges'' ''data''" "\<not> same_key ''complete'' ''total_size''" "\<not> same_key ''complete'' ''data''"
  "\<not> same_key ''complete'' ''ranges''" "\<not> same_key ''total_size'' ''data''" "\<not> same_key ''total_size'' ''ranges''"
  "\<not> same_key ''total_size'' ''complete''" "\<not> same_key ''data'' ''complete''" "\<not> same_key ''data'' ''total_size''"
  "\<not> same_key ''data'' ''ranges''"
  by (simp_all add: same_key_def lower_def)

context cjson_lib
begin

lemma put_append: "chain C rt = xs @ (k, s) # ys \<Longrightarrow> chain C (put C rt (length xs) s') = xs @ (k, s') # ys"
  by (simp add: put_law)

lemma lookup_append:
  assumes "chain C rt = xs @ (k, s) # ys" and "distinct (map (map lower \<circ> fst) (xs @ (k, s) # ys))" and "same_key i k"
  shows "GetObjectItem C rt i = Some s" and "chain C (put_item C rt i s') = xs @ (k, s') # ys"
proof -
  have none: "\<forall>kv \<in> set xs. \<not> same_key i (fst kv)" by (rule key_unique [OF assms(2,3)])
  then have "assoc (same_key i) xs = None" by (auto simp: assoc_None_iff)
  then show get: "GetObjectItem C rt i = Some s" using assms(1,3) by (simp add: object_law assoc_append)
  show "chain C (put_item C rt i s') = xs @ (k, s') # ys"
    using put_item_law [OF get, of s'] assms(1) assoc_put_append [OF none assms(3)] by simp
qed

lemma lru_tag_ok:
  assumes "entry_ok C m s"
  shows "same_fields C s (lru_tag C now s)" and "entry_ok C m (lru_tag C now s)"
    and "b \<le> now \<Longrightarrow> \<not> used_before C b (lru_tag C now s)"
proof -
  let ?s = "lru_tag C now s"
  have form: "lowercase (chain C s)" "distinct (map fst (chain C s))" using assms by (auto simp: entry_ok_def)
  have "same_fields C s ?s \<and> lowercase (chain C ?s) \<and> distinct (map fst (chain C ?s)) \<and>
    (b \<le> now \<longrightarrow> \<not> used_before C b ?s)" for b
  proof (cases "GetObjectItem C s ''lru''")
    case None
    then have eq: "?s = AddItemToObject C s ''lru'' (CreateNumber C now)" by (simp add: lru_tag_def)
    have low: "lowercase (chain C ?s)" using form by (simp add: eq add_object_law lower_def)
    have "''lru'' \<notin> fst ` set (chain C s)"
      using None by (force simp: object_law assoc_None_iff)
    then have dist: "distinct (map fst (chain C ?s))" using form by (simp add: eq add_object_law)
    have "GetObjectItemCS C ?s ''lru'' = Some (CreateNumber C now)"
      using None low exact_keys(5) [of "chain C ?s"]
      by (simp add: object_cs_law eq add_object_law object_law assoc_append)
    then have "b \<le> now \<longrightarrow> \<not> used_before C b ?s" by (simp add: used_before_def number_law)
    with low dist show ?thesis
      by (simp add: same_fields_def eq get_add_other object_kind)
  next
    case (Some lru)
    show ?thesis
    proof (cases "IsNumber C lru")
      case True
      let ?v = "with_valuedouble C lru now"
      have eq: "?s = put_item C s ''lru'' ?v" using Some True by (simp add: lru_tag_def)
      have low: "lowercase (chain C ?s)" using form by (simp add: eq put_item_law [OF Some])
      have "GetObjectItemCS C ?s ''lru'' = Some ?v"
        using exact_keys(5) [OF low] get_put_item_same [OF Some, of ?v]
        by (simp add: object_cs_law object_law eq)
      then have "b \<le> now \<longrightarrow> \<not> used_before C b ?s" by (simp add: used_before_def assign_law)
      with low form show ?thesis
        by (simp add: same_fields_def eq get_put_item_other [OF Some]) (simp add: put_item_law [OF Some])
    next
      case False
      then have "?s = s" using Some by (simp add: lru_tag_def)
      moreover have "GetObjectItemCS C s ''lru'' = Some lru"
        using exact_keys(5) [OF form(1)] Some by (simp add: object_cs_law object_law)
      ultimately show ?thesis using False form by (simp add: same_fields_def used_before_def)
    qed
  qed
  then show "same_fields C s ?s" "b \<le> now \<Longrightarrow> \<not> used_before C b ?s" "entry_ok C m ?s"
    using same_fields_ok [OF _ _ _ assms, of ?s] by auto
qed

end

section \<open>Writing\<close>

text \<open>
  What a write of \<open>len\<close> bytes at \<open>offset\<close> leaves of the ranges and of the mark of completeness
  in an asset of \<open>n\<close> bytes, from the entry \<open>s\<close> before to the entry \<open>s'\<close> after.
\<close>

definition ranges_written :: "'j cjson \<Rightarrow> nat \<Rightarrow> size_t \<Rightarrow> size_t \<Rightarrow> 'j \<Rightarrow> 'j \<Rightarrow> bool" where
  "ranges_written C n offset len s s' \<longleftrightarrow>
     (case GetObjectItem C s ''ranges'' of
        None \<Rightarrow> GetObjectItem C s' ''ranges'' = None \<and> GetObjectItem C s' ''complete'' = GetObjectItem C s ''complete''
      | Some ranges \<Rightarrow>
          (let ps = merge_pairs (unat offset) (unat offset + unat len) (pairs C ranges)
           in if ps = [(0, n)]
              then GetObjectItem C s' ''ranges'' = None \<and>
                   (\<exists>c. GetObjectItem C s' ''complete'' = Some c \<and> IsBool C c \<and> IsTrue C c)
              else (\<exists>ranges'. GetObjectItem C s' ''ranges'' = Some ranges' \<and> pairs C ranges' = ps) \<and>
                   GetObjectItem C s' ''complete'' = GetObjectItem C s ''complete''))"

definition entry_kept :: "'j cjson \<Rightarrow> 'j \<Rightarrow> 'j \<Rightarrow> bool" where
  "entry_kept C s s' \<longleftrightarrow> data_ptr C s' = data_ptr C s \<and>
     GetObjectItem C s' ''total_size'' = GetObjectItem C s ''total_size''"

lemma same_fields_kept: "same_fields C s s' \<Longrightarrow> entry_kept C s s'"
  by (simp add: entry_kept_def same_fields_ptr) (simp add: same_fields_def)

lemma entry_kept_trans: "entry_kept C s s' \<Longrightarrow> entry_kept C s' s'' \<Longrightarrow> entry_kept C s s''"
  by (simp add: entry_kept_def)

lemma ranges_written_same:
  "ranges_written C n offset len s s' \<Longrightarrow> same_fields C s' s'' \<Longrightarrow> ranges_written C n offset len s s''"
  by (simp add: ranges_written_def same_fields_def Let_def split: option.splits)

context cjson_lib
begin

lemma merged_entry:
  assumes s: "entry_ok C m s" "GetObjectItem C s ''ranges'' = Some ranges"
    and le: "offset \<le> fin" "unat fin < 2147483648"
  shows "\<exists>ranges' s1. merge_range C ranges offset fin = Some ranges' \<and> s1 = put_item C s ''ranges'' ranges' \<and>
    entry_ok C m s1 \<and> entry_kept C s s1 \<and> GetObjectItem C s1 ''ranges'' = Some ranges' \<and>
    ranges_ok C ranges' \<and> pairs C ranges' = merge_pairs (unat offset) (unat fin) (pairs C ranges) \<and>
    GetObjectItem C s1 ''complete'' = GetObjectItem C s ''complete''"
proof -
  have ok: "ranges_ok C ranges" "apart (pairs C ranges)" using s by (auto simp: entry_ok_def)
  obtain ranges' where r: "merge_range C ranges offset fin = Some ranges'" "ranges_ok C ranges'"
    "pairs C ranges' = merge_pairs (unat offset) (unat fin) (pairs C ranges)"
    using merge_range_pairs [OF ok le] by blast
  have ap: "apart (pairs C ranges')"
    using r(3) merge_pairs_apart(1) [OF ok(2)] le by (simp add: word_le_nat_alt)
  let ?s = "put_item C s ''ranges'' ranges'"
  have get: "GetObjectItem C ?s ''ranges'' = Some ranges'" by (rule get_put_item_same [OF s(2)])
  have others: "GetObjectItem C ?s k = GetObjectItem C s k" if "\<not> same_key ''ranges'' k" for k
    by (rule get_put_item_other [OF s(2) that])
  have kept: "entry_kept C s ?s" by (simp add: entry_kept_def data_ptr_def others)
  have "entry_ok C m ?s"
    using s(1) kept ap r(2) unfolding entry_ok_def entry_kept_def
    by (simp add: get others put_item_law [OF s(2)]) blast
  with r get kept others show ?thesis by simp
qed

lemma complete_entry:
  assumes s: "entry_ok C m s"
  defines "s' \<equiv> DeleteItemFromObject C (ReplaceItemInObjectCS C s ''complete'' (CreateBool C True)) ''ranges''"
  shows "entry_ok C m s'" and "entry_kept C s s'" and "GetObjectItem C s' ''ranges'' = None"
    and "GetObjectItem C s' ''complete'' = Some (CreateBool C True)"
proof -
  let ?kvs = "assoc_put (same_key ''complete'') (CreateBool C True) (chain C s)"
  have form: "IsObject C s" "lowercase (chain C s)" "distinct (map fst (chain C s))"
    using s by (auto simp: entry_ok_def)
  obtain c where c: "assoc (same_key ''complete'') (chain C s) = Some c"
    using s by (auto simp: entry_ok_def object_law)
  have ch: "chain C s' = assoc_delete (same_key ''ranges'') ?kvs"
    using form by (simp add: s'_def delete_object_law replace_law exact_keys)
  have low: "lowercase ?kvs" and dist: "distinct (map fst ?kvs)" using form by simp_all
  have get: "GetObjectItem C s' k =
    (if same_key ''ranges'' k then None else if same_key ''complete'' k then Some (CreateBool C True)
     else GetObjectItem C s k)" for k
    using c by (simp add: object_law ch assoc_delete_get [OF dist low] assoc_put_get)
  have "IsObject C s'" using form by (simp add: s'_def object_kind)
  moreover have "lowercase (chain C s')" "distinct (map fst (chain C s'))"
    unfolding ch using low dist by (simp_all add: assoc_distinct_delete)
  moreover show "entry_kept C s s'" by (simp add: entry_kept_def data_ptr_def get)
  ultimately show "entry_ok C m s'"
    using s unfolding entry_ok_def entry_kept_def by (simp add: get bool_law)
  show "GetObjectItem C s' ''ranges'' = None" "GetObjectItem C s' ''complete'' = Some (CreateBool C True)"
    by (simp_all add: get)
qed

lemma one_range_iff:
  assumes "ranges_ok C ranges" and "number_is C t n"
  shows "pairs C ranges = [(0, n)] \<longleftrightarrow> (\<exists>r f l. GetArraySize C ranges = 1 \<and> GetArrayItem C ranges 0 = Some r \<and>
    first_of C r = Some f \<and> last_of C r = Some l \<and> f = 0 \<and> l = scast (valueint C t))"
proof -
  have n: "scast (valueint C t) = (word_of_nat n :: size_t)" "unat (word_of_nat n :: size_t) = n"
    using scast_ucast_small [of "word_of_nat n"] assms(2)
    by (auto simp: number_is_def ucast_of_nat_32 width_simps)
  show ?thesis
  proof (cases "GetArraySize C ranges = 1")
    case False
    then show ?thesis by (auto simp: pairs_def size_law items_def)
  next
    case True
    then obtain kr where kr: "chain C ranges = [kr]" by (auto simp: size_law length_Suc_conv)
    then have items: "items C ranges = [snd kr]" "GetArrayItem C ranges 0 = Some (snd kr)"
      by (simp_all add: items_def item_law)
    then obtain f l where "first_of C (snd kr) = Some f" "last_of C (snd kr) = Some l"
      "pair_of C (snd kr) = (unat f, unat l)"
      using assms(1) by (auto simp: ranges_ok_def elim: range_okE)
    moreover have "unat f = 0 \<longleftrightarrow> f = 0" by (simp add: unat_eq_0)
    moreover have "unat l = n \<longleftrightarrow> l = word_of_nat n" using n by auto
    ultimately show ?thesis using items True n by (simp add: pairs_def)
  qed
qed

lemma update_asset_state_ok:
  assumes ch: "chain C rt = xs @ (k, s) # ys" and dist: "distinct (map (map lower \<circ> fst) (xs @ (k, s) # ys))"
    and key: "same_key i k" and s: "entry_ok C m s" and t: "GetObjectItem C s ''total_size'' = Some t" "number_is C t n"
  shows "\<exists>rt' s'. update_asset_state C rt i = Some rt' \<and> chain C rt' = xs @ (k, s') # ys \<and>
    entry_ok C m s' \<and> entry_kept C s s' \<and>
    (case GetObjectItem C s ''ranges'' of
       None \<Rightarrow> s' = s
     | Some ranges \<Rightarrow>
         if pairs C ranges = [(0, n)]
         then GetObjectItem C s' ''ranges'' = None \<and> GetObjectItem C s' ''complete'' = Some (CreateBool C True)
         else s' = s)"
proof (cases "GetObjectItem C s ''ranges''")
  case None
  with s ch lookup_append(1) [OF ch dist key] show ?thesis
    by (auto simp: update_asset_state_def entry_kept_def)
next
  case (Some ranges)
  have ok: "ranges_ok C ranges" using s Some by (auto simp: entry_ok_def)
  have get: "GetObjectItem C rt i = Some s" by (rule lookup_append(1) [OF ch dist key])
  let ?s = "DeleteItemFromObject C (ReplaceItemInObjectCS C s ''complete'' (CreateBool C True)) ''ranges''"
  show ?thesis
  proof (cases "pairs C ranges = [(0, n)]")
    case True
    then have "update_asset_state C rt i = Some (put_item C rt i ?s)"
      using one_range_iff [OF ok t(2)] Some get t(1) by (auto simp: update_asset_state_def)
    with complete_entry [OF s] lookup_append(2) [OF ch dist key, of ?s] True Some show ?thesis
      by auto
  next
    case False
    have "update_asset_state C rt i = Some rt"
    proof (cases "GetArraySize C ranges = 1")
      case one: True
      then obtain kr where kr: "chain C ranges = [kr]" by (auto simp: size_law length_Suc_conv)
      then have item: "GetArrayItem C ranges 0 = Some (snd kr)" "snd kr \<in> set (items C ranges)"
        by (simp_all add: items_def item_law)
      then obtain f l where "first_of C (snd kr) = Some f" "last_of C (snd kr) = Some l"
        using ok by (metis ranges_ok_def range_okE)
      then show ?thesis
        using False one_range_iff [OF ok t(2)] one item Some get t(1) by (auto simp: update_asset_state_def)
    qed (simp add: update_asset_state_def get Some)
    with s ch Some False show ?thesis by (auto simp: entry_kept_def)
  qed
qed

text \<open>What the two write functions share, up to the pruning at their end.\<close>

lemma mark_written_ok:
  assumes st: "store_ok C st" "chain C (root st) = xs @ (k, s) # ys" and key: "same_key i k"
    and t: "GetObjectItem C s ''total_size'' = Some t" "number_is C t n"
    and len: "unat offset + unat len \<le> n"
    and sorter: "permutes qsort"
    and clock: "time - kCacheMinAge \<le> now"
  shows "\<exists>st' s'. mark_written C qsort now time st i (length xs) s offset len = Some st' \<and> store_ok C st' \<and>
    GetObjectItem C (root st') i = Some s' \<and> entry_kept C s s' \<and> ranges_written C n offset len s s' \<and>
    mem st' (data_ptr C s) = mem st (data_ptr C s)"
proof -
  have ok: "entries_ok C (mem st) (xs @ (k, s) # ys)" using st by (simp add: store_ok_def)
  then have s: "entry_ok C (mem st) s" and dist: "distinct (map (map lower \<circ> fst) (xs @ (k, s) # ys))"
    by (auto simp: entries_ok_def)
  have n: "n < 2147483648" using t(2) by (simp add: number_is_def)
  have sum: "unat (offset + len) = unat offset + unat len"
    using len n by (intro unat_plus_small) simp
  have nowrap: "offset \<le> offset + len" by (simp add: word_le_nat_alt sum)
  obtain s1 where merge: "(case GetObjectItem C s ''ranges'' of None \<Rightarrow> Some s
      | Some ranges \<Rightarrow> map_option (put_item C s ''ranges'') (merge_range C ranges offset (offset + len))) = Some s1"
    and s1: "entry_ok C (mem st) s1" "entry_kept C s s1"
      "GetObjectItem C s1 ''complete'' = GetObjectItem C s ''complete''"
      "case GetObjectItem C s ''ranges'' of None \<Rightarrow> s1 = s
       | Some ranges \<Rightarrow> (\<exists>ranges'. GetObjectItem C s1 ''ranges'' = Some ranges' \<and>
           pairs C ranges' = merge_pairs (unat offset) (unat offset + unat len) (pairs C ranges))"
  proof (cases "GetObjectItem C s ''ranges''")
    case None
    then show thesis using that [of s] s by (simp add: entry_kept_def)
  next
    case (Some ranges)
    have "unat (offset + len) < 2147483648" using sum len n by simp
    from merged_entry [OF s Some nowrap this] obtain ranges' s1 where
      m: "merge_range C ranges offset (offset + len) = Some ranges'" "s1 = put_item C s ''ranges'' ranges'"
      "entry_ok C (mem st) s1" "entry_kept C s s1" "GetObjectItem C s1 ''ranges'' = Some ranges'"
      "pairs C ranges' = merge_pairs (unat offset) (unat (offset + len)) (pairs C ranges)"
      "GetObjectItem C s1 ''complete'' = GetObjectItem C s ''complete''" by blast
    show thesis by (rule that [of s1]) (use m Some sum in simp_all)
  qed
  have t1: "GetObjectItem C s1 ''total_size'' = Some t" using s1(2) t(1) by (simp add: entry_kept_def)
  have ch1: "chain C (put C (root st) (length xs) s1) = xs @ (k, s1) # ys" by (rule put_append [OF st(2)])
  have dist1: "distinct (map (map lower \<circ> fst) (xs @ (k, s1) # ys))" using dist by simp
  obtain rt s2 where up: "update_asset_state C (put C (root st) (length xs) s1) i = Some rt"
    "chain C rt = xs @ (k, s2) # ys" "entry_ok C (mem st) s2" "entry_kept C s1 s2"
    "case GetObjectItem C s1 ''ranges'' of None \<Rightarrow> s2 = s1
     | Some ranges \<Rightarrow> if pairs C ranges = [(0, n)]
         then GetObjectItem C s2 ''ranges'' = None \<and> GetObjectItem C s2 ''complete'' = Some (CreateBool C True)
         else s2 = s1"
    using update_asset_state_ok [OF ch1 dist1 key s1(1) t1 t(2)] by blast
  define s' where "s' = lru_tag C now s2"
  have at: "items C rt ! length xs = s2" using up(2) by (simp add: items_def nth_append)
  have tag: "same_fields C s2 s'" "entry_ok C (mem st) s'" "\<not> used_before C (time - kCacheMinAge) s'"
    unfolding s'_def by (rule lru_tag_ok(1) [OF up(3)], rule lru_tag_ok(2) [OF up(3)], rule lru_tag_ok(3) [OF up(3) clock])
  have kept: "entry_kept C s s'"
    by (rule entry_kept_trans [OF entry_kept_trans [OF s1(2) up(4)] same_fields_kept [OF tag(1)]])
  have "ranges_written C n offset len s s2"
    using s1(3,4) up(5) by (auto simp: ranges_written_def Let_def bool_law split: option.splits if_splits)
  then have written: "ranges_written C n offset len s s'" using tag(1) by (rule ranges_written_same)
  define st2 where "st2 = st\<lparr>root := put C rt (length xs) s'\<rparr>"
  have ch2: "chain C (root st2) = xs @ (k, s') # ys" using put_append [OF up(2)] by (simp add: st2_def)
  have "store_ok C st2"
    using entries_ok_replace [OF ok tag(2)] kept ch2 by (simp add: store_ok_def entry_kept_def) (simp add: st2_def)
  from lru_prune_ok [OF this sorter, of time] freed_same_blocks
  obtain st' where st': "lru_prune C qsort time st2 = Some st'" "store_ok C st'"
    "\<forall>kv \<in> set (chain C (root st2)). \<not> used_before C (time - kCacheMinAge) (snd kv) \<longrightarrow>
       kv \<in> set (chain C (root st'))" "same_blocks C (mem st2) (mem st') (chain C (root st'))" by blast
  have still: "(k, s') \<in> set (chain C (root st'))" using st'(3) ch2 tag(3) by auto
  have "distinct (map (map lower \<circ> fst) (chain C (root st')))"
    using st'(2) by (simp only: store_ok_def entries_ok_def)
  then have "GetObjectItem C (root st') i = Some s'"
    unfolding object_law by (rule assoc_unique [OF _ still key])
  moreover have "mem st' (data_ptr C s') = mem st2 (data_ptr C s')"
    using st'(4) still unfolding same_blocks_def by fastforce
  then have "mem st' (data_ptr C s) = mem st (data_ptr C s)"
    using kept by (simp add: entry_kept_def st2_def)
  moreover have "mark_written C qsort now time st i (length xs) s offset len = Some st'"
    using nowrap merge up(1) st'(1) by (simp add: mark_written_def at s'_def st2_def not_less)
  ultimately show ?thesis using st'(2) kept written by blast
qed

lemma locate_split:
  assumes "locate C rt i = Some (n, s)"
  obtains xs k ys where "chain C rt = xs @ (k, s) # ys" "n = length xs" "same_key i k" "IsObject C s"
    "GetObjectItem C rt i = Some s"
proof -
  have get: "GetObjectItem C rt i = Some s" and o: "IsObject C s" and n: "n = assoc_index (same_key i) (chain C rt)"
    using assms by (auto simp: locate_def split: option.splits if_splits)
  from get have "assoc (same_key i) (chain C rt) = Some s" by (simp add: object_law)
  then show thesis
  proof (rule assoc_split)
    fix xs k ys
    assume "chain C rt = xs @ (k, s) # ys" "length xs = assoc_index (same_key i) (chain C rt)" "same_key i k"
    then show thesis using that get o n by metis
  qed
qed

lemma entry_fields:
  assumes "entry_ok C m s"
  obtains t n f block where "GetObjectItem C s ''total_size'' = Some t" "number_is C t n"
    "GetObjectItem C s ''data'' = Some f" "IsString C f" "strtoll (valuestring C f) = data_ptr C s"
    "data_ptr C s \<noteq> 0" "m (data_ptr C s) = Some block" "length block = n" "entry_assertions C s"
proof -
  obtain t n f block c where f: "GetObjectItem C s ''total_size'' = Some t" "number_is C t n"
    "GetObjectItem C s ''data'' = Some f" "IsString C f" "data_ptr C s \<noteq> 0"
    "m (data_ptr C s) = Some block" "length block = n" "GetObjectItem C s ''complete'' = Some c"
    "IsTrue C c \<or> GetObjectItem C s ''ranges'' \<noteq> None"
    using assms by (auto simp: entry_ok_def)
  then have "entry_assertions C s" by (auto simp: entry_assertions_def)
  with f show thesis by (intro that) (auto simp: data_ptr_def)
qed

text \<open>A write to an entry of the store.\<close>

lemma write_existing:
  assumes ok: "store_ok C st" and loc: "locate C (root st) i = Some (k, s)"
    and block: "mem st (data_ptr C s) = Some block"
    and total: "total_size = word_of_nat (length block)"
    and len: "unat offset + unat len \<le> length block" "unat len \<le> length data"
    and sorter: "permutes qsort"
    and clock: "time - kCacheMinAge \<le> now"
  shows "\<exists>st' s'. memstorestore_write C qsort malloc now time st i offset data len total_size = Some (ucast len, st') \<and>
    store_ok C st' \<and> GetObjectItem C (root st') i = Some s' \<and> entry_kept C s s' \<and>
    ranges_written C (length block) offset len s s' \<and>
    mem st' (data_ptr C s) = Some (blit block (unat offset) (take (unat len) data))"
proof -
  obtain xs l ys where ch: "chain C (root st) = xs @ (l, s) # ys" "k = length xs" "same_key i l" "IsObject C s"
    by (rule locate_split [OF loc])
  have ent: "entries_ok C (mem st) (xs @ (l, s) # ys)" using ok ch by (simp add: store_ok_def)
  then have "entry_ok C (mem st) s" by (simp add: entries_ok_def)
  then obtain t f where s: "GetObjectItem C s ''total_size'' = Some t" "number_is C t (length block)"
    "GetObjectItem C s ''data'' = Some f" "strtoll (valuestring C f) = data_ptr C s" "data_ptr C s \<noteq> 0"
    "entry_assertions C s"
    using block by (auto elim!: entry_fields)
  let ?block = "blit block (unat offset) (take (unat len) data)"
  let ?m = "(mem st)(data_ptr C s := Some ?block)"
  have copy: "copy_into (mem st) (data_ptr C s) offset data len = Some ?m"
    using block len by (simp add: copy_into_def)
  have "length ?block = length block" using len by simp
  then have "store_ok C (st\<lparr>mem := ?m\<rparr>)"
    using entries_ok_write(1) [OF ent block] ch(1) by (simp add: store_ok_def)
  from mark_written_ok [OF this _ ch(3) s(1,2) len(1) sorter clock, of xs ys]
  obtain st' s' where w: "mark_written C qsort now time (st\<lparr>mem := ?m\<rparr>) i (length xs) s offset len = Some st'"
    "store_ok C st'" "GetObjectItem C (root st') i = Some s'" "entry_kept C s s'"
    "ranges_written C (length block) offset len s s'" "mem st' (data_ptr C s) = Some ?block"
    using ch(1) by auto
  have small: "length block < 2147483648" using s(2) by (simp add: number_is_def)
  then have "unat (offset + len) = unat offset + unat len" using len by (intro unat_plus_small) simp
  moreover have "unat total_size = length block" using small by (simp add: total width_simps)
  ultimately have "\<not> total_size < offset + len" using len by (simp add: word_less_nat_alt)
  then have "memstorestore_write C qsort malloc now time st i offset data len total_size = Some (ucast len, st')"
    using w(1) loc s ch(2) copy by (simp add: memstorestore_write_def)
  with w show ?thesis by blast
qed

end

text \<open>An address that \<open>malloc\<close> may return for a request of \<open>sz\<close> bytes.\<close>

definition fresh_block :: "blocks \<Rightarrow> size_t \<Rightarrow> size_t \<Rightarrow> u8 list \<Rightarrow> bool" where
  "fresh_block m sz p block \<longleftrightarrow> p \<noteq> 0 \<and> unat p < 9223372036854775808 \<and> m p = None \<and> length block = unat sz"

context cjson_lib
begin

lemma new_entry_ok:
  assumes fresh: "fresh_block m total_size p block" and small: "unat total_size < 2147483648"
  defines "s \<equiv> AddItemToObject C (new_entry C total_size) ''data'' (CreateString C (decimal (unat p)))"
  shows "entry_ok C (m(p := Some block)) s" and "data_ptr C s = p"
    and "GetObjectItem C s ''total_size'' = Some (CreateNumber C (of_nat (unat total_size)))"
    and "number_is C (CreateNumber C (of_nat (unat total_size))) (unat total_size)"
    and "GetObjectItem C s ''ranges'' = Some (CreateArray C)"
    and "GetObjectItem C s ''complete'' = Some (CreateBool C False)"
proof -
  have ch: "chain C s = [(''complete'', CreateBool C False), (''total_size'', CreateNumber C (of_nat (unat total_size))),
    (''ranges'', CreateArray C), (''data'', CreateString C (decimal (unat p)))]"
    by (simp add: s_def new_entry_def add_object_law empty_law)
  have get: "GetObjectItem C s ''complete'' = Some (CreateBool C False)"
    "GetObjectItem C s ''total_size'' = Some (CreateNumber C (of_nat (unat total_size)))"
    "GetObjectItem C s ''ranges'' = Some (CreateArray C)"
    "GetObjectItem C s ''data'' = Some (CreateString C (decimal (unat p)))"
    by (simp_all add: object_law ch)
  show ptr: "data_ptr C s = p"
    using fresh by (simp add: data_ptr_def get string_law strtoll_decimal fresh_block_def)
  have "valueint C (CreateNumber C (of_nat (unat total_size))) = word_of_nat (unat total_size)"
  proof -
    have "uint total_size < 2147483648" using small unfolding unat_eq_nat_uint by linarith
    moreover have "- 2147483648 \<le> uint total_size"
      using unsigned_greater_eq [of total_size, where ?'a = int] by linarith
    ultimately show ?thesis using int_law [where z = "uint total_size"] by simp
  qed
  then show num: "number_is C (CreateNumber C (of_nat (unat total_size))) (unat total_size)"
    using small by (simp add: number_is_def number_law)
  have "ranges_ok C (CreateArray C)" "apart (pairs C (CreateArray C))"
    by (simp_all add: ranges_ok_def pairs_def items_def empty_law array_kind)
  moreover have "IsObject C s" by (simp add: s_def new_entry_def object_kind)
  moreover have "lowercase (chain C s)" by (simp add: ch lower_def)
  moreover have "distinct (map fst (chain C s))" by (simp add: ch)
  ultimately show "entry_ok C (m(p := Some block)) s"
    using fresh num by (simp add: entry_ok_def get ptr string_law bool_law fresh_block_def)
  show "GetObjectItem C s ''total_size'' = Some (CreateNumber C (of_nat (unat total_size)))"
    "GetObjectItem C s ''ranges'' = Some (CreateArray C)"
    "GetObjectItem C s ''complete'' = Some (CreateBool C False)"
    by (fact get)+
qed

text \<open>A write to an asset the store has not heard of.\<close>

lemma write_new:
  assumes ok: "store_ok C st" and none: "GetObjectItem C (root st) i = None"
    and malloc: "malloc (mem st) total_size = Some (p, block)" "fresh_block (mem st) total_size p block"
    and small: "unat total_size < 2147483648"
    and len: "unat offset + unat len \<le> unat total_size" "unat len \<le> length data"
    and sorter: "permutes qsort"
    and clock: "time - kCacheMinAge \<le> now"
  shows "\<exists>st' s'. memstorestore_write C qsort malloc now time st i offset data len total_size = Some (ucast len, st') \<and>
    store_ok C st' \<and> GetObjectItem C (root st') i = Some s' \<and> data_ptr C s' = p \<and>
    (let ps = [(unat offset, unat offset + unat len)]
     in if ps = [(0, unat total_size)]
        then GetObjectItem C s' ''ranges'' = None \<and> (\<exists>c. GetObjectItem C s' ''complete'' = Some c \<and> IsTrue C c)
        else (\<exists>ranges. GetObjectItem C s' ''ranges'' = Some ranges \<and> pairs C ranges = ps) \<and>
             GetObjectItem C s' ''complete'' = Some (CreateBool C False)) \<and>
    mem st' p = Some (blit block (unat offset) (take (unat len) data))"
proof -
  define s where "s = AddItemToObject C (new_entry C total_size) ''data'' (CreateString C (decimal (unat p)))"
  let ?block = "blit block (unat offset) (take (unat len) data)"
  let ?m = "(mem st)(p := Some ?block)"
  have lb: "length ?block = unat total_size" using len malloc(2) by (simp add: fresh_block_def)
  then have fresh: "fresh_block (mem st) total_size p ?block" using malloc(2) by (simp add: fresh_block_def)
  note s = new_entry_ok [OF fresh small, folded s_def]
  define st1 where "st1 = st\<lparr>root := AddItemToObject C (root st) i s, mem := ?m\<rparr>"
  have ch: "chain C (root st1) = chain C (root st) @ (i, s) # []" by (simp add: st1_def add_object_law)
  have old: "entries_ok C (mem st) (chain C (root st))" using ok by (simp add: store_ok_def)
  then have ptrs: "data_ptr C (snd kv) \<noteq> p" if "kv \<in> set (chain C (root st))" for kv
    using that fresh by (auto simp: entries_ok_def fresh_block_def elim!: entry_fields)
  then have old': "entries_ok C ?m (chain C (root st))" by (intro entries_ok_cong [OF old]) simp
  have "map lower (fst kv) \<noteq> map lower i" if "kv \<in> set (chain C (root st))" for kv
    using none that by (auto simp: object_law assoc_None_iff same_key_def)
  with old' s(1,2) ptrs have "entries_ok C ?m (chain C (root st) @ [(i, s)])"
    by (fastforce simp: entries_ok_def)
  then have "store_ok C st1" using ch by (simp add: store_ok_def) (simp add: st1_def)
  from mark_written_ok [OF this ch _ s(3,4) len(1) sorter clock, of i]
  obtain st' s' where w: "mark_written C qsort now time st1 i (length (chain C (root st))) s offset len = Some st'"
    "store_ok C st'" "GetObjectItem C (root st') i = Some s'" "entry_kept C s s'"
    "ranges_written C (unat total_size) offset len s s'" "mem st' p = Some ?block"
    by (auto simp: s(2)) (simp add: st1_def)
  have "unat (offset + len) = unat offset + unat len" using len small by (intro unat_plus_small) simp
  then have "\<not> total_size < offset + len" using len by (simp add: word_less_nat_alt)
  moreover have "p \<noteq> 0" "length block = unat total_size" using malloc(2) by (auto simp: fresh_block_def)
  ultimately have "memstorestore_write C qsort malloc now time st i offset data len total_size = Some (ucast len, st')"
    using w(1) none malloc(1) len
    by (simp add: memstorestore_write_def locate_def copy_into_def Let_def s_def st1_def)
  moreover have "pairs C (CreateArray C) = []" by (simp add: pairs_def items_def empty_law)
  ultimately show ?thesis
    using w s(2,5,6)
    by (auto simp: ranges_written_def entry_kept_def merge_pairs_def add_left_def Let_def split: if_splits)
qed

text \<open>A read inside an asset.\<close>

lemma read_existing:
  assumes ok: "store_ok C st" and get: "GetObjectItem C (root st) i = Some s"
    and block: "mem st (data_ptr C s) = Some block" and offset: "unat offset \<le> length block"
    and sorter: "permutes qsort"
    and n: "n = min (unat len) (length block - unat offset)"
  shows "\<exists>st'. memstore_read C qsort now time st i offset len =
      Some (word_of_nat n, take n (drop (unat offset) block), Some (word_of_nat (length block)), st') \<and> store_ok C st'"
proof -
  obtain xs k ys where split: "chain C (root st) = xs @ (k, s) # ys" "length xs = assoc_index (same_key i) (chain C (root st))"
    using get by (metis assoc_split object_law)
  have ent: "entries_ok C (mem st) (xs @ (k, s) # ys)" using ok split by (simp add: store_ok_def)
  then have s: "entry_ok C (mem st) s" by (simp add: entries_ok_def)
  obtain t f where f: "GetObjectItem C s ''total_size'' = Some t" "number_is C t (length block)"
    "GetObjectItem C s ''data'' = Some f" "IsString C f" "strtoll (valuestring C f) = data_ptr C s"
    using block by (auto intro: entry_fields [OF s])
  have loc: "locate C (root st) i = Some (length xs, s)"
    using get s split by (simp add: locate_def entry_ok_def)
  let ?st = "st\<lparr>root := put C (root st) (length xs) (lru_tag C now s)\<rparr>"
  have "store_ok C ?st"
    using entries_ok_replace [OF ent lru_tag_ok(2) [OF s, of now]] same_fields_ptr [OF lru_tag_ok(1) [OF s, of now]]
      put_append [OF split(1)] by (simp add: store_ok_def)
  from lru_prune_ok [OF this sorter, of time]
  obtain st' where st': "lru_prune C qsort time ?st = Some st'" "store_ok C st'" by blast
  have lb: "length block < 2147483648" using f(2) by (simp add: number_is_def)
  define tot :: size_t where "tot = word_of_nat (length block)"
  have ut: "unat tot = length block" using lb by (simp add: tot_def width_simps)
  have left: "unat (tot - offset) = length block - unat offset"
    using offset ut by (simp add: unat_minus_small word_le_nat_alt)
  define l where "l = (if len < tot - offset then len else tot - offset)"
  have ul: "unat l = n" using left by (auto simp: l_def n word_less_nat_alt)
  have "\<lfloor>valuedouble C t\<rfloor> = int (length block)" using f(2) by (simp add: number_is_def)
  then have "memstore_read C qsort now time st i offset len =
    Some (ucast l, take n (drop (unat offset) block), Some tot, st')"
    using loc f st'(1) block offset ul n
    by (simp add: memstore_read_def number_is_def copy_out_def Let_def flip: tot_def l_def)
  moreover have "ucast l = (word_of_nat n :: i32)"
    by (simp flip: ul)
  ultimately show ?thesis using st'(2) by (simp add: tot_def)
qed

end

section \<open>A store for the witnesses\<close>

text \<open>One asset of four bytes, of which the range \<open>[0, 2]\<close> is recorded.\<close>

definition sample_entry :: json where
  "sample_entry = jobj [(''complete'', jbool False), (''total_size'', jnum 4),
     (''ranges'', jarr [jarr [jnum 0, jnum 2]]), (''data'', jstr ''64'')]"

definition sample_store :: "json store" where
  "sample_store = \<lparr>root = jobj [(''a'', sample_entry)], use_cache = True, cache_count = 0, cache_size = 0,
     next_state_prune = 0, mem = (\<lambda>p. if p = 64 then Some [1, 2, 3, 4] else None)\<rparr>"

definition keep_order :: "json sorter" where
  "keep_order cmp xs = xs"

lemma keep_order_permutes: "permutes keep_order"
  by (simp add: permutes_def keep_order_def)

lemma sample_entry_fields:
  "GetObjectItem json_ops sample_entry ''complete'' = Some (jbool False)"
  "GetObjectItem json_ops sample_entry ''total_size'' = Some (jnum 4)"
  "GetObjectItem json_ops sample_entry ''ranges'' = Some (jarr [jarr [jnum 0, jnum 2]])"
  "GetObjectItem json_ops sample_entry ''data'' = Some (jstr ''64'')"
  "data_ptr json_ops sample_entry = 64"
  "pairs json_ops (jarr [jarr [jnum 0, jnum 2]]) = [(0, 2)]"
  by (simp_all add: sample_entry_def data_ptr_def json_defs strtoll_def pairs_def pair_of_def items_def
      first_of_def last_of_def)

lemma sample_store_ok: "store_ok json_ops sample_store"
proof -
  have "ranges_ok json_ops (jarr [jarr [jnum 0, jnum 2]])"
    by (simp add: ranges_ok_def range_ok_def items_def first_of_def last_of_def json_defs)
  moreover have "apart (pairs json_ops (jarr [jarr [jnum 0, jnum 2]]))"
    by (simp add: sample_entry_fields apart_def)
  moreover have "IsObject json_ops sample_entry" "lowercase (chain json_ops sample_entry)"
    "distinct (map fst (chain json_ops sample_entry))"
    by (simp_all add: sample_entry_def json_defs lower_def)
  moreover have "number_is json_ops (jnum 4) (Suc (Suc (Suc (Suc 0))))" "IsString json_ops (jstr ''64'')" "IsBool json_ops (jbool False)"
    by (simp_all add: number_is_def json_defs)
  ultimately have "entry_ok json_ops (mem sample_store) sample_entry"
    unfolding entry_ok_def by (simp add: sample_entry_fields sample_store_def)
  then show ?thesis by (simp add: store_ok_def entries_ok_def sample_store_def json_defs)
qed

lemma sample_lookup:
  "GetObjectItem json_ops (root sample_store) ''a'' = Some sample_entry"
  "GetObjectItem json_ops (root sample_store) ''b'' = None"
  "locate json_ops (root sample_store) ''a'' = Some (0, sample_entry)"
  by (simp_all add: sample_store_def locate_def json_defs same_key_def lower_def sample_entry_def)

section \<open>Properties\<close>

text \<open>
  C17. Pruning a store in good order neither fails an assertion nor frees a block twice, leaves a
  store in good order and only takes entries away: never one that is static (its \<open>lru\<close> is not
  a number) or that was used in the last five seconds. The memory afterwards is the memory before
  without the blocks of exactly the entries taken away: none of them leaks, and no other block changes.
\<close>

theorem lru_prune_keeps_entries_in_use:
  assumes "cjson_lib C" and "permutes qsort" and "store_ok C st"
  shows "\<exists>st'. lru_prune C qsort time st = Some st' \<and> store_ok C st' \<and>
    set (chain C (root st')) \<subseteq> set (chain C (root st)) \<and>
    (\<forall>kv \<in> set (chain C (root st)). \<not> used_before C (time - kCacheMinAge) (snd kv) \<longrightarrow>
       kv \<in> set (chain C (root st'))) \<and>
    mem st' = (\<lambda>p. if p \<in> (\<lambda>kv. data_ptr C (snd kv)) ` (set (chain C (root st)) - set (chain C (root st')))
      then None else mem st p)"
proof -
  obtain st' where st': "lru_prune C qsort time st = Some st'" "store_ok C st'"
      "set (chain C (root st')) \<subseteq> set (chain C (root st))"
      "\<forall>kv \<in> set (chain C (root st)). \<not> used_before C (time - kCacheMinAge) (snd kv) \<longrightarrow> kv \<in> set (chain C (root st'))"
      "freed C (mem st) (mem st') (chain C (root st)) (chain C (root st'))"
    using cjson_lib.lru_prune_ok [OF assms(1,3,2)] by blast
  have "inj_on (data_ptr C \<circ> snd) (set (chain C (root st)))"
    using assms(3) by (simp add: store_ok_def entries_ok_def distinct_map)
  then have "data_ptrs C (chain C (root st)) - data_ptrs C (chain C (root st')) =
      (\<lambda>kv. data_ptr C (snd kv)) ` (set (chain C (root st)) - set (chain C (root st')))"
    using inj_on_image_set_diff [of "data_ptr C \<circ> snd" "set (chain C (root st))" "set (chain C (root st))"] st'(3)
    by (simp add: data_ptrs_def comp_def)
  with st' show ?thesis by (auto simp: freed_def)
qed

theorem lru_prune_keeps_entries_in_use_witness:
  "\<exists>st'. lru_prune json_ops keep_order 100 sample_store = Some st' \<and> store_ok json_ops st' \<and>
     (''a'', sample_entry) \<in> set (chain json_ops (root st'))"
proof -
  have "\<not> used_before json_ops (100 - kCacheMinAge) sample_entry"
    by (simp add: used_before_def sample_entry_def json_defs)
  with lru_prune_keeps_entries_in_use [OF json.cjson_lib_axioms keep_order_permutes sample_store_ok, of 100]
  show ?thesis by (fastforce simp: sample_store_def json_defs)
qed

text \<open>
  Writing to an asset the store does not know allocates a block of the announced size, copies
  the bytes to their offset and records the one range; the store stays in good order.
\<close>

theorem memstore_write_creates_asset:
  assumes "cjson_lib C" and "permutes qsort" and "store_ok C st"
    and "GetObjectItem C (root st) i = None"
    and "malloc (mem st) total_size = Some (p, block)" and "fresh_block (mem st) total_size p block"
    and "unat total_size < 2147483648" and "unat offset + unat len \<le> unat total_size"
    and "unat len \<le> length data" and "time - kCacheMinAge \<le> now"
  shows "\<exists>st' s'. memstorestore_write C qsort malloc now time st i offset data len total_size = Some (ucast len, st') \<and>
    store_ok C st' \<and> GetObjectItem C (root st') i = Some s' \<and> data_ptr C s' = p \<and>
    (let ps = [(unat offset, unat offset + unat len)]
     in if ps = [(0, unat total_size)]
        then GetObjectItem C s' ''ranges'' = None \<and> (\<exists>c. GetObjectItem C s' ''complete'' = Some c \<and> IsTrue C c)
        else (\<exists>ranges. GetObjectItem C s' ''ranges'' = Some ranges \<and> pairs C ranges = ps) \<and>
             GetObjectItem C s' ''complete'' = Some (CreateBool C False)) \<and>
    mem st' p = Some (blit block (unat offset) (take (unat len) data))"
  by (rule cjson_lib.write_new [where malloc = malloc, OF assms(1,3-9) assms(2) assms(10)])

theorem memstore_write_creates_asset_witness:
  "\<exists>st' s'. memstorestore_write json_ops keep_order (\<lambda>m sz. Some (128, replicate (unat sz) 0)) 100 100
       sample_store ''b'' 1 [7, 8] 2 6 = Some (2, st') \<and>
     GetObjectItem json_ops (root st') ''b'' = Some s' \<and> mem st' 128 = Some [0, 7, 8, 0, 0, 0] \<and>
     (\<exists>ranges. GetObjectItem json_ops s' ''ranges'' = Some ranges \<and> pairs json_ops ranges = [(1, 3)])"
proof -
  let ?malloc = "\<lambda>(m :: blocks) sz :: size_t. Some (128 :: size_t, replicate (unat sz) (0 :: u8))"
  have f: "fresh_block (mem sample_store) 6 128 [0, 0, 0, 0, 0, 0]"
    by (simp add: fresh_block_def sample_store_def)
  have m: "?malloc (mem sample_store) 6 = Some (128, [0, 0, 0, 0, 0, 0])"
    by simp (simp add: numeral_eq_Suc)
  show ?thesis
    using memstore_write_creates_asset [where malloc = ?malloc, OF json.cjson_lib_axioms keep_order_permutes
        sample_store_ok sample_lookup(2) m f, of 1 2 "[7, 8]" 100 100]
    by (auto simp: blit_def kCacheMinAge_def Let_def)
qed

text \<open>
  Writing to an asset of the store copies the bytes to their offset in its block, merges the
  range and marks the asset complete exactly when one range from 0 to its size is left; the
  store stays in good order.
\<close>

theorem memstore_write_extends_asset:
  assumes "cjson_lib C" and "permutes qsort" and "store_ok C st"
    and "locate C (root st) i = Some (k, s)" and "mem st (data_ptr C s) = Some block"
    and "total_size = word_of_nat (length block)" and "unat offset + unat len \<le> length block"
    and "unat len \<le> length data" and "time - kCacheMinAge \<le> now"
  shows "\<exists>st' s'. memstorestore_write C qsort malloc now time st i offset data len total_size = Some (ucast len, st') \<and>
    store_ok C st' \<and> GetObjectItem C (root st') i = Some s' \<and> entry_kept C s s' \<and>
    ranges_written C (length block) offset len s s' \<and>
    mem st' (data_ptr C s) = Some (blit block (unat offset) (take (unat len) data))"
  by (rule cjson_lib.write_existing [where malloc = malloc, OF assms(1,3-8) assms(2) assms(9)])

theorem memstore_write_extends_asset_witness:
  "\<exists>st' s' c. memstorestore_write json_ops keep_order (\<lambda>m sz. None) 100 100 sample_store ''a'' 2 [8, 9] 2 4 =
       Some (2, st') \<and> GetObjectItem json_ops (root st') ''a'' = Some s' \<and>
     GetObjectItem json_ops s' ''ranges'' = None \<and> GetObjectItem json_ops s' ''complete'' = Some c \<and>
     IsTrue json_ops c \<and> mem st' 64 = Some [1, 2, 8, 9]"
proof -
  have "mem sample_store (data_ptr json_ops sample_entry) = Some [1, 2, 3, 4]"
    by (simp add: sample_entry_fields) (simp add: sample_store_def)
  from memstore_write_extends_asset [where malloc = "\<lambda>m sz. None", OF json.cjson_lib_axioms keep_order_permutes
      sample_store_ok sample_lookup(3) this, of 4 2 2 "[8, 9]" 100 100]
  show ?thesis
    by (fastforce simp: blit_def kCacheMinAge_def ranges_written_def sample_entry_fields merge_pairs_def add_left_def)
qed

text \<open>
  A read inside an asset returns the bytes of its block from the offset on, cut at the size of
  the asset, with their number and that size, and leaves the store in good order.
\<close>

theorem memstore_read_returns_bytes:
  assumes "cjson_lib C" and "permutes qsort" and "store_ok C st"
    and "GetObjectItem C (root st) i = Some s" and "mem st (data_ptr C s) = Some block"
    and "unat offset \<le> length block"
  shows "\<exists>st'. memstore_read C qsort now time st i offset len =
      (let n = min (unat len) (length block - unat offset)
       in Some (word_of_nat n, take n (drop (unat offset) block), Some (word_of_nat (length block)), st')) \<and>
    store_ok C st'"
  using cjson_lib.read_existing [OF assms(1,3-6) assms(2) refl] by (simp add: Let_def)

theorem memstore_read_returns_bytes_witness:
  "\<exists>st'. memstore_read json_ops keep_order 100 100 sample_store ''a'' 1 9 = Some (3, [2, 3, 4], Some 4, st') \<and>
     store_ok json_ops st'"
proof -
  have "mem sample_store (data_ptr json_ops sample_entry) = Some [1, 2, 3, 4]"
    by (simp add: sample_entry_fields) (simp add: sample_store_def)
  from memstore_read_returns_bytes [OF json.cjson_lib_axioms keep_order_permutes sample_store_ok sample_lookup(1) this,
      of 1 100 100 9]
  show ?thesis by simp
qed

text \<open>
  C18. What has been written is read back: after a write to an asset of the store, a read of the
  same range returns the bytes written.
\<close>

theorem memstore_write_read:
  assumes "cjson_lib C" and "permutes qsort" and "store_ok C st"
    and "locate C (root st) i = Some (k, s)" and "mem st (data_ptr C s) = Some block"
    and "total_size = word_of_nat (length block)" and "unat offset + unat len \<le> length block"
    and "unat len \<le> length data" and "time - kCacheMinAge \<le> now"
  shows "\<exists>st1 st2. memstorestore_write C qsort malloc now time st i offset data len total_size = Some (ucast len, st1) \<and>
    memstore_read C qsort now' time' st1 i offset len =
      Some (ucast len, take (unat len) data, Some total_size, st2)"
proof -
  obtain st1 s1 where w: "memstorestore_write C qsort malloc now time st i offset data len total_size = Some (ucast len, st1)"
    "store_ok C st1" "GetObjectItem C (root st1) i = Some s1" "entry_kept C s s1"
    "mem st1 (data_ptr C s) = Some (blit block (unat offset) (take (unat len) data))"
    using cjson_lib.write_existing [where malloc = malloc, OF assms(1,3-8) assms(2) assms(9)] by blast
  let ?b = "blit block (unat offset) (take (unat len) data)"
  have lb: "length ?b = length block" using assms(7,8) by simp
  have b: "mem st1 (data_ptr C s1) = Some ?b" using w(4,5) by (simp add: entry_kept_def)
  have n: "unat len = min (unat len) (length ?b - unat offset)" using lb assms(7) by simp
  have o: "unat offset \<le> length ?b" using lb assms(7) by simp
  obtain st2 where r: "memstore_read C qsort now' time' st1 i offset len =
    Some (word_of_nat (unat len), take (unat len) (drop (unat offset) ?b), Some (word_of_nat (length ?b)), st2)"
    using cjson_lib.read_existing [OF assms(1) w(2,3) b o assms(2) n] by blast
  have "take (unat len) (drop (unat offset) ?b) = take (unat len) data"
    using assms(7,8) by (simp add: blit_def)
  moreover have "word_of_nat (unat len) = (ucast len :: i32)" by simp
  ultimately show ?thesis using w(1) r lb assms(6) by simp
qed

theorem memstore_write_read_witness:
  "\<exists>st1 st2. memstorestore_write json_ops keep_order (\<lambda>m sz. None) 100 100 sample_store ''a'' 1 [8, 9] 2 4 =
       Some (2, st1) \<and>
     memstore_read json_ops keep_order 200 200 st1 ''a'' 1 2 = Some (2, [8, 9], Some 4, st2)"
proof -
  have "mem sample_store (data_ptr json_ops sample_entry) = Some [1, 2, 3, 4]"
    by (simp add: sample_entry_fields) (simp add: sample_store_def)
  from memstore_write_read [where malloc = "\<lambda>m sz. None", OF json.cjson_lib_axioms keep_order_permutes
      sample_store_ok sample_lookup(3) this, of 4 1 2 "[8, 9]" 100 100 200 200]
  show ?thesis by (simp add: kCacheMinAge_def)
qed

text \<open>
  Asked about an asset of a store in good order, the code answers without a failed assertion:
  that it exists, its size, whether it is marked complete, and the number of gaps in its ranges
  (none when it is complete).
\<close>

theorem memstore_state_reports:
  assumes "cjson_lib C" and "store_ok C st" and "GetObjectItem C (root st) i = Some s"
    and "mem st (data_ptr C s) = Some block"
  shows "\<exists>c regions. memstore_state C (True, True, True, True) st i =
      Some \<lparr>out_exists = Some True, out_complete = Some c, out_regions_count = Some regions,
        out_total_size = Some (word_of_nat (length block))\<rparr> \<and>
    (c \<longrightarrow> regions = 0) \<and>
    (\<not> c \<longrightarrow> (\<exists>ranges. GetObjectItem C s ''ranges'' = Some ranges \<and>
      regions = scast (word_of_nat (length (take 18446744073709551615 (gaps (length block) 0 (pairs C ranges)))) :: i32)))"
proof -
  obtain k where "(k, s) \<in> set (chain C (root st))"
    using assms(3) assoc_SomeD by (fastforce simp: cjson_lib.object_law [OF assms(1)])
  then have s: "entry_ok C (mem st) s" using assms(2) by (auto simp: store_ok_def entries_ok_def)
  obtain t where t: "GetObjectItem C s ''total_size'' = Some t" "number_is C t (length block)"
    using assms(4) by (auto intro: cjson_lib.entry_fields [OF assms(1) s])
  obtain c where c: "GetObjectItem C s ''complete'' = Some c" "IsBool C c"
    "IsTrue C c \<or> GetObjectItem C s ''ranges'' \<noteq> None" and o: "IsObject C s" "lowercase (chain C s)"
    using s by (auto simp: entry_ok_def)
  have tcs: "GetObjectItemCS C s ''total_size'' = Some t"
    using t(1) exact_keys(2) [OF o(2)] by (simp add: cjson_lib.object_law [OF assms(1)] cjson_lib.object_cs_law [OF assms(1)])
  have n: "scast (valueint C t) = (word_of_nat (length block) :: size_t)"
      "unat (word_of_nat (length block) :: size_t) = length block"
    using scast_ucast_small [of "word_of_nat (length block)"] t(2)
    by (auto simp: number_is_def ucast_of_nat_32 width_simps)
  show ?thesis
  proof (cases "IsTrue C c")
    case True
    then show ?thesis
      using assms(3) t c(1,2) tcs o(1) n
      by (auto simp: memstore_state_def entry_missing_count_def number_is_def Let_def)
  next
    case False
    then obtain ranges where r: "GetObjectItem C s ''ranges'' = Some ranges" using c(3) by auto
    have ok: "ranges_ok C ranges" "IsArray C ranges" using s r by (auto simp: entry_ok_def ranges_ok_def)
    have "unat (- 1 :: size_t) = 18446744073709551615" by (simp add: unsigned_minus_1_eq_mask mask_eq_exp_minus_1)
    then have "missing_ranges_count C ranges (scast (valueint C t)) =
      Some (scast (word_of_nat (length (take 18446744073709551615 (gaps (length block) 0 (pairs C ranges)))) :: i32))"
      using cjson_lib.missing_ranges_gaps [OF assms(1) ok(1)] n
      by (simp add: missing_ranges_count_def Let_def del: length_take)
    then show ?thesis
      using False assms(3) t c(1,2) tcs o(1) n r ok(2)
      by (auto simp: memstore_state_def entry_missing_count_def number_is_def Let_def simp del: length_take)
  qed
qed

theorem memstore_state_reports_witness:
  "\<exists>out. memstore_state json_ops (True, True, True, True) sample_store ''a'' = Some out \<and>
     out_total_size out = Some 4 \<and> out_exists out = Some True"
proof -
  have "mem sample_store (data_ptr json_ops sample_entry) = Some [1, 2, 3, 4]"
    by (simp add: sample_entry_fields) (simp add: sample_store_def)
  from memstore_state_reports [OF json.cjson_lib_axioms sample_store_ok sample_lookup(1) this]
  show ?thesis by auto
qed

section \<open>Where the store falls short of its documentation\<close>

text \<open>
  The end of the range a write records is inclusive, but what is passed is the offset of the
  byte after the last one written. Two writes that leave out byte 10 of 20 therefore meet, and
  the asset is marked complete with a byte that was never written.
\<close>

definition gap_malloc :: allocator where
  "gap_malloc m sz = Some (64, replicate (unat sz) 0xAA)"

theorem gap_asset_marked_complete:
  "\<exists>st1 st2. memstorestore_write json_ops keep_order gap_malloc 0 0 (asset_memstore_init json_ops (\<lambda>p. None))
       ''a'' 0 (replicate 10 1) 10 20 = Some (10, st1) \<and>
     memstorestore_write json_ops keep_order gap_malloc 0 0 st1 ''a'' 11 (replicate 9 1) 9 20 = Some (9, st2) \<and>
     assetstore_get_is_asset_complete json_ops st2 ''a'' = Some True \<and>
     mem st2 64 = Some (replicate 10 1 @ [0xAA] @ replicate 9 1)"
proof -
  let ?st = "asset_memstore_init json_ops (\<lambda>p. None)"
  have ok: "store_ok json_ops ?st" "GetObjectItem json_ops (root ?st) ''a'' = None" "mem ?st = (\<lambda>p. None)"
    by (simp_all add: asset_memstore_init_def assetstore_init_def store_ok_def entries_ok_def json_defs)
  have fresh: "fresh_block (mem ?st) 20 64 (replicate 20 0xAA)" by (simp add: fresh_block_def ok(3))
  have m: "gap_malloc (mem ?st) 20 = Some (64, replicate 20 0xAA)" by (simp add: gap_malloc_def)
  let ?b1 = "replicate 10 1 @ replicate 10 (0xAA :: u8)"
  have b1: "blit (replicate 20 (0xAA :: u8)) (unat (0 :: size_t)) (take (unat (10 :: size_t)) (replicate 10 1)) = ?b1"
    by (simp add: blit_def)
  obtain st1 s1 r1 where w1: "memstorestore_write json_ops keep_order gap_malloc 0 0 ?st ''a'' 0 (replicate 10 1) 10 20 = Some (10, st1)"
    "store_ok json_ops st1" "GetObjectItem json_ops (root st1) ''a'' = Some s1" "data_ptr json_ops s1 = 64"
    "GetObjectItem json_ops s1 ''ranges'' = Some r1" "pairs json_ops r1 = [(0, 10)]" "mem st1 64 = Some ?b1"
    using json.write_new [where malloc = gap_malloc, OF ok(1,2) m fresh, of 0 10 "replicate 10 1" keep_order 0 0]
      keep_order_permutes b1 by (auto simp: kCacheMinAge_def Let_def)
  have mem1: "mem st1 (data_ptr json_ops s1) = Some ?b1" using w1(4,7) by simp
  have o1: "IsObject json_ops s1"
  proof -
    obtain k where "(k, s1) \<in> set (chain json_ops (root st1))"
      using w1(3) assoc_SomeD by (fastforce simp: json.object_law)
    then show ?thesis using w1(2) by (auto simp: store_ok_def entries_ok_def entry_ok_def)
  qed
  then obtain k where loc: "locate json_ops (root st1) ''a'' = Some (k, s1)" using w1(3) by (simp add: locate_def)
  have b2: "blit ?b1 (unat (11 :: size_t)) (take (unat (9 :: size_t)) (replicate 9 1)) =
    replicate 10 1 @ [0xAA] @ replicate 9 1"
    by (simp add: blit_def)
  obtain st2 s2 c where w2: "memstorestore_write json_ops keep_order gap_malloc 0 0 st1 ''a'' 11 (replicate 9 1) 9 20 = Some (9, st2)"
    "store_ok json_ops st2" "GetObjectItem json_ops (root st2) ''a'' = Some s2"
    "GetObjectItem json_ops s2 ''complete'' = Some c" "IsBool json_ops c" "IsTrue json_ops c"
    "mem st2 64 = Some (replicate 10 1 @ [0xAA] @ replicate 9 1)"
    using json.write_existing [where malloc = gap_malloc, OF w1(2) loc mem1, of 20 11 9 "replicate 9 1" keep_order 0 0]
      keep_order_permutes b2 w1(4,5,6)
    by (auto simp: kCacheMinAge_def ranges_written_def merge_pairs_def add_left_def)
  have "IsObject json_ops s2"
  proof -
    obtain k where "(k, s2) \<in> set (chain json_ops (root st2))"
      using w2(3) assoc_SomeD by (fastforce simp: json.object_law)
    then show ?thesis using w2(2) by (auto simp: store_ok_def entries_ok_def entry_ok_def)
  qed
  then have "assetstore_get_is_asset_complete json_ops st2 ''a'' = Some True"
    using w2(3-6) by (simp add: assetstore_get_is_asset_complete_def memstore_state_def Let_def)
  with w1(1) w2(1,7) show ?thesis by blast
qed

text \<open>
  Registering the same bytes in place a second time frees them first: the entry of the second
  registration points to memory that is no longer allocated, and that the caller owns.
\<close>

theorem second_registration_dangles:
  assumes "cjson_lib C" and "mem st p = Some data" and "p \<noteq> 0" and "unat p < 9223372036854775808"
    and "asset_generate_identifier buf data len = Some i" and "GetObjectItem C (root st) i = None"
  shows "\<exists>st1 st2. asset_memstore_register_asset_nocopy C buf st p len = Some st1 \<and>
    asset_memstore_register_asset_nocopy C buf st1 p len = Some st2 \<and>
    asset_memstore_get_data_pointer C st2 i = p \<and> mem st2 p = None"
proof -
  note laws = cjson_lib.object_law [OF assms(1)] cjson_lib.delete_object_cs_law [OF assms(1)]
    cjson_lib.add_object_law [OF assms(1)] cjson_lib.empty_law [OF assms(1)]
    cjson_lib.object_cs_law [OF assms(1)]
  define s where "s = AddItemToObject C (AddItemToObject C (AddItemToObject C (AddItemToObject C (CreateObject C)
    ''complete'' (CreateBool C True)) ''data'' (CreateString C (decimal (unat p))))
    ''total_size'' (CreateNumber C (of_nat (unat len)))) ''lru'' (CreateBool C True)"
  have s: "IsObject C s" "GetObjectItem C s ''data'' = Some (CreateString C (decimal (unat p)))"
    "GetObjectItemCS C s ''complete'' = Some (CreateBool C True)"
    by (simp_all add: s_def laws cjson_lib.object_kind [OF assms(1)])
  then have free: "clear_state C s m = free_block m p" for m
    by (simp add: clear_state_def cjson_lib.string_law [OF assms(1)] strtoll_decimal assms(4))
  have none: "assoc (same_key i) (chain C (root st)) = None" using assms(6) by (simp add: laws)
  have keys: "\<forall>kv \<in> set (chain C (root st)). \<not> i = fst kv"
    using none by (auto dest: assoc_NoneD)
  then have del: "assoc_delete ((=) i) (chain C (root st)) = chain C (root st)"
    unfolding assoc_delete_def by (intro remove_first_id) auto
  have "assoc_delete ((=) i) (kvs @ [(i, v)]) = kvs" if "\<forall>kv \<in> set kvs. \<not> i = fst kv" for kvs and v :: 'a
    using that by (induction kvs) auto
  then have del': "assoc_delete ((=) i) (chain C (root st) @ [(i, s)]) = chain C (root st)" using keys by blast
  define st1 where "st1 = st\<lparr>root := AddItemToObject C (DeleteItemFromObjectCS C (root st) i) i s\<rparr>"
  have r1: "asset_memstore_register_asset_nocopy C buf st p len = Some st1"
    using assms(2,5,6)
    by (simp add: asset_memstore_register_asset_nocopy_def clear_state_asset_def st1_def s_def Let_def)
  have ch1: "chain C (root st1) = chain C (root st) @ [(i, s)]" by (simp add: st1_def laws del)
  then have get: "GetObjectItem C (root st1) i = Some s" using none by (simp add: laws(1) assoc_append)
  define st2 where "st2 = st1\<lparr>root := AddItemToObject C (DeleteItemFromObjectCS C (root st1) i) i s,
    mem := (mem st)(p := None)\<rparr>"
  have m1: "mem st1 = mem st" by (simp add: st1_def)
  then have "clear_state C s (mem st1) = Some ((mem st)(p := None))"
    using assms(2,3) by (simp add: free free_block_def)
  then have r2: "asset_memstore_register_asset_nocopy C buf st1 p len = Some st2"
    using assms(2,5) get m1
    by (simp add: asset_memstore_register_asset_nocopy_def clear_state_asset_def st2_def Let_def)
      (simp add: s_def)
  have "chain C (root st2) = chain C (root st) @ [(i, s)]"
    by (simp add: st2_def laws(2,3) ch1 del' del: assoc_delete_simps)
  then have "GetObjectItem C (root st2) i = Some s" using none by (simp add: laws(1) assoc_append)
  then have "asset_memstore_get_data_pointer C st2 i = p"
    using s by (simp add: asset_memstore_get_data_pointer_def locate_def
        cjson_lib.bool_law [OF assms(1)] cjson_lib.string_law [OF assms(1)] strtoll_decimal assms(4))
  moreover have "mem st2 p = None" by (simp add: st2_def)
  ultimately show ?thesis using r1 r2 by blast
qed

theorem second_registration_dangles_witness:
  "\<exists>i st1 st2. asset_memstore_register_asset_nocopy json_ops (replicate 64 0) sample_store 64 4 = Some st1 \<and>
     asset_memstore_register_asset_nocopy json_ops (replicate 64 0) st1 64 4 = Some st2 \<and>
     asset_memstore_get_data_pointer json_ops st2 i = 64 \<and> mem st2 64 = None"
proof -
  have m: "mem sample_store 64 = Some [1, 2, 3, 4]" by (simp add: sample_store_def)
  obtain i where i: "asset_generate_identifier (replicate 64 0) [1, 2, 3, 4] 4 = Some (''asset:sha256:'' @ i)"
    using asset_generate_identifier_eq [of "replicate 64 0" 4 "[1, 2, 3, 4]"] by auto
  have "\<not> same_key (''asset:sha256:'' @ i) ''a''" by (simp add: same_key_def)
  then have "GetObjectItem json_ops (root sample_store) (''asset:sha256:'' @ i) = None"
    by (simp add: sample_store_def json_defs)
  from second_registration_dangles [OF json.cjson_lib_axioms m _ _ i this] show ?thesis by auto
qed

text \<open>
  When the allocation of a new asset fails, its empty entry stays in the store, and the next
  pruning dereferences the null pointer of its missing size.
\<close>

theorem failed_allocation_breaks_pruning:
  assumes "cjson_lib C" and "GetObjectItem C (root st) i = None" and "malloc (mem st) total_size = None"
    and "use_cache st" and "next_state_prune st < time'" and "chain C (root st) = []"
  shows "\<exists>st'. memstorestore_write C qsort malloc now time st i offset data len total_size = Some (- 1, st') \<and>
    lru_prune C qsort time' st' = None"
proof -
  let ?st = "st\<lparr>root := AddItemToObject C (root st) i (CreateObject C)\<rparr>"
  have "memstorestore_write C qsort malloc now time st i offset data len total_size = Some (- 1, ?st)"
    using assms(2,3) by (simp add: memstorestore_write_def locate_def Let_def)
  moreover have "size_of C (CreateObject C) = None"
    by (simp add: size_of_def cjson_lib.object_cs_law [OF assms(1)] cjson_lib.empty_law [OF assms(1)])
  then have "lru_prune C qsort time' ?st = None"
    using assms(4-6) by (simp add: lru_prune_def items_def cjson_lib.add_object_law [OF assms(1)])
  ultimately show ?thesis by blast
qed

theorem failed_allocation_breaks_pruning_witness:
  "\<exists>st'. memstorestore_write json_ops keep_order (\<lambda>m sz. None) 0 0 (asset_memstore_init json_ops (\<lambda>p. None))
      ''a'' 0 [1] 1 1 = Some (- 1, st') \<and> lru_prune json_ops keep_order 30 st' = None"
  by (rule failed_allocation_breaks_pruning [OF json.cjson_lib_axioms])
    (simp_all add: asset_memstore_init_def assetstore_init_def json_defs)

text \<open>
  The conversion of gaps to offsets and lengths works on the first gap only: with the gaps
  \<open>[0, 1]\<close> and \<open>[5, 7]\<close> the second pair that comes back is not an offset and a length.
\<close>

lemma adjust_ranges_first: "adjust_ranges [low, fin] 1 = [low, fin - low]"
  by (simp add: adjust_ranges_def)

lemma adjust_ranges_two: "adjust_ranges [0, 1, 5, 7] 2 = [0, 1, 4, 7]"
  by (simp add: adjust_ranges_def numeral_2_eq_2)

end
