(* ===== verification/Asset_Protocol.thy ===== *)
theory Asset_Protocol
  imports Cjson
begin

text \<open>
  The asset transfer protocol of \<^verbatim>\<open>src/asset.c\<close>: the packets of the asset channel (a message id, the
  length of a JSON header, the header, the bytes), the headers of requests, data and failures, and
  \<open>asset_handle\<close>, which acts on a packet through four function pointers. A function pointer is
  an operation on the world \<open>'w\<close> of its user; \<open>None\<close> is a failed assertion, a read outside a
  buffer or the use of an uninitialised variable. Logging is left out.
\<close>

section \<open>Messages\<close>

definition asset_mid_request :: u16 where "asset_mid_request = 1"
definition asset_mid_data :: u16 where "asset_mid_data = 2"
definition asset_mid_failure :: u16 where "asset_mid_failure = 3"

datatype asset_state =
  asset_state_now_available
| asset_state_now_unavailable
| asset_state_requested_unavailable
| asset_state_not_supported

definition asset_not_available_error :: i32 where "asset_not_available_error = 1"
definition asset_malformed_request_error :: i32 where "asset_malformed_request_error = 2"
definition asset_not_supported_error :: i32 where "asset_not_supported_error = 3"

definition ASSET_CHUNK_SIZE :: size_t where "ASSET_CHUNK_SIZE = 1024 * 1024"

text \<open>The function pointers a user hands in; reading and writing may be \<open>NULL\<close>.\<close>

record ('j, 'w) handlers =
  on_request :: "(string \<Rightarrow> size_t \<Rightarrow> size_t \<Rightarrow> 'w \<Rightarrow> 'w option) option"
  on_write :: "(string \<Rightarrow> u8 list \<Rightarrow> size_t \<Rightarrow> size_t \<Rightarrow> size_t \<Rightarrow> 'w \<Rightarrow> (i32 \<times> 'w) option) option"
  on_send :: "u16 \<Rightarrow> 'j \<Rightarrow> u8 list \<Rightarrow> size_t \<Rightarrow> 'w \<Rightarrow> 'w option"
  on_state :: "string option \<Rightarrow> asset_state \<Rightarrow> 'w \<Rightarrow> 'w option"

definition asset_error :: "'j cjson \<Rightarrow> string \<Rightarrow> i32 \<Rightarrow> string \<Rightarrow> 'j" where
  "asset_error C asset_id error_code error_reason =
     cjson_create_object C
       [(''id'', CreateString C asset_id),
        (''error_reason'', CreateString C error_reason),
        (''error_code'', CreateNumber C (of_int (sint error_code)))]"

section \<open>Reading headers\<close>

text \<open>
  \<open>id->string\<close>, which the code hands to \<open>asset_error\<close>, is the key of the item as the header
  spells it.
\<close>

definition key_of :: "'j cjson \<Rightarrow> 'j \<Rightarrow> string \<Rightarrow> string" where
  "key_of C header k = fst (chain C header ! assoc_index (same_key k) (chain C header))"

text \<open>A reader returns the error response, or what it stores through its out pointers.\<close>

definition malformed :: "'j cjson \<Rightarrow> string \<Rightarrow> string \<Rightarrow> 'j + 'r" where
  "malformed C asset_id reason = Inl (asset_error C asset_id asset_malformed_request_error reason)"

definition read_range :: "'j cjson \<Rightarrow> string \<Rightarrow> string \<Rightarrow> 'j option \<Rightarrow> 'j + size_t \<times> size_t" where
  "read_range C key not_array field =
     (case field of
        None \<Rightarrow> malformed C key not_array
      | Some rng \<Rightarrow>
          if \<not> IsArray C rng then malformed C key not_array
          else if GetArraySize C rng \<noteq> 2
          then malformed C key ''The 'range' field must be an array with exactly two integers''
          else case GetArrayItem C rng 0 of
                 None \<Rightarrow> malformed C key ''The 'range' field must be an array with exactly two integers''
               | Some start \<Rightarrow>
                   if \<not> IsNumber C start
                   then malformed C key ''The 'range' field must be an array with exactly two integers''
                   else case GetArrayItem C rng 1 of
                          None \<Rightarrow> malformed C key ''The 'range' field must be an array with exactly two integers''
                        | Some len \<Rightarrow>
                            if \<not> IsNumber C len
                            then malformed C key ''The 'range' field must be an array with exactly two integers''
                            else Inr (scast (valueint C start), scast (valueint C len)))"

definition asset_read_request_header :: "'j cjson \<Rightarrow> 'j \<Rightarrow> 'j + string \<times> size_t \<times> size_t" where
  "asset_read_request_header C header =
     (case GetObjectItem C header ''id'' of
        None \<Rightarrow> malformed C '''' ''The 'id' field must be a string''
      | Some i \<Rightarrow>
          if \<not> IsString C i then malformed C '''' ''The 'id' field must be a string''
          else case read_range C (key_of C header ''id'')
                      ''The 'range' field must be an array with exactly two integers''
                      (GetObjectItem C header ''range'') of
                 Inl e \<Rightarrow> Inl e
               | Inr (start, len) \<Rightarrow> Inr (valuestring C i, start, len))"

definition asset_read_data_header :: "'j cjson \<Rightarrow> 'j \<Rightarrow> 'j + string \<times> size_t \<times> size_t \<times> size_t" where
  "asset_read_data_header C header =
     (case GetObjectItem C header ''id'' of
        None \<Rightarrow> malformed C '''' ''The 'id' field must be present and be a string''
      | Some i \<Rightarrow>
          if \<not> IsString C i then malformed C '''' ''The 'id' field must be present and be a string''
          else case read_range C (key_of C header ''id'')
                      ''The 'range' field must be present and be an array with exactly two integers''
                      (GetObjectItem C header ''range'') of
                 Inl e \<Rightarrow> Inl e
               | Inr (start, len) \<Rightarrow>
                   (case GetObjectItem C header ''total_length'' of
                      None \<Rightarrow> malformed C (key_of C header ''id'')
                               ''The 'total_length' field must be present and a number''
                    | Some t \<Rightarrow>
                        if IsNumber C t then Inr (valuestring C i, start, len, scast (valueint C t))
                        else malformed C (key_of C header ''id'')
                               ''The 'total_length' field must be present and a number''))"

text \<open>
  \<open>asset_read_error_header\<close>: each out pointer is \<open>None\<close> when it was not reached; the code of the
  last one is the success of the whole.
\<close>

definition asset_read_error_header :: "'j cjson \<Rightarrow> 'j \<Rightarrow> string option \<times> string option \<times> i32 option" where
  "asset_read_error_header C header =
     (case GetObjectItem C header ''id'' of
        None \<Rightarrow> (None, None, None)
      | Some i \<Rightarrow>
          if \<not> IsString C i then (None, None, None)
          else case GetObjectItem C header ''error_reason'' of
                 None \<Rightarrow> (Some (valuestring C i), None, None)
               | Some reason \<Rightarrow>
                   if \<not> IsString C reason then (Some (valuestring C i), None, None)
                   else case GetObjectItemCS C header ''error_code'' of
                          None \<Rightarrow> (Some (valuestring C i), Some (valuestring C reason), None)
                        | Some code \<Rightarrow>
                            (Some (valuestring C i), Some (valuestring C reason),
                             if IsNumber C code then Some (valueint C code) else None))"

section \<open>Packets\<close>

text \<open>
  \<open>asset_read_header\<close>. \<open>parse\<close> is \<open>cJSON_ParseWithLengthOpts\<close>: from the bytes to the parsed node and
  the number of bytes consumed. The length of the packet is not checked by the code: reading past
  its end is \<open>None\<close>.
\<close>

definition asset_read_header ::
  "(u8 list \<Rightarrow> 'j option \<times> nat) \<Rightarrow> u8 list \<Rightarrow> (u16 \<times> 'j option \<times> u8 list) option" where
  "asset_read_header parse packet =
     (case packet of
        a # b # c # d # rest \<Rightarrow>
          (let header_len = unat (be16_get c d)
           in if length rest < header_len then None
              else case parse (take header_len rest) of
                     (json, parsed) \<Rightarrow>
                       if parsed \<noteq> header_len then None
                       else Some (be16_get a b, json, drop header_len rest))
      | _ \<Rightarrow> None)"

text \<open>
  \<open>asset_build_enet_packet\<close>: \<open>json\<close> is the text \<open>cJSON_Print\<close> makes of the header. Its length is cut
  to the 16 bits of the field.
\<close>

definition asset_build_enet_packet :: "('j \<Rightarrow> u8 list) \<Rightarrow> u16 \<Rightarrow> 'j \<Rightarrow> u8 list \<Rightarrow> size_t \<Rightarrow> u8 list option" where
  "asset_build_enet_packet print mid header data len =
     (let json = print header
      in if length data < unat len then None
         else Some (be16 mid @ be16 (word_of_nat (length json)) @ json @ take (unat len) data))"

section \<open>Sending\<close>

definition send_request ::
  "'j cjson \<Rightarrow> ('j, 'w) handlers \<Rightarrow> string \<Rightarrow> string option \<Rightarrow> size_t \<Rightarrow> size_t \<Rightarrow> 'w \<Rightarrow> 'w option" where
  "send_request C h asset_id entity_id offset len w =
     (let header = cjson_create_object C
            [(''id'', CreateString C asset_id), (''range'', CreateIntArray C [ucast offset, ucast len])];
          header' = (case entity_id of
                       None \<Rightarrow> header
                     | Some e \<Rightarrow> AddItemToObject C header ''published_by'' (CreateString C e))
      in on_send h asset_mid_request header' [] 0 w)"

definition asset_request ::
  "'j cjson \<Rightarrow> ('j, 'w) handlers \<Rightarrow> string \<Rightarrow> string option \<Rightarrow> 'w \<Rightarrow> 'w option" where
  "asset_request C h asset_id entity_id w = send_request C h asset_id entity_id 0 ASSET_CHUNK_SIZE w"

definition asset_deliver_error ::
  "'j cjson \<Rightarrow> ('j, 'w) handlers \<Rightarrow> string \<Rightarrow> i32 \<Rightarrow> string \<Rightarrow> 'w \<Rightarrow> 'w option" where
  "asset_deliver_error C h asset_id code reason w =
     on_send h asset_mid_failure (asset_error C asset_id code reason) [] 0 w"

text \<open>After the error of a range beyond the total size the function goes on and sends the data.\<close>

definition asset_deliver_bytes ::
  "'j cjson \<Rightarrow> ('j, 'w) handlers \<Rightarrow> string \<Rightarrow> u8 list option \<Rightarrow> size_t \<Rightarrow> size_t \<Rightarrow> size_t \<Rightarrow> 'w \<Rightarrow> 'w option"
where
  "asset_deliver_bytes C h asset_id data offset len total_size w =
     (case (if total_size < offset + len
            then asset_deliver_error C h asset_id asset_malformed_request_error ''offset+length > total_size'' w
            else Some w) of
        None \<Rightarrow> None
      | Some w' \<Rightarrow>
          (case data of
             None \<Rightarrow> on_send h asset_mid_failure (asset_error C asset_id asset_not_available_error ''Chunk not available'') [] 0 w'
           | Some d \<Rightarrow>
               on_send h asset_mid_data
                 (cjson_create_object C
                    [(''id'', CreateString C asset_id),
                     (''range'', CreateIntArray C [ucast offset, ucast len]),
                     (''total_length'', CreateNumber C (of_nat (unat total_size)))])
                 d len w'))"

definition asset_deliver ::
  "string \<Rightarrow> (string \<Rightarrow> size_t \<Rightarrow> size_t \<Rightarrow> 'w \<Rightarrow> 'w option) \<Rightarrow> 'w \<Rightarrow> 'w option" where
  "asset_deliver asset_id req w = req asset_id 0 ASSET_CHUNK_SIZE w"

section \<open>Handling a packet\<close>

text \<open>
  The parsed header may be a null pointer, which the readers see as a header without fields:
  \<open>CreateObject C\<close>.
\<close>

definition handle_request :: "'j cjson \<Rightarrow> ('j, 'w) handlers \<Rightarrow> 'j \<Rightarrow> 'w \<Rightarrow> 'w option" where
  "handle_request C h json w =
     (case asset_read_request_header C json of
        Inl error \<Rightarrow> on_send h asset_mid_failure error [] 0 w
      | Inr (asset_id, offset, len) \<Rightarrow>
          (case on_request h of
             None \<Rightarrow> on_state h (Some asset_id) asset_state_not_supported w
           | Some req \<Rightarrow> req asset_id offset len w))"

definition handle_data ::
  "'j cjson \<Rightarrow> ('j, 'w) handlers \<Rightarrow> (string \<Rightarrow> u8 list \<Rightarrow> size_t \<Rightarrow> size_t \<Rightarrow> size_t \<Rightarrow> 'w \<Rightarrow> (i32 \<times> 'w) option) \<Rightarrow>
   'j \<Rightarrow> u8 list \<Rightarrow> 'w \<Rightarrow> 'w option" where
  "handle_data C h wr json data w =
     (case asset_read_data_header C json of
        Inl error \<Rightarrow> Some w
      | Inr (asset_id, offset, len, total_length) \<Rightarrow>
          (case wr asset_id data offset len total_length w of
             None \<Rightarrow> None
           | Some (bytes_written, w') \<Rightarrow>
               if 0 <s bytes_written
               then (case (if offset + len < total_length
                           then send_request C h asset_id None (offset + len)
                                  (if ASSET_CHUNK_SIZE < total_length - offset - len
                                   then ASSET_CHUNK_SIZE else total_length - offset - len) w'
                           else on_state h (Some asset_id) asset_state_now_available w') of
                       None \<Rightarrow> None
                     | Some w'' \<Rightarrow> if offset + len \<le> total_length then Some w'' else None)
               else Some w'))"

definition handle_failure :: "'j cjson \<Rightarrow> ('j, 'w) handlers \<Rightarrow> 'j \<Rightarrow> 'w \<Rightarrow> 'w option" where
  "handle_failure C h json w =
     (case asset_read_error_header C json of
        (asset_id, Some reason, Some code) \<Rightarrow> on_state h asset_id asset_state_now_unavailable w
      | _ \<Rightarrow> None)"

definition asset_handle ::
  "'j cjson \<Rightarrow> (u8 list \<Rightarrow> 'j option \<times> nat) \<Rightarrow> ('j, 'w) handlers \<Rightarrow> u8 list \<Rightarrow> 'w \<Rightarrow> 'w option" where
  "asset_handle C parse h packet w =
     (case asset_read_header parse packet of
        None \<Rightarrow> None
      | Some (mid, parsed, data) \<Rightarrow>
          (let json = (case parsed of None \<Rightarrow> CreateObject C | Some j \<Rightarrow> j)
           in if mid = asset_mid_request then handle_request C h json w
              else case (mid = asset_mid_data, on_write h) of
                     (True, Some wr) \<Rightarrow> handle_data C h wr json data w
                   | _ \<Rightarrow> if mid = asset_mid_failure then handle_failure C h json w else Some w))"

end
