(* ===== verification/Asset_Transfer.thy ===== *)
theory Asset_Transfer
  imports Asset_Protocol
begin

text \<open>
  Packets and headers read back what was written, a packet with a header of any content is
  handled without harm where the code checks it, and the two ends of the protocol, exchanging
  packets, transfer an asset completely.
\<close>

section \<open>Headers\<close>

definition request_header :: "'j cjson \<Rightarrow> string \<Rightarrow> size_t \<Rightarrow> size_t \<Rightarrow> 'j" where
  "request_header C asset_id offset len = cjson_create_object C
     [(''id'', CreateString C asset_id), (''range'', CreateIntArray C [ucast offset, ucast len])]"

definition data_header :: "'j cjson \<Rightarrow> string \<Rightarrow> size_t \<Rightarrow> size_t \<Rightarrow> size_t \<Rightarrow> 'j" where
  "data_header C asset_id offset len total_size = cjson_create_object C
     [(''id'', CreateString C asset_id), (''range'', CreateIntArray C [ucast offset, ucast len]),
      (''total_length'', CreateNumber C (of_nat (unat total_size)))]"

lemma header_keys [simp]:
  "\<not> same_key ''range'' ''id''" "\<not> same_key ''total_length'' ''id''" "\<not> same_key ''total_length'' ''range''"
  "\<not> same_key ''error_reason'' ''id''"
  by (simp_all add: same_key_def lower_def)

context cjson_lib
begin

lemma read_range_created:
  assumes "unat offset < 2147483648" and "unat len < 2147483648"
  shows "read_range C key e (Some (CreateIntArray C [ucast offset, ucast len])) = Inr (offset, len)"
proof -
  let ?r = "CreateIntArray C [ucast offset, ucast len]"
  have m: "map (valueint C) (items C ?r) = [ucast offset, ucast len]" by (rule int_array_law)
  then have l: "length (chain C ?r) = 2" by (metis length_items length_map list.size(3,4) One_nat_def Suc_1 add.right_neutral add_Suc_right)
  then have in2: "items C ?r ! 0 \<in> set (items C ?r)" "items C ?r ! 1 \<in> set (items C ?r)" by simp_all
  have "valueint C (items C ?r ! 0) = ucast offset" "valueint C (items C ?r ! 1) = ucast len" using m by auto
  with l show ?thesis
    using int_array_number [OF in2(1)] int_array_number [OF in2(2)] assms
    by (simp add: read_range_def array_kind size_law item_law scast_ucast_small)
qed

lemma read_request_header:
  assumes "unat offset < 2147483648" and "unat len < 2147483648"
  shows "asset_read_request_header C (request_header C asset_id offset len) = Inr (asset_id, offset, len)"
  by (simp add: asset_read_request_header_def request_header_def object_law string_law read_range_created [OF assms])

lemma read_data_header:
  assumes "unat offset < 2147483648" and "unat len < 2147483648" and "unat total_size < 2147483648"
  shows "asset_read_data_header C (data_header C asset_id offset len total_size) =
    Inr (asset_id, offset, len, total_size)"
proof -
  have "uint total_size < 2147483648" using assms(3) unfolding unat_eq_nat_uint by linarith
  moreover have "- 2147483648 \<le> uint total_size"
    using unsigned_greater_eq [of total_size, where ?'a = int] by linarith
  ultimately have "valueint C (CreateNumber C (of_nat (unat total_size))) = ucast total_size"
    using int_law [where z = "uint total_size"] by simp
  then show ?thesis
    by (simp add: asset_read_data_header_def data_header_def object_law string_law number_law
        read_range_created [OF assms(1,2)] scast_ucast_small [OF assms(3)])
qed

end

section \<open>Packets\<close>

text \<open>What the text of a header must satisfy: it parses back, and fits the 16-bit length.\<close>

definition prints :: "('j \<Rightarrow> u8 list) \<Rightarrow> (u8 list \<Rightarrow> 'j option \<times> nat) \<Rightarrow> 'j \<Rightarrow> bool" where
  "prints print parse header \<longleftrightarrow> length (print header) < 65536 \<and>
     parse (print header) = (Some header, length (print header))"

text \<open>Of the headers about an asset, with numbers that fit an \<open>int\<close>.\<close>

definition prints_headers :: "'j cjson \<Rightarrow> ('j \<Rightarrow> u8 list) \<Rightarrow> (u8 list \<Rightarrow> 'j option \<times> nat) \<Rightarrow> string \<Rightarrow> bool" where
  "prints_headers C print parse i \<longleftrightarrow>
     (\<forall>offset len. unat offset < 2147483648 \<longrightarrow> unat len < 2147483648 \<longrightarrow>
        prints print parse (request_header C i offset len) \<and>
        (\<forall>total_size. unat total_size < 2147483648 \<longrightarrow>
           prints print parse (data_header C i offset len total_size)))"

lemma read_built_packet:
  assumes "prints print parse header" and "asset_build_enet_packet print mid header data len = Some packet"
  shows "asset_read_header parse packet = Some (mid, Some header, take (unat len) data)"
proof -
  let ?n = "word_of_nat (length (print header)) :: u16"
  have n: "unat ?n = length (print header)"
    using assms(1) by (simp add: prints_def unsigned_of_nat take_bit_nat_eq_self)
  have "packet = be16 mid @ be16 ?n @ print header @ take (unat len) data"
    using assms(2) by (auto simp: asset_build_enet_packet_def Let_def split: if_splits)
  then show ?thesis
    using assms(1) n by (simp add: asset_read_header_def be16_def prints_def Let_def)
qed

section \<open>A transfer\<close>

text \<open>
  The two ends: the sender has the bytes \<open>src\<close> and answers requests with \<open>asset_deliver_bytes\<close>;
  its world is the list of packets it has sent. The receiver writes into a buffer, sends its
  packets, and notes when it is told that the asset is available.
\<close>

definition post :: "('j \<Rightarrow> u8 list) \<Rightarrow> u16 \<Rightarrow> 'j \<Rightarrow> u8 list \<Rightarrow> size_t \<Rightarrow> u8 list list \<Rightarrow> u8 list list option" where
  "post print mid header data len sent =
     map_option (\<lambda>p. sent @ [p]) (asset_build_enet_packet print mid header data len)"

definition sending :: "('j \<Rightarrow> u8 list) \<Rightarrow> ('j, u8 list list) handlers" where
  "sending print = \<lparr>on_request = None, on_write = None, on_send = post print, on_state = (\<lambda>i s w. Some w)\<rparr>"

definition sender :: "'j cjson \<Rightarrow> ('j \<Rightarrow> u8 list) \<Rightarrow> u8 list \<Rightarrow> ('j, u8 list list) handlers" where
  "sender C print src = (sending print)\<lparr>on_request := Some (\<lambda>asset_id offset len sent.
     let tot = word_of_nat (length src) :: size_t
     in if tot < offset then None
        else asset_deliver_bytes C (sending print) asset_id (Some (drop (unat offset) src)) offset
               (if len < tot - offset then len else tot - offset) tot sent)\<rparr>"

record receiver_state =
  received :: "u8 list"
  available :: bool
  sent :: "u8 list list"

definition receiver :: "('j \<Rightarrow> u8 list) \<Rightarrow> ('j, receiver_state) handlers" where
  "receiver print = \<lparr>
     on_request = None,
     on_write = Some (\<lambda>asset_id data offset len tot w.
       if unat len \<le> length data \<and> unat offset + unat len \<le> length (received w)
       then Some (ucast len, w\<lparr>received := blit (received w) (unat offset) (take (unat len) data)\<rparr>)
       else None),
     on_send = (\<lambda>mid header data len w.
       map_option (\<lambda>ps. w\<lparr>sent := ps\<rparr>) (post print mid header data len (sent w))),
     on_state = (\<lambda>i s w. Some (w\<lparr>available := (s = asset_state_now_available)\<rparr>))\<rparr>"

text \<open>One round: the request goes to the sender, its answer to the receiver.\<close>

fun exchange ::
  "'j cjson \<Rightarrow> ('j \<Rightarrow> u8 list) \<Rightarrow> (u8 list \<Rightarrow> 'j option \<times> nat) \<Rightarrow> u8 list \<Rightarrow> nat \<Rightarrow> receiver_state \<Rightarrow> receiver_state option"
where
  "exchange C print parse src 0 w = (if available w then Some w else None)"
| "exchange C print parse src (Suc rounds) w =
     (if available w then Some w
      else case sent w of
             [req] \<Rightarrow>
               (case asset_handle C parse (sender C print src) req [] of
                  Some [packet] \<Rightarrow>
                    (case asset_handle C parse (receiver print) packet (w\<lparr>sent := []\<rparr>) of
                       Some w' \<Rightarrow> exchange C print parse src rounds w'
                     | None \<Rightarrow> None)
                | _ \<Rightarrow> None)
           | _ \<Rightarrow> None)"

context cjson_lib
begin

text \<open>What a round does, from a request for \<open>len\<close> bytes at \<open>offset\<close>.\<close>

lemma sender_answers:
  assumes p: "prints_headers C print parse i"
    and req: "asset_build_enet_packet print asset_mid_request (request_header C i offset len) [] 0 = Some req"
    and src: "length src < 2147483648" and o: "unat offset \<le> length src" and l: "unat len < 2147483648"
    and n: "unat n = min (unat len) (length src - unat offset)"
  shows "\<exists>packet. asset_handle C parse (sender C print src) req [] = Some [packet] \<and>
    asset_build_enet_packet print asset_mid_data (data_header C i offset n (word_of_nat (length src)))
      (drop (unat offset) src) n = Some packet"
proof -
  let ?tot = "word_of_nat (length src) :: size_t"
  have tot: "unat ?tot = length src" using src by (simp add: width_simps)
  have read: "asset_read_header parse req = Some (asset_mid_request, Some (request_header C i offset len), [])"
    using read_built_packet [OF _ req] p o src l by (simp add: prints_headers_def)
  have hdr: "asset_read_request_header C (request_header C i offset len) = Inr (i, offset, len)"
    using read_request_header o src l by simp
  have le: "\<not> ?tot < offset" using o tot by (simp add: word_less_nat_alt)
  have left: "unat (?tot - offset) = length src - unat offset"
    using le tot by (simp add: unat_minus_small)
  have nl: "(if len < ?tot - offset then len else ?tot - offset) = n"
    using n left by (auto simp: word_less_nat_alt unat_arith_simps min_def split: if_splits)
  have "unat offset + unat n \<le> length src" using n o by simp
  then have "unat (offset + n) \<le> length src" using src by (subst unat_plus_small) simp_all
  then have sum: "\<not> ?tot < offset + n" using tot by (simp add: word_less_nat_alt)
  have "unat n \<le> length (drop (unat offset) src)" using n by simp
  then show ?thesis
    using read hdr le nl sum
    by (simp add: asset_handle_def handle_request_def sender_def sending_def asset_deliver_bytes_def
        post_def data_header_def asset_build_enet_packet_def Let_def)
qed

lemma receiver_takes:
  assumes p: "prints_headers C print parse i"
    and packet: "asset_build_enet_packet print asset_mid_data (data_header C i offset n (word_of_nat tot)) data n = Some packet"
    and tot: "tot < 2147483648" and w: "length (received w) = tot" "sent w = []" "\<not> available w"
    and n: "0 < unat n" "unat offset + unat n \<le> tot" "unat n \<le> length data"
  defines "w' \<equiv> w\<lparr>received := blit (received w) (unat offset) (take (unat n) data)\<rparr>"
  shows "if unat offset + unat n = tot
    then asset_handle C parse (receiver print) packet w = Some (w'\<lparr>available := True\<rparr>)
    else \<exists>len req. asset_build_enet_packet print asset_mid_request (request_header C i (offset + n) len) [] 0 = Some req \<and>
      unat len = min 1048576 (tot - unat offset - unat n) \<and>
      asset_handle C parse (receiver print) packet w = Some (w'\<lparr>sent := [req]\<rparr>)"
proof -
  let ?tot = "word_of_nat tot :: size_t"
  have ut: "unat ?tot = tot" using tot by (simp add: width_simps)
  have small: "unat offset < 2147483648" "unat n < 2147483648" "unat ?tot < 2147483648" using n tot ut by simp_all
  have read: "asset_read_header parse packet = Some (asset_mid_data, Some (data_header C i offset n ?tot), take (unat n) data)"
    using read_built_packet [OF _ packet] p small by (simp add: prints_headers_def)
  have hdr: "asset_read_data_header C (data_header C i offset n ?tot) = Inr (i, offset, n, ?tot)"
    using read_data_header [OF small] .
  have sum: "unat (offset + n) = unat offset + unat n" using small by (intro unat_plus_small) simp
  have pos: "0 <s (ucast n :: i32)"
  proof -
    have ge: "- 2147483648 \<le> uint n" using unsigned_greater_eq [of n, where ?'a = int] by linarith
    have lt: "uint n < 2147483648" using small(2) unfolding unat_eq_nat_uint by linarith
    have "take_bit 32 (uint n) = uint n" using lt by (intro take_bit_int_eq_self) simp_all
    moreover have "signed_take_bit 31 (uint n) = uint n"
      using lt ge by (intro signed_take_bit_int_eq_self) simp_all
    ultimately have "sint (ucast n :: i32) = uint n" by (simp add: sint_uint unsigned_ucast_eq)
    moreover have "0 < uint n" using n(1) unfolding unat_eq_nat_uint by linarith
    ultimately show ?thesis by (simp add: word_sless_alt)
  qed
  have le: "offset + n \<le> ?tot" using sum ut n by (simp add: word_le_nat_alt)
  have step: "asset_handle C parse (receiver print) packet w =
    (if unat offset + unat n < tot
     then send_request C (receiver print) i None (offset + n)
            (if ASSET_CHUNK_SIZE < ?tot - offset - n then ASSET_CHUNK_SIZE else ?tot - offset - n) w'
     else Some (w'\<lparr>available := True\<rparr>))"
    using read hdr n w(1) pos le sum ut
    by (auto simp: asset_handle_def asset_mid_request_def asset_mid_data_def handle_data_def receiver_def
        w'_def word_less_nat_alt split: option.splits)
  show ?thesis
  proof (cases "unat offset + unat n = tot")
    case True
    with step show ?thesis by simp
  next
    case False
    let ?left = "?tot - offset - n"
    have "unat ?left = unat (?tot - (offset + n))" by (simp add: diff_diff_eq)
    also have "\<dots> = unat ?tot - unat (offset + n)" by (rule unat_minus_small [OF le])
    finally have left: "unat ?left = tot - unat offset - unat n" by (simp add: sum ut)
    define len where "len = (if ASSET_CHUNK_SIZE < ?left then ASSET_CHUNK_SIZE else ?left)"
    have ulen: "unat len = min 1048576 (tot - unat offset - unat n)"
      using left by (auto simp: len_def ASSET_CHUNK_SIZE_def word_less_nat_alt)
    obtain req where req: "asset_build_enet_packet print asset_mid_request (request_header C i (offset + n) len) [] 0 = Some req"
      by (auto simp: asset_build_enet_packet_def Let_def)
    have "asset_handle C parse (receiver print) packet w = Some (w'\<lparr>sent := [req]\<rparr>)"
      using step False n(2) req w(2)
      by (simp add: send_request_def receiver_def post_def request_header_def w'_def flip: len_def)
    with req ulen False show ?thesis by auto
  qed
qed

text \<open>
  From a request for the next bytes, as many rounds as there are chunks left bring the rest.
\<close>

lemma exchange_completes:
  assumes p: "prints_headers C print parse i" and src: "length src < 2147483648"
    and w: "length (received w) = length src" "take (unat offset) (received w) = take (unat offset) src"
      "\<not> available w" "sent w = [req]"
    and req: "asset_build_enet_packet print asset_mid_request (request_header C i offset len) [] 0 = Some req"
    and o: "unat offset < length src" and l: "unat len = min 1048576 (length src - unat offset) \<or> unat len = 1048576"
    and rounds: "length src - unat offset \<le> rounds * 1048576"
  shows "\<exists>w'. exchange C print parse src rounds w = Some w' \<and> received w' = src \<and> available w'"
  using w req o l rounds
proof (induction rounds arbitrary: w offset len req)
  case 0
  then show ?case by simp
next
  case (Suc rounds)
  define n :: size_t where "n = word_of_nat (min (unat len) (length src - unat offset))"
  have un: "unat n = min 1048576 (length src - unat offset)"
    using Suc.prems(7) src by (auto simp: n_def width_simps)
  have len31: "unat len < 2147483648" using Suc.prems(7) by auto
  have un': "unat n = min (unat len) (length src - unat offset)" using un Suc.prems(7) by auto
  have n: "0 < unat n" "unat offset + unat n \<le> length src" using un Suc.prems(6) by auto
  obtain packet where pk: "asset_handle C parse (sender C print src) req [] = Some [packet]"
    "asset_build_enet_packet print asset_mid_data (data_header C i offset n (word_of_nat (length src)))
      (drop (unat offset) src) n = Some packet"
    using sender_answers [OF p Suc.prems(5) src _ len31 un'] Suc.prems(6) by auto
  let ?w = "w\<lparr>sent := []\<rparr>"
  define w1 where "w1 = ?w\<lparr>received := blit (received w) (unat offset) (take (unat n) (drop (unat offset) src))\<rparr>"
  have d: "unat n \<le> length (drop (unat offset) src)" using n by simp
  have lw: "length (received w1) = length src" using Suc.prems(1) n by (simp add: w1_def)
  have tk: "take (unat offset + unat n) (received w1) = take (unat offset + unat n) src"
  proof -
    have "take (unat offset + unat n) (received w1) = take (unat offset) (received w) @ take (unat n) (drop (unat offset) src)"
      using take_blit [of "unat offset" "take (unat n) (drop (unat offset) src)" "received w"] Suc.prems(1) n d
      by (simp add: w1_def)
    then show ?thesis using Suc.prems(2) by (simp add: take_add)
  qed
  note step = receiver_takes [OF p pk(2) src, of ?w, simplified, OF Suc.prems(1,3) _ n(2)]
  show ?case
  proof (cases "unat offset + unat n = length src")
    case True
    then have "asset_handle C parse (receiver print) packet ?w = Some (w1\<lparr>available := True\<rparr>)"
      using step n(1) d by (simp add: w1_def)
    moreover have "received w1 = src" using tk True lw by simp
    moreover have "exchange C print parse src rounds (w1\<lparr>available := True\<rparr>) = Some (w1\<lparr>available := True\<rparr>)"
      by (cases rounds) simp_all
    ultimately show ?thesis using Suc.prems(3,4) pk(1) by simp
  next
    case False
    then obtain len' req' where next_req:
      "asset_build_enet_packet print asset_mid_request (request_header C i (offset + n) len') [] 0 = Some req'"
      "unat len' = min 1048576 (length src - unat offset - unat n)"
      "asset_handle C parse (receiver print) packet ?w = Some (w1\<lparr>sent := [req']\<rparr>)"
      using step n(1) d by (auto simp: w1_def)
    have sum: "unat (offset + n) = unat offset + unat n"
      using n src by (intro unat_plus_small) simp
    have more: "length src - unat (offset + n) \<le> rounds * 1048576"
      using Suc.prems(8) un sum n(2) False by (auto simp: min_def split: if_splits)
    have "\<exists>w'. exchange C print parse src rounds (w1\<lparr>sent := [req']\<rparr>) = Some w' \<and> received w' = src \<and> available w'"
      by (rule Suc.IH [of _ "offset + n" req' len'])
        (use lw tk sum next_req(1,2) n(2) False more Suc.prems(3) in \<open>simp_all add: w1_def diff_diff_eq\<close>)
    then show ?thesis using Suc.prems(3,4) pk(1) next_req(3) by simp
  qed
qed

end

section \<open>Properties\<close>

text \<open>
  C34. A packet reads back as what it was built from: message id, header and bytes, for every
  header whose text parses back and is shorter than 64 KiB, the bound of its 16-bit length field.
\<close>

theorem asset_packet_roundtrip:
  assumes "prints print parse header" and "unat len \<le> length data"
  shows "\<exists>packet. asset_build_enet_packet print mid header data len = Some packet \<and>
    length packet = 4 + length (print header) + unat len \<and>
    asset_read_header parse packet = Some (mid, Some header, take (unat len) data)"
proof -
  obtain packet where p: "asset_build_enet_packet print mid header data len = Some packet"
    "length packet = 4 + length (print header) + unat len"
    using assms(2) by (auto simp: asset_build_enet_packet_def Let_def)
  with read_built_packet [OF assms(1) p(1)] show ?thesis by blast
qed

theorem asset_packet_roundtrip_witness:
  "\<exists>packet. asset_build_enet_packet (\<lambda>j :: json. [123, 125]) 2 (jobj []) [1, 2, 3] 3 = Some packet \<and>
     length packet = 9 \<and>
     asset_read_header (\<lambda>bs. (Some (jobj []), 2)) packet = Some (2, Some (jobj []), [1, 2, 3])"
  using asset_packet_roundtrip [of "\<lambda>j. [123, 125]" "\<lambda>bs. (Some (jobj []), 2)" "jobj []" 3 "[1, 2, 3]" 2]
  by (simp add: prints_def)

text \<open>
  The receiver of a request gets to see the asset, the offset and the length that the sender
  of the request asked for: a packet made by \<open>asset_request\<close>'s helper and handled by
  \<open>asset_handle\<close> calls the request function with them, and nothing else.
\<close>

theorem asset_handle_request:
  assumes "cjson_lib C" and "prints print parse (request_header C i offset len)"
    and "unat offset < 2147483648" and "unat len < 2147483648" and "on_request h = Some req"
    and "asset_build_enet_packet print asset_mid_request (request_header C i offset len) [] 0 = Some packet"
  shows "asset_handle C parse h packet w = req i offset len w"
  using read_built_packet [OF assms(2,6)] cjson_lib.read_request_header [OF assms(1,3,4)] assms(5)
  by (simp add: asset_handle_def handle_request_def)

theorem asset_handle_request_witness:
  "asset_handle json_ops (\<lambda>bs. (Some (request_header json_ops ''a'' 5 7), 1))
     \<lparr>on_request = Some (\<lambda>i offset len w. Some (w @ [(i, offset, len)])), on_write = None,
       on_send = (\<lambda>mid header data len w. None), on_state = (\<lambda>i s w. None)\<rparr>
     [0, 1, 0, 1, 0] [] = Some [(''a'', 5, 7)]"
  by (subst asset_handle_request [OF json.cjson_lib_axioms, where print = "\<lambda>j. [0]" and i = "''a''" and offset = 5
        and len = 7 and req = "\<lambda>i offset len w. Some (w @ [(i, offset, len)])"])
    (simp_all add: prints_def asset_build_enet_packet_def be16_def asset_mid_request_def)

text \<open>
  C2. A transfer completes: from the first request on, the sender answering with
  \<open>asset_deliver_bytes\<close> and the receiver handling the data and asking for more, as many rounds as
  the asset has chunks of 1 MiB bring every byte to its place, and then the receiver is told that
  the asset is available. The assets are those whose size fits an \<open>int\<close>.
\<close>

theorem asset_transfer_completes:
  assumes "cjson_lib C" and "prints_headers C print parse i"
    and "0 < length src" and "length src < 2147483648" and "length buf = length src"
    and "length src \<le> rounds * 1048576"
  shows "\<exists>w w'. asset_request C (receiver print) i None \<lparr>received = buf, available = False, sent = []\<rparr> = Some w \<and>
    exchange C print parse src rounds w = Some w' \<and> received w' = src \<and> available w'"
proof -
  obtain req where req: "asset_build_enet_packet print asset_mid_request (request_header C i 0 1048576) [] 0 = Some req"
    by (auto simp: asset_build_enet_packet_def Let_def)
  let ?w = "\<lparr>received = buf, available = False, sent = [req]\<rparr>"
  have "asset_request C (receiver print) i None \<lparr>received = buf, available = False, sent = []\<rparr> = Some ?w"
    using req by (simp add: asset_request_def send_request_def receiver_def post_def request_header_def ASSET_CHUNK_SIZE_def)
  moreover have "\<exists>w'. exchange C print parse src rounds ?w = Some w' \<and> received w' = src \<and> available w'"
    by (rule cjson_lib.exchange_completes [OF assms(1,2,4) _ _ _ _ req]) (use assms in simp_all)
  ultimately show ?thesis by blast
qed

text \<open>A printer for the headers of one asset: a tag and the numbers in four bytes each.\<close>

definition print_header :: "json \<Rightarrow> u8 list" where
  "print_header j =
     (case asset_read_data_header json_ops j of
        Inr (i, offset, len, tot) \<Rightarrow> 1 # be32 (ucast offset) @ be32 (ucast len) @ be32 (ucast tot)
      | Inl e \<Rightarrow>
          (case asset_read_request_header json_ops j of
             Inr (i, offset, len) \<Rightarrow> 0 # be32 (ucast offset) @ be32 (ucast len)
           | Inl e \<Rightarrow> []))"

fun parse_header :: "u8 list \<Rightarrow> json option \<times> nat" where
  "parse_header [_, a, b, c, d, e, f, g, h] =
     (Some (request_header json_ops ''a'' (ucast (be32_get a b c d)) (ucast (be32_get e f g h))), 9)"
| "parse_header [_, a, b, c, d, e, f, g, h, k, l, m, n] =
     (Some (data_header json_ops ''a'' (ucast (be32_get a b c d)) (ucast (be32_get e f g h))
        (ucast (be32_get k l m n))), 13)"
| "parse_header _ = (None, 0)"

lemma ucast_ucast_small: "unat (s :: size_t) < 2147483648 \<Longrightarrow> ucast (ucast s :: u32) = s"
proof -
  assume "unat s < 2147483648"
  then have "unat (ucast (ucast s :: u32) :: size_t) = unat s"
    by (simp add: unsigned_ucast_eq take_bit_nat_eq_self unsigned_take_bit_eq)
  then show ?thesis by (simp add: unat_arith_simps)
qed

lemma print_header_prints: "prints_headers json_ops print_header parse_header ''a''"
proof -
  have "asset_read_data_header json_ops (request_header json_ops ''a'' offset len) =
      malformed json_ops ''id'' ''The 'total_length' field must be present and a number''"
    if "unat offset < 2147483648" "unat len < 2147483648" for offset len
    using that by (simp add: asset_read_data_header_def request_header_def json.object_law json.string_law
        json.read_range_created key_of_def same_key_def lower_def)
  then show ?thesis
    by (simp add: prints_headers_def prints_def print_header_def json.read_request_header json.read_data_header
        malformed_def be32_def ucast_ucast_small be32_get_be32)
qed

theorem asset_transfer_completes_witness:
  "\<exists>w w'. asset_request json_ops (receiver print_header) ''a'' None
       \<lparr>received = [0, 0, 0], available = False, sent = []\<rparr> = Some w \<and>
     exchange json_ops print_header parse_header [7, 8, 9] 1 w = Some w' \<and>
     received w' = [7, 8, 9] \<and> available w'"
  by (rule asset_transfer_completes [OF json.cjson_lib_axioms print_header_prints]) simp_all

text \<open>
  A failure packet whose header lacks the reason or the code makes the handler print an
  uninitialised pointer: the result of \<open>asset_read_error_header\<close> is not looked at.
\<close>

theorem malformed_failure_is_undefined:
  assumes "cjson_lib C" and "asset_read_header parse packet = Some (asset_mid_failure, Some json, data)"
    and "GetObjectItem C json ''error_reason'' = None"
  shows "asset_handle C parse h packet w = None"
  using assms(2,3)
  by (auto simp: asset_handle_def asset_mid_failure_def asset_mid_request_def asset_mid_data_def handle_failure_def
      asset_read_error_header_def split: option.splits)

theorem malformed_failure_is_undefined_witness:
  "asset_handle json_ops (\<lambda>bs. (Some (jobj [(''id'', jstr ''a'')]), 1)) (receiver (\<lambda>j :: json. [])) [0, 3, 0, 1, 0]
     \<lparr>received = [], available = False, sent = []\<rparr> = None"
  by (rule malformed_failure_is_undefined [OF json.cjson_lib_axioms, where json = "jobj [(''id'', jstr ''a'')]" and data = "[]"])
    (simp_all add: asset_read_header_def asset_mid_failure_def be16_get_def json_defs same_key_def lower_def)

end
