(* ===== verification/Server.thy ===== *)
theory Server
  imports Asset_Protocol
begin

text \<open>
  The server of \<^verbatim>\<open>src/server.c\<close>: the clients and their ENet peers, the events of
  \<open>allo_poll\<close>, and the assets that have been requested and are not in the store, each with the
  peers that wait for it and the peers that may still have it. ENet and the user's callbacks are
  outside the repository: a send is recorded with the peer it goes to, a call of a callback with
  its arguments. The dynamic arrays are lists (\<open>arr_push\<close> and \<open>arr_splice\<close> behave so, see the
  theory of arrays). \<open>None\<close> is a failed assertion, the use of a null pointer or of freed memory.
\<close>

section \<open>Statistics\<close>

record bitrate_data =
  sent_bytes :: size_t
  sent_packet_count :: size_t
  received_bytes :: size_t
  received_packet_count :: size_t

definition bitrate_increment_sent :: "bitrate_data \<Rightarrow> size_t \<Rightarrow> bitrate_data" where
  "bitrate_increment_sent br n =
     br\<lparr>sent_bytes := sent_bytes br + n, sent_packet_count := sent_packet_count br + 1\<rparr>"

definition bitrate_increment_received :: "bitrate_data \<Rightarrow> size_t \<Rightarrow> bitrate_data" where
  "bitrate_increment_received br n =
     br\<lparr>received_bytes := received_bytes br + n, received_packet_count := received_packet_count br + 1\<rparr>"

text \<open>The channels; the entry at \<open>CHANNEL_COUNT\<close> of the statistics is the total.\<close>

definition CHANNEL_AUDIO :: nat where "CHANNEL_AUDIO = 0"
definition CHANNEL_COMMANDS :: nat where "CHANNEL_COMMANDS = 1"
definition CHANNEL_STATEDIFFS :: nat where "CHANNEL_STATEDIFFS = 2"
definition CHANNEL_ASSETS :: nat where "CHANNEL_ASSETS = 3"
definition CHANNEL_VIDEO :: nat where "CHANNEL_VIDEO = 4"
definition CHANNEL_CLOCK :: nat where "CHANNEL_CLOCK = 5"
definition CHANNEL_COUNT :: nat where "CHANNEL_COUNT = 6"

section \<open>State\<close>

text \<open>Peers, clients and wanted assets are known by their addresses.\<close>

type_synonym peer = nat

record client =
  client_at :: nat
  client_peer :: peer

record wanted_asset =
  wanted_at :: nat
  asset_id :: string
  recipients :: "peer list"
  source :: "peer option"
  remaining_potential_sources :: "peer list"

datatype server_call =
  Clients_changed "client option" "client option"
| Raw_indata client nat "u8 list"

record 's server_state =
  clients :: "client list"
  peer_data :: "peer \<Rightarrow> client option"
  wanted_assets :: "wanted_asset list"
  assets :: 's
  outbox :: "(peer \<times> nat \<times> u8 list) list"
  calls :: "server_call list"
  channel_rates :: "nat \<Rightarrow> bitrate_data"
  next_address :: nat

text \<open>
  The asset store is called through its function pointers. \<open>accepts\<close> says whether
  \<open>enet_peer_send\<close> takes a packet for a peer, \<open>can_malloc\<close> whether an allocation succeeds.
\<close>

record 's store_api =
  api_read :: "'s \<Rightarrow> string \<Rightarrow> size_t \<Rightarrow> size_t \<Rightarrow> (i32 \<times> u8 list \<times> size_t option \<times> 's) option"
  api_write :: "'s \<Rightarrow> string \<Rightarrow> size_t \<Rightarrow> u8 list \<Rightarrow> size_t \<Rightarrow> size_t \<Rightarrow> (i32 \<times> 's) option"

record ('j, 's) server_env =
  cj :: "'j cjson"
  print_json :: "'j \<Rightarrow> u8 list"
  parse_json :: "u8 list \<Rightarrow> 'j option \<times> nat"
  store_of :: "'s store_api"
  accepts :: "peer \<Rightarrow> bool"
  can_malloc :: "size_t \<Rightarrow> bool"

section \<open>Sending\<close>

text \<open>\<open>allo_enet_peer_send\<close>: false when ENet refused the packet, which is then destroyed.\<close>

definition allo_enet_peer_send ::
  "('j, 's) server_env \<Rightarrow> peer \<Rightarrow> nat \<Rightarrow> u8 list \<Rightarrow> 's server_state \<Rightarrow> bool \<times> 's server_state" where
  "allo_enet_peer_send E p channel packet st =
     (if accepts E p
      then (True, st\<lparr>outbox := outbox st @ [(p, channel, packet)],
              channel_rates := (channel_rates st)
                (channel := bitrate_increment_sent (channel_rates st channel) (word_of_nat (length packet)),
                 CHANNEL_COUNT := bitrate_increment_sent
                   (((channel_rates st)(channel := bitrate_increment_sent (channel_rates st channel)
                      (word_of_nat (length packet)))) CHANNEL_COUNT) (word_of_nat (length packet)))\<rparr>)
      else (False, st))"

text \<open>
  \<open>_asset_send_func_broadcast\<close>: the same packet goes to every other client; once a send has
  destroyed it, the next one uses freed memory.
\<close>

fun broadcast ::
  "('j, 's) server_env \<Rightarrow> client \<Rightarrow> client list \<Rightarrow> u8 list \<Rightarrow> bool \<Rightarrow> 's server_state \<Rightarrow> 's server_state option"
where
  "broadcast E cl [] packet alive st = Some st"
| "broadcast E cl (other # others) packet alive st =
     (if client_at other = client_at cl then broadcast E cl others packet alive st
      else if \<not> alive then None
      else case allo_enet_peer_send E (client_peer other) CHANNEL_ASSETS packet st of
             (ok, st') \<Rightarrow> broadcast E cl others packet ok st')"

definition asset_send_func_broadcast ::
  "('j, 's) server_env \<Rightarrow> client \<Rightarrow> u16 \<Rightarrow> 'j \<Rightarrow> u8 list \<Rightarrow> size_t \<Rightarrow> 's server_state \<Rightarrow> 's server_state option"
where
  "asset_send_func_broadcast E cl mid header data len st =
     (case asset_build_enet_packet (print_json E) mid header data len of
        None \<Rightarrow> None
      | Some packet \<Rightarrow> broadcast E cl (clients st) packet True st)"

definition asset_send_func_peer ::
  "('j, 's) server_env \<Rightarrow> peer \<Rightarrow> u16 \<Rightarrow> 'j \<Rightarrow> u8 list \<Rightarrow> size_t \<Rightarrow> 's server_state \<Rightarrow> 's server_state option"
where
  "asset_send_func_peer E p mid header data len st =
     map_option (\<lambda>packet. snd (allo_enet_peer_send E p CHANNEL_ASSETS packet st))
       (asset_build_enet_packet (print_json E) mid header data len)"

text \<open>\<open>asset_user\<close>: the client, and a peer if the packets are for another one.\<close>

definition asset_send_func ::
  "('j, 's) server_env \<Rightarrow> client \<times> peer option \<Rightarrow> u16 \<Rightarrow> 'j \<Rightarrow> u8 list \<Rightarrow> size_t \<Rightarrow> 's server_state \<Rightarrow> 's server_state option"
where
  "asset_send_func E user = asset_send_func_peer E
     (case snd user of None \<Rightarrow> client_peer (fst user) | Some p \<Rightarrow> p)"

definition send_only :: "(u16 \<Rightarrow> 'j \<Rightarrow> u8 list \<Rightarrow> size_t \<Rightarrow> 'w \<Rightarrow> 'w option) \<Rightarrow> ('j, 'w) handlers" where
  "send_only f = \<lparr>on_request = None, on_write = None, on_send = f, on_state = (\<lambda>i s w. Some w)\<rparr>"

section \<open>Wanted assets\<close>

definition asset_is_wanted :: "string \<Rightarrow> 's server_state \<Rightarrow> wanted_asset option" where
  "asset_is_wanted i st = List.find (\<lambda>w. asset_id w = i) (wanted_assets st)"

text \<open>Changing the record at an address, and taking it out of the array and freeing it.\<close>

definition modify_wanted :: "nat \<Rightarrow> (wanted_asset \<Rightarrow> wanted_asset) \<Rightarrow> 's server_state \<Rightarrow> 's server_state" where
  "modify_wanted a f st =
     st\<lparr>wanted_assets := map (\<lambda>w. if wanted_at w = a then f w else w) (wanted_assets st)\<rparr>"

definition remove_wanted :: "nat \<Rightarrow> 's server_state \<Rightarrow> 's server_state" where
  "remove_wanted a st = st\<lparr>wanted_assets := remove_first (\<lambda>w. wanted_at w = a) (wanted_assets st)\<rparr>"

text \<open>\<open>_request_missing_asset\<close>.\<close>

definition request_missing_asset ::
  "('j, 's) server_env \<Rightarrow> client \<Rightarrow> string \<Rightarrow> 's server_state \<Rightarrow> 's server_state option" where
  "request_missing_asset E cl i st =
     (case asset_is_wanted i st of
        Some w \<Rightarrow> Some (modify_wanted (wanted_at w) (\<lambda>w. w\<lparr>recipients := recipients w @ [client_peer cl]\<rparr>) st)
      | None \<Rightarrow>
          (let w = \<lparr>wanted_at = next_address st, asset_id = i, recipients = [client_peer cl], source = None,
                    remaining_potential_sources =
                      map client_peer (filter (\<lambda>c. client_at c \<noteq> client_at cl) (clients st))\<rparr>;
               st' = st\<lparr>wanted_assets := wanted_assets st @ [w], next_address := Suc (next_address st)\<rparr>
           in asset_request (cj E) (send_only (asset_send_func_broadcast E cl)) i None st'))"

text \<open>\<open>_asset_request_bytes_func\<close>: the answer from the store, or the search for the asset.\<close>

definition asset_request_bytes_func ::
  "('j, 's) server_env \<Rightarrow> client \<times> peer option \<Rightarrow> string \<Rightarrow> size_t \<Rightarrow> size_t \<Rightarrow> 's server_state \<Rightarrow> 's server_state option"
where
  "asset_request_bytes_func E user i offset len st =
     (if \<not> can_malloc E len then None
      else case api_read (store_of E) (assets st) i offset len of
             None \<Rightarrow> None
           | Some (read_length, bytes, out_total, s) \<Rightarrow>
               (let total_size = (case out_total of None \<Rightarrow> 0 | Some t \<Rightarrow> t); st' = st\<lparr>assets := s\<rparr>
                in if 0 <s read_length
                   then asset_deliver_bytes (cj E) (send_only (asset_send_func E user)) i (Some bytes)
                          offset (scast read_length) total_size st'
                   else request_missing_asset E (fst user) i st'))"

text \<open>\<open>_asset_write_func\<close>: only wanted assets are taken, from the first peer that delivers.\<close>

definition asset_write_func ::
  "('j, 's) server_env \<Rightarrow> client \<Rightarrow> string \<Rightarrow> u8 list \<Rightarrow> size_t \<Rightarrow> size_t \<Rightarrow> size_t \<Rightarrow>
   's server_state \<Rightarrow> (i32 \<times> 's server_state) option" where
  "asset_write_func E sender i data offset len total_size st =
     (case asset_is_wanted i st of
        None \<Rightarrow> Some (0, st)
      | Some w \<Rightarrow>
          if source w = None \<or> source w = Some (client_peer sender)
          then (let st' = modify_wanted (wanted_at w) (\<lambda>w. w\<lparr>source := Some (client_peer sender)\<rparr>) st
                in map_option (\<lambda>(r, s). (r, st'\<lparr>assets := s\<rparr>))
                     (api_write (store_of E) (assets st') i offset data len total_size))
          else Some (0, st))"

text \<open>\<open>_forward_wanted_asset_failure\<close>: everyone who waits is told, then the record is freed.\<close>

definition forward_wanted_asset_failure ::
  "('j, 's) server_env \<Rightarrow> string \<Rightarrow> client \<Rightarrow> wanted_asset \<Rightarrow> 's server_state \<Rightarrow> 's server_state option" where
  "forward_wanted_asset_failure E i cl w st =
     map_option (remove_wanted (wanted_at w))
       (fold_opt (\<lambda>p. asset_deliver_error (cj E) (send_only (asset_send_func E (cl, Some p))) i
                        asset_not_available_error ''Server could not find asset'')
          (recipients w) st)"

text \<open>
  \<open>_forward_wanted_asset\<close>: everyone who waits gets the first bytes. The loop looks at the length of
  the array in each turn; a delivery that fails puts the source's peer at its end.
\<close>

partial_function (option) forward_from ::
  "('j, 's) server_env \<Rightarrow> string \<Rightarrow> client \<Rightarrow> nat \<Rightarrow> nat \<Rightarrow> 's server_state \<Rightarrow> 's server_state option" where
  "forward_from E i cl a k st =
     (case List.find (\<lambda>w. wanted_at w = a) (wanted_assets st) of
        None \<Rightarrow> None
      | Some w \<Rightarrow>
          if k < length (recipients w)
          then (case asset_deliver i (asset_request_bytes_func E (cl, Some (recipients w ! k))) st of
                  None \<Rightarrow> None
                | Some st' \<Rightarrow> forward_from E i cl a (Suc k) st')
          else Some st)"

definition forward_wanted_asset ::
  "('j, 's) server_env \<Rightarrow> string \<Rightarrow> client \<Rightarrow> wanted_asset \<Rightarrow> 's server_state \<Rightarrow> 's server_state option" where
  "forward_wanted_asset E i cl w st =
     map_option (remove_wanted (wanted_at w)) (forward_from E i cl (wanted_at w) 0 st)"

text \<open>\<open>_asset_state_callback_func\<close>; comparing a null id with a wanted one is \<open>None\<close>.\<close>

definition asset_state_callback_func ::
  "('j, 's) server_env \<Rightarrow> client \<Rightarrow> string option \<Rightarrow> asset_state \<Rightarrow> 's server_state \<Rightarrow> 's server_state option" where
  "asset_state_callback_func E cl maybe_id state st =
     (case maybe_id of
        None \<Rightarrow> if wanted_assets st = [] then Some st else None
      | Some i \<Rightarrow>
          (case asset_is_wanted i st of
             None \<Rightarrow> Some st
           | Some w \<Rightarrow>
               if state = asset_state_now_available then forward_wanted_asset E i cl w st
               else if state = asset_state_now_unavailable
               then (let left = remove_first (\<lambda>p. client_peer cl = p) (remaining_potential_sources w);
                         st' = modify_wanted (wanted_at w) (\<lambda>w. w\<lparr>remaining_potential_sources := left\<rparr>) st
                     in if left = [] then forward_wanted_asset_failure E i cl (w\<lparr>remaining_potential_sources := left\<rparr>) st'
                        else Some st')
               else Some st))"

definition handle_assets ::
  "('j, 's) server_env \<Rightarrow> client \<Rightarrow> u8 list \<Rightarrow> 's server_state \<Rightarrow> 's server_state option" where
  "handle_assets E cl data st =
     asset_handle (cj E) (parse_json E)
       \<lparr>on_request = Some (asset_request_bytes_func E (cl, None)),
        on_write = Some (asset_write_func E cl),
        on_send = asset_send_func E (cl, None),
        on_state = asset_state_callback_func E cl\<rparr> data st"

text \<open>
  \<open>_remove_client_from_wanted\<close>: the loop over the wanted assets, with \<open>k\<close> the index it has
  reached; when one fails it is spliced out, and \<open>--i\<close> makes the loop stay at the index.
\<close>

partial_function (option) remove_client_from ::
  "('j, 's) server_env \<Rightarrow> client \<Rightarrow> nat \<Rightarrow> 's server_state \<Rightarrow> 's server_state option" where
  "remove_client_from E cl k st =
     (if k < length (wanted_assets st)
      then (let w = wanted_assets st ! k;
                w' = w\<lparr>recipients := remove_first (\<lambda>p. p = client_peer cl) (recipients w),
                       remaining_potential_sources :=
                         remove_first (\<lambda>p. p = client_peer cl) (remaining_potential_sources w)\<rparr>;
                st' = modify_wanted (wanted_at w) (\<lambda>w. w') st
            in if remaining_potential_sources w' = []
               then (case forward_wanted_asset_failure E (asset_id w') cl w' st' of
                       None \<Rightarrow> None
                     | Some st'' \<Rightarrow> remove_client_from E cl k st'')
               else remove_client_from E cl (Suc k) st')
      else Some st)"

definition remove_client_from_wanted ::
  "('j, 's) server_env \<Rightarrow> client \<Rightarrow> 's server_state \<Rightarrow> 's server_state option" where
  "remove_client_from_wanted E cl st = remove_client_from E cl 0 st"

section \<open>Connections and events\<close>

definition handle_incoming_connection :: "peer \<Rightarrow> 's server_state \<Rightarrow> 's server_state" where
  "handle_incoming_connection p st =
     (let cl = \<lparr>client_at = next_address st, client_peer = p\<rparr>
      in st\<lparr>next_address := Suc (next_address st), clients := cl # clients st,
            peer_data := (peer_data st)(p := Some cl),
            calls := calls st @ [Clients_changed (Some cl) None]\<rparr>)"

definition handle_incoming_data ::
  "('j, 's) server_env \<Rightarrow> client \<Rightarrow> nat \<Rightarrow> u8 list \<Rightarrow> 's server_state \<Rightarrow> 's server_state option" where
  "handle_incoming_data E cl channel data st =
     (let n = word_of_nat (length data);
          r1 = (channel_rates st)(CHANNEL_COUNT := bitrate_increment_received (channel_rates st CHANNEL_COUNT) n);
          r2 = (if channel < CHANNEL_COUNT
                then r1(channel := bitrate_increment_received (r1 channel) n) else r1);
          st' = st\<lparr>channel_rates := r2\<rparr>
      in if channel = CHANNEL_ASSETS then handle_assets E cl data st'
         else Some (st'\<lparr>calls := calls st' @ [Raw_indata cl channel data]\<rparr>))"

definition handle_lost_connection ::
  "('j, 's) server_env \<Rightarrow> client \<Rightarrow> 's server_state \<Rightarrow> 's server_state option" where
  "handle_lost_connection E cl st =
     map_option (\<lambda>st'. st'\<lparr>clients := remove_first (\<lambda>c. client_at c = client_at cl) (clients st'),
         peer_data := (peer_data st')(client_peer cl := None),
         calls := calls st' @ [Clients_changed None (Some cl)]\<rparr>)
       (remove_client_from_wanted E cl st)"

datatype enet_event =
  Connect peer
| Receive peer nat "u8 list"
| Disconnect peer
| No_event

text \<open>\<open>allo_poll\<close> after \<open>enet_host_service\<close>; the Boolean is its result.\<close>

definition allo_poll ::
  "('j, 's) server_env \<Rightarrow> enet_event \<Rightarrow> 's server_state \<Rightarrow> (bool \<times> 's server_state) option" where
  "allo_poll E event st =
     (case event of
        Connect p \<Rightarrow> Some (True, handle_incoming_connection p st)
      | Receive p channel data \<Rightarrow>
          (case peer_data st p of
             None \<Rightarrow> Some (True, st)
           | Some cl \<Rightarrow> map_option (Pair True) (handle_incoming_data E cl channel data st))
      | Disconnect p \<Rightarrow>
          (case peer_data st p of
             None \<Rightarrow> None
           | Some cl \<Rightarrow> map_option (Pair True) (handle_lost_connection E cl st))
      | No_event \<Rightarrow> Some (False, st))"

definition allo_listen :: "'s \<Rightarrow> 's server_state" where
  "allo_listen s = \<lparr>clients = [], peer_data = (\<lambda>p. None), wanted_assets = [], assets = s, outbox = [], calls = [],
     channel_rates = (\<lambda>c. \<lparr>sent_bytes = 0, sent_packet_count = 0, received_bytes = 0, received_packet_count = 0\<rparr>),
     next_address = 0\<rparr>"

text \<open>\<open>allo_send\<close> and \<open>alloserv_send_enet\<close>.\<close>

definition allo_send ::
  "('j, 's) server_env \<Rightarrow> client \<Rightarrow> nat \<Rightarrow> u8 list \<Rightarrow> 's server_state \<Rightarrow> 's server_state" where
  "allo_send E cl channel buf st = snd (allo_enet_peer_send E (client_peer cl) channel buf st)"

end
