(* ===== verification/Server_Correct.thy ===== *)
theory Server_Correct
  imports Server
begin

text \<open>
  The invariant of the server as a state machine over the events of ENet, and what a request, a
  failure and an arrival do to the peers that wait for an asset.
\<close>

section \<open>Preservation\<close>

text \<open>An operation on the world that, when it returns, keeps a property.\<close>

definition keeps :: "('w \<Rightarrow> bool) \<Rightarrow> ('w \<Rightarrow> 'w option) \<Rightarrow> bool" where
  "keeps P f \<longleftrightarrow> (\<forall>w w'. P w \<longrightarrow> f w = Some w' \<longrightarrow> P w')"

lemma keepsI: "(\<And>w w'. P w \<Longrightarrow> f w = Some w' \<Longrightarrow> P w') \<Longrightarrow> keeps P f"
  by (simp add: keeps_def)

lemma keepsD: "keeps P f \<Longrightarrow> P w \<Longrightarrow> f w = Some w' \<Longrightarrow> P w'"
  by (simp add: keeps_def)

lemma keeps_bind:
  "keeps P f \<Longrightarrow> keeps P g \<Longrightarrow> keeps P (\<lambda>w. case f w of None \<Rightarrow> None | Some w' \<Rightarrow> g w')"
  by (rule keepsI) (auto split: option.splits dest: keepsD)

lemma keeps_if: "(b \<Longrightarrow> keeps P f) \<Longrightarrow> (\<not> b \<Longrightarrow> keeps P g) \<Longrightarrow> keeps P (\<lambda>w. if b then f w else g w)"
  by (cases b) simp_all

lemma keeps_Some: "keeps P Some" and keeps_return: "keeps P (\<lambda>w. Some w)" and keeps_None: "keeps P (\<lambda>w. None)"
  by (simp_all add: keeps_def)

lemmas keeps_intros = keeps_bind keeps_if keeps_Some keeps_return keeps_None

lemma keeps_fold_opt: "(\<And>x. x \<in> set xs \<Longrightarrow> keeps P (f x)) \<Longrightarrow> keeps P (fold_opt f xs)"
proof (induction xs)
  case Nil
  then show ?case by (simp add: keeps_def)
next
  case (Cons x xs)
  have "fold_opt f (x # xs) = (\<lambda>w. case f x w of None \<Rightarrow> None | Some w' \<Rightarrow> fold_opt f xs w')"
    by (rule ext) simp
  moreover have "keeps P (f x)" "keeps P (fold_opt f xs)" using Cons by auto
  ultimately show ?case by (simp only: keeps_bind)
qed

text \<open>The protocol keeps what the function pointers it is given keep.\<close>

definition handlers_keep :: "('w \<Rightarrow> bool) \<Rightarrow> ('j, 'w) handlers \<Rightarrow> bool" where
  "handlers_keep P h \<longleftrightarrow>
     (\<forall>req i offset len. on_request h = Some req \<longrightarrow> keeps P (req i offset len)) \<and>
     (\<forall>wr i data offset len tot r w w'. on_write h = Some wr \<longrightarrow> P w \<longrightarrow>
        wr i data offset len tot w = Some (r, w') \<longrightarrow> P w') \<and>
     (\<forall>mid header data len. keeps P (on_send h mid header data len)) \<and>
     (\<forall>i s. keeps P (on_state h i s))"

lemma handlers_keepD:
  assumes "handlers_keep P h"
  shows "on_request h = Some req \<Longrightarrow> keeps P (req i offset len)"
    and "keeps P (on_send h mid header data n)" and "keeps P (on_state h j s)"
    and "on_write h = Some wr \<Longrightarrow> P w \<Longrightarrow> wr i data offset len tot w = Some (r, w') \<Longrightarrow> P w'"
  using assms unfolding handlers_keep_def by blast+

lemma send_only_keep: "(\<And>mid header data len. keeps P (f mid header data len)) \<Longrightarrow> handlers_keep P (send_only f)"
  by (simp add: handlers_keep_def send_only_def keeps_return)

lemma send_request_keeps: "handlers_keep P h \<Longrightarrow> keeps P (send_request C h i e offset len)"
  unfolding send_request_def [abs_def] Let_def by (rule handlers_keepD(2))

lemma deliver_error_keeps: "handlers_keep P h \<Longrightarrow> keeps P (asset_deliver_error C h i code reason)"
  unfolding asset_deliver_error_def [abs_def] by (rule handlers_keepD(2))

lemma deliver_bytes_keeps: "handlers_keep P h \<Longrightarrow> keeps P (asset_deliver_bytes C h i data offset len tot)"
  unfolding asset_deliver_bytes_def [abs_def]
  by (cases data) (simp_all add: keeps_bind keeps_if keeps_return deliver_error_keeps handlers_keepD(2))

lemma handle_request_keeps: "handlers_keep P h \<Longrightarrow> keeps P (handle_request C h json)"
  unfolding handle_request_def [abs_def]
  by (cases "asset_read_request_header C json"; cases "on_request h")
    (auto intro: handlers_keepD split: prod.split)

lemma handle_failure_keeps: "handlers_keep P h \<Longrightarrow> keeps P (handle_failure C h json)"
proof (cases "asset_read_error_header C json" rule: prod_cases3)
  case (fields a b c)
  assume "handlers_keep P h"
  then show ?thesis
    unfolding handle_failure_def [abs_def] fields
    by (cases b; cases c) (simp_all add: handlers_keepD(3) keeps_None)
qed

lemma handle_data_keeps:
  assumes "handlers_keep P h" and "on_write h = Some wr"
  shows "keeps P (handle_data C h wr json data)"
proof (rule keepsI)
  fix w w'
  assume P: "P w" and run: "handle_data C h wr json data w = Some w'"
  show "P w'"
  proof (cases "asset_read_data_header C json")
    case (Inl e)
    with run P show ?thesis by (simp add: handle_data_def)
  next
    case (Inr x)
    obtain i offset len tot where x: "x = (i, offset, len, tot)" by (cases x) auto
    from run Inr obtain r w1 where w1: "wr i data offset len tot w = Some (r, w1)"
      by (auto simp: handle_data_def x split: option.splits)
    have P1: "P w1" by (rule handlers_keepD(4) [OF assms P w1])
    note more = keepsD [OF send_request_keeps [OF assms(1), of C] P1] keepsD [OF handlers_keepD(3) [OF assms(1)] P1]
    from run Inr w1 P1 show ?thesis
      by (auto simp: handle_data_def x split: option.splits if_splits intro: more)
  qed
qed

lemma asset_handle_keeps:
  assumes "handlers_keep P h"
  shows "keeps P (asset_handle C parse h packet)"
proof (rule keepsI)
  fix w w'
  assume P: "P w" and run: "asset_handle C parse h packet w = Some w'"
  note steps = keepsD [OF handle_request_keeps [OF assms] P] keepsD [OF handle_failure_keeps [OF assms] P]
    keepsD [OF handle_data_keeps [OF assms] P]
  from run P show "P w'"
    by (auto simp: asset_handle_def Let_def split: option.splits prod.splits if_splits bool.splits intro: steps)
qed

section \<open>The invariant\<close>

definition clients_inv :: "'s server_state \<Rightarrow> bool" where
  "clients_inv st \<longleftrightarrow>
     distinct (map client_at (clients st)) \<and> distinct (map client_peer (clients st)) \<and>
     (\<forall>c \<in> set (clients st). client_at c < next_address st) \<and>
     (\<forall>p c. peer_data st p = Some c \<longleftrightarrow> c \<in> set (clients st) \<and> client_peer c = p)"

text \<open>Of the wanted assets, with addresses below \<open>n\<close> and the connected peers \<open>ps\<close>.\<close>

definition wanted_inv :: "nat \<Rightarrow> peer set \<Rightarrow> wanted_asset list \<Rightarrow> bool" where
  "wanted_inv n ps ws \<longleftrightarrow> distinct (map wanted_at ws) \<and> distinct (map asset_id ws) \<and>
     (\<forall>w \<in> set ws. wanted_at w < n \<and> distinct (remaining_potential_sources w) \<and>
        set (remaining_potential_sources w) \<subseteq> ps)"

definition server_inv :: "'s server_state \<Rightarrow> bool" where
  "server_inv st \<longleftrightarrow> clients_inv st \<and>
     wanted_inv (next_address st) (client_peer ` set (clients st)) (wanted_assets st)"

lemma clients_inv_simps [simp]:
  "clients_inv (st\<lparr>wanted_assets := ws\<rparr>) = clients_inv st" "clients_inv (st\<lparr>assets := s\<rparr>) = clients_inv st"
  "clients_inv (st\<lparr>channel_rates := r\<rparr>) = clients_inv st" "clients_inv (st\<lparr>calls := cs\<rparr>) = clients_inv st"
  by (simp_all add: clients_inv_def)

text \<open>States that agree on what the invariant speaks of.\<close>

definition same_core :: "'s server_state \<Rightarrow> 's server_state \<Rightarrow> bool" where
  "same_core st st' \<longleftrightarrow> clients st' = clients st \<and> peer_data st' = peer_data st \<and>
     wanted_assets st' = wanted_assets st \<and> next_address st' = next_address st"

lemma same_core_inv: "same_core st st' \<Longrightarrow> server_inv st \<Longrightarrow> server_inv st'"
  by (simp add: same_core_def server_inv_def clients_inv_def)

lemma same_core_refl [simp]: "same_core st st"
  by (simp add: same_core_def)

lemma same_core_trans: "same_core st st' \<Longrightarrow> same_core st' st'' \<Longrightarrow> same_core st st''"
  by (simp add: same_core_def)

lemma send_core: "allo_enet_peer_send E p channel packet st = (ok, st') \<Longrightarrow> same_core st st'"
  by (auto simp: allo_enet_peer_send_def same_core_def split: if_splits)

lemma broadcast_core: "broadcast E cl others packet alive st = Some st' \<Longrightarrow> same_core st st'"
proof (induction others arbitrary: alive st)
  case (Cons other others)
  obtain ok st1 where s: "allo_enet_peer_send E (client_peer other) CHANNEL_ASSETS packet st = (ok, st1)"
    by fastforce
  from Cons s send_core [OF s] show ?case
    by (auto split: if_splits intro: same_core_trans)
qed simp

lemma send_func_keeps_core: "asset_send_func E user mid header data len st = Some st' \<Longrightarrow> same_core st st'"
  using send_core [of E _ CHANNEL_ASSETS] unfolding asset_send_func_def asset_send_func_peer_def
  by (metis (no_types, lifting) map_option_eq_Some prod.collapse)

text \<open>What a property must allow for the sends to keep it.\<close>

definition core_closed :: "('s server_state \<Rightarrow> bool) \<Rightarrow> bool" where
  "core_closed P \<longleftrightarrow> (\<forall>st st'. same_core st st' \<longrightarrow> P st \<longrightarrow> P st')"

lemma send_func_keeps: "core_closed P \<Longrightarrow> keeps P (asset_send_func E user mid header data len)"
  by (rule keepsI) (auto simp: core_closed_def dest: send_func_keeps_core)

lemma broadcast_keeps: "core_closed P \<Longrightarrow> keeps P (asset_send_func_broadcast E cl mid header data len)"
  by (rule keepsI) (auto simp: core_closed_def asset_send_func_broadcast_def dest!: broadcast_core split: option.splits)

lemma inv_core_closed: "core_closed server_inv"
  using same_core_inv by (auto simp: core_closed_def)

section \<open>The operations keep the invariant\<close>

lemma wanted_inv_map:
  assumes inv: "wanted_inv n ps ws"
    and f: "\<And>w. w \<in> set ws \<Longrightarrow> wanted_at (f w) = wanted_at w \<and> asset_id (f w) = asset_id w \<and>
      distinct (remaining_potential_sources (f w)) \<and>
      set (remaining_potential_sources (f w)) \<subseteq> set (remaining_potential_sources w)"
  shows "wanted_inv n ps (map f ws)"
proof -
  have "map wanted_at (map f ws) = map wanted_at ws" "map asset_id (map f ws) = map asset_id ws"
    using f by auto
  moreover have "wanted_at (f w) < n \<and> distinct (remaining_potential_sources (f w)) \<and>
      set (remaining_potential_sources (f w)) \<subseteq> ps" if "w \<in> set ws" for w
    using f [OF that] inv that by (auto simp: wanted_inv_def)
  moreover have "distinct (map wanted_at ws)" "distinct (map asset_id ws)"
    using inv by (simp_all add: wanted_inv_def)
  ultimately show ?thesis unfolding wanted_inv_def by (simp del: map_map)
qed

lemma modify_wanted_inv:
  assumes inv: "server_inv st"
    and f: "\<And>w. w \<in> set (wanted_assets st) \<Longrightarrow> wanted_at w = a \<Longrightarrow>
      wanted_at (f w) = wanted_at w \<and> asset_id (f w) = asset_id w \<and>
      distinct (remaining_potential_sources (f w)) \<and>
      set (remaining_potential_sources (f w)) \<subseteq> set (remaining_potential_sources w)"
  shows "server_inv (modify_wanted a f st)"
proof -
  have "wanted_inv (next_address st) (client_peer ` set (clients st))
      (map (\<lambda>w. if wanted_at w = a then f w else w) (wanted_assets st))"
    by (rule wanted_inv_map) (use inv f in \<open>auto simp: server_inv_def wanted_inv_def\<close>)
  then show ?thesis using inv by (simp add: server_inv_def modify_wanted_def)
qed

lemma distinct_map_remove_first: "distinct (map f xs) \<Longrightarrow> distinct (map f (remove_first p xs))"
proof (induction xs)
  case (Cons x xs)
  then show ?case using set_remove_first_subset [of p xs] by auto
qed simp

lemma remove_wanted_inv: "server_inv st \<Longrightarrow> server_inv (remove_wanted a st)"
  using set_remove_first_subset [of "\<lambda>w. wanted_at w = a" "wanted_assets st"]
  by (auto simp: server_inv_def wanted_inv_def remove_wanted_def distinct_map_remove_first)

lemma asset_is_wanted_NoneD: "asset_is_wanted i st = None \<Longrightarrow> i \<notin> asset_id ` set (wanted_assets st)"
  by (auto simp: asset_is_wanted_def find_None_iff)

lemma request_missing_keeps: "keeps server_inv (request_missing_asset E cl i)"
proof (rule keepsI)
  fix st st'
  assume inv: "server_inv st" and run: "request_missing_asset E cl i st = Some st'"
  show "server_inv st'"
  proof (cases "asset_is_wanted i st")
    case (Some w)
    with run have st': "st' = modify_wanted (wanted_at w) (\<lambda>w. w\<lparr>recipients := recipients w @ [client_peer cl]\<rparr>) st"
      by (simp add: request_missing_asset_def)
    show ?thesis unfolding st' by (rule modify_wanted_inv [OF inv]) (use inv in \<open>auto simp: server_inv_def wanted_inv_def\<close>)
  next
    case None
    let ?w = "\<lparr>wanted_at = next_address st, asset_id = i, recipients = [client_peer cl], source = None,
      remaining_potential_sources = map client_peer (filter (\<lambda>c. client_at c \<noteq> client_at cl) (clients st))\<rparr>"
    let ?st = "st\<lparr>wanted_assets := wanted_assets st @ [?w], next_address := Suc (next_address st)\<rparr>"
    have "next_address st \<notin> wanted_at ` set (wanted_assets st)"
      using inv by (auto simp: server_inv_def wanted_inv_def)
    moreover have "clients_inv ?st" using inv by (auto simp: server_inv_def clients_inv_def)
    ultimately have "server_inv ?st"
      using inv asset_is_wanted_NoneD [OF None]
      by (auto simp: server_inv_def wanted_inv_def clients_inv_def distinct_map_filter)
    moreover have "keeps server_inv (asset_request (cj E) (send_only (asset_send_func_broadcast E cl)) i None)"
      unfolding asset_request_def
      by (intro send_request_keeps send_only_keep broadcast_keeps inv_core_closed)
    ultimately show ?thesis using run None by (auto simp: request_missing_asset_def dest: keepsD)
  qed
qed

lemma server_inv_assets [simp]: "server_inv (st\<lparr>assets := s\<rparr>) = server_inv st"
  by (simp add: server_inv_def)

lemma request_bytes_keeps: "keeps server_inv (asset_request_bytes_func E user i offset len)"
proof (rule keepsI)
  fix st st'
  assume inv: "server_inv st" and run: "asset_request_bytes_func E user i offset len st = Some st'"
  have "keeps server_inv (asset_deliver_bytes (cj E) (send_only (asset_send_func E user)) i d offset r tot)" for d r tot
    by (intro deliver_bytes_keeps send_only_keep send_func_keeps inv_core_closed)
  note steps = keepsD [OF this] keepsD [OF request_missing_keeps]
  obtain r bytes out s where rd: "api_read (store_of E) (assets st) i offset len = Some (r, bytes, out, s)"
    using run by (auto simp: asset_request_bytes_func_def split: if_splits option.splits)
  have inv': "server_inv (st\<lparr>assets := s\<rparr>)" using inv by simp
  show "server_inv st'"
  proof (cases "0 <s r")
    case True
    with run rd show ?thesis
      using steps(1) [OF inv'] by (auto simp: asset_request_bytes_func_def Let_def split: if_splits)
  next
    case False
    with run rd show ?thesis
      using steps(2) [OF inv'] by (auto simp: asset_request_bytes_func_def Let_def split: if_splits)
  qed
qed

lemma write_func_inv:
  assumes "server_inv st" and "asset_write_func E sender i data offset len tot st = Some (r, st')"
  shows "server_inv st'"
proof -
  have "server_inv (modify_wanted a (\<lambda>w. w\<lparr>source := s\<rparr>) st)" for a s
    by (rule modify_wanted_inv [OF assms(1)]) (use assms(1) in \<open>auto simp: server_inv_def wanted_inv_def\<close>)
  with assms show ?thesis by (auto simp: asset_write_func_def Let_def split: option.splits if_splits)
qed

lemma forward_failure_keeps: "keeps server_inv (forward_wanted_asset_failure E i cl w)"
proof -
  have "keeps server_inv (fold_opt (\<lambda>p. asset_deliver_error (cj E) (send_only (asset_send_func E (cl, Some p))) i
      asset_not_available_error ''Server could not find asset'') (recipients w))"
    by (intro keeps_fold_opt deliver_error_keeps send_only_keep send_func_keeps inv_core_closed)
  then show ?thesis
    by (auto simp: keeps_def forward_wanted_asset_failure_def intro: remove_wanted_inv)
qed

lemma forward_from_inv:
  assumes run: "forward_from E i cl a k st = Some st'" and "server_inv st"
  shows "server_inv st'"
proof -
  have "server_inv st \<longrightarrow> server_inv st'"
  proof (rule forward_from.raw_induct [OF _ run, where P = "\<lambda>E i cl a k st st'. server_inv st \<longrightarrow> server_inv st'"])
    fix rec E i cl a k st st'
    assume IH: "\<And>E i cl a k st st'. rec E i cl a k st = Some st' \<Longrightarrow> server_inv st \<longrightarrow> server_inv st'"
      and run: "(case List.find (\<lambda>w. wanted_at w = a) (wanted_assets st) of
        None \<Rightarrow> None
      | Some w \<Rightarrow>
          if k < length (recipients w)
          then (case asset_deliver i (asset_request_bytes_func E (cl, Some (recipients w ! k))) st of
                  None \<Rightarrow> None
                | Some st' \<Rightarrow> rec E i cl a (Suc k) st')
          else Some st) = Some st'"
    show "server_inv st \<longrightarrow> server_inv st'"
    proof
      assume inv: "server_inv st"
      from run obtain w where w: "List.find (\<lambda>w. wanted_at w = a) (wanted_assets st) = Some w"
        by (auto split: option.splits)
      show "server_inv st'"
      proof (cases "k < length (recipients w)")
        case True
        then obtain st1 where st1: "asset_request_bytes_func E (cl, Some (recipients w ! k)) i 0 ASSET_CHUNK_SIZE st = Some st1"
          "rec E i cl a (Suc k) st1 = Some st'"
          using run w by (auto simp: asset_deliver_def split: option.splits)
        from IH [OF st1(2)] keepsD [OF request_bytes_keeps inv st1(1)] show ?thesis by simp
      next
        case False
        with run inv w show ?thesis by simp
      qed
    qed
  qed
  with assms(2) show ?thesis by simp
qed

lemma state_callback_keeps: "keeps server_inv (asset_state_callback_func E cl i state)"
proof (rule keepsI)
  fix st st'
  assume inv: "server_inv st" and run: "asset_state_callback_func E cl i state st = Some st'"
  have found: "w \<in> set (wanted_assets st)" if "asset_is_wanted j st = Some w" for j w
    using that by (auto simp: asset_is_wanted_def find_Some_iff)
  have mod: "server_inv (modify_wanted (wanted_at w)
      (\<lambda>v. v\<lparr>remaining_potential_sources := remove_first q (remaining_potential_sources w)\<rparr>) st)"
    if w: "w \<in> set (wanted_assets st)" for w q
  proof -
    have same: "v = w" if "v \<in> set (wanted_assets st)" "wanted_at v = wanted_at w" for v
      using inv w that by (auto simp: server_inv_def wanted_inv_def distinct_map inj_on_def)
    show ?thesis
      by (rule modify_wanted_inv [OF inv])
        (use inv w in \<open>auto simp: server_inv_def wanted_inv_def distinct_remove_first
           dest!: same subsetD [OF set_remove_first_subset]\<close>)
  qed
  show "server_inv st'"
  proof (cases "\<exists>j w. i = Some j \<and> asset_is_wanted j st = Some w")
    case False
    with run inv show ?thesis by (auto simp: asset_state_callback_func_def split: option.splits if_splits)
  next
    case True
    then obtain j w where j: "i = Some j" "asset_is_wanted j st = Some w" by blast
    define left where "left = remove_first (\<lambda>p. client_peer cl = p) (remaining_potential_sources w)"
    have inv': "server_inv (modify_wanted (wanted_at w) (\<lambda>v. v\<lparr>remaining_potential_sources := left\<rparr>) st)"
      unfolding left_def by (rule mod [OF found [OF j(2)]])
    show ?thesis
    proof (cases "state = asset_state_now_available")
      case True
      with run j inv show ?thesis
        by (auto simp: asset_state_callback_func_def forward_wanted_asset_def intro: remove_wanted_inv forward_from_inv)
    next
      case not_available: False
      show ?thesis
      proof (cases "state = asset_state_now_unavailable \<and> left = []")
        case True
        then have "forward_wanted_asset_failure E j cl (w\<lparr>remaining_potential_sources := left\<rparr>)
            (modify_wanted (wanted_at w) (\<lambda>v. v\<lparr>remaining_potential_sources := left\<rparr>) st) = Some st'"
          using run j not_available unfolding asset_state_callback_func_def left_def by (simp add: Let_def)
        then show ?thesis by (rule keepsD [OF forward_failure_keeps inv'])
      next
        case False
        then have "st' = st \<or> st' = modify_wanted (wanted_at w) (\<lambda>v. v\<lparr>remaining_potential_sources := left\<rparr>) st"
          using run j not_available unfolding asset_state_callback_func_def left_def
          by (auto simp: Let_def split: if_splits)
        with inv inv' show ?thesis by blast
      qed
    qed
  qed
qed

lemma handle_assets_keeps: "keeps server_inv (handle_assets E cl data)"
proof -
  have "handlers_keep server_inv
      \<lparr>on_request = Some (asset_request_bytes_func E (cl, None)), on_write = Some (asset_write_func E cl),
       on_send = asset_send_func E (cl, None), on_state = asset_state_callback_func E cl\<rparr>"
    using request_bytes_keeps write_func_inv state_callback_keeps send_func_keeps [OF inv_core_closed]
    by (auto simp: handlers_keep_def)
  then show ?thesis unfolding handle_assets_def by (rule asset_handle_keeps)
qed

section \<open>What the sends of an answer do\<close>

lemma core_closed_same_core: "core_closed (same_core st)"
  unfolding core_closed_def by (blast intro: same_core_trans)

text \<open>The packet of a failure, and what an outbox gains when it is sent to some peers.\<close>

definition failure_packet :: "('j, 's) server_env \<Rightarrow> string \<Rightarrow> u8 list" where
  "failure_packet E i = (let json = print_json E (asset_error (cj E) i asset_not_available_error ''Server could not find asset'')
     in be16 asset_mid_failure @ be16 (word_of_nat (length json)) @ json)"

definition sent_to :: "('j, 's) server_env \<Rightarrow> peer list \<Rightarrow> u8 list \<Rightarrow> (peer \<times> nat \<times> u8 list) list" where
  "sent_to E ps packet = map (\<lambda>p. (p, CHANNEL_ASSETS, packet)) (filter (accepts E) ps)"

lemma deliver_error_sends:
  "\<exists>st'. asset_deliver_error (cj E) (send_only (asset_send_func E (cl, Some p))) i asset_not_available_error
      ''Server could not find asset'' st = Some st' \<and> same_core st st' \<and> assets st' = assets st \<and>
    calls st' = calls st \<and> outbox st' = outbox st @ sent_to E [p] (failure_packet E i)"
  by (auto simp: asset_deliver_error_def send_only_def asset_send_func_def asset_send_func_peer_def
      asset_build_enet_packet_def Let_def allo_enet_peer_send_def same_core_def sent_to_def failure_packet_def)

lemma deliver_errors_send:
  "\<exists>st'. fold_opt (\<lambda>p. asset_deliver_error (cj E) (send_only (asset_send_func E (cl, Some p))) i
      asset_not_available_error ''Server could not find asset'') ps st = Some st' \<and> same_core st st' \<and>
    assets st' = assets st \<and> calls st' = calls st \<and> outbox st' = outbox st @ sent_to E ps (failure_packet E i)"
proof (induction ps arbitrary: st)
  case Nil
  then show ?case by (simp add: sent_to_def)
next
  case (Cons p ps)
  obtain st1 where 1: "asset_deliver_error (cj E) (send_only (asset_send_func E (cl, Some p))) i asset_not_available_error
      ''Server could not find asset'' st = Some st1" "same_core st st1" "assets st1 = assets st"
    "calls st1 = calls st" "outbox st1 = outbox st @ sent_to E [p] (failure_packet E i)"
    using deliver_error_sends by blast
  from Cons.IH [of st1] 1 show ?case
    by (auto simp: sent_to_def intro: same_core_trans)
qed

lemma forward_failure_effect:
  "\<exists>st'. forward_wanted_asset_failure E i cl w st = Some st' \<and>
    clients st' = clients st \<and> peer_data st' = peer_data st \<and> next_address st' = next_address st \<and>
    assets st' = assets st \<and> calls st' = calls st \<and>
    wanted_assets st' = remove_first (\<lambda>v. wanted_at v = wanted_at w) (wanted_assets st) \<and>
    outbox st' = outbox st @ sent_to E (recipients w) (failure_packet E i)"
proof -
  obtain st1 where "fold_opt (\<lambda>p. asset_deliver_error (cj E) (send_only (asset_send_func E (cl, Some p))) i
      asset_not_available_error ''Server could not find asset'') (recipients w) st = Some st1" "same_core st st1"
    "assets st1 = assets st" "calls st1 = calls st"
    "outbox st1 = outbox st @ sent_to E (recipients w) (failure_packet E i)"
    using deliver_errors_send by blast
  then show ?thesis
    by (simp add: forward_wanted_asset_failure_def remove_wanted_def same_core_def)
qed

section \<open>A lost connection\<close>

definition drop_peer :: "peer \<Rightarrow> wanted_asset \<Rightarrow> wanted_asset" where
  "drop_peer p w = w\<lparr>recipients := remove_first (\<lambda>q. q = p) (recipients w),
     remaining_potential_sources := remove_first (\<lambda>q. q = p) (remaining_potential_sources w)\<rparr>"

lemma drop_peer_fields [simp]:
  "wanted_at (drop_peer p w) = wanted_at w" "asset_id (drop_peer p w) = asset_id w"
  "remaining_potential_sources (drop_peer p w) = remove1 p (remaining_potential_sources w)"
  "recipients (drop_peer p w) = remove1 p (recipients w)" "source (drop_peer p w) = source w"
  by (simp_all add: drop_peer_def remove_first_eq_remove1)

lemma map_at_address:
  assumes "distinct (map f ws)" and "k < length ws"
  shows "map (\<lambda>w. if f w = f (ws ! k) then v else w) ws = ws[k := v]"
  using assms
proof (induction ws arbitrary: k)
  case (Cons w ws)
  show ?case
  proof (cases k)
    case 0
    have "f u \<noteq> f w" if "u \<in> set ws" for u using Cons.prems(1) that by (metis distinct.simps(2) image_eqI list.set_map list.simps(9))
    then have "map (\<lambda>u. if f u = f w then v else u) ws = ws" by (intro map_idI) simp
    with 0 show ?thesis by simp
  next
    case (Suc j)
    with Cons.prems have "f w \<noteq> f (ws ! j)" by (metis distinct.simps(2) length_Cons Suc_less_eq list.simps(9) nth_map nth_mem length_map)
    with Suc Cons show ?thesis by simp
  qed
qed simp

lemma remove_at_address:
  assumes "distinct (map f ws)" and "k < length ws"
  shows "remove_first (\<lambda>w. f w = f (ws ! k)) ws = take k ws @ drop (Suc k) ws"
  using assms
proof (induction ws arbitrary: k)
  case (Cons w ws)
  show ?case
  proof (cases k)
    case (Suc j)
    with Cons.prems have "f w \<noteq> f (ws ! j)" by (metis distinct.simps(2) length_Cons Suc_less_eq list.simps(9) nth_map nth_mem length_map)
    with Suc Cons show ?thesis by simp
  qed simp
qed simp

text \<open>
  From index \<open>k\<close> on, the peer is taken out of every wanted asset, and those with no potential
  source left are gone.
\<close>

lemma remove_client_from_ok:
  assumes "distinct (map wanted_at (wanted_assets st))" and "k \<le> length (wanted_assets st)"
  shows "\<exists>st'. remove_client_from E cl k st = Some st' \<and>
    clients st' = clients st \<and> peer_data st' = peer_data st \<and> next_address st' = next_address st \<and>
    assets st' = assets st \<and> calls st' = calls st \<and>
    wanted_assets st' = take k (wanted_assets st) @
      filter (\<lambda>w. remaining_potential_sources w \<noteq> []) (map (drop_peer (client_peer cl)) (drop k (wanted_assets st)))"
  using assms
proof (induction "length (wanted_assets st) - k" arbitrary: k st)
  case 0
  then have "\<not> k < length (wanted_assets st)" by simp
  with 0 show ?case by (subst remove_client_from.simps) simp
next
  case (Suc n)
  let ?ws = "wanted_assets st"
  let ?w = "drop_peer (client_peer cl) (?ws ! k)"
  have k: "k < length ?ws" using Suc.hyps(2) by simp
  define st1 where "st1 = modify_wanted (wanted_at (?ws ! k)) (\<lambda>w. ?w) st"
  have ws1: "wanted_assets st1 = ?ws[k := ?w]"
    using map_at_address [OF Suc.prems(1) k, of ?w] by (simp add: st1_def modify_wanted_def)
  have same1: "clients st1 = clients st" "peer_data st1 = peer_data st" "next_address st1 = next_address st"
    "assets st1 = assets st" "calls st1 = calls st" by (simp_all add: st1_def modify_wanted_def)
  have at1: "map wanted_at (wanted_assets st1) = map wanted_at ?ws"
    using k by (simp add: ws1 map_update list_update_same_conv)
  have d: "drop k ?ws = ?ws ! k # drop (Suc k) ?ws" using k by (rule Cons_nth_drop_Suc [symmetric])
  have eq: "remove_client_from E cl k st =
    (if remaining_potential_sources ?w = []
     then (case forward_wanted_asset_failure E (asset_id ?w) cl ?w st1 of
             None \<Rightarrow> None | Some st2 \<Rightarrow> remove_client_from E cl k st2)
     else remove_client_from E cl (Suc k) st1)"
    using k by (subst remove_client_from.simps) (simp only: Let_def drop_peer_def [symmetric] st1_def [symmetric] if_True)
  show ?case
  proof (cases "remaining_potential_sources ?w = []")
    case True
    obtain st2 where st2: "forward_wanted_asset_failure E (asset_id ?w) cl ?w st1 = Some st2"
      "clients st2 = clients st1" "peer_data st2 = peer_data st1" "next_address st2 = next_address st1"
      "assets st2 = assets st1" "calls st2 = calls st1"
      "wanted_assets st2 = remove_first (\<lambda>v. wanted_at v = wanted_at ?w) (wanted_assets st1)"
      using forward_failure_effect [of E "asset_id ?w" cl ?w st1] by auto
    have "wanted_assets st2 = take k ?ws @ drop (Suc k) ?ws"
      using remove_at_address [of wanted_at "wanted_assets st1" k] Suc.prems(1) k st2(7) at1 by (simp add: ws1)
    then have ws2: "wanted_assets st2 = take k ?ws @ drop (Suc k) ?ws" .
    have "distinct (map wanted_at (take k ?ws @ drop (Suc k) ?ws))"
      using Suc.prems(1) k remove_at_address [OF Suc.prems(1) k] distinct_map_remove_first [OF Suc.prems(1)] by metis
    then have "distinct (map wanted_at (wanted_assets st2))" by (simp only: ws2)
    moreover have "n = length (wanted_assets st2) - k" "k \<le> length (wanted_assets st2)"
      using Suc.hyps(2) k by (simp_all add: ws2)
    moreover have "take k (wanted_assets st2) = take k ?ws" "drop k (wanted_assets st2) = drop (Suc k) ?ws"
      using k by (simp_all add: ws2)
    ultimately obtain st' where "remove_client_from E cl k st2 = Some st'"
      "clients st' = clients st2" "peer_data st' = peer_data st2" "next_address st' = next_address st2"
      "assets st' = assets st2" "calls st' = calls st2"
      "wanted_assets st' = take k ?ws @ filter (\<lambda>w. remaining_potential_sources w \<noteq> [])
         (map (drop_peer (client_peer cl)) (drop (Suc k) ?ws))"
      using Suc.hyps(1) [of st2 k] by metis
    then show ?thesis using eq True st2 same1 d by simp
  next
    case False
    have "distinct (map wanted_at (wanted_assets st1))" using Suc.prems(1) at1 by simp
    moreover have "n = length (wanted_assets st1) - Suc k" "Suc k \<le> length (wanted_assets st1)"
      using Suc.hyps(2) k by (simp_all add: ws1)
    ultimately obtain st' where "remove_client_from E cl (Suc k) st1 = Some st'"
      "clients st' = clients st1" "peer_data st' = peer_data st1" "next_address st' = next_address st1"
      "assets st' = assets st1" "calls st' = calls st1"
      "wanted_assets st' = take (Suc k) (wanted_assets st1) @ filter (\<lambda>w. remaining_potential_sources w \<noteq> [])
         (map (drop_peer (client_peer cl)) (drop (Suc k) (wanted_assets st1)))"
      using Suc.hyps(1) [of st1 "Suc k"] by metis
    then show ?thesis using eq False same1 d k by (simp add: ws1 take_Suc_conv_app_nth)
  qed
qed

lemma wanted_inv_drop:
  assumes wi: "wanted_inv n P ws"
  shows "wanted_inv n (P - {p}) (filter (\<lambda>w. remaining_potential_sources w \<noteq> []) (map (drop_peer p) ws))"
proof -
  have "map wanted_at (map (drop_peer p) ws) = map wanted_at ws" "map asset_id (map (drop_peer p) ws) = map asset_id ws"
    by simp_all
  then have "distinct (map wanted_at (map (drop_peer p) ws))" "distinct (map asset_id (map (drop_peer p) ws))"
    using wi unfolding wanted_inv_def by metis+
  moreover have "wanted_at v < n \<and> distinct (remaining_potential_sources v) \<and> set (remaining_potential_sources v) \<subseteq> P - {p}"
    if v: "v \<in> set (map (drop_peer p) ws)" for v
  proof -
    from v obtain w where "w \<in> set ws" "v = drop_peer p w" by auto
    with wi show ?thesis by (auto simp: wanted_inv_def)
  qed
  ultimately show ?thesis by (simp add: wanted_inv_def distinct_map_filter)
qed

lemma clients_inv_remove:
  assumes ci: "clients_inv st" and cl: "cl \<in> set (clients st)"
  shows "clients_inv (st\<lparr>clients := remove1 cl (clients st), peer_data := (peer_data st)(client_peer cl := None)\<rparr>)"
    and "client_peer ` set (remove1 cl (clients st)) = client_peer ` set (clients st) - {client_peer cl}"
    and "remove_first (\<lambda>c. client_at c = client_at cl) (clients st) = remove1 cl (clients st)"
proof -
  let ?cs = "remove1 cl (clients st)"
  have d: "distinct (clients st)" using ci by (auto simp: clients_inv_def distinct_map)
  have one: "c = cl" if "c \<in> set (clients st)" "client_peer c = client_peer cl" for c
    using ci cl that by (auto simp: clients_inv_def distinct_map inj_on_def)
  then show "client_peer ` set ?cs = client_peer ` set (clients st) - {client_peer cl}"
    using cl d by auto
  have "distinct (map f ?cs)" if "distinct (map f (clients st))" for f :: "client \<Rightarrow> nat"
    using that distinct_map_remove_first [of f "clients st" "\<lambda>c. c = cl"] by (simp add: remove_first_eq_remove1)
  moreover have "\<forall>c \<in> set ?cs. client_at c < next_address st"
    using ci d by (auto simp: clients_inv_def)
  moreover have "((peer_data st)(client_peer cl := None)) p = Some c \<longleftrightarrow> c \<in> set ?cs \<and> client_peer c = p" for p c
  proof (cases "p = client_peer cl")
    case True
    then show ?thesis using one d by auto
  next
    case False
    then show ?thesis using ci d by (auto simp: clients_inv_def)
  qed
  ultimately show "clients_inv (st\<lparr>clients := ?cs, peer_data := (peer_data st)(client_peer cl := None)\<rparr>)"
    using ci by (simp add: clients_inv_def)
  have same: "client_at c = client_at cl \<longleftrightarrow> c = cl" if "c \<in> set (clients st)" for c
    using ci cl that by (auto simp: clients_inv_def distinct_map inj_on_def)
  have "remove_first (\<lambda>c. client_at c = client_at cl) xs = remove_first (\<lambda>c. c = cl) xs"
    if "set xs \<subseteq> set (clients st)" for xs
    using that same by (induction xs) auto
  then show "remove_first (\<lambda>c. client_at c = client_at cl) (clients st) = ?cs"
    by (simp add: remove_first_eq_remove1)
qed

lemma lost_connection_ok:
  assumes inv: "server_inv st" and cl: "cl \<in> set (clients st)"
  shows "\<exists>st'. handle_lost_connection E cl st = Some st' \<and> server_inv st' \<and>
    clients st' = remove1 cl (clients st) \<and> peer_data st' = (peer_data st)(client_peer cl := None) \<and>
    assets st' = assets st \<and> calls st' = calls st @ [Clients_changed None (Some cl)] \<and>
    wanted_assets st' = filter (\<lambda>w. remaining_potential_sources w \<noteq> []) (map (drop_peer (client_peer cl)) (wanted_assets st))"
proof -
  have ci: "clients_inv st" and wi: "wanted_inv (next_address st) (client_peer ` set (clients st)) (wanted_assets st)"
    using inv by (auto simp: server_inv_def)
  then have dist: "distinct (map wanted_at (wanted_assets st))" by (simp add: wanted_inv_def)
  obtain st1 where st1: "remove_client_from_wanted E cl st = Some st1"
    "clients st1 = clients st" "peer_data st1 = peer_data st" "next_address st1 = next_address st"
    "assets st1 = assets st" "calls st1 = calls st"
    "wanted_assets st1 = filter (\<lambda>w. remaining_potential_sources w \<noteq> []) (map (drop_peer (client_peer cl)) (wanted_assets st))"
    using remove_client_from_ok [OF dist, of 0 E cl] unfolding remove_client_from_wanted_def take_0 drop_0 by auto
  let ?st = "st1\<lparr>clients := remove1 cl (clients st), peer_data := (peer_data st)(client_peer cl := None),
    calls := calls st @ [Clients_changed None (Some cl)]\<rparr>"
  have run: "handle_lost_connection E cl st = Some ?st"
    unfolding handle_lost_connection_def st1(1) by (simp add: st1(2,3,6) clients_inv_remove(3) [OF ci cl])
  have "clients_inv ?st" using clients_inv_remove(1) [OF ci cl] by (simp add: clients_inv_def st1(4))
  moreover have "wanted_inv (next_address st) (client_peer ` set (remove1 cl (clients st))) (wanted_assets st1)"
    unfolding st1(7) clients_inv_remove(2) [OF ci cl] by (rule wanted_inv_drop [OF wi])
  ultimately have "server_inv ?st" by (simp add: server_inv_def st1(4))
  with run st1(5,7) show ?thesis by simp
qed

section \<open>The server as a state machine\<close>

text \<open>
  ENet connects a peer that is not connected and disconnects one that is; a packet may still come
  from one that is no longer.
\<close>

inductive server_step :: "('j, 's) server_env \<Rightarrow> 's server_state \<Rightarrow> enet_event \<Rightarrow> 's server_state \<Rightarrow> bool" for E where
  step_connect: "peer_data st p = None \<Longrightarrow> allo_poll E (Connect p) st = Some (b, st') \<Longrightarrow>
    server_step E st (Connect p) st'"
| step_receive: "allo_poll E (Receive p channel data) st = Some (b, st') \<Longrightarrow>
    server_step E st (Receive p channel data) st'"
| step_disconnect: "peer_data st p = Some cl \<Longrightarrow> allo_poll E (Disconnect p) st = Some (b, st') \<Longrightarrow>
    server_step E st (Disconnect p) st'"

inductive server_reachable :: "('j, 's) server_env \<Rightarrow> 's \<Rightarrow> 's server_state \<Rightarrow> bool" for E s where
  reach_start: "server_reachable E s (allo_listen s)"
| reach_step: "server_reachable E s st \<Longrightarrow> server_step E st event st' \<Longrightarrow> server_reachable E s st'"

lemma server_inv_start: "server_inv (allo_listen s)"
  by (simp add: allo_listen_def server_inv_def clients_inv_def wanted_inv_def)

lemma connect_inv:
  assumes "server_inv st" and "peer_data st p = None"
  shows "server_inv (handle_incoming_connection p st)"
proof -
  have "peer_data st (client_peer c) = Some c \<and> client_at c < next_address st" if "c \<in> set (clients st)" for c
    using assms(1) that by (simp add: server_inv_def clients_inv_def)
  with assms(2) have "p \<notin> client_peer ` set (clients st)" "next_address st \<notin> client_at ` set (clients st)" by force+
  with assms show ?thesis
    by (auto simp: server_inv_def clients_inv_def wanted_inv_def handle_incoming_connection_def Let_def less_Suc_eq)
qed

lemma receive_inv:
  assumes "server_inv st" and "handle_incoming_data E cl channel data st = Some st'"
  shows "server_inv st'"
proof -
  have rates: "server_inv (st\<lparr>channel_rates := r\<rparr>)" "server_inv (st\<lparr>channel_rates := r, calls := c\<rparr>)" for r c
    using assms(1) by (simp_all add: server_inv_def)
  note handled = keepsD [OF handle_assets_keeps rates(1)]
  from assms(2) rates show ?thesis
    by (auto simp: handle_incoming_data_def Let_def split: if_splits intro: handled)
qed

inductive_cases server_stepE: "server_step E st event st'"

lemma server_step_inv: "server_step E st event st' \<Longrightarrow> server_inv st \<Longrightarrow> server_inv st'"
proof (erule server_stepE)
  fix p b assume "server_inv st" "peer_data st p = None" "allo_poll E (Connect p) st = Some (b, st')"
  then show "server_inv st'" using connect_inv by (auto simp: allo_poll_def)
next
  fix p channel data b assume "server_inv st" "allo_poll E (Receive p channel data) st = Some (b, st')"
  then show "server_inv st'" using receive_inv by (fastforce simp: allo_poll_def split: option.splits)
next
  fix p cl b assume inv: "server_inv st" and cl: "peer_data st p = Some cl" "allo_poll E (Disconnect p) st = Some (b, st')"
  have "cl \<in> set (clients st)" using inv cl(1) by (auto simp: server_inv_def clients_inv_def)
  from lost_connection_ok [OF inv this, of E] cl show "server_inv st'" by (auto simp: allo_poll_def)
qed

lemma server_reachable_inv: "server_reachable E s st \<Longrightarrow> server_inv st"
  by (induction rule: server_reachable.induct) (auto intro: server_inv_start server_step_inv)

end
