(* ===== verification/Server_Props.thy ===== *)
theory Server_Props
  imports Server_Correct Asset_Transfer
begin

text \<open>
  What the server promises its clients, over the events of ENet: the invariant of every reachable
  state, the search for a missing asset, its end when the last potential source fails, and lost
  connections; and the behaviours in which the code falls short of it.
\<close>

section \<open>A sample server\<close>

text \<open>A server with an empty store that takes nothing; headers are printed as one byte.\<close>

definition sample_env :: "(peer \<Rightarrow> bool) \<Rightarrow> (json, unit) server_env" where
  "sample_env ok = \<lparr>cj = json_ops, print_json = (\<lambda>j. [0]), parse_json = (\<lambda>bs. (None, length bs)),
     store_of = \<lparr>api_read = (\<lambda>s i offset len. Some (- 1, [], None, s)),
                 api_write = (\<lambda>s i offset data len total_size. Some (- 1, s))\<rparr>,
     accepts = ok, can_malloc = (\<lambda>n. True)\<rparr>"

definition sample_client :: "nat \<Rightarrow> client" where
  "sample_client n = \<lparr>client_at = n, client_peer = n\<rparr>"

text \<open>The state after the peers below \<open>n\<close> have connected.\<close>

definition sample_server :: "nat \<Rightarrow> unit server_state" where
  "sample_server n = fold handle_incoming_connection [0..<n] (allo_listen ())"

lemma sample_server_0: "sample_server 0 = allo_listen ()"
  by (simp add: sample_server_def)

lemma sample_server_Suc: "sample_server (Suc n) = handle_incoming_connection n (sample_server n)"
  by (simp add: sample_server_def)

lemma sample_server_fields:
  "clients (sample_server n) = map sample_client (rev [0..<n])"
  "peer_data (sample_server n) = (\<lambda>p. if p < n then Some (sample_client p) else None)"
  "wanted_assets (sample_server n) = []" "next_address (sample_server n) = n" "outbox (sample_server n) = []"
  by (induction n) (auto simp: sample_server_0 sample_server_Suc allo_listen_def handle_incoming_connection_def
      Let_def sample_client_def less_Suc_eq fun_eq_iff)

lemma sample_server_reachable: "server_reachable E () (sample_server n)"
proof (induction n)
  case 0
  then show ?case by (simp add: sample_server_0 reach_start)
next
  case (Suc n)
  have "server_step E (sample_server n) (Connect n) (sample_server (Suc n))"
    by (rule step_connect [where b = True]) (simp_all add: sample_server_fields sample_server_Suc allo_poll_def)
  with Suc show ?case by (rule reach_step)
qed

section \<open>The invariant\<close>

text \<open>
  C1. In every state the server can reach, the clients have distinct records and peers, a peer's
  data is its client and nothing else, no asset is wanted twice, and only connected peers are
  potential sources, each once.
\<close>

theorem server_invariant:
  assumes "server_reachable E s st"
  shows "distinct (map client_peer (clients st)) \<and>
    (\<forall>p c. peer_data st p = Some c \<longleftrightarrow> c \<in> set (clients st) \<and> client_peer c = p) \<and>
    distinct (map asset_id (wanted_assets st)) \<and>
    (\<forall>w \<in> set (wanted_assets st). distinct (remaining_potential_sources w) \<and>
       set (remaining_potential_sources w) \<subseteq> client_peer ` set (clients st))"
  using server_reachable_inv [OF assms] by (simp_all add: server_inv_def clients_inv_def wanted_inv_def)

theorem server_invariant_witness:
  "distinct (map client_peer (clients (sample_server 3))) \<and> length (clients (sample_server 3)) = 3"
  by (rule conjI, rule conjunct1 [OF server_invariant [OF sample_server_reachable [of "sample_env (\<lambda>p. True)" 3]]])
    (simp add: sample_server_fields)

text \<open>
  C14. Losing a connection never fails: the client is taken out of the list, its peer forgets it, it
  is taken once out of every wanted asset's recipients and potential sources, assets with no
  source left are given up, the rest of the order stays, and the user is told once.
\<close>

theorem lost_connection_removes_client:
  assumes "server_reachable E s st" and "peer_data st p = Some cl"
  shows "\<exists>st'. allo_poll E (Disconnect p) st = Some (True, st') \<and>
    clients st' = remove1 cl (clients st) \<and> peer_data st' = (peer_data st)(p := None) \<and>
    assets st' = assets st \<and> calls st' = calls st @ [Clients_changed None (Some cl)] \<and>
    wanted_assets st' = filter (\<lambda>w. remaining_potential_sources w \<noteq> []) (map (drop_peer p) (wanted_assets st))"
proof -
  have inv: "server_inv st" using assms(1) by (rule server_reachable_inv)
  then have cl: "cl \<in> set (clients st)" "client_peer cl = p"
    using assms(2) by (auto simp: server_inv_def clients_inv_def)
  from lost_connection_ok [OF inv cl(1), of E] show ?thesis
    by (auto simp: allo_poll_def assms(2) cl(2))
qed

theorem lost_connection_removes_client_witness:
  "\<exists>st'. allo_poll (sample_env (\<lambda>p. True)) (Disconnect 1) (sample_server 3) = Some (True, st') \<and>
     clients st' = [sample_client 2, sample_client 0]"
  using lost_connection_removes_client [OF sample_server_reachable [of "sample_env (\<lambda>p. True)" 3], of 1 "sample_client 1"]
  by (auto simp: sample_server_fields upt_rec sample_client_def)

section \<open>The search for a missing asset\<close>

text \<open>The request packet that is broadcast, when no send is refused.\<close>

lemma broadcast_sends:
  assumes "\<forall>c \<in> set others. client_at c \<noteq> client_at cl \<longrightarrow> accepts E (client_peer c)"
  shows "\<exists>st'. broadcast E cl others packet True st = Some st' \<and> same_core st st' \<and> assets st' = assets st \<and>
    calls st' = calls st \<and> outbox st' = outbox st @
      map (\<lambda>c. (client_peer c, CHANNEL_ASSETS, packet)) (filter (\<lambda>c. client_at c \<noteq> client_at cl) others)"
  using assms
proof (induction others arbitrary: st)
  case Nil
  then show ?case by simp
next
  case (Cons c cs)
  have cs: "\<forall>c \<in> set cs. client_at c \<noteq> client_at cl \<longrightarrow> accepts E (client_peer c)" using Cons.prems by simp
  show ?case
  proof (cases "client_at c = client_at cl")
    case True
    then show ?thesis using Cons.IH [OF cs, of st] by simp
  next
    case False
    then obtain st1 where st1: "allo_enet_peer_send E (client_peer c) CHANNEL_ASSETS packet st = (True, st1)"
      "same_core st st1" "assets st1 = assets st" "calls st1 = calls st"
      "outbox st1 = outbox st @ [(client_peer c, CHANNEL_ASSETS, packet)]"
      using Cons.prems by (auto simp: allo_enet_peer_send_def same_core_def)
    with Cons.IH [OF cs, of st1] False show ?thesis
      by (auto intro: same_core_trans)
  qed
qed

definition request_packet :: "('j, 's) server_env \<Rightarrow> string \<Rightarrow> u8 list" where
  "request_packet E i = (let json = print_json E (cjson_create_object (cj E)
       [(''id'', CreateString (cj E) i), (''range'', CreateIntArray (cj E) [0, 1048576])])
     in be16 asset_mid_request @ be16 (word_of_nat (length json)) @ json)"

definition new_search :: "'s server_state \<Rightarrow> client \<Rightarrow> string \<Rightarrow> wanted_asset" where
  "new_search st cl i = \<lparr>wanted_at = next_address st, asset_id = i, recipients = [client_peer cl], source = None,
     remaining_potential_sources = map client_peer (filter (\<lambda>c. client_at c \<noteq> client_at cl) (clients st))\<rparr>"

lemma first_request:
  assumes "\<forall>c \<in> set (clients st). client_at c \<noteq> client_at cl \<longrightarrow> accepts E (client_peer c)" and none: "asset_is_wanted i st = None"
  shows "\<exists>st'. request_missing_asset E cl i st = Some st' \<and>
    clients st' = clients st \<and> peer_data st' = peer_data st \<and> assets st' = assets st \<and>
    wanted_assets st' = wanted_assets st @ [new_search st cl i] \<and>
    outbox st' = outbox st @ map (\<lambda>c. (client_peer c, CHANNEL_ASSETS, request_packet E i))
      (filter (\<lambda>c. client_at c \<noteq> client_at cl) (clients st))"
proof -
  let ?st = "st\<lparr>wanted_assets := wanted_assets st @ [new_search st cl i], next_address := Suc (next_address st)\<rparr>"
  have packet: "asset_build_enet_packet (print_json E) asset_mid_request (cjson_create_object (cj E)
       [(''id'', CreateString (cj E) i), (''range'', CreateIntArray (cj E) [0, 1048576])]) [] 0 = Some (request_packet E i)"
    by (simp add: asset_build_enet_packet_def request_packet_def Let_def)
  have "request_missing_asset E cl i st = broadcast E cl (clients ?st) (request_packet E i) True ?st"
    by (simp add: request_missing_asset_def none Let_def asset_request_def send_request_def send_only_def
        asset_send_func_broadcast_def ASSET_CHUNK_SIZE_def packet new_search_def)
  then show ?thesis
    using broadcast_sends [of "clients ?st" cl E "request_packet E i" ?st] assms by (auto simp: same_core_def)
qed

text \<open>
  C31. A client asks for an asset the server does not have, while ENet takes the packets for every other
  client. The first one to do so starts one search: every other client is sent the same request, in
  the order of the list, each of them is a potential source, and the client waits. While the search
  lasts, another who asks only waits. When a packet is refused, the broadcast can go on with freed memory
  (\<open>refused_broadcast_uses_freed_packet\<close>).
\<close>

theorem missing_asset_searched_once:
  assumes "\<forall>c \<in> set (clients st). client_at c \<noteq> client_at cl \<longrightarrow> accepts E (client_peer c)"
  shows "\<exists>st'. request_missing_asset E cl i st = Some st' \<and>
    (case asset_is_wanted i st of
       None \<Rightarrow>
         wanted_assets st' = wanted_assets st @ [new_search st cl i] \<and>
         outbox st' = outbox st @ map (\<lambda>c. (client_peer c, CHANNEL_ASSETS, request_packet E i))
           (filter (\<lambda>c. client_at c \<noteq> client_at cl) (clients st))
     | Some w \<Rightarrow>
         outbox st' = outbox st \<and>
         wanted_assets st' = map (\<lambda>v. if wanted_at v = wanted_at w
           then v\<lparr>recipients := recipients v @ [client_peer cl]\<rparr> else v) (wanted_assets st))"
proof (cases "asset_is_wanted i st")
  case None
  then show ?thesis using first_request [OF assms None] by auto
next
  case (Some w)
  then show ?thesis by (simp add: request_missing_asset_def modify_wanted_def)
qed

theorem missing_asset_searched_once_witness:
  "\<exists>st'. request_missing_asset (sample_env (\<lambda>p. True)) (sample_client 1) ''a'' (sample_server 3) = Some st' \<and>
     map fst (outbox st') = [2, 0]"
  using missing_asset_searched_once [of "sample_server 3" "sample_client 1" "sample_env (\<lambda>p. True)" "''a''"]
  by (auto simp: sample_server_fields sample_env_def asset_is_wanted_def sample_client_def upt_rec)

lemma wanted_at_remove_first:
  "map wanted_at (remove_first (\<lambda>v. wanted_at v = a) ws) = remove1 a (map wanted_at ws)"
  by (induction ws) auto

lemma wanted_at_modify:
  assumes "\<And>v. wanted_at (f v) = wanted_at v"
  shows "map wanted_at (wanted_assets (modify_wanted a f st)) = map wanted_at (wanted_assets st)"
  using assms by (simp add: modify_wanted_def)

text \<open>
  C32. When the last potential source of a wanted asset says it does not have it, everyone who
  waits is sent one failure packet, in the order they asked, and the search is over.
\<close>

theorem last_source_fails_search:
  assumes "asset_is_wanted i st = Some w" and "remaining_potential_sources w = [client_peer cl]"
  shows "\<exists>st'. asset_state_callback_func E cl (Some i) asset_state_now_unavailable st = Some st' \<and>
    outbox st' = outbox st @ sent_to E (recipients w) (failure_packet E i) \<and>
    map wanted_at (wanted_assets st') = remove1 (wanted_at w) (map wanted_at (wanted_assets st))"
proof -
  let ?st = "modify_wanted (wanted_at w) (\<lambda>w. w\<lparr>remaining_potential_sources := []\<rparr>) st"
  let ?w = "w\<lparr>remaining_potential_sources := []\<rparr>"
  have run: "asset_state_callback_func E cl (Some i) asset_state_now_unavailable st =
      forward_wanted_asset_failure E i cl ?w ?st"
    using assms by (simp add: asset_state_callback_func_def)
  obtain st' where st': "forward_wanted_asset_failure E i cl ?w ?st = Some st'"
    "wanted_assets st' = remove_first (\<lambda>v. wanted_at v = wanted_at ?w) (wanted_assets ?st)"
    "outbox st' = outbox ?st @ sent_to E (recipients ?w) (failure_packet E i)"
    using forward_failure_effect [of E i cl ?w ?st] by blast
  have "map wanted_at (wanted_assets st') = remove1 (wanted_at w) (map wanted_at (wanted_assets st))"
    unfolding st'(2) wanted_at_remove_first by (simp add: wanted_at_modify)
  moreover have "outbox st' = outbox st @ sent_to E (recipients w) (failure_packet E i)"
    unfolding st'(3) by (simp add: modify_wanted_def)
  ultimately show ?thesis using run st'(1) by simp
qed

definition sample_wanted :: wanted_asset where
  "sample_wanted = \<lparr>wanted_at = 9, asset_id = ''a'', recipients = [1, 2, 1], source = None,
     remaining_potential_sources = [0]\<rparr>"

theorem last_source_fails_search_witness:
  "\<exists>st'. asset_state_callback_func (sample_env (\<lambda>p. True)) (sample_client 0) (Some ''a'') asset_state_now_unavailable
       ((sample_server 3)\<lparr>wanted_assets := [sample_wanted]\<rparr>) = Some st' \<and>
     map fst (outbox st') = [1, 2, 1] \<and> wanted_assets st' = []"
  using last_source_fails_search [of "''a''" "(sample_server 3)\<lparr>wanted_assets := [sample_wanted]\<rparr>" sample_wanted
      "sample_client 0" "sample_env (\<lambda>p. True)"]
  by (auto simp: sample_server_fields asset_is_wanted_def sample_wanted_def sample_client_def sent_to_def sample_env_def)

section \<open>Where the code falls short\<close>

text \<open>
  A client that is alone and asks for an asset the server does not have waits for an answer that
  no one can give: nothing is sent, to it or to others, and the search stays, with no source left.
\<close>

theorem lonely_request_unanswered:
  assumes "clients st = [cl]" and "asset_is_wanted i st = None"
  shows "\<exists>st' w. request_missing_asset E cl i st = Some st' \<and> outbox st' = outbox st \<and>
    wanted_assets st' = wanted_assets st @ [w] \<and> asset_id w = i \<and>
    recipients w = [client_peer cl] \<and> remaining_potential_sources w = []"
  using assms
  by (simp add: request_missing_asset_def asset_request_def send_request_def send_only_def
      asset_send_func_broadcast_def asset_build_enet_packet_def Let_def)

theorem lonely_request_unanswered_witness:
  "\<exists>st'. request_missing_asset (sample_env (\<lambda>p. True)) (sample_client 0) ''a'' (sample_server 1) = Some st' \<and>
     outbox st' = []"
  using lonely_request_unanswered [of "sample_server 1" "sample_client 0" "''a''" "sample_env (\<lambda>p. True)"]
  by (auto simp: sample_server_fields asset_is_wanted_def)

text \<open>
  A client that asked twice for the same wanted asset is only taken once out of those who wait
  for it when it disconnects: its peer, by then without a client, stays a recipient.
\<close>

theorem disconnected_recipient_stays:
  assumes "server_reachable E s st" and "peer_data st p = Some cl" and "w \<in> set (wanted_assets st)"
    and "recipients w = xs @ p # ys @ p # zs" and "remove1 p (remaining_potential_sources w) \<noteq> []"
  shows "\<exists>st' w'. allo_poll E (Disconnect p) st = Some (True, st') \<and> peer_data st' p = None \<and>
    w' \<in> set (wanted_assets st') \<and> asset_id w' = asset_id w \<and> p \<in> set (recipients w')"
proof -
  have inv: "server_inv st" using assms(1) by (rule server_reachable_inv)
  then have cl: "cl \<in> set (clients st)" "client_peer cl = p"
    using assms(2) by (auto simp: server_inv_def clients_inv_def)
  obtain st' where st': "handle_lost_connection E cl st = Some st'" "peer_data st' = (peer_data st)(p := None)"
    "wanted_assets st' = filter (\<lambda>w. remaining_potential_sources w \<noteq> []) (map (drop_peer p) (wanted_assets st))"
    using lost_connection_ok [OF inv cl(1), of E] cl(2) by auto
  have "drop_peer p w \<in> set (wanted_assets st')" using assms(3,5) unfolding st'(3) by auto
  moreover have "p \<in> set (recipients (drop_peer p w))" by (simp add: assms(4) remove1_append)
  moreover have "allo_poll E (Disconnect p) st = Some (True, st')" using st'(1) by (simp add: allo_poll_def assms(2))
  ultimately show ?thesis using st'(2) by (metis drop_peer_fields(2) fun_upd_same)
qed

text \<open>Every packet is a request for the same asset.\<close>

definition asking_env :: "(json, unit) server_env" where
  "asking_env = (sample_env (\<lambda>p. True))\<lparr>parse_json := (\<lambda>bs. (Some (request_header json_ops ''a'' 0 1), length bs))\<rparr>"

lemma no_assets: "(st :: unit server_state)\<lparr>assets := u\<rparr> = st"
  by (rule server_state.equality) simp_all

lemma asking_receive:
  assumes "peer_data st p = Some cl"
  shows "allo_poll asking_env (Receive p CHANNEL_ASSETS [0, 1, 0, 0]) st =
    map_option (Pair True) (request_missing_asset asking_env cl ''a''
      (st\<lparr>channel_rates := (channel_rates st)
          (CHANNEL_COUNT := bitrate_increment_received (channel_rates st CHANNEL_COUNT) 4,
           CHANNEL_ASSETS := bitrate_increment_received (channel_rates st CHANNEL_ASSETS) 4)\<rparr>))"
  using assms
  by (simp add: allo_poll_def handle_incoming_data_def Let_def CHANNEL_ASSETS_def CHANNEL_COUNT_def handle_assets_def
      asset_handle_def asset_read_header_def asking_env_def sample_env_def be16_get_def asset_mid_request_def
      handle_request_def json.read_request_header asset_request_bytes_func_def no_assets)

theorem disconnected_recipient_stays_witness:
  "\<exists>st st' w'. server_reachable asking_env () st \<and>
     allo_poll asking_env (Disconnect 1) st = Some (True, st') \<and> peer_data st' 1 = None \<and>
     w' \<in> set (wanted_assets st') \<and> asset_id w' = ''a'' \<and> 1 \<in> set (recipients w')"
proof -
  let ?packet = "Receive 1 CHANNEL_ASSETS [0, 1, 0, 0]"
  define r where "r st = (channel_rates st)
    (CHANNEL_COUNT := bitrate_increment_received (channel_rates st CHANNEL_COUNT) 4,
     CHANNEL_ASSETS := bitrate_increment_received (channel_rates st CHANNEL_ASSETS) 4)" for st :: "unit server_state"
  have ok: "accepts asking_env = (\<lambda>p. True)" by (simp add: asking_env_def sample_env_def)
  define st0 where "st0 = (sample_server 3)\<lparr>channel_rates := r (sample_server 3)\<rparr>"
  have st0: "clients st0 = map sample_client [2, 1, 0]" "peer_data st0 1 = Some (sample_client 1)"
    "asset_is_wanted ''a'' st0 = None" "wanted_assets st0 = []"
    by (simp_all add: st0_def sample_server_fields asset_is_wanted_def upt_rec numeral_2_eq_2)
  obtain st1 where st1: "request_missing_asset asking_env (sample_client 1) ''a'' st0 = Some st1"
    "peer_data st1 = peer_data st0" "wanted_assets st1 = [new_search st0 (sample_client 1) ''a'']"
    using first_request [of st0 "sample_client 1" asking_env "''a''"] st0 by (auto simp: ok)
  have run1: "allo_poll asking_env ?packet (sample_server 3) = Some (True, st1)"
    using asking_receive [of "sample_server 3" 1 "sample_client 1"] st1(1)
    by (simp add: sample_server_fields r_def st0_def)
  have p1: "peer_data st1 1 = Some (sample_client 1)" using st1(2) st0(2) by simp
  define w where "w = (new_search st0 (sample_client 1) ''a'')\<lparr>recipients := [1, 1]\<rparr>"
  define st2 where "st2 = st1\<lparr>channel_rates := r st1, wanted_assets := [w]\<rparr>"
  have run2: "allo_poll asking_env ?packet st1 = Some (True, st2)"
    using asking_receive [OF p1] st1(3)
    by (simp add: request_missing_asset_def asset_is_wanted_def new_search_def w_def st2_def r_def modify_wanted_def
        sample_client_def)
  have reach: "server_reachable asking_env () st2"
    by (rule reach_step [OF reach_step [OF sample_server_reachable step_receive [OF run1]] step_receive [OF run2]])
  have w: "w \<in> set (wanted_assets st2)" "recipients w = [] @ 1 # [] @ 1 # []"
    "remove1 1 (remaining_potential_sources w) \<noteq> []" "asset_id w = ''a''" "peer_data st2 1 = Some (sample_client 1)"
    using st0(1) p1 by (simp_all add: st2_def w_def new_search_def sample_client_def)
  show ?thesis
    using disconnected_recipient_stays [OF reach w(5,1,2,3)] reach w(4) by auto
qed

text \<open>
  A broadcast that ENet refuses for one client goes on with the packet it has just destroyed, if
  there is another client after it: the request of a missing asset uses freed memory.
\<close>

theorem refused_broadcast_uses_freed_packet:
  assumes "asset_is_wanted i st = None" and "clients st = xs @ c # ys @ d # zs" and "\<not> accepts E (client_peer c)"
    and "\<forall>x \<in> set xs. accepts E (client_peer x)" and "client_at c \<noteq> client_at cl" and "client_at d \<noteq> client_at cl"
    and "\<forall>y \<in> set ys. client_at y = client_at cl"
  shows "request_missing_asset E cl i st = None"
proof -
  have skip: "broadcast E cl (ys @ d # zs) packet False st' = None" for packet st'
    using assms(7)
  proof (induction ys)
    case Nil
    then show ?case using assms(6) by simp
  next
    case (Cons y ys)
    then have y: "client_at y = client_at cl" and "broadcast E cl (ys @ d # zs) packet False st' = None"
      by (meson list.set_intros)+
    then show ?case by (simp only: append_Cons broadcast.simps y if_True)
  qed
  have at_c: "broadcast E cl (c # ys @ d # zs) packet True st' = None" for packet st'
    using assms(3,5) by (simp add: skip allo_enet_peer_send_def)
  have fail: "broadcast E cl (xs @ c # ys @ d # zs) packet True st' = None" for packet st'
    using assms(4)
  proof (induction xs arbitrary: st')
    case Nil
    then show ?case by (simp only: append_Nil at_c)
  next
    case (Cons x xs)
    then show ?case by (simp add: allo_enet_peer_send_def)
  qed
  show ?thesis
    unfolding request_missing_asset_def assms(1)
    by (simp add: assms(2) asset_request_def send_request_def send_only_def asset_send_func_broadcast_def Let_def
        fail split: option.split)
qed

theorem refused_broadcast_uses_freed_packet_witness:
  "request_missing_asset (sample_env (\<lambda>p. p = 0)) (sample_client 0) ''a'' (sample_server 3) = None"
  by (rule refused_broadcast_uses_freed_packet [where xs = "[]" and c = "sample_client 2" and ys = "[]"
        and d = "sample_client 1" and zs = "[sample_client 0]"])
    (simp_all add: asset_is_wanted_def sample_server_fields sample_env_def sample_client_def upt_rec)

end
