(* ===== verification/Math.thy ===== *)
theory Math
  imports Prelude Complex_Main
begin

text \<open>
  Vectors and matrices, \<^verbatim>\<open>src/math.c\<close>. A double is read as the rational number it denotes, rounding
  left out; what needs a root or an angle function takes its value as an argument. \<^verbatim>\<open>mathc\<close>, a
  submodule, multiplies and inverts the matrices: its two functions are a parameter, with laws as
  a locale, and the code that \<^verbatim>\<open>math.c\<close> keeps after the calls is shown to satisfy them.
\<close>

named_theorems matrix_simps

section \<open>Vectors\<close>

record allo_vector =
  vx :: rat
  vy :: rat
  vz :: rat

definition vec :: "rat \<Rightarrow> rat \<Rightarrow> rat \<Rightarrow> allo_vector" where
  "vec x y z = \<lparr>vx = x, vy = y, vz = z\<rparr>"

definition allo_vector_subtract :: "allo_vector \<Rightarrow> allo_vector \<Rightarrow> allo_vector" where
  "allo_vector_subtract l r = vec (vx l - vx r) (vy l - vy r) (vz l - vz r)"

definition allo_vector_add :: "allo_vector \<Rightarrow> allo_vector \<Rightarrow> allo_vector" where
  "allo_vector_add l r = vec (vx l + vx r) (vy l + vy r) (vz l + vz r)"

definition allo_vector_mul :: "allo_vector \<Rightarrow> allo_vector \<Rightarrow> allo_vector" where
  "allo_vector_mul l r = vec (vx l * vx r) (vy l * vy r) (vz l * vz r)"

definition allo_vector_scale :: "allo_vector \<Rightarrow> rat \<Rightarrow> allo_vector" where
  "allo_vector_scale l r = vec (vx l * r) (vy l * r) (vz l * r)"

definition allo_vector_dot :: "allo_vector \<Rightarrow> allo_vector \<Rightarrow> rat" where
  "allo_vector_dot l r = vx l * vx r + vy l * vy r + vz l * vz r"

section \<open>Matrices\<close>

text \<open>The array \<open>v\<close> of the union, in the order of the columns: \<open>cXrY\<close> is at \<open>4 * (X - 1) + Y - 1\<close>.\<close>

record allo_m4x4 =
  c1r1 :: rat c1r2 :: rat c1r3 :: rat c1r4 :: rat
  c2r1 :: rat c2r2 :: rat c2r3 :: rat c2r4 :: rat
  c3r1 :: rat c3r2 :: rat c3r3 :: rat c3r4 :: rat
  c4r1 :: rat c4r2 :: rat c4r3 :: rat c4r4 :: rat

definition m_of ::
  "rat \<Rightarrow> rat \<Rightarrow> rat \<Rightarrow> rat \<Rightarrow> rat \<Rightarrow> rat \<Rightarrow> rat \<Rightarrow> rat \<Rightarrow>
   rat \<Rightarrow> rat \<Rightarrow> rat \<Rightarrow> rat \<Rightarrow> rat \<Rightarrow> rat \<Rightarrow> rat \<Rightarrow> rat \<Rightarrow> allo_m4x4" where
  "m_of v0 v1 v2 v3 v4 v5 v6 v7 v8 v9 v10 v11 v12 v13 v14 v15 =
     \<lparr>c1r1 = v0, c1r2 = v1, c1r3 = v2, c1r4 = v3, c2r1 = v4, c2r2 = v5, c2r3 = v6, c2r4 = v7,
      c3r1 = v8, c3r2 = v9, c3r3 = v10, c3r4 = v11, c4r1 = v12, c4r2 = v13, c4r3 = v14, c4r4 = v15\<rparr>"

definition v_of :: "allo_m4x4 \<Rightarrow> rat list" where
  "v_of m = [c1r1 m, c1r2 m, c1r3 m, c1r4 m, c2r1 m, c2r2 m, c2r3 m, c2r4 m,
     c3r1 m, c3r2 m, c3r3 m, c3r4 m, c4r1 m, c4r2 m, c4r3 m, c4r4 m]"

fun m_of_list :: "rat list \<Rightarrow> allo_m4x4" where
  "m_of_list vs = m_of (vs ! 0) (vs ! 1) (vs ! 2) (vs ! 3) (vs ! 4) (vs ! 5) (vs ! 6) (vs ! 7)
     (vs ! 8) (vs ! 9) (vs ! 10) (vs ! 11) (vs ! 12) (vs ! 13) (vs ! 14) (vs ! 15)"

definition allo_m4x4_identity :: allo_m4x4 where
  "allo_m4x4_identity = m_of 1 0 0 0  0 1 0 0  0 0 1 0  0 0 0 1"

definition allo_m4x4_is_identity :: "allo_m4x4 \<Rightarrow> bool" where
  "allo_m4x4_is_identity m = list_all2 (=) (v_of m) (v_of allo_m4x4_identity)"

definition allo_m4x4_translate :: "allo_vector \<Rightarrow> allo_m4x4" where
  "allo_m4x4_translate t = m_of 1 0 0 0  0 1 0 0  0 0 1 0  (vx t) (vy t) (vz t) 1"

text \<open>\<open>allo_m4x4_rotate\<close>, given the cosine and the sine of its angle.\<close>

definition allo_m4x4_rotate :: "rat \<Rightarrow> rat \<Rightarrow> allo_vector \<Rightarrow> allo_m4x4" where
  "allo_m4x4_rotate rcos rsin axis =
     (let u = vx axis; v = vy axis; w = vz axis
      in m_of (rcos + u * u * (1 - rcos)) (w * rsin + v * u * (1 - rcos)) (- v * rsin + w * u * (1 - rcos)) 0
              (- w * rsin + u * v * (1 - rcos)) (rcos + v * v * (1 - rcos)) (u * rsin + w * v * (1 - rcos)) 0
              (v * rsin + u * w * (1 - rcos)) (- u * rsin + v * w * (1 - rcos)) (rcos + w * w * (1 - rcos)) 0
              0 0 0 1)"

definition allo_m4x4_add :: "allo_m4x4 \<Rightarrow> allo_m4x4 \<Rightarrow> allo_m4x4" where
  "allo_m4x4_add l r = m_of_list (map2 (+) (v_of l) (v_of r))"

definition allo_m4x4_scalar_multiply :: "allo_m4x4 \<Rightarrow> rat \<Rightarrow> allo_m4x4" where
  "allo_m4x4_scalar_multiply l r = m_of_list (map (\<lambda>a. a * r) (v_of l))"

definition allo_m4x4_interpolate :: "allo_m4x4 \<Rightarrow> allo_m4x4 \<Rightarrow> rat \<Rightarrow> allo_m4x4" where
  "allo_m4x4_interpolate l r fraction =
     allo_m4x4_add (allo_m4x4_scalar_multiply l fraction) (allo_m4x4_scalar_multiply r (1 - fraction))"

definition allo_m4x4_transform :: "allo_m4x4 \<Rightarrow> allo_vector \<Rightarrow> bool \<Rightarrow> allo_vector" where
  "allo_m4x4_transform l r positional =
     (let p = (if positional then 1 else 0)
      in vec (c1r1 l * vx r + c2r1 l * vy r + c3r1 l * vz r + c4r1 l * p)
             (c1r2 l * vx r + c2r2 l * vy r + c3r2 l * vz r + c4r2 l * p)
             (c1r3 l * vx r + c2r3 l * vy r + c3r3 l * vz r + c4r3 l * p))"

definition allo_m4x4_get_position :: "allo_m4x4 \<Rightarrow> allo_vector" where
  "allo_m4x4_get_position l = allo_m4x4_transform l (vec 0 0 0) True"

definition allo_m4x4_equal :: "allo_m4x4 \<Rightarrow> allo_m4x4 \<Rightarrow> rat \<Rightarrow> bool" where
  "allo_m4x4_equal a b sigma = list_all2 (\<lambda>x y. \<not> sigma < \<bar>x - y\<bar>) (v_of a) (v_of b)"

lemmas vector_defs = vec_def allo_vector_subtract_def allo_vector_add_def allo_vector_mul_def
  allo_vector_scale_def allo_vector_dot_def

lemmas m_defs = m_of_def v_of_def allo_m4x4_identity_def allo_m4x4_translate_def allo_m4x4_add_def
  allo_m4x4_scalar_multiply_def allo_m4x4_transform_def allo_m4x4_get_position_def

lemma vec_sel [simp]: "vx (vec x y z) = x" "vy (vec x y z) = y" "vz (vec x y z) = z"
  by (simp_all add: vec_def)

lemma vec_eq_iff: "(v :: allo_vector) = w \<longleftrightarrow> vx v = vx w \<and> vy v = vy w \<and> vz v = vz w"
  by (auto intro: allo_vector.equality)

lemma m_of_list_v_of [simp]: "m_of_list (v_of m) = m"
  by (simp add: m_defs)

lemma v_of_m_of_list: "length vs = 16 \<Longrightarrow> v_of (m_of_list vs) = vs"
  by (auto simp: m_defs length_Suc_conv eval_nat_numeral)

lemma length_v_of [simp]: "length (v_of m) = 16"
  by (simp add: v_of_def)

lemma is_identity_iff: "allo_m4x4_is_identity m \<longleftrightarrow> m = allo_m4x4_identity"
  by (metis allo_m4x4_is_identity_def list.rel_eq m_of_list_v_of)

section \<open>mathc\<close>

record mathc =
  mat4_multiply :: "allo_m4x4 \<Rightarrow> allo_m4x4 \<Rightarrow> allo_m4x4"
  mat4_inverse :: "allo_m4x4 \<Rightarrow> allo_m4x4"

definition allo_m4x4_concat :: "mathc \<Rightarrow> allo_m4x4 \<Rightarrow> allo_m4x4 \<Rightarrow> allo_m4x4" where
  "allo_m4x4_concat M a b = mat4_multiply M a b"

definition allo_m4x4_inverse :: "mathc \<Rightarrow> allo_m4x4 \<Rightarrow> allo_m4x4" where
  "allo_m4x4_inverse M m = mat4_inverse M m"

text \<open>The product of two matrices stored by columns, applied to column vectors.\<close>

definition product :: "allo_m4x4 \<Rightarrow> allo_m4x4 \<Rightarrow> allo_m4x4" where
  "product a b = m_of
     (c1r1 a * c1r1 b + c2r1 a * c1r2 b + c3r1 a * c1r3 b + c4r1 a * c1r4 b)
     (c1r2 a * c1r1 b + c2r2 a * c1r2 b + c3r2 a * c1r3 b + c4r2 a * c1r4 b)
     (c1r3 a * c1r1 b + c2r3 a * c1r2 b + c3r3 a * c1r3 b + c4r3 a * c1r4 b)
     (c1r4 a * c1r1 b + c2r4 a * c1r2 b + c3r4 a * c1r3 b + c4r4 a * c1r4 b)
     (c1r1 a * c2r1 b + c2r1 a * c2r2 b + c3r1 a * c2r3 b + c4r1 a * c2r4 b)
     (c1r2 a * c2r1 b + c2r2 a * c2r2 b + c3r2 a * c2r3 b + c4r2 a * c2r4 b)
     (c1r3 a * c2r1 b + c2r3 a * c2r2 b + c3r3 a * c2r3 b + c4r3 a * c2r4 b)
     (c1r4 a * c2r1 b + c2r4 a * c2r2 b + c3r4 a * c2r3 b + c4r4 a * c2r4 b)
     (c1r1 a * c3r1 b + c2r1 a * c3r2 b + c3r1 a * c3r3 b + c4r1 a * c3r4 b)
     (c1r2 a * c3r1 b + c2r2 a * c3r2 b + c3r2 a * c3r3 b + c4r2 a * c3r4 b)
     (c1r3 a * c3r1 b + c2r3 a * c3r2 b + c3r3 a * c3r3 b + c4r3 a * c3r4 b)
     (c1r4 a * c3r1 b + c2r4 a * c3r2 b + c3r4 a * c3r3 b + c4r4 a * c3r4 b)
     (c1r1 a * c4r1 b + c2r1 a * c4r2 b + c3r1 a * c4r3 b + c4r1 a * c4r4 b)
     (c1r2 a * c4r1 b + c2r2 a * c4r2 b + c3r2 a * c4r3 b + c4r2 a * c4r4 b)
     (c1r3 a * c4r1 b + c2r3 a * c4r2 b + c3r3 a * c4r3 b + c4r3 a * c4r4 b)
     (c1r4 a * c4r1 b + c2r4 a * c4r2 b + c3r4 a * c4r3 b + c4r4 a * c4r4 b)"

lemma product_assoc: "product (product a b) c = product a (product b c)"
  by (simp add: product_def m_of_def algebra_simps)

lemma product_identity [simp]: "product allo_m4x4_identity a = a" "product a allo_m4x4_identity = a"
  by (simp_all add: product_def m_defs)

text \<open>The cofactors that \<open>allo_m4x4_inverse\<close> computes after its \<open>return\<close>.\<close>

definition cofactors :: "allo_m4x4 \<Rightarrow> allo_m4x4" where
  "cofactors ma = (let m = (!) (v_of ma) in m_of
     (m 5 * m 10 * m 15 - m 5 * m 11 * m 14 - m 9 * m 6 * m 15 + m 9 * m 7 * m 14 + m 13 * m 6 * m 11 - m 13 * m 7 * m 10)
     (- m 1 * m 10 * m 15 + m 1 * m 11 * m 14 + m 9 * m 2 * m 15 - m 9 * m 3 * m 14 - m 13 * m 2 * m 11 + m 13 * m 3 * m 10)
     (m 1 * m 6 * m 15 - m 1 * m 7 * m 14 - m 5 * m 2 * m 15 + m 5 * m 3 * m 14 + m 13 * m 2 * m 7 - m 13 * m 3 * m 6)
     (- m 1 * m 6 * m 11 + m 1 * m 7 * m 10 + m 5 * m 2 * m 11 - m 5 * m 3 * m 10 - m 9 * m 2 * m 7 + m 9 * m 3 * m 6)
     (- m 4 * m 10 * m 15 + m 4 * m 11 * m 14 + m 8 * m 6 * m 15 - m 8 * m 7 * m 14 - m 12 * m 6 * m 11 + m 12 * m 7 * m 10)
     (m 0 * m 10 * m 15 - m 0 * m 11 * m 14 - m 8 * m 2 * m 15 + m 8 * m 3 * m 14 + m 12 * m 2 * m 11 - m 12 * m 3 * m 10)
     (- m 0 * m 6 * m 15 + m 0 * m 7 * m 14 + m 4 * m 2 * m 15 - m 4 * m 3 * m 14 - m 12 * m 2 * m 7 + m 12 * m 3 * m 6)
     (m 0 * m 6 * m 11 - m 0 * m 7 * m 10 - m 4 * m 2 * m 11 + m 4 * m 3 * m 10 + m 8 * m 2 * m 7 - m 8 * m 3 * m 6)
     (m 4 * m 9 * m 15 - m 4 * m 11 * m 13 - m 8 * m 5 * m 15 + m 8 * m 7 * m 13 + m 12 * m 5 * m 11 - m 12 * m 7 * m 9)
     (- m 0 * m 9 * m 15 + m 0 * m 11 * m 13 + m 8 * m 1 * m 15 - m 8 * m 3 * m 13 - m 12 * m 1 * m 11 + m 12 * m 3 * m 9)
     (m 0 * m 5 * m 15 - m 0 * m 7 * m 13 - m 4 * m 1 * m 15 + m 4 * m 3 * m 13 + m 12 * m 1 * m 7 - m 12 * m 3 * m 5)
     (- m 0 * m 5 * m 11 + m 0 * m 7 * m 9 + m 4 * m 1 * m 11 - m 4 * m 3 * m 9 - m 8 * m 1 * m 7 + m 8 * m 3 * m 5)
     (- m 4 * m 9 * m 14 + m 4 * m 10 * m 13 + m 8 * m 5 * m 14 - m 8 * m 6 * m 13 - m 12 * m 5 * m 10 + m 12 * m 6 * m 9)
     (m 0 * m 9 * m 14 - m 0 * m 10 * m 13 - m 8 * m 1 * m 14 + m 8 * m 2 * m 13 + m 12 * m 1 * m 10 - m 12 * m 2 * m 9)
     (- m 0 * m 5 * m 14 + m 0 * m 6 * m 13 + m 4 * m 1 * m 14 - m 4 * m 2 * m 13 - m 12 * m 1 * m 6 + m 12 * m 2 * m 5)
     (m 0 * m 5 * m 10 - m 0 * m 6 * m 9 - m 4 * m 1 * m 10 + m 4 * m 2 * m 9 + m 8 * m 1 * m 6 - m 8 * m 2 * m 5))"

definition determinant :: "allo_m4x4 \<Rightarrow> rat" where
  "determinant ma = (let m = v_of ma; inv = v_of (cofactors ma)
     in m ! 0 * inv ! 0 + m ! 1 * inv ! 4 + m ! 2 * inv ! 8 + m ! 3 * inv ! 12)"

definition cofactor_inverse :: "allo_m4x4 \<Rightarrow> allo_m4x4" where
  "cofactor_inverse ma =
     (if determinant ma = 0 then allo_m4x4_identity
      else m_of_list (map (\<lambda>a. a * (1 / determinant ma)) (v_of (cofactors ma))))"

lemma product_cofactors:
  "product m (cofactors m) = allo_m4x4_scalar_multiply allo_m4x4_identity (determinant m)"
  by (simp add: product_def cofactors_def determinant_def Let_def m_defs; algebra)

lemma cofactors_product:
  "product (cofactors m) m = allo_m4x4_scalar_multiply allo_m4x4_identity (determinant m)"
  by (simp add: product_def cofactors_def determinant_def Let_def m_defs; algebra)

lemma product_scale:
  "product a (allo_m4x4_scalar_multiply b r) = allo_m4x4_scalar_multiply (product a b) r"
  "product (allo_m4x4_scalar_multiply a r) b = allo_m4x4_scalar_multiply (product a b) r"
  by (simp_all add: product_def m_defs algebra_simps)

lemma scale_inverse:
  "d \<noteq> 0 \<Longrightarrow> allo_m4x4_scalar_multiply (allo_m4x4_scalar_multiply allo_m4x4_identity d) (1 / d) = allo_m4x4_identity"
  by (simp add: m_defs)

lemma cofactor_inverse_inverts:
  assumes "determinant m \<noteq> 0"
  shows "product m (cofactor_inverse m) = allo_m4x4_identity" "product (cofactor_inverse m) m = allo_m4x4_identity"
proof -
  have "cofactor_inverse m = allo_m4x4_scalar_multiply (cofactors m) (1 / determinant m)"
    using assms by (simp only: cofactor_inverse_def allo_m4x4_scalar_multiply_def if_False)
  then show "product m (cofactor_inverse m) = allo_m4x4_identity" "product (cofactor_inverse m) m = allo_m4x4_identity"
    by (simp_all only: product_scale product_cofactors cofactors_product scale_inverse [OF assms])
qed

text \<open>What the repository relies on.\<close>

definition invertible :: "allo_m4x4 \<Rightarrow> bool" where
  "invertible m \<longleftrightarrow> (\<exists>n. product m n = allo_m4x4_identity \<and> product n m = allo_m4x4_identity)"

locale mathc_lib =
  fixes M :: mathc
  assumes multiply_law: "mat4_multiply M a b = product a b"
    and inverse_law: "determinant m \<noteq> 0 \<Longrightarrow> product m (mat4_inverse M m) = allo_m4x4_identity"
begin

lemma concat_assoc:
  "allo_m4x4_concat M (allo_m4x4_concat M a b) c = allo_m4x4_concat M a (allo_m4x4_concat M b c)"
  by (simp add: allo_m4x4_concat_def multiply_law product_assoc)

lemma concat_identity [simp]:
  "allo_m4x4_concat M allo_m4x4_identity a = a" "allo_m4x4_concat M a allo_m4x4_identity = a"
  by (simp_all add: allo_m4x4_concat_def multiply_law)

lemma concat_inverse:
  assumes "determinant m \<noteq> 0"
  shows "allo_m4x4_concat M m (allo_m4x4_inverse M m) = allo_m4x4_identity"
    and "allo_m4x4_concat M (allo_m4x4_inverse M m) m = allo_m4x4_identity"
proof -
  let ?i = "mat4_inverse M m" and ?c = "cofactor_inverse m"
  have "?i = product (product ?c m) ?i" by (simp add: cofactor_inverse_inverts assms)
  also have "\<dots> = ?c" by (simp add: product_assoc inverse_law assms)
  finally have "?i = ?c" .
  then show "allo_m4x4_concat M m (allo_m4x4_inverse M m) = allo_m4x4_identity"
    "allo_m4x4_concat M (allo_m4x4_inverse M m) m = allo_m4x4_identity"
    by (simp_all add: allo_m4x4_concat_def allo_m4x4_inverse_def multiply_law cofactor_inverse_inverts assms)
qed

end

definition mathc_ops :: mathc where
  "mathc_ops = \<lparr>mat4_multiply = product, mat4_inverse = cofactor_inverse\<rparr>"

interpretation mathc: mathc_lib mathc_ops
  by unfold_locales (simp_all add: mathc_ops_def cofactor_inverse_inverts)

section \<open>Properties\<close>

text \<open>The transforms of the scene graph are affine: their last row is 0 0 0 1.\<close>

definition affine :: "allo_m4x4 \<Rightarrow> bool" where
  "affine m \<longleftrightarrow> c1r4 m = 0 \<and> c2r4 m = 0 \<and> c3r4 m = 0 \<and> c4r4 m = 1"

lemma affine_simps [simp]:
  "affine allo_m4x4_identity" "affine (allo_m4x4_translate t)" "affine (allo_m4x4_rotate rcos rsin axis)"
  by (simp_all add: affine_def m_defs allo_m4x4_rotate_def Let_def)

lemma affine_product: "affine a \<Longrightarrow> affine b \<Longrightarrow> affine (product a b)"
  by (simp add: affine_def product_def m_of_def)

text \<open>
  Concatenating two transforms is applying the second, then the first: for affine transforms
  and positions, and for directions.
\<close>

theorem concat_transforms_in_turn:
  assumes "mathc_lib M" and "affine b"
  shows "allo_m4x4_transform (allo_m4x4_concat M a b) v positional =
    allo_m4x4_transform a (allo_m4x4_transform b v positional) positional"
  using assms(2)
  by (simp add: allo_m4x4_concat_def mathc_lib.multiply_law [OF assms(1)] affine_def product_def m_defs
      allo_m4x4_transform_def Let_def vec_eq_iff algebra_simps)

theorem concat_transforms_in_turn_witness:
  "allo_m4x4_transform (allo_m4x4_concat mathc_ops (allo_m4x4_rotate 0 1 (vec 0 1 0)) (allo_m4x4_translate (vec 1 2 3)))
     (vec 0 0 0) True = vec 3 2 (- 1)"
  by (subst concat_transforms_in_turn [OF mathc.mathc_lib_axioms])
    (simp_all add: affine_def allo_m4x4_rotate_def m_defs Let_def vec_def)

text \<open>
  The matrix interpolation takes its fraction the wrong way round: at 0 it gives the matrix to
  end at, at 1 the one to start from.
\<close>

theorem matrix_interpolation_reversed:
  "allo_m4x4_interpolate start fin 0 = fin \<and> allo_m4x4_interpolate start fin 1 = start"
  by (simp add: allo_m4x4_interpolate_def m_defs)

end
