(* ===== verification/State.thy ===== *)
theory State
  imports Cjson Math
begin

text \<open>
  The state of a place, \<^verbatim>\<open>src/state.c\<close>: entities with their JSON components, the scene graph their
  relationships make, adding, removing and transforming entities, the state as JSON, and the
  intents and interactions clients send. Memory that the code frees and still uses, and a null
  pointer it follows, are \<open>None\<close>; an entity is known by its address. A recursion that follows the
  data has its depth as a first argument.
\<close>

section \<open>Vectors and matrices as JSON\<close>

definition cjson2vec :: "('j, 'z) cjson_scheme \<Rightarrow> 'j \<Rightarrow> allo_vector" where
  "cjson2vec C veclist =
     (case (GetArrayItem C veclist 0, GetArrayItem C veclist 1, GetArrayItem C veclist 2) of
        (Some x, Some y, Some z) \<Rightarrow> vec (valuedouble C x) (valuedouble C y) (valuedouble C z)
      | _ \<Rightarrow> vec 0 0 0)"

definition vec2cjson :: "('j, 'z) cjson_scheme \<Rightarrow> allo_vector \<Rightarrow> 'j" where
  "vec2cjson C v = cjson_create_list C (map (Some \<circ> CreateNumber C) [vx v, vy v, vz v])"

definition m2cjson :: "('j, 'z) cjson_scheme \<Rightarrow> allo_m4x4 \<Rightarrow> 'j" where
  "m2cjson C mat = cjson_create_list C (map (Some \<circ> CreateNumber C) (v_of mat))"

definition cjson2m :: "('j, 'z) cjson_scheme \<Rightarrow> 'j option \<Rightarrow> allo_m4x4" where
  "cjson2m C matlist =
     (case matlist of
        None \<Rightarrow> allo_m4x4_identity
      | Some j \<Rightarrow>
          if GetArraySize C j \<noteq> 16 then allo_m4x4_identity
          else m_of_list (map (valuedouble C) (items C j)))"

section \<open>Entities\<close>

text \<open>\<open>allo_generate_id\<close>, with the generator behind \<open>rand\<close>, for a string of \<open>n\<close> letters.\<close>

fun allo_generate_id :: "('g \<Rightarrow> nat \<times> 'g) \<Rightarrow> nat \<Rightarrow> 'g \<Rightarrow> string \<times> 'g" where
  "allo_generate_id rand 0 g = ([], g)"
| "allo_generate_id rand (Suc n) g =
     (case rand g of (r, g1) \<Rightarrow>
        (case allo_generate_id rand n g1 of (cs, g2) \<Rightarrow> (char_of (97 + r mod 25) # cs, g2)))"

record 'j entity =
  entity_at :: nat
  eid :: string
  owner_agent_id :: "string option"
  components :: "'j option"

record 'j allo_state =
  revision :: u64
  entities :: "'j entity list"
  fresh_at :: nat

datatype removal_mode = AlloRemovalCascade | AlloRemovalReparent

definition allo_state_init :: "'j allo_state" where
  "allo_state_init = \<lparr>revision = 1, entities = [], fresh_at = 0\<rparr>"

definition entity_create :: "nat \<Rightarrow> string \<Rightarrow> 'j entity" where
  "entity_create a i = \<lparr>entity_at = a, eid = i, owner_agent_id = None, components = None\<rparr>"

definition state_get_entity :: "'j allo_state \<Rightarrow> string option \<Rightarrow> 'j entity option" where
  "state_get_entity st i =
     (case i of
        None \<Rightarrow> None
      | Some s \<Rightarrow> if s = [] then None else List.find (\<lambda>e. s = eid e) (entities st))"

text \<open>What the relationships of an entity name as its parent.\<close>

definition parent_id :: "'j cjson \<Rightarrow> 'j entity \<Rightarrow> string option" where
  "parent_id C e = string_value C (get_cs C (get_cs C (components e) ''relationships'') ''parent'')"

definition entity_get_parent :: "'j cjson \<Rightarrow> 'j allo_state \<Rightarrow> 'j entity \<Rightarrow> 'j entity option" where
  "entity_get_parent C st e =
     (case get_cs C (get_cs C (components e) ''relationships'') ''parent'' of
        None \<Rightarrow> None
      | Some j \<Rightarrow> state_get_entity st (string_value C (Some j)))"

section \<open>Transforms\<close>

definition entity_get_transform :: "'j cjson \<Rightarrow> 'j entity option \<Rightarrow> allo_m4x4" where
  "entity_get_transform C e =
     (case e of
        None \<Rightarrow> allo_m4x4_identity
      | Some e \<Rightarrow>
          (let matrix = get_cs C (get_cs C (components e) ''transform'') ''matrix''
           in if matrix = None \<or> array_size C matrix \<noteq> 16 then allo_m4x4_identity else cjson2m C matrix))"

text \<open>The child with a key, changed through the pointer of a case sensitive lookup.\<close>

definition put_cs :: "('j, 'z) cjson_scheme \<Rightarrow> 'j \<Rightarrow> string \<Rightarrow> 'j \<Rightarrow> 'j" where
  "put_cs C j k v = put C j (assoc_index ((=) k) (chain C j)) v"

fun set_numbers :: "('j, 'z) cjson_scheme \<Rightarrow> nat \<Rightarrow> rat list \<Rightarrow> 'j \<Rightarrow> 'j" where
  "set_numbers C i [] j = j"
| "set_numbers C i (r # rs) j =
     set_numbers C (Suc i) rs
       (case GetArrayItem C j (int i) of None \<Rightarrow> j | Some v \<Rightarrow> put C j i (SetNumberValue C v r))"

definition entity_set_transform :: "'j cjson \<Rightarrow> 'j entity \<Rightarrow> allo_m4x4 \<Rightarrow> 'j entity" where
  "entity_set_transform C e m =
     (case components e of
        None \<Rightarrow> e
      | Some comps \<Rightarrow>
          (let transform = get_cs C (Some comps) ''transform'';
               matrix = get_cs C transform ''matrix''
           in case (transform, matrix) of
                (Some t, Some ma) \<Rightarrow>
                  if GetArraySize C ma = 16
                  then e\<lparr>components := Some (put_cs C comps ''transform''
                           (put_cs C t ''matrix'' (set_numbers C 0 (v_of m) ma)))\<rparr>
                  else e\<lparr>components := Some (AddItemToObject C comps ''transform''
                           (cjson_create_object C [(''matrix'', CreateDoubleArray C (v_of m))]))\<rparr>
              | _ \<Rightarrow> e\<lparr>components := Some (AddItemToObject C comps ''transform''
                           (cjson_create_object C [(''matrix'', CreateDoubleArray C (v_of m))]))\<rparr>))"

fun entity_get_transform_to_world ::
  "mathc \<Rightarrow> 'j cjson \<Rightarrow> nat \<Rightarrow> 'j allo_state \<Rightarrow> 'j entity option \<Rightarrow> allo_m4x4 option" where
  "entity_get_transform_to_world M C 0 st ent = None"
| "entity_get_transform_to_world M C (Suc depth) st ent =
     (case ent of
        None \<Rightarrow> Some allo_m4x4_identity
      | Some e \<Rightarrow>
          (let my_transform = entity_get_transform C ent
           in case entity_get_parent C st e of
                Some parent \<Rightarrow>
                  map_option (\<lambda>w. allo_m4x4_concat M w my_transform)
                    (entity_get_transform_to_world M C depth st (Some parent))
              | None \<Rightarrow> Some my_transform))"

definition state_convert_coordinate_space ::
  "mathc \<Rightarrow> 'j cjson \<Rightarrow> nat \<Rightarrow> 'j allo_state \<Rightarrow> allo_m4x4 \<Rightarrow> 'j entity option \<Rightarrow> 'j entity option \<Rightarrow> allo_m4x4 option"
where
  "state_convert_coordinate_space M C depth st m old new =
     (case (entity_get_transform_to_world M C depth st old, entity_get_transform_to_world M C depth st new) of
        (Some worldFromOld, Some worldFromNew) \<Rightarrow>
          (let newFromWorld = allo_m4x4_inverse M worldFromNew;
               newFromOld = allo_m4x4_concat M newFromWorld worldFromOld
           in Some (allo_m4x4_concat M newFromOld m))
      | _ \<Rightarrow> None)"

definition entity_get_transform_in_coordinate_space ::
  "mathc \<Rightarrow> 'j cjson \<Rightarrow> nat \<Rightarrow> 'j allo_state \<Rightarrow> 'j entity \<Rightarrow> 'j entity option \<Rightarrow> allo_m4x4 option" where
  "entity_get_transform_in_coordinate_space M C depth st e space =
     state_convert_coordinate_space M C depth st (entity_get_transform C (Some e)) (entity_get_parent C st e) space"

section \<open>Adding entities\<close>

text \<open>
  \<open>allo_state_add_entity_from_spec\<close>: the components and then the children of a specification. When
  it has the key \<open>components\<close>, the specification is freed and looked at again. The result has the
  address of the new entity.
\<close>

fun allo_state_add_entity_from_spec ::
  "'j cjson \<Rightarrow> ('g \<Rightarrow> nat \<times> 'g) \<Rightarrow> nat \<Rightarrow> string option \<Rightarrow> 'j option \<Rightarrow> string option \<Rightarrow> 'j allo_state \<times> 'g \<Rightarrow>
   (nat \<times> 'j allo_state \<times> 'g) option" where
  "allo_state_add_entity_from_spec C rand 0 agent_id spec parent world = None"
| "allo_state_add_entity_from_spec C rand (Suc depth) agent_id spec parent world =
     (case world of (st, g) \<Rightarrow>
      case allo_generate_id rand 10 g of (i, g1) \<Rightarrow>
        (let children = get_cs C spec ''children'';
             spec1 = map_option (\<lambda>j. DeleteItemFromObjectCS C j ''children'') spec
         in if get_cs C spec1 ''components'' \<noteq> None then None
            else
              (let spec2 = (case parent of
                     None \<Rightarrow> spec1
                   | Some p \<Rightarrow> map_option (\<lambda>j. AddItemToObject C j ''relationships''
                                (cjson_create_object C [(''parent'', CreateString C p)])) spec1);
                   spec3 = map_option (\<lambda>j. if GetObjectItem C j ''transform'' = None
                     then AddItemToObject C j ''transform''
                            (cjson_create_object C [(''matrix'', m2cjson C allo_m4x4_identity)])
                     else j) spec2;
                   e = \<lparr>entity_at = fresh_at st, eid = i,
                        owner_agent_id = Some (case agent_id of None \<Rightarrow> ''place'' | Some a \<Rightarrow> a), components = spec3\<rparr>;
                   st1 = st\<lparr>fresh_at := Suc (fresh_at st), entities := e # entities st\<rparr>
               in map_option (Pair (fresh_at st))
                    (fold_opt (\<lambda>child w. map_option snd
                         (allo_state_add_entity_from_spec C rand depth agent_id (Some child) (Some i) w))
                      (case children of None \<Rightarrow> [] | Some c \<Rightarrow> items C c) (st1, g1)))))"

section \<open>Removing entities\<close>

text \<open>
  \<open>allo_state_remove_entity\<close>, of the entity at an address: it is unlinked, the entities that name
  it as their parent are collected, and each of them is removed too, or loses its relationships.
\<close>

definition reparent :: "'j cjson \<Rightarrow> nat \<Rightarrow> 'j allo_state \<Rightarrow> 'j allo_state" where
  "reparent C a st = st\<lparr>entities := map (\<lambda>e. if entity_at e = a
     then e\<lparr>components := map_option (\<lambda>j. DeleteItemFromObject C j ''relationships'') (components e)\<rparr> else e)
     (entities st)\<rparr>"

definition children_of :: "'j cjson \<Rightarrow> string \<Rightarrow> 'j entity list \<Rightarrow> nat list" where
  "children_of C i es = map entity_at (filter (\<lambda>e. parent_id C e = Some i) es)"

fun remove_entity_at :: "'j cjson \<Rightarrow> nat \<Rightarrow> removal_mode \<Rightarrow> nat \<Rightarrow> 'j allo_state \<Rightarrow> 'j allo_state option" where
  "remove_entity_at C 0 mode a st = None"
| "remove_entity_at C (Suc depth) mode a st =
     (case List.find (\<lambda>e. entity_at e = a) (entities st) of
        None \<Rightarrow> None
      | Some removed \<Rightarrow>
          (let es = remove_first (\<lambda>e. entity_at e = a) (entities st)
           in fold_opt (\<lambda>child st. case mode of
                    AlloRemovalCascade \<Rightarrow> remove_entity_at C depth mode child st
                  | AlloRemovalReparent \<Rightarrow> Some (reparent C child st))
                (children_of C (eid removed) es) (st\<lparr>entities := es\<rparr>)))"

text \<open>As many nested calls as there are entities are enough.\<close>

definition allo_state_remove_entity :: "'j cjson \<Rightarrow> 'j allo_state \<Rightarrow> nat \<Rightarrow> removal_mode \<Rightarrow> 'j allo_state option" where
  "allo_state_remove_entity C st a mode = remove_entity_at C (length (entities st)) mode a st"

definition allo_state_remove_entity_id ::
  "'j cjson \<Rightarrow> 'j allo_state \<Rightarrow> string \<Rightarrow> removal_mode \<Rightarrow> (bool \<times> 'j allo_state) option" where
  "allo_state_remove_entity_id C st i mode =
     (case state_get_entity st (Some i) of
        None \<Rightarrow> Some (False, st)
      | Some e \<Rightarrow> map_option (Pair True) (allo_state_remove_entity C st (entity_at e) mode))"

section \<open>The state as JSON\<close>

definition entity_to_json :: "'j cjson \<Rightarrow> bool \<Rightarrow> 'j entity \<Rightarrow> 'j" where
  "entity_to_json C include_agent_id e =
     (let rep = cjson_create_object C [(''id'', CreateString C (eid e))];
          rep1 = (case (include_agent_id, owner_agent_id e) of
                    (True, Some a) \<Rightarrow> AddItemToObject C rep ''agent_id'' (CreateString C a)
                  | _ \<Rightarrow> rep)
      in case components e of None \<Rightarrow> rep1 | Some c \<Rightarrow> AddItemToObject C rep1 ''components'' c)"

definition allo_state_to_json :: "'j cjson \<Rightarrow> 'j allo_state \<Rightarrow> bool \<Rightarrow> 'j" where
  "allo_state_to_json C st include_agent_id =
     cjson_create_object C
       [(''entities'', foldl (\<lambda>rep e. AddItemToObject C rep (eid e) (entity_to_json C include_agent_id e))
           (CreateObject C) (entities st)),
        (''revision'', CreateNumber C (of_nat (unat (revision st))))]"

definition set_eid :: "nat \<Rightarrow> string \<Rightarrow> 'j allo_state \<Rightarrow> 'j allo_state" where
  "set_eid a i st = st\<lparr>entities := map (\<lambda>e. if entity_at e = a then e\<lparr>eid := i\<rparr> else e) (entities st)\<rparr>"

text \<open>
  \<open>allo_state_from_json\<close>; the inner \<open>None\<close> is the null pointer it returns. A revision that is not a
  number, or negative, has no conversion to \<open>uint64_t\<close>.
\<close>

definition entity_from_json ::
  "'j cjson \<Rightarrow> ('g \<Rightarrow> nat \<times> 'g) \<Rightarrow> nat \<Rightarrow> 'j \<Rightarrow> 'j allo_state \<times> 'g \<Rightarrow> ('j allo_state \<times> 'g) option" where
  "entity_from_json C rand depth entrep world =
     (let spec = GetObjectItemCS C entrep ''components'';
          rest = DeleteItemFromObjectCS C entrep ''components''
      in case allo_state_add_entity_from_spec C rand depth (string_value C (GetObjectItemCS C rest ''agent_id''))
                spec None world of
           None \<Rightarrow> None
         | Some (a, st, g) \<Rightarrow>
             (case string_value C (GetObjectItemCS C rest ''id'') of
                None \<Rightarrow> None
              | Some i \<Rightarrow> Some (set_eid a i st, g)))"

definition allo_state_from_json ::
  "'j cjson \<Rightarrow> ('g \<Rightarrow> nat \<times> 'g) \<Rightarrow> nat \<Rightarrow> 'j \<Rightarrow> 'g \<Rightarrow> ('j allo_state option \<times> 'g) option" where
  "allo_state_from_json C rand depth json g =
     (case number_value C (GetObjectItemCS C json ''revision'') of
        None \<Rightarrow> None
      | Some r \<Rightarrow>
          if r \<le> - 1 \<or> 18446744073709551616 \<le> r then None
          else
            (let rev = word_of_int (if 0 \<le> r then \<lfloor>r\<rfloor> else 0)
             in case (rev = 0, GetObjectItemCS C json ''entities'') of
                  (False, Some reps) \<Rightarrow>
                    map_option (\<lambda>(st, g'). (Some st, g'))
                      (fold_opt (entity_from_json C rand depth) (items C reps) (allo_state_init\<lparr>revision := rev\<rparr>, g))
                | _ \<Rightarrow> Some (None, g)))"

section \<open>Differences\<close>

record 'j component_ref =
  ref_eid :: string
  ref_name :: string
  olddata :: "'j option"
  newdata :: "'j option"

record 'j state_diff =
  new_entities :: "string list"
  deleted_entities :: "string list"
  new_components :: "'j component_ref list"
  updated_components :: "'j component_ref list"
  deleted_components :: "'j component_ref list"

definition allo_state_diff_init :: "'j state_diff" where
  "allo_state_diff_init = \<lparr>new_entities = [], deleted_entities = [], new_components = [],
     updated_components = [], deleted_components = []\<rparr>"

definition allo_state_diff_mark_component_added ::
  "'j state_diff option \<Rightarrow> string \<Rightarrow> string \<Rightarrow> 'j option \<Rightarrow> 'j state_diff option" where
  "allo_state_diff_mark_component_added diff i cname c = map_option (\<lambda>d. d\<lparr>new_components :=
     new_components d @ [\<lparr>ref_eid = i, ref_name = cname, olddata = None, newdata = c\<rparr>]\<rparr>) diff"

definition allo_state_diff_mark_component_updated ::
  "'j state_diff option \<Rightarrow> string \<Rightarrow> string \<Rightarrow> 'j option \<Rightarrow> 'j state_diff option" where
  "allo_state_diff_mark_component_updated diff i cname c = map_option (\<lambda>d. d\<lparr>updated_components :=
     updated_components d @ [\<lparr>ref_eid = i, ref_name = cname, olddata = None, newdata = c\<rparr>]\<rparr>) diff"

section \<open>Interactions\<close>

record allo_interaction =
  itype :: "string option"
  sender_entity_id :: "string option"
  receiver_entity_id :: "string option"
  request_id :: "string option"
  body :: "string option"

definition allo_interaction_create ::
  "string option \<Rightarrow> string option \<Rightarrow> string option \<Rightarrow> string option \<Rightarrow> string option \<Rightarrow> allo_interaction" where
  "allo_interaction_create t sender receiver request b =
     \<lparr>itype = t, sender_entity_id = sender, receiver_entity_id = receiver, request_id = request, body = b\<rparr>"

definition allo_interaction_clone :: "allo_interaction \<Rightarrow> allo_interaction" where
  "allo_interaction_clone i = allo_interaction_create (itype i) (sender_entity_id i) (receiver_entity_id i)
     (request_id i) (body i)"

text \<open>\<open>cJSON_CreateString\<close> and \<open>cJSON_Parse\<close> of a null pointer give one.\<close>

definition allo_interaction_to_cjson :: "'j cjson \<Rightarrow> (string \<Rightarrow> 'j option) \<Rightarrow> allo_interaction \<Rightarrow> 'j" where
  "allo_interaction_to_cjson C parse i = cjson_create_list C
     [Some (CreateString C ''interaction''), map_option (CreateString C) (itype i),
      map_option (CreateString C) (sender_entity_id i), map_option (CreateString C) (receiver_entity_id i),
      map_option (CreateString C) (request_id i), Option.bind (body i) parse]"

definition allo_interaction_parse_cjson :: "'j cjson \<Rightarrow> ('j \<Rightarrow> string) \<Rightarrow> 'j \<Rightarrow> allo_interaction option" where
  "allo_interaction_parse_cjson C print j =
     (case (GetArrayItem C j 1, GetArrayItem C j 2, GetArrayItem C j 3, GetArrayItem C j 4) of
        (Some t, Some sender, Some receiver, Some request) \<Rightarrow>
          Some (allo_interaction_create (string_value C (Some t)) (string_value C (Some sender))
            (string_value C (Some receiver)) (string_value C (Some request))
            (map_option print (GetArrayItem C j 5)))
      | _ \<Rightarrow> None)"

end
