(* ===== verification/Intent.thy ===== *)
theory Intent
  imports State
begin

text \<open>
  The intents of clients, \<^verbatim>\<open>src/state.c\<close>: what a client wants its avatar to do, with the poses of its
  body, as JSON and back.
\<close>

section \<open>Data\<close>

record pose_grab =
  grab_entity :: "string option"
  grabber_from_entity_transform :: allo_m4x4

record hand_pose =
  hand_matrix :: allo_m4x4
  skeleton :: "allo_m4x4 list"
  grab :: pose_grab

record client_poses =
  pose_root :: allo_m4x4
  pose_head :: allo_m4x4
  pose_torso :: allo_m4x4
  left_hand :: hand_pose
  right_hand :: hand_pose

record client_intent =
  intent_entity_id :: "string option"
  wants_stick_movement :: u8
  zmovement :: rat
  xmovement :: rat
  yaw :: rat
  pitch :: rat
  poses :: client_poses
  ack_state_rev :: u64

definition ALLO_HAND_SKELETON_JOINT_COUNT :: nat where
  "ALLO_HAND_SKELETON_JOINT_COUNT = 26"

text \<open>A matrix of zeros, as \<open>calloc\<close> and a struct literal leave it.\<close>

definition zero_m4x4 :: allo_m4x4 where
  "zero_m4x4 = m_of 0 0 0 0  0 0 0 0  0 0 0 0  0 0 0 0"

definition new_hand :: hand_pose where
  "new_hand = \<lparr>hand_matrix = allo_m4x4_identity,
     skeleton = replicate ALLO_HAND_SKELETON_JOINT_COUNT allo_m4x4_identity,
     grab = \<lparr>grab_entity = None, grabber_from_entity_transform = zero_m4x4\<rparr>\<rparr>"

definition allo_client_intent_create :: client_intent where
  "allo_client_intent_create =
     \<lparr>intent_entity_id = None, wants_stick_movement = 0, zmovement = 0, xmovement = 0, yaw = 0, pitch = 0,
      poses = \<lparr>pose_root = allo_m4x4_identity, pose_head = allo_m4x4_identity, pose_torso = allo_m4x4_identity,
        left_hand = new_hand, right_hand = new_hand\<rparr>,
      ack_state_rev = 0\<rparr>"

text \<open>The copy takes over every field; the strings are duplicated.\<close>

definition allo_client_intent_clone :: "client_intent \<Rightarrow> client_intent \<Rightarrow> client_intent" where
  "allo_client_intent_clone original destination = original"

section \<open>As JSON\<close>

definition skeleton_to_cjson :: "'j cjson \<Rightarrow> allo_m4x4 list \<Rightarrow> 'j" where
  "skeleton_to_cjson C sk =
     (if allo_m4x4_is_identity (sk ! 3) then CreateArray C
      else foldl (\<lambda>l i. AddItemToArray C l (m2cjson C (sk ! i))) (CreateArray C)
             [0 ..< ALLO_HAND_SKELETON_JOINT_COUNT])"

text \<open>The loop of \<open>cjson_to_skeleton\<close> walks the nodes, but its index stays where it is.\<close>

fun skeleton_from_nodes :: "'j cjson \<Rightarrow> nat \<Rightarrow> 'j list \<Rightarrow> allo_m4x4 list \<Rightarrow> allo_m4x4 list" where
  "skeleton_from_nodes C i [] sk = sk"
| "skeleton_from_nodes C i (node # nodes) sk =
     (if i < ALLO_HAND_SKELETON_JOINT_COUNT
      then skeleton_from_nodes C i nodes (sk[i := cjson2m C (Some node)])
      else sk)"

definition cjson_to_skeleton :: "'j cjson \<Rightarrow> allo_m4x4 list \<Rightarrow> 'j option \<Rightarrow> allo_m4x4 list" where
  "cjson_to_skeleton C sk l =
     (case l of None \<Rightarrow> sk | Some j \<Rightarrow> skeleton_from_nodes C 0 (items C j) sk)"

definition grab_to_cjson :: "'j cjson \<Rightarrow> pose_grab \<Rightarrow> 'j" where
  "grab_to_cjson C g =
     (case grab_entity g of
        None \<Rightarrow> CreateObject C
      | Some e \<Rightarrow> cjson_create_object C
          [(''entity'', CreateString C e),
           (''grabber_from_entity_transform'', m2cjson C (grabber_from_entity_transform g))])"

definition grab_parse_cjson :: "'j cjson \<Rightarrow> 'j option \<Rightarrow> pose_grab" where
  "grab_parse_cjson C j =
     \<lparr>grab_entity = string_value C (get_cs C j ''entity''),
      grabber_from_entity_transform = cjson2m C (get_cs C j ''grabber_from_entity_transform'')\<rparr>"

definition plain_pose_to_cjson :: "'j cjson \<Rightarrow> allo_m4x4 \<Rightarrow> 'j" where
  "plain_pose_to_cjson C m = cjson_create_object C [(''matrix'', m2cjson C m)]"

definition hand_to_cjson :: "'j cjson \<Rightarrow> hand_pose \<Rightarrow> 'j" where
  "hand_to_cjson C h = cjson_create_object C
     [(''matrix'', m2cjson C (hand_matrix h)), (''skeleton'', skeleton_to_cjson C (skeleton h)),
      (''grab'', grab_to_cjson C (grab h))]"

definition allo_client_intent_to_cjson :: "'j cjson \<Rightarrow> client_intent \<Rightarrow> 'j" where
  "allo_client_intent_to_cjson C intent = cjson_create_object C
     [(''wants_stick_movement'', CreateBool C (wants_stick_movement intent \<noteq> 0)),
      (''zmovement'', CreateNumber C (zmovement intent)),
      (''xmovement'', CreateNumber C (xmovement intent)),
      (''yaw'', CreateNumber C (yaw intent)),
      (''pitch'', CreateNumber C (pitch intent)),
      (''poses'', cjson_create_object C
         [(''root'', plain_pose_to_cjson C (pose_root (poses intent))),
          (''head'', plain_pose_to_cjson C (pose_head (poses intent))),
          (''torso'', plain_pose_to_cjson C (pose_torso (poses intent))),
          (''hand/left'', hand_to_cjson C (left_hand (poses intent))),
          (''hand/right'', hand_to_cjson C (right_hand (poses intent)))]),
      (''ack_state_rev'', CreateNumber C (of_nat (unat (ack_state_rev intent))))]"

text \<open>The struct literal of the parser leaves the joints at zero before the skeleton is read.\<close>

definition hand_parse_cjson :: "'j cjson \<Rightarrow> 'j option \<Rightarrow> hand_pose" where
  "hand_parse_cjson C j =
     \<lparr>hand_matrix = cjson2m C (get_cs C j ''matrix''),
      skeleton = cjson_to_skeleton C (replicate ALLO_HAND_SKELETON_JOINT_COUNT zero_m4x4) (get_cs C j ''skeleton''),
      grab = grab_parse_cjson C (get_cs C j ''grab'')\<rparr>"

definition allo_client_intent_parse_cjson :: "'j cjson \<Rightarrow> 'j option \<Rightarrow> client_intent option" where
  "allo_client_intent_parse_cjson C from =
     (let ps = get_cs C from ''poses''
      in case (get_cs C from ''zmovement'', get_cs C from ''xmovement'', get_cs C from ''yaw'', get_cs C from ''pitch'') of
           (Some z, Some x, Some ya, Some pit) \<Rightarrow>
             Some \<lparr>intent_entity_id = string_value C (get_cs C from ''entity_id''),
               wants_stick_movement =
                 (case get_cs C from ''wants_stick_movement'' of None \<Rightarrow> 1 | Some w \<Rightarrow> ucast (valueint C w)),
               zmovement = valuedouble C z, xmovement = valuedouble C x,
               yaw = valuedouble C ya, pitch = valuedouble C pit,
               poses = \<lparr>pose_root = cjson2m C (get_cs C (get_cs C ps ''root'') ''matrix''),
                 pose_head = cjson2m C (get_cs C (get_cs C ps ''head'') ''matrix''),
                 pose_torso = cjson2m C (get_cs C (get_cs C ps ''torso'') ''matrix''),
                 left_hand = hand_parse_cjson C (get_cs C ps ''hand/left''),
                 right_hand = hand_parse_cjson C (get_cs C ps ''hand/right'')\<rparr>,
               ack_state_rev = word_of_int (cjson_get_int64_value C (get_cs C from ''ack_state_rev''))\<rparr>
         | _ \<Rightarrow> None)"

section \<open>Round trips\<close>

context cjson_lib begin

lemma double_array_chain: "length (chain C (CreateDoubleArray C rs)) = length rs"
  by (metis double_array_law length_items length_map)

lemma items_created_list: "items C (cjson_create_list C (map (Some \<circ> f) xs)) = map f xs"
proof -
  have "takeWhile (\<lambda>v. v \<noteq> None) (map (Some \<circ> f) xs) = map (Some \<circ> f) xs"
    by (subst takeWhile_eq_all_conv) simp
  then show ?thesis by (simp only: items_create_list map_map) (simp add: comp_def)
qed

lemma items_m2cjson: "items C (m2cjson C m) = map (CreateNumber C) (v_of m)"
  unfolding m2cjson_def by (rule items_created_list)

lemma cjson2m_m2cjson: "cjson2m C (Some (m2cjson C m)) = m"
proof -
  have "length (chain C (m2cjson C m)) = 16" using items_m2cjson [of m] length_items [of "m2cjson C m"] by simp
  then show ?thesis by (simp add: cjson2m_def size_law items_m2cjson number_law comp_def del: m_of_list.simps)
qed

lemma get_cs_created: "GetObjectItemCS C (cjson_create_object C kvs) k = assoc ((=) k) kvs"
  by (simp add: object_cs_law)

lemma skeleton_nodes_last:
  "nodes \<noteq> [] \<Longrightarrow> sk \<noteq> [] \<Longrightarrow> skeleton_from_nodes C 0 nodes sk = cjson2m C (Some (last nodes)) # tl sk"
proof (induction nodes arbitrary: sk)
  case (Cons n ns)
  then show ?case
    by (cases sk; cases "ns = []") (auto simp: ALLO_HAND_SKELETON_JOINT_COUNT_def)
qed simp

lemma items_skeleton:
  assumes "\<not> allo_m4x4_is_identity (sk ! 3)"
  shows "items C (skeleton_to_cjson C sk) = map (\<lambda>i. m2cjson C (sk ! i)) [0..<ALLO_HAND_SKELETON_JOINT_COUNT]"
proof -
  have "items C (foldl (\<lambda>l i. AddItemToArray C l (f i)) j is) = items C j @ map f is" for f j and "is" :: "nat list"
    by (induction "is" arbitrary: j) (simp_all add: add_array_law)
  then show ?thesis using assms by (simp add: skeleton_to_cjson_def items_def empty_law)
qed

lemma hand_matrix_roundtrip: "hand_matrix (hand_parse_cjson C (Some (hand_to_cjson C h))) = hand_matrix h"
  by (simp add: hand_parse_cjson_def hand_to_cjson_def get_cs_created cjson2m_m2cjson)

lemma grab_roundtrip:
  "grab_entity (grab_parse_cjson C (Some (grab_to_cjson C g))) = grab_entity g"
  "grab_entity g \<noteq> None \<Longrightarrow> grab_parse_cjson C (Some (grab_to_cjson C g)) = g"
  by (cases "grab_entity g";
      auto simp: grab_parse_cjson_def grab_to_cjson_def get_cs_created cjson2m_m2cjson string_value_def string_law
        object_cs_law empty_law intro: pose_grab.equality)+

lemma hand_roundtrip:
  assumes "\<not> allo_m4x4_is_identity (skeleton h ! 3)"
  shows "skeleton (hand_parse_cjson C (Some (hand_to_cjson C h))) =
    skeleton h ! 25 # replicate 25 zero_m4x4"
proof -
  let ?s = "skeleton_to_cjson C (skeleton h)" and ?z = "replicate ALLO_HAND_SKELETON_JOINT_COUNT zero_m4x4"
  have it: "items C ?s = map (\<lambda>i. m2cjson C (skeleton h ! i)) [0..<ALLO_HAND_SKELETON_JOINT_COUNT]"
    by (rule items_skeleton [OF assms])
  have "skeleton_from_nodes C 0 (items C ?s) ?z = cjson2m C (Some (last (items C ?s))) # tl ?z"
    by (rule skeleton_nodes_last) (simp_all add: it ALLO_HAND_SKELETON_JOINT_COUNT_def)
  moreover have "last (items C ?s) = m2cjson C (skeleton h ! 25)"
    by (simp add: it ALLO_HAND_SKELETON_JOINT_COUNT_def last_map)
  ultimately have "skeleton_from_nodes C 0 (items C ?s) ?z = skeleton h ! 25 # tl ?z" by (simp add: cjson2m_m2cjson)
  moreover have "tl ?z = replicate 25 zero_m4x4" by (simp add: ALLO_HAND_SKELETON_JOINT_COUNT_def)
  ultimately show ?thesis
    by (simp add: hand_parse_cjson_def hand_to_cjson_def get_cs_created cjson_to_skeleton_def)
qed

end

lemma ack_value: "word_of_int \<lfloor>unsigned (w :: u64) :: rat\<rfloor> = w" and ack_nonneg: "0 \<le> (unsigned (w :: u64) :: rat)"
proof -
  have "(unsigned w :: rat) = of_int (uint w)" by simp
  then show "word_of_int \<lfloor>unsigned w :: rat\<rfloor> = w" by (simp only: floor_of_int word_of_int_uint)
  have "(unsigned w :: rat) = of_nat (unat w)" by simp
  then show "0 \<le> (unsigned w :: rat)" by (simp only: of_nat_0_le_iff)
qed

text \<open>
  C22. An intent that is sent as JSON arrives with its movement, its turns, its acknowledged revision and
  the matrices of every pose, and with what each hand grabs and how it holds it; the flag of the stick
  arrives as the integer that \<open>cJSON\<close> keeps in a Boolean. The id of the avatar is not sent, as the
  server knows it, nor how a hand that grabs nothing would hold it; and the joints of the
  hands are lost (\<open>skeleton_lost\<close>).
\<close>

theorem intent_roundtrip:
  assumes "cjson_lib C"
  shows "\<exists>j. allo_client_intent_parse_cjson C (Some (allo_client_intent_to_cjson C intent)) = Some j \<and>
    zmovement j = zmovement intent \<and> xmovement j = xmovement intent \<and> yaw j = yaw intent \<and> pitch j = pitch intent \<and>
    ack_state_rev j = ack_state_rev intent \<and>
    pose_root (poses j) = pose_root (poses intent) \<and> pose_head (poses j) = pose_head (poses intent) \<and>
    pose_torso (poses j) = pose_torso (poses intent) \<and>
    hand_matrix (left_hand (poses j)) = hand_matrix (left_hand (poses intent)) \<and>
    hand_matrix (right_hand (poses j)) = hand_matrix (right_hand (poses intent)) \<and>
    grab_entity (grab (left_hand (poses j))) = grab_entity (grab (left_hand (poses intent))) \<and>
    grab_entity (grab (right_hand (poses j))) = grab_entity (grab (right_hand (poses intent))) \<and>
    (grab_entity (grab (left_hand (poses intent))) \<noteq> None \<longrightarrow> grab (left_hand (poses j)) = grab (left_hand (poses intent))) \<and>
    (grab_entity (grab (right_hand (poses intent))) \<noteq> None \<longrightarrow> grab (right_hand (poses j)) = grab (right_hand (poses intent))) \<and>
    wants_stick_movement j = ucast (valueint C (CreateBool C (wants_stick_movement intent \<noteq> 0))) \<and>
    intent_entity_id j = None"
  using ack_value [of "ack_state_rev intent"] ack_nonneg [of "ack_state_rev intent"]
  by (simp add: allo_client_intent_parse_cjson_def allo_client_intent_to_cjson_def
      cjson_lib.get_cs_created [OF assms] cjson_lib.object_cs_law [OF assms] cjson_lib.chain_create_object [OF assms]
      cjson_lib.number_law [OF assms] cjson_lib.cjson2m_m2cjson [OF assms] cjson_lib.hand_matrix_roundtrip [OF assms]
      plain_pose_to_cjson_def cjson_get_int64_value_def Let_def)
    (simp add: hand_parse_cjson_def hand_to_cjson_def cjson_lib.get_cs_created [OF assms]
      cjson_lib.object_cs_law [OF assms] cjson_lib.chain_create_object [OF assms] cjson_lib.grab_roundtrip [OF assms])


definition grabbing_intent :: client_intent where
  "grabbing_intent = allo_client_intent_create
     \<lparr>yaw := 3 / 2, ack_state_rev := 7,
      poses := (poses allo_client_intent_create)\<lparr>left_hand := new_hand
        \<lparr>grab := \<lparr>grab_entity = Some ''lamp'', grabber_from_entity_transform = allo_m4x4_translate (vec 1 2 3)\<rparr>\<rparr>\<rparr>\<rparr>"

theorem intent_roundtrip_witness:
  "\<exists>j. allo_client_intent_parse_cjson json_ops (Some (allo_client_intent_to_cjson json_ops grabbing_intent)) = Some j \<and>
     yaw j = 3 / 2 \<and> ack_state_rev j = 7 \<and>
     grab (left_hand (poses j)) = \<lparr>grab_entity = Some ''lamp'', grabber_from_entity_transform = allo_m4x4_translate (vec 1 2 3)\<rparr>"
  using intent_roundtrip [OF json.cjson_lib_axioms, of grabbing_intent]
  by (auto simp: grabbing_intent_def)

text \<open>
  The joints of a hand do not survive the trip: of a skeleton that is sent, the last joint
  arrives in the place of the first, and the others are matrices of zeros.
\<close>

theorem skeleton_lost:
  assumes "cjson_lib C" and "\<not> allo_m4x4_is_identity (skeleton h ! 3)"
  shows "skeleton (hand_parse_cjson C (Some (hand_to_cjson C h))) = skeleton h ! 25 # replicate 25 zero_m4x4"
  by (rule cjson_lib.hand_roundtrip [OF assms])

theorem skeleton_lost_witness:
  "skeleton (hand_parse_cjson json_ops (Some (hand_to_cjson json_ops
     (new_hand\<lparr>skeleton := replicate 26 (allo_m4x4_translate (vec 1 2 3))\<rparr>)))) =
   allo_m4x4_translate (vec 1 2 3) # replicate 25 zero_m4x4"
  by (subst skeleton_lost [OF json.cjson_lib_axioms]) (simp_all add: is_identity_iff m_defs)

end
