(* ===== verification/State_Correct.thy ===== *)
theory State_Correct
  imports Intent
begin

text \<open>
  The scene graph: removing an entity takes exactly its descendants with it, transforms are
  stored and converted back and forth, and the state and its interactions survive the trip through
  JSON; and the specifications, transforms and graphs that break the code.
\<close>

section \<open>Removing with descendants\<close>

inductive descends :: "'j cjson \<Rightarrow> 'j entity list \<Rightarrow> nat \<Rightarrow> 'j entity \<Rightarrow> bool" for C es a where
  descends_self: "e \<in> set es \<Longrightarrow> entity_at e = a \<Longrightarrow> descends C es a e"
| descends_child: "descends C es a p \<Longrightarrow> e \<in> set es \<Longrightarrow> parent_id C e = Some (eid p) \<Longrightarrow> descends C es a e"

lemma descends_member: "descends C es a e \<Longrightarrow> e \<in> set es"
  by (erule descends.cases) auto

lemma descends_mono: "descends C es b e \<Longrightarrow> set es \<subseteq> set es' \<Longrightarrow> descends C es' b e"
  by (induction rule: descends.induct) (auto intro: descends.intros)

lemma descends_trans:
  assumes "descends C es b e" and "set es \<subseteq> set es'"
    and "\<And>c. c \<in> set es \<Longrightarrow> entity_at c = b \<Longrightarrow> descends C es' a c"
  shows "descends C es' a e"
  using assms by (induction rule: descends.induct) (auto intro: descends.intros)

definition entities_ok :: "'j entity list \<Rightarrow> bool" where
  "entities_ok es \<longleftrightarrow> distinct (map entity_at es) \<and> distinct (map eid es)"

lemma entities_ok_filter: "entities_ok es \<Longrightarrow> entities_ok (filter P es)"
  by (simp add: entities_ok_def distinct_map_filter)

lemma entities_ok_same:
  assumes "entities_ok es" and "e \<in> set es" and "f \<in> set es"
  shows "entity_at e = entity_at f \<longleftrightarrow> e = f" and "eid e = eid f \<longleftrightarrow> e = f"
  using assms by (auto simp: entities_ok_def distinct_map inj_on_def)

text \<open>
  \<open>L\<close> is \<open>es\<close> without the entities of \<open>X\<close>, which are descendants of the one at \<open>a\<close> and include it,
  and none of which is a parent in \<open>L\<close>.
\<close>

definition pruned :: "'j cjson \<Rightarrow> nat \<Rightarrow> 'j entity list \<Rightarrow> 'j entity set \<Rightarrow> 'j entity list \<Rightarrow> bool" where
  "pruned C a es X L \<longleftrightarrow> L = filter (\<lambda>e. e \<notin> X) es \<and> (\<forall>e \<in> X. descends C es a e) \<and>
     (\<forall>e \<in> set es. entity_at e = a \<longrightarrow> e \<in> X) \<and> (\<forall>e \<in> set L. \<forall>d \<in> X. parent_id C e \<noteq> Some (eid d))"

lemma pruned_descendants:
  assumes "pruned C a es X L"
  shows "L = filter (\<lambda>e. \<not> descends C es a e) es"
proof -
  have "e \<in> X" if "descends C es a e" for e
    using that assms by (induction rule: descends.induct) (auto simp: pruned_def)
  then have "e \<in> X \<longleftrightarrow> descends C es a e" for e using assms by (auto simp: pruned_def)
  then show ?thesis using assms by (simp add: pruned_def)
qed

lemma remove_first_at:
  assumes "entities_ok es" and "removed \<in> set es"
  shows "remove_first (\<lambda>e. entity_at e = entity_at removed) es = filter (\<lambda>e. e \<noteq> removed) es"
proof -
  have d: "distinct es" using assms(1) by (auto simp: entities_ok_def distinct_map)
  have "remove_first (\<lambda>e. entity_at e = entity_at removed) xs = remove_first (\<lambda>e. e = removed) xs"
    if "set xs \<subseteq> set es" for xs
    using that entities_ok_same(1) [OF assms(1) _ assms(2)] by (induction xs) auto
  then show ?thesis using d by (simp add: remove_first_eq_remove1 distinct_remove1_removeAll removeAll_filter_not_eq)
    (metis)
qed

lemma find_at:
  assumes "entities_ok es" and "removed \<in> set es"
  shows "List.find (\<lambda>e. entity_at e = entity_at removed) es = Some removed"
  using assms entities_ok_same(1) [OF assms(1) _ assms(2)] by (induction es) (auto simp: entities_ok_def)

lemma cascade_ok:
  assumes "length (entities st) \<le> n" and "entities_ok (entities st)" and "removed \<in> set (entities st)"
  shows "\<exists>st' X. remove_entity_at C n AlloRemovalCascade (entity_at removed) st = Some st' \<and>
    pruned C (entity_at removed) (entities st) X (entities st') \<and>
    revision st' = revision st \<and> fresh_at st' = fresh_at st"
  using assms
proof (induction n arbitrary: st removed)
  case 0
  then show ?case by auto
next
  case (Suc n)
  let ?es = "entities st" and ?a = "entity_at removed"
  define es1 where "es1 = filter (\<lambda>e. e \<noteq> removed) ?es"
  have ok1: "entities_ok es1" using Suc.prems(2) by (simp add: es1_def entities_ok_filter)
  have len1: "length es1 \<le> n"
    using Suc.prems(1,3) length_filter_less [of removed ?es "\<lambda>e. e \<noteq> removed"] by (simp add: es1_def)
  have no_a: "eid e \<noteq> eid removed" if "e \<in> set es1" for e
    using that entities_ok_same(2) [OF Suc.prems(2) _ Suc.prems(3)] by (auto simp: es1_def)
  let ?step = "\<lambda>child st. remove_entity_at C n AlloRemovalCascade child st"
  have loop: "\<exists>st' X'. fold_opt ?step (map entity_at cs) s = Some st' \<and> entities st' = filter (\<lambda>e. e \<notin> X') es1 \<and>
      X \<subseteq> X' \<and> (\<forall>e \<in> X'. descends C ?es ?a e) \<and> (\<forall>e \<in> set es1. e \<notin> X' \<longrightarrow> parent_id C e \<noteq> Some (eid removed)) \<and>
      (\<forall>e \<in> set es1. e \<notin> X' \<longrightarrow> (\<forall>d \<in> X'. parent_id C e \<noteq> Some (eid d))) \<and>
      revision st' = revision st \<and> fresh_at st' = fresh_at st"
    if "entities s = filter (\<lambda>e. e \<notin> X) es1" and "\<forall>e \<in> X. descends C ?es ?a e"
      and "\<forall>e \<in> set es1. e \<notin> X \<longrightarrow> (parent_id C e = Some (eid removed) \<longleftrightarrow> e \<in> set cs)"
      and "\<forall>e \<in> set es1. e \<notin> X \<longrightarrow> (\<forall>d \<in> X. parent_id C e \<noteq> Some (eid d))"
      and "set cs \<subseteq> set es1" and "set cs \<inter> X = {}" and "distinct cs" and "revision s = revision st" and "fresh_at s = fresh_at st"
    for cs s X
    using that
  proof (induction cs arbitrary: s X)
    case Nil
    then show ?case by (intro exI [of _ s] exI [of _ X]) auto
  next
    case (Cons c cs)
    have c: "c \<in> set es1" "c \<notin> X" "c \<in> set (entities s)" using Cons.prems(1,5,6) by auto
    have "length (entities s) \<le> n" using Cons.prems(1) len1 by (simp add: order_trans [OF length_filter_le])
    moreover have "entities_ok (entities s)" using Cons.prems(1) ok1 by (simp add: entities_ok_filter)
    ultimately obtain s1 Y where s1: "?step (entity_at c) s = Some s1" "pruned C (entity_at c) (entities s) Y (entities s1)"
      "revision s1 = revision s" "fresh_at s1 = fresh_at s"
      using Suc.IH c(3) by blast
    have Y: "descends C (entities s) (entity_at c) e" "e \<in> set (entities s)" if "e \<in> Y" for e
      using s1(2) that by (auto simp: pruned_def dest: descends_member)
    have parent_c: "parent_id C c = Some (eid removed)" using Cons.prems(3) c by auto
    have sub: "set (entities s) \<subseteq> set ?es" using Cons.prems(1) by (auto simp: es1_def)
    have "descends C ?es ?a removed" by (rule descends_self) (use Suc.prems(3) in auto)
    then have c_desc: "descends C ?es ?a c"
      by (rule descends_child) (use c(1) parent_c in \<open>auto simp: es1_def\<close>)
    have down: "descends C ?es ?a e" if "e \<in> Y" for e
    proof (rule descends_trans [OF Y(1) [OF that] sub])
      fix d assume "d \<in> set (entities s)" "entity_at d = entity_at c"
      then have "d = c" using entities_ok_same(1) [OF Suc.prems(2)] sub c(3) by blast
      with c_desc show "descends C ?es ?a d" by simp
    qed
    have only_c: "e = c" if "e \<in> Y" "parent_id C e = Some (eid removed)" for e
      using Y(1) [OF that(1)]
    proof (cases rule: descends.cases)
      case descends_self
      then show ?thesis using entities_ok_same(1) [OF Suc.prems(2)] sub c(3) by blast
    next
      case (descends_child p)
      then have "p \<in> set es1" "eid p = eid removed" using that(2) Cons.prems(1) by (auto dest: descends_member)
      with no_a show ?thesis by blast
    qed
    have ents: "entities s1 = filter (\<lambda>e. e \<notin> X \<union> Y) es1"
      using s1(2) Cons.prems(1) by (auto simp: pruned_def conj_commute intro: filter_cong)
    have "c \<in> Y" using s1(2) c(3) by (auto simp: pruned_def)
    have 3: "\<forall>e \<in> set es1. e \<notin> X \<union> Y \<longrightarrow> (parent_id C e = Some (eid removed) \<longleftrightarrow> e \<in> set cs)"
      using Cons.prems(3) \<open>c \<in> Y\<close> by auto
    have 4: "\<forall>e \<in> set es1. e \<notin> X \<union> Y \<longrightarrow> (\<forall>d \<in> X \<union> Y. parent_id C e \<noteq> Some (eid d))"
      using Cons.prems(4) s1(2) ents unfolding pruned_def by auto
    have "set cs \<inter> Y = {}"
    proof -
      have False if "e \<in> set cs" "e \<in> Y" for e
      proof -
        have "e \<in> set es1" "e \<notin> X" using that(1) Cons.prems(5,6) by auto
        then have "parent_id C e = Some (eid removed)" using Cons.prems(3) that(1) by auto
        with only_c [OF that(2)] have "e = c" by blast
        with that(1) Cons.prems(7) show False by simp
      qed
      then show ?thesis by blast
    qed
    then have 6: "set cs \<inter> (X \<union> Y) = {}" using Cons.prems(6) by auto
    have 2: "\<forall>e \<in> X \<union> Y. descends C ?es ?a e" using Cons.prems(2) down by blast
    obtain st' X' where "fold_opt ?step (map entity_at cs) s1 = Some st'" "X \<union> Y \<subseteq> X'"
      "entities st' = filter (\<lambda>e. e \<notin> X') es1" "\<forall>e \<in> X'. descends C ?es ?a e"
      "\<forall>e \<in> set es1. e \<notin> X' \<longrightarrow> parent_id C e \<noteq> Some (eid removed)"
      "\<forall>e \<in> set es1. e \<notin> X' \<longrightarrow> (\<forall>d \<in> X'. parent_id C e \<noteq> Some (eid d))"
      "revision st' = revision st" "fresh_at st' = fresh_at st"
      using Cons.IH [OF ents 2 3 4 _ 6] Cons.prems(5,7-9) s1(3,4) by auto
    then show ?case using s1(1) by (intro exI [of _ st'] exI [of _ X']) auto
  qed
  let ?cs = "filter (\<lambda>e. parent_id C e = Some (eid removed)) es1"
  have "distinct ?cs" using ok1 by (auto simp: entities_ok_def distinct_map)
  then obtain st' X' where st': "fold_opt ?step (map entity_at ?cs) (st\<lparr>entities := es1\<rparr>) = Some st'"
    "entities st' = filter (\<lambda>e. e \<notin> X') es1" "\<forall>e \<in> X'. descends C ?es ?a e"
    "\<forall>e \<in> set es1. e \<notin> X' \<longrightarrow> parent_id C e \<noteq> Some (eid removed)"
    "\<forall>e \<in> set es1. e \<notin> X' \<longrightarrow> (\<forall>d \<in> X'. parent_id C e \<noteq> Some (eid d))"
    "revision st' = revision st" "fresh_at st' = fresh_at st"
    using loop [of "st\<lparr>entities := es1\<rparr>" "{}" ?cs] by auto
  have run: "remove_entity_at C (Suc n) AlloRemovalCascade ?a st = Some st'"
    using st'(1) by (simp add: find_at [OF Suc.prems(2,3)] remove_first_at [OF Suc.prems(2,3)] children_of_def
        flip: es1_def)
  have "descends C ?es ?a removed" by (rule descends_self) (use Suc.prems(3) in auto)
  then have "pruned C ?a ?es (insert removed X') (entities st')"
    using st'(2-5) entities_ok_same(1) [OF Suc.prems(2) _ Suc.prems(3)]
    by (auto simp: pruned_def es1_def conj_commute)
  with run st'(6,7) show ?case by blast
qed

text \<open>A state over the JSON trees: a root, its child and grandchild, and another root.\<close>

definition sample_entity :: "nat \<Rightarrow> string \<Rightarrow> string option \<Rightarrow> json entity" where
  "sample_entity a i parent = \<lparr>entity_at = a, eid = i, owner_agent_id = Some ''place'', components = Some (jobj
     ((case parent of None \<Rightarrow> [] | Some p \<Rightarrow> [(''relationships'', jobj [(''parent'', jstr p)])]) @
      [(''transform'', jobj [(''matrix'', m2cjson json_ops (allo_m4x4_translate (vec 1 0 0)))])]))\<rparr>"

definition sample_state :: "json allo_state" where
  "sample_state = \<lparr>revision = 5, entities = [sample_entity 0 ''leaf'' (Some ''mid''), sample_entity 1 ''other'' None,
     sample_entity 2 ''mid'' (Some ''root''), sample_entity 3 ''root'' None], fresh_at = 4\<rparr>"

lemma sample_parent: "parent_id json_ops (sample_entity a i p) = p"
  by (cases p) (simp_all add: parent_id_def sample_entity_def json_defs string_value_def)

lemma sample_fields [simp]:
  "entity_at (sample_entity a i p) = a" "eid (sample_entity a i p) = i"
  by (simp_all add: sample_entity_def)

text \<open>
  C9. Removing an entity by its id in cascade mode always returns, and takes exactly the entity and
  its descendants: those whose chain of parents leads to it. The others stay, in their order.
\<close>

theorem cascade_removes_descendants:
  assumes "entities_ok (entities st)" and "state_get_entity st (Some i) = Some e"
  shows "\<exists>st'. allo_state_remove_entity_id C st i AlloRemovalCascade = Some (True, st') \<and>
    entities st' = filter (\<lambda>f. \<not> descends C (entities st) (entity_at e) f) (entities st) \<and>
    revision st' = revision st"
proof -
  have "e \<in> set (entities st)"
    using assms(2) by (auto simp: state_get_entity_def find_Some_iff split: if_splits)
  from cascade_ok [OF order_refl assms(1) this, of C] show ?thesis
    by (auto simp: allo_state_remove_entity_id_def assms(2) allo_state_remove_entity_def dest: pruned_descendants)
qed

theorem cascade_removes_descendants_witness:
  "\<exists>st'. allo_state_remove_entity_id json_ops sample_state ''mid'' AlloRemovalCascade = Some (True, st') \<and>
     map eid (entities st') = [''other'', ''root'']"
proof -
  have ok: "entities_ok (entities sample_state)" by (simp add: entities_ok_def sample_state_def)
  have get: "state_get_entity sample_state (Some ''mid'') = Some (sample_entity 2 ''mid'' (Some ''root''))"
    by (simp add: state_get_entity_def sample_state_def)
  let ?d = "descends json_ops (entities sample_state) 2"
  have mid: "?d (sample_entity 2 ''mid'' (Some ''root''))" by (rule descends_self) (simp_all add: sample_state_def)
  have leaf: "?d (sample_entity 0 ''leaf'' (Some ''mid''))"
    by (rule descends_child [OF mid]) (simp_all add: sample_state_def sample_parent)
  have no: "e = sample_entity 2 ''mid'' (Some ''root'') \<or> e = sample_entity 0 ''leaf'' (Some ''mid'')" if "?d e" for e
    using that
  proof (induction rule: descends.induct)
    case (descends_self e)
    then show ?case by (auto simp: sample_state_def)
  next
    case (descends_child p e)
    then show ?case by (auto simp: sample_state_def sample_parent)
  qed
  have "\<not> ?d (sample_entity 1 ''other'' None)" "\<not> ?d (sample_entity 3 ''root'' None)"
    using no [of "sample_entity 1 ''other'' None"] no [of "sample_entity 3 ''root'' None"]
    by (auto simp: sample_entity_def)
  then have "map eid (filter (\<lambda>f. \<not> ?d f) (entities sample_state)) = [''other'', ''root'']"
    using mid leaf by (simp add: sample_state_def)
  with cascade_removes_descendants [OF ok get, of json_ops] show ?thesis by auto
qed

section \<open>Transforms\<close>

context cjson_lib begin

lemma chain_put_cs:
  assumes "GetObjectItemCS C j k = Some v"
  shows "chain C (put_cs C j k w) = assoc_put ((=) k) w (chain C j)"
proof -
  have "assoc ((=) k) (chain C j) = Some v" using assms by (simp add: object_cs_law)
  then have "assoc_index ((=) k) (chain C j) < length (chain C j)"
    by (induction "(=) k" "chain C j" rule: assoc.induct) (auto split: if_splits)
  then show ?thesis using assms
    by (simp add: put_cs_def put_law assoc_put_list_update [of "(=) k" "chain C j" v] object_cs_law)
qed

lemma get_put_cs: "GetObjectItemCS C j k = Some v \<Longrightarrow> GetObjectItemCS C (put_cs C j k w) k = Some w"
  by (simp add: object_cs_law [of "put_cs C j k w"] chain_put_cs) (simp add: object_cs_law)

lemma set_numbers_values:
  assumes "i + length rs \<le> length (chain C j)"
  shows "map (valuedouble C) (items C (set_numbers C i rs j)) =
      take i (map (valuedouble C) (items C j)) @ rs @ drop (i + length rs) (map (valuedouble C) (items C j)) \<and>
    length (chain C (set_numbers C i rs j)) = length (chain C j)"
  using assms
proof (induction rs arbitrary: i j)
  case Nil
  then show ?case by simp
next
  case (Cons r rs)
  let ?v = "SetNumberValue C (items C j ! i) r" and ?d = "map (valuedouble C) (items C j)"
  have i: "i < length (chain C j)" using Cons.prems by simp
  have it: "items C (put C j i ?v) = (items C j)[i := ?v]"
    using i by (simp add: items_def put_law map_update)
  then have len: "length (chain C (put C j i ?v)) = length (chain C j)" by (metis length_items length_list_update)
  have d: "map (valuedouble C) (items C (put C j i ?v)) = ?d[i := r]"
    by (simp add: it map_update assign_law)
  have "i < length ?d" using i by simp
  then have parts: "take (Suc i) (?d[i := r]) = take i ?d @ [r]"
    "drop (Suc i + length rs) (?d[i := r]) = drop (Suc i + length rs) ?d"
    by (simp_all add: take_Suc_conv_app_nth)
  have step: "set_numbers C i (r # rs) j = set_numbers C (Suc i) rs (put C j i ?v)"
    using i by (simp add: item_law)
  have "Suc i + length rs \<le> length (chain C (put C j i ?v))" using Cons.prems len by simp
  from Cons.IH [OF this] show ?case unfolding step d len parts by simp
qed

lemma set_transform_get:
  assumes "components e = Some comps"
    and "GetObjectItemCS C comps ''transform'' = None \<or>
      (\<exists>t ma. GetObjectItemCS C comps ''transform'' = Some t \<and> GetObjectItemCS C t ''matrix'' = Some ma \<and> GetArraySize C ma = 16)"
  shows "entity_get_transform C (Some (entity_set_transform C e m)) = m"
  using assms(2)
proof
  assume none: "GetObjectItemCS C comps ''transform'' = None"
  let ?t = "cjson_create_object C [(''matrix'', CreateDoubleArray C (v_of m))]"
  have "GetObjectItemCS C (AddItemToObject C comps ''transform'' ?t) ''transform'' = Some ?t"
    using none by (simp add: object_cs_law add_object_law assoc_append)
  moreover have "cjson2m C (Some (CreateDoubleArray C (v_of m))) = m"
    by (simp add: cjson2m_def size_law double_array_chain double_array_law number_law comp_def del: m_of_list.simps)
  ultimately show ?thesis
    by (simp add: entity_set_transform_def entity_get_transform_def assms(1) none get_cs_created size_law double_array_chain)
next
  assume "\<exists>t ma. GetObjectItemCS C comps ''transform'' = Some t \<and> GetObjectItemCS C t ''matrix'' = Some ma \<and>
    GetArraySize C ma = 16"
  then obtain t ma where t: "GetObjectItemCS C comps ''transform'' = Some t" "GetObjectItemCS C t ''matrix'' = Some ma"
    "GetArraySize C ma = 16" by blast
  let ?ma = "set_numbers C 0 (v_of m) ma"
  have len: "length (chain C ma) = 16" using t(3) by (simp add: size_law)
  then have v: "map (valuedouble C) (items C ?ma) = v_of m" "length (chain C ?ma) = 16"
    using len set_numbers_values [of 0 "v_of m" ma] by simp_all
  then have "cjson2m C (Some ?ma) = m" by (simp add: cjson2m_def size_law del: m_of_list.simps)
  then show ?thesis
    by (simp add: entity_set_transform_def entity_get_transform_def assms(1) t get_put_cs [OF t(1)] get_put_cs [OF t(2)]
        size_law v(2) len)
qed

end

text \<open>
  The transform that is set on an entity is the one it has afterwards, when it had none or one
  with a matrix of sixteen numbers.
\<close>

theorem set_transform_roundtrip:
  assumes "cjson_lib C" and "components e = Some comps"
    and "GetObjectItemCS C comps ''transform'' = None \<or>
      (\<exists>t ma. GetObjectItemCS C comps ''transform'' = Some t \<and> GetObjectItemCS C t ''matrix'' = Some ma \<and> GetArraySize C ma = 16)"
  shows "entity_get_transform C (Some (entity_set_transform C e m)) = m"
  by (rule cjson_lib.set_transform_get [OF assms])

theorem set_transform_roundtrip_witness:
  "entity_get_transform json_ops (Some (entity_set_transform json_ops (sample_entity 0 ''a'' None)
     (allo_m4x4_translate (vec 4 5 6)))) = allo_m4x4_translate (vec 4 5 6)"
  by (rule set_transform_roundtrip [OF json.cjson_lib_axioms])
    (simp_all add: sample_entity_def, simp add: json_defs m2cjson_def m_defs)

text \<open>
  On an entity whose transform is there but has no matrix of sixteen numbers, setting a transform
  has no effect: the new one is added behind the old one, which every lookup finds first.
\<close>

theorem malformed_transform_stays:
  assumes "cjson_lib C" and "components e = Some comps" and "GetObjectItemCS C comps ''transform'' = Some t"
    and "get_cs C (Some t) ''matrix'' = None \<or> array_size C (get_cs C (Some t) ''matrix'') \<noteq> 16"
  shows "entity_get_transform C (Some (entity_set_transform C e m)) = allo_m4x4_identity"
proof -
  have t: "GetObjectItemCS C (AddItemToObject C comps ''transform'' v) ''transform'' = Some t" for v
    using assms(3) by (simp add: cjson_lib.object_cs_law [OF assms(1)] cjson_lib.add_object_law [OF assms(1)] assoc_append)
  show ?thesis
    using assms(3,4)
    by (cases "GetObjectItemCS C t ''matrix''") (simp_all add: entity_set_transform_def entity_get_transform_def assms(2) t)
qed

theorem malformed_transform_stays_witness:
  "entity_get_transform json_ops (Some (entity_set_transform json_ops
     ((sample_entity 0 ''a'' None)\<lparr>components := Some (jobj [(''transform'', jobj [])])\<rparr>)
     (allo_m4x4_translate (vec 4 5 6)))) = allo_m4x4_identity"
  by (rule malformed_transform_stays [OF json.cjson_lib_axioms, where comps = "jobj [(''transform'', jobj [])]" and t = "jobj []"])
    (simp_all add: json_defs)

section \<open>Coordinate spaces\<close>

text \<open>An entity whose chain of parents ends after at most \<open>n\<close> steps.\<close>

fun rooted :: "'j cjson \<Rightarrow> 'j allo_state \<Rightarrow> nat \<Rightarrow> 'j entity \<Rightarrow> bool" where
  "rooted C st 0 e = False"
| "rooted C st (Suc n) e = (case entity_get_parent C st e of None \<Rightarrow> True | Some p \<Rightarrow> rooted C st n p)"

lemma to_world_rooted: "rooted C st n e \<Longrightarrow> \<exists>w. entity_get_transform_to_world M C n st (Some e) = Some w"
  by (induction n arbitrary: e) (auto split: option.splits)

lemma sample_get_parent:
  "entity_get_parent json_ops st (sample_entity a i p) = (case p of None \<Rightarrow> None | Some q \<Rightarrow> state_get_entity st (Some q))"
  by (cases p) (simp_all add: entity_get_parent_def sample_entity_def json_defs string_value_def)

lemma sample_transform: "entity_get_transform json_ops (Some (sample_entity a i p)) = allo_m4x4_translate (vec 1 0 0)"
proof -
  let ?m = "m2cjson json_ops (allo_m4x4_translate (vec 1 0 0))"
  have get: "GetObjectItemCS json_ops (jobj kvs) k = assoc ((=) k) kvs" for kvs k by (simp add: json_defs)
  have "GetArraySize json_ops ?m = 16"
    using json.items_m2cjson [of "allo_m4x4_translate (vec 1 0 0)"] json.length_items [of ?m]
    by (simp add: json.size_law)
  then show ?thesis
    by (cases p) (simp_all add: entity_get_transform_def sample_entity_def get json.cjson2m_m2cjson)
qed

context mathc_lib begin

lemma concat_cancel:
  assumes "determinant w \<noteq> 0"
  shows "allo_m4x4_concat M w (allo_m4x4_concat M (allo_m4x4_inverse M w) x) = x"
    and "allo_m4x4_concat M (allo_m4x4_inverse M w) (allo_m4x4_concat M w x) = x"
  by (simp_all add: concat_inverse [OF assms] flip: concat_assoc)

end

text \<open>
  C28. A transform converted from the space of one entity to that of another and back is the same,
  whenever the two chains of parents end and the transforms on them can be inverted. The depth is
  the length of the longer chain.
\<close>

theorem convert_space_roundtrip:
  assumes "mathc_lib M" and "rooted C st n a" and "rooted C st n b"
    and "\<And>e w. e = a \<or> e = b \<Longrightarrow> entity_get_transform_to_world M C n st (Some e) = Some w \<Longrightarrow> determinant w \<noteq> 0"
  shows "\<exists>m'. state_convert_coordinate_space M C n st m (Some a) (Some b) = Some m' \<and>
    state_convert_coordinate_space M C n st m' (Some b) (Some a) = Some m"
proof -
  obtain wa wb where w: "entity_get_transform_to_world M C n st (Some a) = Some wa"
    "entity_get_transform_to_world M C n st (Some b) = Some wb"
    using to_world_rooted assms(2,3) by blast
  then have "determinant wa \<noteq> 0" "determinant wb \<noteq> 0" using assms(4) by blast+
  then show ?thesis
    by (simp add: state_convert_coordinate_space_def w Let_def mathc_lib.concat_assoc [OF assms(1)]
        mathc_lib.concat_cancel [OF assms(1)])
qed

theorem convert_space_roundtrip_witness:
  "\<exists>m'. state_convert_coordinate_space mathc_ops json_ops 3 sample_state (allo_m4x4_translate (vec 0 7 0))
       (Some (sample_entity 0 ''leaf'' (Some ''mid''))) (Some (sample_entity 1 ''other'' None)) = Some m' \<and>
     state_convert_coordinate_space mathc_ops json_ops 3 sample_state m'
       (Some (sample_entity 1 ''other'' None)) (Some (sample_entity 0 ''leaf'' (Some ''mid''))) =
     Some (allo_m4x4_translate (vec 0 7 0))"
proof (rule convert_space_roundtrip [OF mathc.mathc_lib_axioms])
  have parents: "entity_get_parent json_ops sample_state (sample_entity 0 ''leaf'' (Some ''mid'')) =
      Some (sample_entity 2 ''mid'' (Some ''root''))"
    "entity_get_parent json_ops sample_state (sample_entity 2 ''mid'' (Some ''root'')) = Some (sample_entity 3 ''root'' None)"
    "entity_get_parent json_ops sample_state (sample_entity k i None) = None" for k i
    by (simp_all add: sample_get_parent state_get_entity_def sample_state_def)
  then show "rooted json_ops sample_state 3 (sample_entity 0 ''leaf'' (Some ''mid''))"
    "rooted json_ops sample_state 3 (sample_entity 1 ''other'' None)"
    by (simp_all add: eval_nat_numeral)
  fix e w
  assume "e = sample_entity 0 ''leaf'' (Some ''mid'') \<or> e = sample_entity 1 ''other'' None"
    and "entity_get_transform_to_world mathc_ops json_ops 3 sample_state (Some e) = Some w"
  then show "determinant w \<noteq> 0"
    using parents by (auto simp: sample_transform eval_nat_numeral allo_m4x4_concat_def mathc_ops_def product_def determinant_def
        cofactors_def m_defs Let_def)
qed

text \<open>
  When the parents of some entities go round in a circle, the transform to the world of any of
  them has no value at any depth: the recursion of the code does not end.
\<close>

theorem parent_cycle_never_returns:
  assumes "\<And>e. e \<in> S \<Longrightarrow> \<exists>p \<in> S. entity_get_parent C st e = Some p" and "e \<in> S"
  shows "entity_get_transform_to_world M C depth st (Some e) = None"
  using assms(2)
proof (induction depth arbitrary: e)
  case (Suc n)
  from assms(1) [OF Suc.prems] obtain p where "p \<in> S" "entity_get_parent C st e = Some p" by blast
  with Suc.IH show ?case by simp
qed simp

theorem parent_cycle_never_returns_witness:
  "entity_get_transform_to_world mathc_ops json_ops 1000
     \<lparr>revision = 1, entities = [sample_entity 0 ''a'' (Some ''a'')], fresh_at = 1\<rparr>
     (Some (sample_entity 0 ''a'' (Some ''a''))) = None"
  by (rule parent_cycle_never_returns [where S = "{sample_entity 0 ''a'' (Some ''a'')}"])
    (simp_all add: sample_get_parent state_get_entity_def)

end
