(* ===== verification/State_Json.thy ===== *)
theory State_Json
  imports State_Correct
begin

text \<open>
  Specifications, states and interactions as JSON: what adding a specification with its children
  does to a state, and what arrives when a state or an interaction is turned to JSON and back.
\<close>

section \<open>Adding a specification\<close>

definition child_specs :: "'j cjson \<Rightarrow> 'j \<Rightarrow> 'j list" where
  "child_specs C j = (case GetObjectItemCS C j ''children'' of None \<Rightarrow> [] | Some c \<Rightarrow> items C c)"

text \<open>
  A specification with its components loose in it, at most \<open>n\<close> levels of children, and no child that
  brings relationships of its own.
\<close>

fun plain_spec :: "'j cjson \<Rightarrow> nat \<Rightarrow> 'j \<Rightarrow> bool" where
  "plain_spec C 0 j = False"
| "plain_spec C (Suc n) j \<longleftrightarrow> GetObjectItemCS C j ''components'' = None \<and>
     (\<forall>c \<in> set (child_specs C j). GetObjectItemCS C c ''relationships'' = None \<and> plain_spec C n c)"

fun spec_count :: "'j cjson \<Rightarrow> nat \<Rightarrow> 'j \<Rightarrow> nat" where
  "spec_count C 0 j = 0"
| "spec_count C (Suc n) j = Suc (sum_list (map (spec_count C n) (child_specs C j)))"

definition owner_of :: "string option \<Rightarrow> string" where
  "owner_of agent_id = (case agent_id of None \<Rightarrow> ''place'' | Some a \<Rightarrow> a)"

text \<open>The entity a specification becomes.\<close>

definition spec_entity :: "'j cjson \<Rightarrow> nat \<Rightarrow> string \<Rightarrow> string option \<Rightarrow> 'j \<Rightarrow> string option \<Rightarrow> 'j entity" where
  "spec_entity C a i agent_id j parent =
     (let j1 = DeleteItemFromObjectCS C j ''children'';
          j2 = (case parent of None \<Rightarrow> j1 | Some p \<Rightarrow> AddItemToObject C j1 ''relationships''
                  (cjson_create_object C [(''parent'', CreateString C p)]));
          j3 = (if GetObjectItem C j2 ''transform'' = None
                then AddItemToObject C j2 ''transform'' (cjson_create_object C [(''matrix'', m2cjson C allo_m4x4_identity)])
                else j2)
      in \<lparr>entity_at = a, eid = i, owner_agent_id = Some (owner_of agent_id), components = Some j3\<rparr>)"

text \<open>The entities of a specification: those of its children, the last child first, and its own one behind them.\<close>

inductive grown :: "'j cjson \<Rightarrow> string option \<Rightarrow> string option \<Rightarrow> 'j \<Rightarrow> 'j entity list \<Rightarrow> bool" for C agent_id where
  "grown C agent_id parent j (concat (rev blocks) @ [r])"
    if "r = spec_entity C a i agent_id j parent" and "parent \<noteq> None \<Longrightarrow> parent_id C r = parent"
      and "list_all2 (grown C agent_id (Some i)) (child_specs C j) blocks"

lemma grown_owner: "grown C agent_id parent j es \<Longrightarrow> e \<in> set es \<Longrightarrow> owner_agent_id e = Some (owner_of agent_id)"
proof (induction arbitrary: e rule: grown.induct)
  case (1 r a i j parent blocks)
  consider block where "block \<in> set blocks" "e \<in> set block" | "e = r" using 1(4) by auto
  then show ?case
  proof cases
    case 1
    then obtain n where "n < length blocks" "block = blocks ! n" by (auto simp: in_set_conv_nth)
    with 1 \<open>list_all2 _ _ _\<close> show ?thesis by (auto simp: list_all2_conv_all_nth)
  next
    case 2
    with 1(1) show ?thesis by (simp add: spec_entity_def Let_def)
  qed
qed

context cjson_lib begin

lemma get_cs_delete_other: "k \<noteq> l \<Longrightarrow> GetObjectItemCS C (DeleteItemFromObjectCS C j k) l = GetObjectItemCS C j l"
  by (simp add: object_cs_law delete_object_cs_law) (subst assoc_delete_other; auto)

lemma get_cs_add:
  "GetObjectItemCS C (AddItemToObject C j k v) l =
    (case GetObjectItemCS C j l of None \<Rightarrow> if l = k then Some v else None | Some w \<Rightarrow> Some w)"
  by (auto simp: object_cs_law add_object_law assoc_append split: option.split)

lemma spec_entity_parent:
  assumes "GetObjectItemCS C j ''relationships'' = None"
  shows "parent_id C (spec_entity C a i agent_id j (Some p)) = Some p"
  using assms
  by (simp add: spec_entity_def parent_id_def Let_def get_cs_add get_cs_delete_other get_cs_created string_value_def
      string_law)

lemma add_one:
  assumes "GetObjectItemCS C j ''components'' = None" and "allo_generate_id rand 10 g = (i, g1)"
  shows "allo_state_add_entity_from_spec C rand (Suc n) agent_id (Some j) parent (st, g) =
    map_option (Pair (fresh_at st))
      (fold_opt (\<lambda>child w. map_option snd (allo_state_add_entity_from_spec C rand n agent_id (Some child) (Some i) w))
        (child_specs C j)
        (st\<lparr>fresh_at := Suc (fresh_at st),
            entities := spec_entity C (fresh_at st) i agent_id j parent # entities st\<rparr>, g1))"
  using assms
  by (cases parent) (simp_all add: get_cs_delete_other Let_def spec_entity_def owner_of_def child_specs_def)

lemma add_spec_ok:
  assumes "plain_spec C n j" and "parent \<noteq> None \<Longrightarrow> GetObjectItemCS C j ''relationships'' = None"
  shows "\<exists>st' g' xs r. allo_state_add_entity_from_spec C rand n agent_id (Some j) parent (st, g) = Some (fresh_at st, st', g') \<and>
    entities st' = xs @ r # entities st \<and> grown C agent_id parent j (xs @ [r]) \<and> entity_at r = fresh_at st \<and>
    Suc (length xs) = spec_count C n j \<and> revision st' = revision st"
  using assms
proof (induction n arbitrary: j parent st g)
  case 0
  then show ?case by simp
next
  case (Suc n)
  obtain i g1 where i: "allo_generate_id rand 10 g = (i, g1)" by fastforce
  define r where "r = spec_entity C (fresh_at st) i agent_id j parent"
  define st1 where "st1 = st\<lparr>fresh_at := Suc (fresh_at st), entities := r # entities st\<rparr>"
  let ?step = "\<lambda>child w. map_option snd (allo_state_add_entity_from_spec C rand n agent_id (Some child) (Some i) w)"
  have loop: "\<exists>st' g' blocks. fold_opt ?step cs (s, h) = Some (st', g') \<and> entities st' = concat (rev blocks) @ entities s \<and>
      list_all2 (grown C agent_id (Some i)) cs blocks \<and>
      length (concat blocks) = sum_list (map (spec_count C n) cs) \<and> revision st' = revision s"
    if "set cs \<subseteq> set (child_specs C j)" for cs s h
    using that
  proof (induction cs arbitrary: s h)
    case Nil
    then show ?case by simp
  next
    case (Cons c cs)
    have c: "plain_spec C n c" "GetObjectItemCS C c ''relationships'' = None"
      using Suc.prems(1) Cons.prems by auto
    obtain s1 h1 xs r1 where s1: "allo_state_add_entity_from_spec C rand n agent_id (Some c) (Some i) (s, h) = Some (fresh_at s, s1, h1)"
      "entities s1 = xs @ r1 # entities s" "grown C agent_id (Some i) c (xs @ [r1])" "Suc (length xs) = spec_count C n c"
      "revision s1 = revision s"
      using Suc.IH [OF c(1), of "Some i" s h] c(2) by blast
    obtain s2 h2 blocks where s2: "fold_opt ?step cs (s1, h1) = Some (s2, h2)" "entities s2 = concat (rev blocks) @ entities s1"
      "list_all2 (grown C agent_id (Some i)) cs blocks" "length (concat blocks) = sum_list (map (spec_count C n) cs)"
      "revision s2 = revision s1"
      using Cons.IH [of s1 h1] Cons.prems by auto
    show ?case
      using s1 s2 by (intro exI [of _ s2] exI [of _ h2] exI [of _ "(xs @ [r1]) # blocks"]) simp
  qed
  obtain st' g' blocks where ys: "fold_opt ?step (child_specs C j) (st1, g1) = Some (st', g')"
    "entities st' = concat (rev blocks) @ entities st1" "list_all2 (grown C agent_id (Some i)) (child_specs C j) blocks"
    "length (concat blocks) = sum_list (map (spec_count C n) (child_specs C j))" "revision st' = revision st1"
    using loop [of "child_specs C j" st1 g1] by auto
  have "GetObjectItemCS C j ''components'' = None" using Suc.prems(1) by simp
  from add_one [OF this i, of n agent_id parent st] ys(1)
  have "allo_state_add_entity_from_spec C rand (Suc n) agent_id (Some j) parent (st, g) = Some (fresh_at st, st', g')"
    by (simp add: st1_def r_def del: allo_state_add_entity_from_spec.simps)
  moreover have "grown C agent_id parent j (concat (rev blocks) @ [r])"
    by (rule grown.intros [OF r_def _ ys(3)]) (use Suc.prems(2) in \<open>auto simp: r_def spec_entity_parent\<close>)
  moreover have "length (concat (rev blocks)) = length (concat blocks)" by (simp add: length_concat rev_map [symmetric] sum_list_rev)
  ultimately show ?case
    using ys(2,4,5) by (intro exI [of _ st'] exI [of _ g'] exI [of _ "concat (rev blocks)"] exI [of _ r])
      (simp add: st1_def r_def spec_entity_def Let_def del: allo_state_add_entity_from_spec.simps)
qed

end

text \<open>
  C27. Adding a specification whose components lie loose in it returns, and puts its tree in front of the
  state (\<open>grown\<close>): the entity of the specification, and before it those of its children, a later child
  before an earlier one, each with its own children. Every entity has the components of its
  specification without the children, is owned by the agent, and names as its parent the entity its
  specification was a child of.
\<close>

theorem add_spec_adds_tree:
  assumes "cjson_lib C" and "plain_spec C n j"
  shows "\<exists>st' g' xs r. allo_state_add_entity_from_spec C rand n agent_id (Some j) None (st, g) = Some (fresh_at st, st', g') \<and>
    entities st' = xs @ r # entities st \<and> grown C agent_id None j (xs @ [r]) \<and> entity_at r = fresh_at st \<and>
    Suc (length xs) = spec_count C n j \<and> (\<forall>e \<in> set (xs @ [r]). owner_agent_id e = Some (owner_of agent_id))"
proof -
  obtain st' g' xs r where "allo_state_add_entity_from_spec C rand n agent_id (Some j) None (st, g) = Some (fresh_at st, st', g')"
    "entities st' = xs @ r # entities st" "grown C agent_id None j (xs @ [r])" "entity_at r = fresh_at st"
    "Suc (length xs) = spec_count C n j"
    using cjson_lib.add_spec_ok [OF assms, of None rand agent_id st g] by blast
  moreover from this(3) have "\<forall>e \<in> set (xs @ [r]). owner_agent_id e = Some (owner_of agent_id)"
    by (blast intro: grown_owner)
  ultimately show ?thesis by blast
qed

definition sample_spec :: json where
  "sample_spec = jobj [(''children'', jarr [jobj [], jobj [(''children'', jarr [jobj []])]])]"

theorem add_spec_adds_tree_witness:
  "\<exists>st' g' es. allo_state_add_entity_from_spec json_ops (\<lambda>g. (g, Suc g)) 3 (Some ''me'') (Some sample_spec) None
     (allo_state_init, 0) = Some (0, st', g') \<and> entities st' = es \<and> length es = 4 \<and>
     grown json_ops (Some ''me'') None sample_spec es"
proof -
  have "plain_spec json_ops 3 sample_spec" "spec_count json_ops 3 sample_spec = 4"
    by (simp_all add: eval_nat_numeral sample_spec_def child_specs_def json_defs items_def)
  then show ?thesis
    using add_spec_adds_tree [OF json.cjson_lib_axioms, of 3 sample_spec "\<lambda>g. (g, Suc g)" "Some ''me''" allo_state_init 0]
    by (auto simp: allo_state_init_def)
qed

text \<open>
  A specification with the key \<open>components\<close>, which the code means to accept, is freed and then
  looked at.
\<close>

theorem components_spec_used_after_free:
  assumes "cjson_lib C" and "GetObjectItemCS C j ''components'' = Some comps"
  shows "allo_state_add_entity_from_spec C rand depth agent_id (Some j) parent world = None"
  using assms(2)
  by (cases depth; cases world) (simp_all add: cjson_lib.get_cs_delete_other [OF assms(1)] Let_def split: prod.split)

theorem components_spec_used_after_free_witness:
  "allo_state_add_entity_from_spec json_ops (\<lambda>g. (g, Suc g)) 3 None (Some (jobj [(''components'', jobj [])])) None
     (allo_state_init, 0) = None"
  by (rule components_spec_used_after_free [OF json.cjson_lib_axioms]) (simp add: json_defs)

section \<open>The state\<close>

text \<open>What is compared of an entity: its components are the same list of keys and nodes.\<close>

definition entity_view :: "'j cjson \<Rightarrow> 'j entity \<Rightarrow> string \<times> string option \<times> (string \<times> 'j) list option" where
  "entity_view C e = (eid e, owner_agent_id e, map_option (chain C) (components e))"

definition sendable :: "'j cjson \<Rightarrow> 'j entity \<Rightarrow> bool" where
  "sendable C e \<longleftrightarrow> owner_agent_id e \<noteq> None \<and>
     (\<exists>c. components e = Some c \<and> GetObjectItemCS C c ''children'' = None \<and>
        GetObjectItemCS C c ''components'' = None \<and> GetObjectItem C c ''transform'' \<noteq> None)"

lemma assoc_delete_none: "assoc p kvs = None \<Longrightarrow> assoc_delete p kvs = kvs"
  by (induction kvs) (auto split: if_splits)

context cjson_lib begin

lemma entity_from_to_json:
  assumes "sendable C e" and "\<forall>f \<in> set (entities st). entity_at f < fresh_at st"
  shows "\<exists>e' g'. entity_from_json C rand (Suc 0) (entity_to_json C True e) (st, g) =
      Some (st\<lparr>fresh_at := Suc (fresh_at st), entities := e' # entities st\<rparr>, g') \<and>
    entity_view C e' = entity_view C e \<and> entity_at e' = fresh_at st"
proof -
  obtain a c where e: "owner_agent_id e = Some a" "components e = Some c"
    and c: "GetObjectItemCS C c ''children'' = None" "GetObjectItemCS C c ''components'' = None"
      "GetObjectItem C c ''transform'' \<noteq> None"
    using assms(1) by (auto simp: sendable_def)
  obtain i g1 where i: "allo_generate_id rand 10 g = (i, g1)" by fastforce
  let ?j = "entity_to_json C True e"
  have chain_j: "chain C ?j = [(''id'', CreateString C (eid e)), (''agent_id'', CreateString C a), (''components'', c)]"
    by (simp add: entity_to_json_def e Let_def add_object_law)
  have get: "GetObjectItemCS C ?j ''components'' = Some c" by (simp add: object_cs_law chain_j)
  have rest: "GetObjectItemCS C (DeleteItemFromObjectCS C ?j ''components'') ''id'' = Some (CreateString C (eid e))"
    "GetObjectItemCS C (DeleteItemFromObjectCS C ?j ''components'') ''agent_id'' = Some (CreateString C a)"
    by (simp_all add: object_cs_law delete_object_cs_law chain_j)
  let ?c = "DeleteItemFromObjectCS C c ''children''"
  have same: "chain C ?c = chain C c" using c(1) by (simp add: delete_object_cs_law object_cs_law assoc_delete_none)
  have "GetObjectItem C ?c ''transform'' \<noteq> None" using c(3) by (simp add: object_law same)
  then have new: "spec_entity C (fresh_at st) i (Some a) c None =
      \<lparr>entity_at = fresh_at st, eid = i, owner_agent_id = Some a, components = Some ?c\<rparr>"
    by (auto simp: spec_entity_def Let_def owner_of_def)
  have add: "allo_state_add_entity_from_spec C rand (Suc 0) (Some a) (Some c) None (st, g) = Some (fresh_at st,
      st\<lparr>fresh_at := Suc (fresh_at st), entities := spec_entity C (fresh_at st) i (Some a) c None # entities st\<rparr>, g1)"
    using add_one [OF c(2) i, of 0 "Some a" None st] c(1) by (simp add: child_specs_def del: allo_state_add_entity_from_spec.simps)
  have old: "map (\<lambda>f. if entity_at f = fresh_at st then f\<lparr>eid := eid e\<rparr> else f) (entities st) = entities st"
    by (rule map_idI) (use assms(2) in auto)
  let ?e = "\<lparr>entity_at = fresh_at st, eid = eid e, owner_agent_id = Some a, components = Some ?c\<rparr>"
  have "entity_from_json C rand (Suc 0) ?j (st, g) =
      Some (st\<lparr>fresh_at := Suc (fresh_at st), entities := ?e # entities st\<rparr>, g1)"
    unfolding entity_from_json_def get Let_def rest
    by (simp add: string_value_def string_law add set_eid_def old new del: allo_state_add_entity_from_spec.simps)
  moreover have "entity_view C ?e = entity_view C e" by (simp add: entity_view_def e same)
  ultimately show ?thesis by fastforce
qed

lemma entities_from_to_json:
  assumes "\<forall>e \<in> set es. sendable C e" and "\<forall>f \<in> set (entities st). entity_at f < fresh_at st"
  shows "\<exists>st' g'. fold_opt (entity_from_json C rand (Suc 0)) (map (entity_to_json C True) es) (st, g) = Some (st', g') \<and>
    map (entity_view C) (entities st') = rev (map (entity_view C) es) @ map (entity_view C) (entities st) \<and>
    revision st' = revision st"
  using assms
proof (induction es arbitrary: st g)
  case Nil
  then show ?case by simp
next
  case (Cons e es)
  have e: "sendable C e" using Cons.prems(1) by simp
  obtain e' g1 where e': "entity_from_json C rand (Suc 0) (entity_to_json C True e) (st, g) =
      Some (st\<lparr>fresh_at := Suc (fresh_at st), entities := e' # entities st\<rparr>, g1)"
    "entity_view C e' = entity_view C e" "entity_at e' = fresh_at st"
    using entity_from_to_json [OF e Cons.prems(2), of rand g] by blast
  have old: "\<forall>f \<in> set (entities (st\<lparr>fresh_at := Suc (fresh_at st), entities := e' # entities st\<rparr>)).
      entity_at f < fresh_at (st\<lparr>fresh_at := Suc (fresh_at st), entities := e' # entities st\<rparr>)"
    using Cons.prems(2) e'(3) by auto
  have es: "\<forall>e \<in> set es. sendable C e" using Cons.prems(1) by simp
  from Cons.IH [OF es old, of g1] e'(1,2) show ?case by auto
qed

lemma state_json_entities:
  "items C (foldl (\<lambda>rep e. AddItemToObject C rep (eid e) (f e)) j es) = items C j @ map f es"
  by (induction es arbitrary: j) (simp_all add: items_def add_object_law)

end

lemma word_of_floor: "word_of_int \<lfloor>of_nat (unat (w :: u64)) :: rat\<rfloor> = w"
  using ack_value [of w] by simp

text \<open>
  C21. A state that is sent as JSON arrives with its revision and with every entity, its id, owner and
  components, in the reverse order; its entities have an owner and a transform, and no component
  called \<open>children\<close> or \<open>components\<close>.
\<close>

theorem state_json_roundtrip:
  assumes "cjson_lib C" and "revision st \<noteq> 0" and "\<forall>e \<in> set (entities st). sendable C e"
  shows "\<exists>st' g'. allo_state_from_json C rand 1 (allo_state_to_json C st True) g = Some (Some st', g') \<and>
    revision st' = revision st \<and> map (entity_view C) (entities st') = rev (map (entity_view C) (entities st))"
proof -
  let ?es = "foldl (\<lambda>rep e. AddItemToObject C rep (eid e) (entity_to_json C True e)) (CreateObject C) (entities st)"
  let ?r = "of_nat (unat (revision st)) :: rat"
  have get: "GetObjectItemCS C (allo_state_to_json C st True) ''revision'' = Some (CreateNumber C ?r)"
    "GetObjectItemCS C (allo_state_to_json C st True) ''entities'' = Some ?es"
    by (simp_all add: allo_state_to_json_def cjson_lib.get_cs_created [OF assms(1)])
  have r: "0 \<le> ?r" "?r < 18446744073709551616"
  proof -
    show "0 \<le> ?r" by (simp only: of_nat_0_le_iff)
    have "unat (revision st) < 2 ^ 64" using unsigned_less [of "revision st"] by simp
    then have "?r < of_nat (2 ^ 64)" by (simp only: of_nat_less_iff)
    then show "?r < 18446744073709551616" by simp
  qed
  have ents: "items C ?es = map (entity_to_json C True) (entities st)"
    unfolding cjson_lib.state_json_entities [OF assms(1)] by (simp add: items_def cjson_lib.empty_law [OF assms(1)])
  let ?st0 = "allo_state_init\<lparr>revision := revision st\<rparr>"
  obtain st' g' where st': "fold_opt (entity_from_json C rand (Suc 0)) (map (entity_to_json C True) (entities st))
      (?st0, g) = Some (st', g')"
    "map (entity_view C) (entities st') = rev (map (entity_view C) (entities st)) @ map (entity_view C) (entities ?st0)"
    "revision st' = revision ?st0"
    using cjson_lib.entities_from_to_json [OF assms(1,3), of ?st0 rand g] by (auto simp: allo_state_init_def)
  have num: "number_value C (Some (CreateNumber C ?r)) = Some ?r"
    by (simp add: number_value_def cjson_lib.number_law [OF assms(1)])
  have no: "\<not> (?r \<le> - 1 \<or> 18446744073709551616 \<le> ?r)" using r by linarith
  have "allo_state_from_json C rand 1 (allo_state_to_json C st True) g = Some (Some st', g')"
    unfolding allo_state_from_json_def get num option.case if_not_P [OF no] if_P [OF r(1)] word_of_floor Let_def
    using assms(2) st'(1) by (simp add: ents)
  with st'(2,3) show ?thesis by (auto simp: allo_state_init_def)
qed

theorem state_json_roundtrip_witness:
  "\<exists>st' g'. allo_state_from_json json_ops (\<lambda>g. (g, Suc g)) 1 (allo_state_to_json json_ops sample_state True) 0 =
      Some (Some st', g') \<and> revision st' = 5 \<and> map eid (entities st') = [''root'', ''mid'', ''other'', ''leaf'']"
proof -
  have "sendable json_ops (sample_entity a i p)" for a i p
    by (cases p) (simp_all add: sendable_def sample_entity_def json_defs same_key_def lower_def)
  then obtain st' g' where *: "allo_state_from_json json_ops (\<lambda>g. (g, Suc g)) 1 (allo_state_to_json json_ops sample_state True) 0 =
      Some (Some st', g')" "revision st' = revision sample_state"
    "map (entity_view json_ops) (entities st') = rev (map (entity_view json_ops) (entities sample_state))"
    using state_json_roundtrip [OF json.cjson_lib_axioms, of sample_state "\<lambda>g. (g, Suc g)" 0] by (auto simp: sample_state_def)
  have "map eid (entities st') = map fst (map (entity_view json_ops) (entities st'))" by (simp add: entity_view_def comp_def)
  also have "\<dots> = [''root'', ''mid'', ''other'', ''leaf'']" unfolding *(3) by (simp add: entity_view_def sample_state_def)
  finally show ?thesis using *(1,2) by (auto simp: sample_state_def)
qed

section \<open>Interactions\<close>

text \<open>
  An interaction that is sent as JSON is parsed back to itself, when its strings are there and
  its body is JSON as the printer writes it.
\<close>

theorem interaction_roundtrip:
  assumes "cjson_lib C" and "parse b = Some j" and "print j = b"
  shows "allo_interaction_parse_cjson C print (allo_interaction_to_cjson C parse
      (allo_interaction_create (Some t) (Some sender) (Some receiver) (Some request) (Some b))) =
    Some (allo_interaction_create (Some t) (Some sender) (Some receiver) (Some request) (Some b))"
proof -
  let ?l = "allo_interaction_to_cjson C parse
    (allo_interaction_create (Some t) (Some sender) (Some receiver) (Some request) (Some b))"
  have it: "items C ?l = [CreateString C ''interaction'', CreateString C t, CreateString C sender,
      CreateString C receiver, CreateString C request, j]"
    by (simp add: allo_interaction_to_cjson_def allo_interaction_create_def assms(2)
        cjson_lib.items_create_list [OF assms(1)] del: cjson_create_list.simps)
  then have "length (chain C ?l) = 6" using cjson_lib.length_items [OF assms(1), of ?l] by simp
  then show ?thesis
    by (simp add: allo_interaction_parse_cjson_def cjson_lib.item_law [OF assms(1)] it
        string_value_def cjson_lib.string_law [OF assms(1)] assms(3))
qed

theorem interaction_roundtrip_witness:
  "allo_interaction_parse_cjson json_ops (\<lambda>j. ''[]'') (allo_interaction_to_cjson json_ops (\<lambda>s. Some (jarr []))
      (allo_interaction_create (Some ''request'') (Some '''') (Some ''place'') (Some ''ANN0'') (Some ''[]''))) =
    Some (allo_interaction_create (Some ''request'') (Some '''') (Some ''place'') (Some ''ANN0'') (Some ''[]''))"
  by (rule interaction_roundtrip [OF json.cjson_lib_axioms]) simp_all

end
