(* ===== verification/Delta.thy ===== *)
theory Delta
  imports State
begin

text \<open>
  Deltas between states, \<^verbatim>\<open>src/delta.c\<close>: the ring of the last 64 states, computing the change from an
  old one to the latest as a JSON merge patch, applying a patch, and telling which entities and
  components it adds, changes or removes. The merge patches of \<^verbatim>\<open>cJSON_Utils\<close> and the printer are
  parameters. \<open>None\<close> is a failed assertion, an index outside an array or the use of freed memory.
\<close>

section \<open>History\<close>

definition allo_statehistory_length :: int where
  "allo_statehistory_length = 64"

text \<open>A pointer of the ring: null, to a state, or to one that has been freed.\<close>

datatype 'j slot = Empty | State 'j | Freed

record 'j statehistory =
  history :: "'j slot list"
  latest_revision :: int

definition statehistory_new :: "'j statehistory" where
  "statehistory_new = \<lparr>history = replicate 64 Empty, latest_revision = 0\<rparr>"

text \<open>\<open>revision % 64\<close> as C computes it: negative for most negative revisions.\<close>

definition slot_index :: "int \<Rightarrow> nat option" where
  "slot_index r =
     (if 0 \<le> r \<or> r mod allo_statehistory_length = 0 then Some (nat (r mod allo_statehistory_length)) else None)"

definition statehistory_get :: "'j statehistory \<Rightarrow> int \<Rightarrow> 'j slot option" where
  "statehistory_get h r = map_option (\<lambda>i. history h ! i) (slot_index r)"

definition statehistory_get_latest :: "'j statehistory \<Rightarrow> 'j slot option" where
  "statehistory_get_latest h = statehistory_get h (latest_revision h)"

definition revision_of :: "'j cjson \<Rightarrow> 'j option \<Rightarrow> int" where
  "revision_of C j = cjson_get_int64_value C (get_cs C j ''revision'')"

definition allo_delta_insert :: "'j cjson \<Rightarrow> 'j statehistory \<Rightarrow> 'j \<Rightarrow> 'j statehistory option" where
  "allo_delta_insert C h next_state =
     (if GetObjectItemCS C next_state ''revision'' = None then None
      else
        (let r = revision_of C (Some next_state)
         in case slot_index r of
              None \<Rightarrow> None
            | Some i \<Rightarrow>
                (case history h ! i of
                   Freed \<Rightarrow> None
                 | _ \<Rightarrow> Some \<lparr>history = (history h)[i := State next_state], latest_revision = r\<rparr>)))"

definition allo_delta_clear :: "'j statehistory \<Rightarrow> 'j statehistory option" where
  "allo_delta_clear h =
     (if Freed \<in> set (history h) then None
      else Some \<lparr>history = map (\<lambda>s. case s of State j \<Rightarrow> Freed | _ \<Rightarrow> s) (history h), latest_revision = 0\<rparr>)"

section \<open>Computing a delta\<close>

text \<open>
  \<open>gen_patch from to\<close> is \<open>cJSONUtils_GenerateMergePatchCaseSensitive\<close>, where \<open>from\<close> may be null and
  the result is when nothing changes; \<open>merge_patch\<close> is \<open>cJSONUtils_MergePatchCaseSensitive\<close>.
\<close>

record 'j delta_env =
  dj :: "'j cjson"
  gen_patch :: "'j option \<Rightarrow> 'j \<Rightarrow> 'j option"
  merge_patch :: "'j \<Rightarrow> 'j \<Rightarrow> 'j"
  print_unformatted :: "'j \<Rightarrow> string"

definition allo_delta_compute_cjson :: "'j delta_env \<Rightarrow> 'j \<Rightarrow> 'j option \<Rightarrow> int \<Rightarrow> 'j option" where
  "allo_delta_compute_cjson D latest old old_revision =
     (case gen_patch D old latest of
        None \<Rightarrow> None
      | Some patch \<Rightarrow>
          Some (AddItemToObject (dj D)
            (AddItemToObject (dj D) patch ''patch_style'' (CreateString (dj D) ''merge''))
            ''patch_from'' (CreateNumber (dj D) (of_int old_revision))))"

text \<open>
  \<open>allo_delta_compute\<close>. The cache is a static array of the function, shared by every history; each
  entry holds the revisions and the text. Of the latest state the text of a full patch is printed
  after an item has been added, which is then deleted again.
\<close>

type_synonym diffcache = "(int \<times> int \<times> string) option list"

definition slot_state :: "'j slot \<Rightarrow> 'j option option" where
  "slot_state s = (case s of Empty \<Rightarrow> Some None | State j \<Rightarrow> Some (Some j) | Freed \<Rightarrow> None)"

fun cached :: "(int \<times> int \<times> string) option \<Rightarrow> int \<Rightarrow> int \<Rightarrow> string option" where
  "cached None _ _ = None"
| "cached (Some (f, t, json)) old_revision newest = (if t = newest \<and> f = old_revision then Some json else None)"

definition allo_delta_compute ::
  "'j delta_env \<Rightarrow> diffcache \<Rightarrow> 'j statehistory \<Rightarrow> int \<Rightarrow> (string \<times> diffcache \<times> 'j statehistory) option" where
  "allo_delta_compute D cache h old_revision =
     (let C = dj D; newest = latest_revision h
      in case (statehistory_get_latest h, Option.bind (statehistory_get h old_revision) slot_state,
               slot_index old_revision, slot_index newest) of
           (Some s, Some old, Some i, Some l) \<Rightarrow>
             if s = Empty then None
             else (case cached (cache ! i) old_revision newest of
                     Some json \<Rightarrow> Some (json, cache, h)
                   | None \<Rightarrow>
                       (case s of
                          State latest \<Rightarrow>
                            if old = None \<or> revision_of C old \<noteq> old_revision
                            then (let full = AddItemToObject C latest ''patch_style'' (CreateString C ''set'');
                                      deltas = print_unformatted D full
                                  in Some (deltas, cache[i := Some (old_revision, newest, deltas)],
                                       h\<lparr>history := (history h)[l := State (DeleteItemFromObject C full ''patch_style'')]\<rparr>))
                            else (case allo_delta_compute_cjson D latest old old_revision of
                                    None \<Rightarrow> None
                                  | Some patch \<Rightarrow>
                                      (let deltas = print_unformatted D patch
                                       in Some (deltas, cache[i := Some (old_revision, newest, deltas)], h)))
                        | _ \<Rightarrow> None))
         | _ \<Rightarrow> None)"

section \<open>What a delta changes\<close>

definition chain_of :: "'j cjson \<Rightarrow> 'j option \<Rightarrow> (string \<times> 'j) list" where
  "chain_of C j = (case j of None \<Rightarrow> [] | Some v \<Rightarrow> chain C v)"

definition mark_updated_entity ::
  "'j cjson \<Rightarrow> string \<Rightarrow> 'j option \<Rightarrow> 'j option \<Rightarrow> string \<times> 'j \<Rightarrow> 'j state_diff \<Rightarrow> 'j state_diff" where
  "mark_updated_entity C i existing_comps new_comps partial diff =
     (let cname = fst partial;
          existing_comp = get_cs C existing_comps cname;
          r = \<lparr>ref_eid = i, ref_name = cname, olddata = existing_comp, newdata = get_cs C new_comps cname\<rparr>
      in if IsNull C (snd partial) then diff\<lparr>deleted_components := deleted_components diff @ [r]\<rparr>
         else if existing_comp = None then diff\<lparr>new_components := new_components diff @ [r]\<rparr>
         else diff\<lparr>updated_components := updated_components diff @ [r]\<rparr>)"

definition mark_entity ::
  "'j cjson \<Rightarrow> 'j option \<Rightarrow> 'j option \<Rightarrow> string \<times> 'j \<Rightarrow> 'j state_diff \<Rightarrow> 'j state_diff" where
  "mark_entity C existing_entities newstate_entities entry diff =
     (let i = fst entry; edesc = snd entry;
          existing_ent = get_cs C existing_entities i;
          newstate_ent = get_cs C newstate_entities i
      in if IsNull C edesc
         then diff\<lparr>deleted_entities := deleted_entities diff @ [i],
                deleted_components := deleted_components diff @
                  map (\<lambda>(cname, cdesc). \<lparr>ref_eid = i, ref_name = cname, olddata = Some cdesc, newdata = None\<rparr>)
                    (chain_of C (get_cs C existing_ent ''components''))\<rparr>
         else if existing_ent = None
         then diff\<lparr>new_entities := new_entities diff @ [i],
                new_components := new_components diff @
                  map (\<lambda>(cname, cdesc). \<lparr>ref_eid = i, ref_name = cname, olddata = None, newdata = Some cdesc\<rparr>)
                    (chain_of C (GetObjectItemCS C edesc ''components''))\<rparr>
         else fold (mark_updated_entity C i (get_cs C existing_ent ''components'') (get_cs C newstate_ent ''components''))
                (chain_of C (GetObjectItemCS C edesc ''components'')) diff)"

text \<open>The loop of \<open>_compute_merge_diff\<close> over the entities of a delta.\<close>

definition entity_changes :: "'j cjson \<Rightarrow> 'j option \<Rightarrow> 'j \<Rightarrow> 'j \<Rightarrow> 'j state_diff \<Rightarrow> 'j state_diff" where
  "entity_changes C current newstate delta diff =
     fold (mark_entity C (get_cs C current ''entities'') (GetObjectItemCS C newstate ''entities''))
       (chain_of C (GetObjectItemCS C delta ''entities'')) diff"

text \<open>
  \<open>_compute_full_diff\<close> and \<open>_compute_merge_diff\<close>; the latter hands over to the former when the
  patch is from an older state than the latest: when \<open>latest\<close> and \<open>current\<close> are not the same
  pointer. The result is what the handler is called with.
\<close>

definition compute_full_diff ::
  "'j delta_env \<Rightarrow> 'j option \<Rightarrow> 'j \<Rightarrow> 'j state_diff \<Rightarrow> ('j \<times> 'j \<times> 'j state_diff) option" where
  "compute_full_diff D latest newstate diff =
     map_option (\<lambda>delta. (delta, newstate, entity_changes (dj D) latest newstate delta diff))
       (allo_delta_compute_cjson D newstate latest (revision_of (dj D) latest))"

definition compute_merge_diff ::
  "'j delta_env \<Rightarrow> bool \<Rightarrow> 'j option \<Rightarrow> 'j option \<Rightarrow> 'j \<Rightarrow> 'j \<Rightarrow> 'j state_diff \<Rightarrow> ('j \<times> 'j \<times> 'j state_diff) option" where
  "compute_merge_diff D same_pointer latest current newstate delta diff =
     (if \<not> same_pointer then compute_full_diff D latest newstate diff
      else Some (delta, newstate, entity_changes (dj D) current newstate delta diff))"

section \<open>Applying a delta\<close>

text \<open>
  \<open>allo_delta_apply\<close>. \<open>diff\<close> is null when the caller does not care; otherwise the handler is called
  with the change before the new state is inserted. The inner result is the new state, or null.
\<close>

definition delta_handled ::
  "'j delta_env \<Rightarrow> ('j \<Rightarrow> 'j \<Rightarrow> 'j state_diff \<Rightarrow> 'u \<Rightarrow> 'u option) \<Rightarrow> 'j state_diff option \<Rightarrow> string \<Rightarrow> bool \<Rightarrow>
   'j slot \<Rightarrow> 'j option \<Rightarrow> 'j \<Rightarrow> 'j \<Rightarrow> 'u \<Rightarrow> 'u option" where
  "delta_handled D handler diff style same latest current result delta u =
     (case diff of
        None \<Rightarrow> Some u
      | Some d \<Rightarrow>
          (case slot_state latest of
             None \<Rightarrow> None
           | Some l \<Rightarrow>
               (case (if style = ''merge'' then compute_merge_diff D same l current result delta d
                      else compute_full_diff D l delta d) of
                  None \<Rightarrow> None
                | Some (cmd, staterep, d') \<Rightarrow> handler cmd staterep d' u)))"

definition allo_delta_apply ::
  "'j delta_env \<Rightarrow> ('j \<Rightarrow> 'j \<Rightarrow> 'j state_diff \<Rightarrow> 'u \<Rightarrow> 'u option) \<Rightarrow> 'j state_diff option \<Rightarrow> 'j \<Rightarrow> 'j statehistory \<times> 'u \<Rightarrow>
   ('j option \<times> 'j statehistory \<times> 'u) option" where
  "allo_delta_apply D handler diff delta hu =
     (case hu of (h, u) \<Rightarrow>
      let C = dj D;
          patch_style = GetObjectItem C delta ''patch_style'';
          delta1 = DeleteItemFromObject C delta ''patch_style'';
          patch_fromj = GetObjectItem C delta1 ''patch_from'';
          delta2 = DeleteItemFromObject C delta1 ''patch_from'';
          patch_from = cjson_get_int64_value C patch_fromj
      in case string_value C patch_style of
           None \<Rightarrow> None
         | Some style \<Rightarrow>
             if patch_fromj = None \<and> style = ''merge'' then None
             else (case (Option.bind (statehistory_get h patch_from) slot_state, statehistory_get_latest h) of
                     (Some current, Some latest) \<Rightarrow>
                       if patch_fromj \<noteq> None \<and> (patch_from \<noteq> revision_of C current \<or> current = None)
                       then Some (None, h, u)
                       else
                         (let result = (if style = ''merge'' then merge_patch D (the current) delta2 else delta2);
                              same = (slot_index patch_from = slot_index (latest_revision h))
                          in case delta_handled D handler diff style same latest current result delta2 u of
                               None \<Rightarrow> None
                             | Some u' \<Rightarrow>
                                 map_option (\<lambda>h'. (Some result, h', u')) (allo_delta_insert C h result))
                   | _ \<Rightarrow> None))"

end
