(* ===== verification/Delta_Correct.thy ===== *)
theory Delta_Correct
  imports Delta State_Json
begin

text \<open>
  What the history and the deltas promise: the last 64 states are found again, a delta computed
  from an old state brings a client that has it to the latest one, and every change of a delta is
  reported once; and the two ways in which a client or a second history gets past the checks.
\<close>

section \<open>The ring of states\<close>

definition rev_of :: "'j cjson \<Rightarrow> 'j \<Rightarrow> int" where
  "rev_of C j = revision_of C (Some j)"

definition has_revision :: "'j cjson \<Rightarrow> 'j \<Rightarrow> bool" where
  "has_revision C j \<longleftrightarrow> GetObjectItemCS C j ''revision'' \<noteq> None \<and> 0 \<le> rev_of C j"

text \<open>The last 64 revisions are in their slots, and no slot holds freed memory.\<close>

definition ring_holds :: "'j cjson \<Rightarrow> 'j list \<Rightarrow> 'j statehistory \<Rightarrow> bool" where
  "ring_holds C js h \<longleftrightarrow> length (history h) = 64 \<and> Freed \<notin> set (history h) \<and>
     (js \<noteq> [] \<longrightarrow> latest_revision h = rev_of C (last js)) \<and>
     (\<forall>j \<in> set js. latest_revision h - rev_of C j < 64 \<longrightarrow> history h ! nat (rev_of C j mod 64) = State j)"

lemma slot_index_nonneg: "0 \<le> r \<Longrightarrow> slot_index r = Some (nat (r mod 64))"
  by (simp add: slot_index_def allo_statehistory_length_def)

lemma nat_mod_64_less [simp]: "nat (r mod 64) < 64"
  by (simp add: nat_less_iff)

lemma mod_64_apart:
  assumes "(a :: int) < b" and "b - a < 64"
  shows "nat (a mod 64) \<noteq> nat (b mod 64)"
proof
  assume "nat (a mod 64) = nat (b mod 64)"
  then have "a mod 64 = b mod 64" by (simp add: eq_nat_nat_iff)
  then have "(b - a) mod 64 = 0" by (simp add: mod_eq_dvd_iff dvd_diff_commute)
  with assms show False by (simp add: mod_pos_pos_trivial)
qed

lemma insert_into_ring:
  assumes "length (history h) = 64" and "Freed \<notin> set (history h)" and "has_revision C j"
  shows "allo_delta_insert C h j =
    Some \<lparr>history = (history h)[nat (rev_of C j mod 64) := State j], latest_revision = rev_of C j\<rparr>"
proof -
  have "history h ! nat (rev_of C j mod 64) \<noteq> Freed"
    using assms(1,2) nth_mem [of "nat (rev_of C j mod 64)" "history h"] by (metis nat_mod_64_less)
  with assms(3) show ?thesis
    by (auto simp: allo_delta_insert_def has_revision_def rev_of_def slot_index_nonneg Let_def split: slot.split)
qed

lemma ring_step:
  assumes "ring_holds C js h" and "has_revision C j" and "\<forall>i \<in> set js. rev_of C i < rev_of C j"
  shows "\<exists>h'. allo_delta_insert C h j = Some h' \<and> ring_holds C (js @ [j]) h'"
proof -
  let ?h = "\<lparr>history = (history h)[nat (rev_of C j mod 64) := State j], latest_revision = rev_of C j\<rparr>"
  have "history ?h ! nat (rev_of C i mod 64) = State i"
    if "i \<in> set (js @ [j])" and near: "rev_of C j - rev_of C i < 64" for i
  proof (cases "i \<in> set js")
    case True
    then have i: "rev_of C i < rev_of C j" using assms(3) by blast
    have "rev_of C (last js) < rev_of C j" using assms(3) True by (metis empty_iff last_in_set list.set(1))
    then have "latest_revision h - rev_of C i < 64"
      using near assms(1) True by (cases "js = []") (auto simp: ring_holds_def)
    with assms(1) True have "history h ! nat (rev_of C i mod 64) = State i" by (simp add: ring_holds_def)
    with mod_64_apart [OF i near] show ?thesis by simp
  next
    case False
    with that(1) assms(1) show ?thesis by (simp add: ring_holds_def)
  qed
  moreover have "Freed \<notin> set (history ?h)"
    using assms(1) set_update_subset_insert [of "history h" _ "State j"] by (fastforce simp: ring_holds_def)
  ultimately have "ring_holds C (js @ [j]) ?h" using assms(1) by (simp add: ring_holds_def)
  then show ?thesis using assms(1,2) insert_into_ring [of h C j] by (simp add: ring_holds_def)
qed

lemma ring_of_inserts:
  assumes "sorted_wrt (\<lambda>i j. rev_of C i < rev_of C j) js" and "\<forall>j \<in> set js. has_revision C j"
  shows "\<exists>h. fold_opt (\<lambda>j h. allo_delta_insert C h j) js statehistory_new = Some h \<and> ring_holds C js h"
  using assms
proof (induction js rule: rev_induct)
  case Nil
  then show ?case by (simp add: ring_holds_def statehistory_new_def)
next
  case (snoc j js)
  then obtain h where "fold_opt (\<lambda>j h. allo_delta_insert C h j) js statehistory_new = Some h" "ring_holds C js h"
    by (auto simp: sorted_wrt_append)
  moreover obtain h' where "allo_delta_insert C h j = Some h'" "ring_holds C (js @ [j]) h'"
    using ring_step [OF \<open>ring_holds C js h\<close>, of j] snoc.prems by (auto simp: sorted_wrt_append)
  ultimately show ?case by (simp add: fold_opt_append)
qed

text \<open>
  C25. Inserting states of growing revisions never fails, and afterwards each of them that is less than 64
  revisions older than the newest is what a lookup of its revision returns, the newest among them.
\<close>

theorem history_remembers:
  assumes "sorted_wrt (\<lambda>i j. rev_of C i < rev_of C j) js" and "\<forall>j \<in> set js. has_revision C j" and "js \<noteq> []"
  shows "\<exists>h. fold_opt (\<lambda>j h. allo_delta_insert C h j) js statehistory_new = Some h \<and>
    statehistory_get_latest h = Some (State (last js)) \<and>
    (\<forall>j \<in> set js. rev_of C (last js) - rev_of C j < 64 \<longrightarrow> statehistory_get h (rev_of C j) = Some (State j))"
proof -
  obtain h where h: "fold_opt (\<lambda>j h. allo_delta_insert C h j) js statehistory_new = Some h" "ring_holds C js h"
    using ring_of_inserts [OF assms(1,2)] by blast
  have get: "statehistory_get h (rev_of C j) = Some (State j)"
    if "j \<in> set js" and "rev_of C (last js) - rev_of C j < 64" for j
    using that h(2) assms(2,3) by (auto simp: ring_holds_def statehistory_get_def slot_index_nonneg has_revision_def)
  moreover have "statehistory_get_latest h = statehistory_get h (rev_of C (last js))"
    using h(2) assms(3) by (simp add: ring_holds_def statehistory_get_latest_def)
  ultimately show ?thesis using h(1) assms(3) by auto
qed

definition sample_state :: "rat \<Rightarrow> json" where
  "sample_state r = jobj [(''revision'', jnum r)]"

lemma sample_state_revision [simp]: "rev_of json_ops (sample_state r) = (if 0 \<le> r then \<lfloor>r\<rfloor> else - \<lfloor>- r\<rfloor>)"
  "GetObjectItemCS json_ops (sample_state r) ''revision'' = Some (jnum r)"
  by (simp_all add: rev_of_def revision_of_def cjson_get_int64_value_def sample_state_def json_defs)

theorem history_remembers_witness:
  "\<exists>h. fold_opt (\<lambda>j h. allo_delta_insert json_ops h j) [sample_state 1, sample_state 5, sample_state 65] statehistory_new = Some h
    \<and> statehistory_get h 5 = Some (State (sample_state 5))"
  using history_remembers [of json_ops "[sample_state 1, sample_state 5, sample_state 65]"]
  by (fastforce simp: has_revision_def)

section \<open>From an old state to the latest\<close>

text \<open>
  What is relied on of merge patches and of the printer: applied to the old state, the patch and every
  object with the same members make a state that is the \<open>same\<close> as the latest, and what was printed
  is parsed to an object with the same members.
\<close>

definition patches_to :: "'j delta_env \<Rightarrow> ('j \<Rightarrow> 'j \<Rightarrow> bool) \<Rightarrow> 'j \<Rightarrow> 'j \<Rightarrow> 'j \<Rightarrow> bool" where
  "patches_to D same old patch latest \<longleftrightarrow> IsObject (dj D) patch \<and>
     GetObjectItem (dj D) patch ''patch_style'' = None \<and> GetObjectItem (dj D) patch ''patch_from'' = None \<and>
     (\<forall>q. IsObject (dj D) q \<and> chain (dj D) q = chain (dj D) patch \<longrightarrow> same (merge_patch D old q) latest)"

definition parses :: "'j delta_env \<Rightarrow> (string \<Rightarrow> 'j) \<Rightarrow> 'j \<Rightarrow> bool" where
  "parses D parse q \<longleftrightarrow> chain (dj D) (parse (print_unformatted D q)) = chain (dj D) q \<and>
     IsObject (dj D) (parse (print_unformatted D q)) = IsObject (dj D) q"

definition sent_patch :: "'j cjson \<Rightarrow> 'j \<Rightarrow> int \<Rightarrow> 'j" where
  "sent_patch C patch r = AddItemToObject C
     (AddItemToObject C patch ''patch_style'' (CreateString C ''merge'')) ''patch_from'' (CreateNumber C (of_int r))"

lemma patch_keys_apart [simp]: "\<not> same_key ''patch_style'' ''patch_from''" "\<not> same_key ''patch_from'' ''patch_style''"
  by (simp_all add: same_key_def)

lemma assoc_delete_append:
  "assoc p kvs = None \<Longrightarrow> assoc_delete p (kvs @ kvs') = kvs @ assoc_delete p kvs'"
  by (induction kvs) (auto split: if_splits)

context cjson_lib begin

lemma unpack_sent_patch:
  assumes "GetObjectItem C p ''patch_style'' = None" "GetObjectItem C p ''patch_from'' = None"
    and "chain C q = chain C (sent_patch C p r)"
  shows "GetObjectItem C q ''patch_style'' = Some (CreateString C ''merge'')"
    and "GetObjectItem C (DeleteItemFromObject C q ''patch_style'') ''patch_from'' = Some (CreateNumber C (of_int r))"
    and "chain C (DeleteItemFromObject C (DeleteItemFromObject C q ''patch_style'') ''patch_from'') = chain C p"
  using assms
  by (simp_all add: object_law delete_object_law add_object_law sent_patch_def assoc_append assoc_delete_append)

end

text \<open>
  The cache and the history of a server that has one history: states of growing revisions are inserted, and
  deltas are computed, in any order and from any revisions. Deleting what was just added gives back
  the object (\<open>takes_back\<close>), as \<open>cJSON\<close> adds at the end.
\<close>

definition takes_back :: "'j cjson \<Rightarrow> bool" where
  "takes_back C \<longleftrightarrow> (\<forall>j k v. GetObjectItem C j k = None \<longrightarrow> DeleteItemFromObject C (AddItemToObject C j k v) k = j)"

inductive serving :: "'j delta_env \<Rightarrow> diffcache \<Rightarrow> 'j statehistory \<Rightarrow> bool" for D where
  starts: "serving D (replicate 64 None) statehistory_new"
| inserts: "serving D cache hs'"
    if "serving D cache hs" and "allo_delta_insert (dj D) hs j = Some hs'"
      and "latest_revision hs < rev_of (dj D) j" and "GetObjectItem (dj D) j ''patch_style'' = None"
| computes: "serving D cache' hs'"
    if "serving D cache hs" and "allo_delta_compute D cache hs r = Some (text, cache', hs')"

text \<open>An entry of the newest revision is the patch from the state that is in the history under its old one.\<close>

definition patch_text :: "'j delta_env \<Rightarrow> 'j statehistory \<Rightarrow> int \<Rightarrow> string \<Rightarrow> bool" where
  "patch_text D hs r text \<longleftrightarrow>
     (\<forall>old latest. statehistory_get hs r = Some (State old) \<and> rev_of (dj D) old = r \<and>
        statehistory_get_latest hs = Some (State latest) \<longrightarrow>
        (\<exists>patch. gen_patch D (Some old) latest = Some patch \<and> text = print_unformatted D (sent_patch (dj D) patch r)))"

definition cache_right :: "'j delta_env \<Rightarrow> diffcache \<Rightarrow> 'j statehistory \<Rightarrow> bool" where
  "cache_right D cache hs \<longleftrightarrow> length cache = 64 \<and> length (history hs) = 64 \<and>
     (\<forall>latest. statehistory_get_latest hs = Some (State latest) \<longrightarrow> GetObjectItem (dj D) latest ''patch_style'' = None) \<and>
     (\<forall>f t text. Some (f, t, text) \<in> set cache \<longrightarrow>
        t \<le> latest_revision hs \<and> (t = latest_revision hs \<longrightarrow> patch_text D hs f text))"

lemma slot_index_less: "slot_index r = Some i \<Longrightarrow> i < 64"
  by (auto simp: slot_index_def allo_statehistory_length_def split: if_splits)

lemma cache_right_insert:
  assumes "cache_right D cache hs" and "allo_delta_insert (dj D) hs j = Some hs'"
    and "latest_revision hs < rev_of (dj D) j" and "GetObjectItem (dj D) j ''patch_style'' = None"
  shows "cache_right D cache hs'"
proof -
  obtain i where i: "slot_index (rev_of (dj D) j) = Some i"
      and hs': "hs' = \<lparr>history = (history hs)[i := State j], latest_revision = rev_of (dj D) j\<rparr>"
    using assms(2) by (auto simp: allo_delta_insert_def Let_def rev_of_def split: if_splits option.splits slot.splits)
  then show ?thesis using assms(1,3,4) slot_index_less [OF i]
    by (fastforce simp: cache_right_def statehistory_get_latest_def statehistory_get_def)
qed

text \<open>
  What a computation returns and keeps is the text of a full state, or of a patch, or what the cache had.
\<close>

lemma compute_result:
  assumes "takes_back (dj D)" and right: "cache_right D cache hs"
    and "allo_delta_compute D cache hs r = Some (text, cache', hs')"
  shows "hs' = hs \<and> patch_text D hs r text \<and> (cache' = cache \<or> (\<exists>i. cache' = cache[i := Some (r, latest_revision hs, text)]))"
proof -
  from assms(3) obtain s old i l where s: "statehistory_get_latest hs = Some s" "s \<noteq> Empty"
      and old: "Option.bind (statehistory_get hs r) slot_state = Some old"
      and i: "slot_index r = Some i" and l: "slot_index (latest_revision hs) = Some l"
    by (auto simp: allo_delta_compute_def Let_def split: option.splits if_splits)
  note run = assms(3) [unfolded allo_delta_compute_def Let_def s(1) old i l, simplified, folded rev_of_def]
  show ?thesis
  proof (cases "cached (cache ! i) r (latest_revision hs)")
    case (Some json)
    then have "cache ! i = Some (r, latest_revision hs, json)"
      by (cases "(cache ! i, r, latest_revision hs)" rule: cached.cases) (auto split: if_splits)
    moreover have "i < length cache" using right slot_index_less [OF i] by (simp add: cache_right_def)
    ultimately have "patch_text D hs r json" using right by (metis cache_right_def nth_mem)
    then show ?thesis using run Some s(2) by auto
  next
    case None
    with run s(2) obtain latest where latest: "s = State latest" by (cases s) auto
    have at: "history hs ! l = State latest" using s(1) latest l
      by (simp add: statehistory_get_latest_def statehistory_get_def)
    have "GetObjectItem (dj D) latest ''patch_style'' = None" using right s(1) latest by (simp add: cache_right_def)
    then have restored: "DeleteItemFromObject (dj D) (AddItemToObject (dj D) latest ''patch_style'' v) ''patch_style'' = latest" for v
      using assms(1) by (simp add: takes_back_def)
    have keep: "hs\<lparr>history := (history hs)[l := State latest]\<rparr> = hs"
      using list_update_id [of "history hs" l] by (simp add: at)
    show ?thesis
    proof (cases "old = None \<or> revision_of (dj D) old \<noteq> r")
      case True
      then have "patch_text D hs r t" for t
        using old by (auto simp: patch_text_def slot_state_def rev_of_def)
      then show ?thesis using run None latest True restored keep by auto
    next
      case False
      then have patch_text: "patch_text D hs r (print_unformatted D (sent_patch (dj D) patch r))"
        if "gen_patch D old latest = Some patch" for patch
        using that old s(1) latest by (auto simp: patch_text_def slot_state_def)
      with run None latest False show ?thesis
        by (auto simp: allo_delta_compute_cjson_def sent_patch_def split: option.splits)
    qed
  qed
qed

lemma cache_right_compute:
  assumes "takes_back (dj D)" and "cache_right D cache hs" and "allo_delta_compute D cache hs r = Some (text, cache', hs')"
  shows "cache_right D cache' hs'"
  using compute_result [OF assms] assms(2) set_update_subset_insert [of cache _ "Some (r, latest_revision hs, text)"]
  by (auto simp: cache_right_def) (blast dest: subsetD)+

lemma serving_cache_right:
  assumes "serving D cache hs" and "takes_back (dj D)"
  shows "cache_right D cache hs"
  using assms(1)
proof induction
  case starts
  have "statehistory_get_latest statehistory_new = Some (Empty :: 'a slot)"
    by (simp add: statehistory_get_latest_def statehistory_get_def slot_index_nonneg statehistory_new_def)
  then show ?case by (simp add: cache_right_def statehistory_new_def)
qed (blast intro: cache_right_insert cache_right_compute [OF assms(2)])+

text \<open>
  C6. On a server that has served one history from its start, with any cache that the states inserted and the
  deltas computed so far have left, a client that has the server's state of revision \<open>r\<close> and applies
  the text computed for it gets a state that is the same as the server's latest one, and its history
  ends with it, under the same revision. This relies on a library of patches that is right and on a
  parser that reads what was printed; with a second history it can fail (\<open>delta_cache_shared\<close>).
\<close>

theorem delta_roundtrip:
  assumes "cjson_lib (dj D)" "takes_back (dj D)"
    and server: "serving D cache hs"
      "statehistory_get_latest hs = Some (State latest)" "statehistory_get hs r = Some (State old)"
      "rev_of (dj D) old = r"
    and patch: "gen_patch D (Some old) latest = Some patch" "patches_to D same old patch latest"
      "parses D parse (sent_patch (dj D) patch r)"
    and same: "\<And>x. same x latest \<Longrightarrow> has_revision (dj D) x \<and> rev_of (dj D) x = latest_revision hs"
    and client: "statehistory_get hc r = Some (State old)" "statehistory_get_latest hc \<noteq> None"
      "length (history hc) = 64" "Freed \<notin> set (history hc)"
  shows "\<exists>text cache' s hc'. allo_delta_compute D cache hs r = Some (text, cache', hs) \<and>
    allo_delta_apply D handler None (parse text) (hc, u) = Some (Some s, hc', u) \<and> same s latest \<and>
    statehistory_get_latest hc' = Some (State s) \<and> latest_revision hc' = latest_revision hs"
proof -
  let ?C = "dj D" and ?q = "sent_patch (dj D) patch r"
  let ?text = "print_unformatted D ?q"
  let ?j1 = "DeleteItemFromObject ?C (parse ?text) ''patch_style''"
  let ?j2 = "DeleteItemFromObject ?C ?j1 ''patch_from''"
  let ?s = "merge_patch D old ?j2"
  obtain i l where "slot_index r = Some i" and "slot_index (latest_revision hs) = Some l"
    using server(2,3) by (auto simp: statehistory_get_latest_def statehistory_get_def)
  then have "allo_delta_compute D cache hs r \<noteq> None" using server(2-4) patch(1)
    by (auto simp: allo_delta_compute_def allo_delta_compute_cjson_def slot_state_def rev_of_def Let_def split: option.split)
  then obtain sent cache' hs' where run: "allo_delta_compute D cache hs r = Some (sent, cache', hs')" by auto
  from compute_result [OF assms(2) serving_cache_right [OF server(1) assms(2)] run] server(2-4) patch(1)
  have "hs' = hs" "sent = ?text" by (simp_all add: patch_text_def)
  with run have compute: "allo_delta_compute D cache hs r = Some (?text, cache', hs)" by simp
  have parsed: "chain ?C (parse ?text) = chain ?C ?q" "IsObject ?C (parse ?text) = IsObject ?C ?q"
    using patch(3) by (simp_all add: parses_def)
  have keys: "GetObjectItem ?C patch ''patch_style'' = None" "GetObjectItem ?C patch ''patch_from'' = None"
    using patch(2) by (simp_all add: patches_to_def)
  note unpack = cjson_lib.unpack_sent_patch [OF assms(1) keys parsed(1)]
  have "IsObject ?C ?j2"
    using patch(2) parsed(2) by (simp add: cjson_lib.object_kind [OF assms(1)] sent_patch_def patches_to_def)
  then have s: "same ?s latest" using patch(2) unpack(3) by (auto simp: patches_to_def)
  let ?hc = "\<lparr>history = (history hc)[nat (rev_of ?C ?s mod 64) := State ?s], latest_revision = rev_of ?C ?s\<rparr>"
  have insert: "allo_delta_insert ?C hc ?s = Some ?hc" using insert_into_ring [OF client(3,4)] same [OF s] by blast
  have "cjson_get_int64_value ?C (Some (CreateNumber ?C (of_int r))) = r"
    using assms(1) by (auto simp: cjson_get_int64_value_def cjson_lib.number_law simp flip: of_int_minus)
  then have "allo_delta_apply D handler None (parse ?text) (hc, u) = Some (Some ?s, ?hc, u)"
    using client(1,2) server(4) insert unpack
    by (auto simp: allo_delta_apply_def Let_def string_value_def cjson_lib.string_law [OF assms(1)] slot_state_def
        rev_of_def delta_handled_def)
  moreover have "statehistory_get_latest ?hc = Some (State ?s)"
    using same [OF s] client(3)
    by (simp add: statehistory_get_latest_def statehistory_get_def has_revision_def slot_index_nonneg)
  ultimately show ?thesis using compute s same [OF s] by auto
qed

text \<open>A concrete case: a counter goes from one to two, in an object that has nothing else.\<close>

fun json_merge :: "json \<Rightarrow> json \<Rightarrow> json" where
  "json_merge old q = with_kids old (\<lambda>kvs. fold (\<lambda>(k, v). assoc_put ((=) k) v) (kids q) kvs)"

definition sample_delta_env :: "json delta_env" where
  "sample_delta_env = \<lparr>dj = json_ops, gen_patch = (\<lambda>old new. Some new), merge_patch = json_merge,
     print_unformatted = (\<lambda>j. ''text'')\<rparr>"

lemma json_takes_back: "takes_back json_ops"
  unfolding takes_back_def
proof (intro allI impI)
  fix j k v
  assume "GetObjectItem json_ops j k = None"
  then show "DeleteItemFromObject json_ops (AddItemToObject json_ops j k v) k = j"
    by (cases j) (simp add: json_defs assoc_delete_append same_key_def)
qed

theorem delta_roundtrip_witness:
  "\<exists>text cache' s hc'. allo_delta_compute sample_delta_env (replicate 64 None)
      \<lparr>history = [Empty, State (sample_state 1), State (sample_state 2)] @ replicate 61 Empty, latest_revision = 2\<rparr> 1 =
      Some (text, cache', \<lparr>history = [Empty, State (sample_state 1), State (sample_state 2)] @ replicate 61 Empty, latest_revision = 2\<rparr>) \<and>
    allo_delta_apply sample_delta_env (\<lambda>_ _ _. Some) None (sent_patch json_ops (sample_state 2) 1)
      (\<lparr>history = [Empty, State (sample_state 1)] @ replicate 62 Empty, latest_revision = 1\<rparr>, ()) = Some (Some s, hc', ()) \<and>
    s = sample_state 2 \<and> statehistory_get_latest hc' = Some (State s) \<and> latest_revision hc' = 2"
proof -
  have "patches_to sample_delta_env (\<lambda>x y. x = y) (sample_state 1) (sample_state 2) (sample_state 2)"
    by (auto simp: patches_to_def sample_delta_env_def sample_state_def json_defs same_key_def)
  moreover have "parses sample_delta_env (\<lambda>_. sent_patch json_ops (sample_state 2) 1) (sent_patch json_ops (sample_state 2) 1)"
    by (simp add: parses_def sample_delta_env_def)
  moreover have "rev_of json_ops (sample_state 1) = 1" "has_revision json_ops (sample_state 2)" "rev_of json_ops (sample_state 2) = 2"
    by (simp_all add: has_revision_def)
  moreover have "takes_back json_ops" by (rule json_takes_back)
  moreover have "serving sample_delta_env (replicate 64 None)
      \<lparr>history = [Empty, State (sample_state 1), State (sample_state 2)] @ replicate 61 Empty, latest_revision = 2\<rparr>"
  proof -
    have style: "GetObjectItem json_ops (sample_state q) ''patch_style'' = None" for q
      by (simp add: sample_state_def json_defs same_key_def)
    have new: "length (history statehistory_new) = 64" "Freed \<notin> set (history statehistory_new)"
        "latest_revision statehistory_new = 0"
      by (simp_all add: statehistory_new_def)
    have env: "dj sample_delta_env = json_ops" by (simp add: sample_delta_env_def)
    have inserted: "serving sample_delta_env (replicate 64 None) (h\<lparr>history := (history h)[nat (\<lfloor>r\<rfloor> mod 64) := State (sample_state r)], latest_revision := \<lfloor>r\<rfloor>\<rparr>)"
      if "serving sample_delta_env (replicate 64 None) h" "length (history h) = 64" "Freed \<notin> set (history h)"
        "latest_revision h < \<lfloor>r\<rfloor>" "0 \<le> r" for h and r :: rat
      using that insert_into_ring [of h json_ops "sample_state r"]
      by (intro serving.inserts [OF that(1), where j = "sample_state r"]) (simp_all add: env style has_revision_def)
    from inserted [OF serving.starts new(1,2), of 1]
    have one: "serving sample_delta_env (replicate 64 None)
        \<lparr>history = [Empty, State (sample_state 1)] @ replicate 62 Empty, latest_revision = 1\<rparr>"
      by (simp add: statehistory_new_def numeral_eq_Suc)
    from inserted [OF one, of 2] show ?thesis by (simp add: numeral_eq_Suc)
  qed
  ultimately show ?thesis
    using delta_roundtrip [of sample_delta_env "replicate 64 None"
        "\<lparr>history = [Empty, State (sample_state 1), State (sample_state 2)] @ replicate 61 Empty, latest_revision = 2\<rparr>"
        "sample_state 2" 1 "sample_state 1" "sample_state 2" "\<lambda>x y. x = y"
        "\<lambda>_. sent_patch json_ops (sample_state 2) 1"
        "\<lparr>history = [Empty, State (sample_state 1)] @ replicate 62 Empty, latest_revision = 1\<rparr>" "\<lambda>_ _ _. Some" "()"]
      json.cjson_lib_axioms
    by (simp add: statehistory_get_latest_def statehistory_get_def slot_index_nonneg)
      (simp add: sample_delta_env_def)
qed

text \<open>
  A patch from a revision the client does not have is refused: the result is null, and neither the
  history nor the caller's data change.
\<close>

theorem unknown_patch_refused:
  assumes "string_value (dj D) (GetObjectItem (dj D) delta ''patch_style'') = Some style"
    and "GetObjectItem (dj D) (DeleteItemFromObject (dj D) delta ''patch_style'') ''patch_from'' = Some from_json"
    and "Option.bind (statehistory_get h (cjson_get_int64_value (dj D) (Some from_json))) slot_state = Some current"
    and "current = None \<or> revision_of (dj D) current \<noteq> cjson_get_int64_value (dj D) (Some from_json)"
    and "statehistory_get_latest h \<noteq> None"
  shows "allo_delta_apply D handler diff delta (h, u) = Some (None, h, u)"
  using assms by (auto simp: allo_delta_apply_def Let_def)

theorem unknown_patch_refused_witness:
  "allo_delta_apply sample_delta_env (\<lambda>_ _ _. Some) None (sent_patch json_ops (sample_state 2) 1) (statehistory_new, ()) =
    Some (None, statehistory_new, ())"
  by (rule unknown_patch_refused [where style = "''merge''" and from_json = "jnum 1" and current = None])
    (simp_all add: sample_delta_env_def sent_patch_def sample_state_def json_defs same_key_def string_value_def
      cjson_get_int64_value_def statehistory_get_def statehistory_get_latest_def statehistory_new_def slot_index_nonneg
      slot_state_def)

section \<open>What is reported of a delta\<close>

text \<open>The references of the components a delta adds, updates and deletes, as comprehensions over its entities.\<close>

definition entity_deleted :: "'j cjson \<Rightarrow> string \<times> 'j \<Rightarrow> bool" where
  "entity_deleted C e \<longleftrightarrow> IsNull C (snd e)"

definition entity_added :: "'j cjson \<Rightarrow> 'j option \<Rightarrow> string \<times> 'j \<Rightarrow> bool" where
  "entity_added C existing e \<longleftrightarrow> \<not> entity_deleted C e \<and> get_cs C existing (fst e) = None"

definition entity_changed :: "'j cjson \<Rightarrow> 'j option \<Rightarrow> string \<times> 'j \<Rightarrow> bool" where
  "entity_changed C existing e \<longleftrightarrow> \<not> entity_deleted C e \<and> get_cs C existing (fst e) \<noteq> None"

definition comps_of :: "'j cjson \<Rightarrow> 'j option \<Rightarrow> (string \<times> 'j) list" where
  "comps_of C e = chain_of C (get_cs C e ''components'')"

definition changed_ref :: "'j cjson \<Rightarrow> 'j option \<Rightarrow> 'j option \<Rightarrow> string \<Rightarrow> string \<times> 'j \<Rightarrow> 'j component_ref" where
  "changed_ref C existing newstate i p = \<lparr>ref_eid = i, ref_name = fst p,
     olddata = get_cs C (get_cs C (get_cs C existing i) ''components'') (fst p),
     newdata = get_cs C (get_cs C (get_cs C newstate i) ''components'') (fst p)\<rparr>"

definition updated_refs :: "'j cjson \<Rightarrow> 'j option \<Rightarrow> 'j option \<Rightarrow> string \<times> 'j \<Rightarrow> 'j component_ref list" where
  "updated_refs C existing newstate e =
     (if entity_changed C existing e
      then map (changed_ref C existing newstate (fst e))
             (filter (\<lambda>p. \<not> IsNull C (snd p) \<and> get_cs C (get_cs C (get_cs C existing (fst e)) ''components'') (fst p) \<noteq> None)
               (comps_of C (Some (snd e))))
      else [])"

definition added_refs :: "'j cjson \<Rightarrow> 'j option \<Rightarrow> 'j option \<Rightarrow> string \<times> 'j \<Rightarrow> 'j component_ref list" where
  "added_refs C existing newstate e =
     (if entity_added C existing e
      then map (\<lambda>(n, c). \<lparr>ref_eid = fst e, ref_name = n, olddata = None, newdata = Some c\<rparr>) (comps_of C (Some (snd e)))
      else if entity_changed C existing e
      then map (changed_ref C existing newstate (fst e))
             (filter (\<lambda>p. \<not> IsNull C (snd p) \<and> get_cs C (get_cs C (get_cs C existing (fst e)) ''components'') (fst p) = None)
               (comps_of C (Some (snd e))))
      else [])"

definition deleted_refs :: "'j cjson \<Rightarrow> 'j option \<Rightarrow> 'j option \<Rightarrow> string \<times> 'j \<Rightarrow> 'j component_ref list" where
  "deleted_refs C existing newstate e =
     (if entity_deleted C e
      then map (\<lambda>(n, c). \<lparr>ref_eid = fst e, ref_name = n, olddata = Some c, newdata = None\<rparr>)
             (comps_of C (get_cs C existing (fst e)))
      else if entity_changed C existing e
      then map (changed_ref C existing newstate (fst e)) (filter (\<lambda>p. IsNull C (snd p)) (comps_of C (Some (snd e))))
      else [])"

definition extend_diff ::
  "'j cjson \<Rightarrow> 'j option \<Rightarrow> 'j option \<Rightarrow> (string \<times> 'j) list \<Rightarrow> 'j state_diff \<Rightarrow> 'j state_diff" where
  "extend_diff C existing newstate es d = \<lparr>
     new_entities = new_entities d @ map fst (filter (entity_added C existing) es),
     deleted_entities = deleted_entities d @ map fst (filter (entity_deleted C) es),
     new_components = new_components d @ concat (map (added_refs C existing newstate) es),
     updated_components = updated_components d @ concat (map (updated_refs C existing newstate) es),
     deleted_components = deleted_components d @ concat (map (deleted_refs C existing newstate) es)\<rparr>"

lemma fold_mark_updated:
  "fold (mark_updated_entity C i (get_cs C (get_cs C existing i) ''components'') (get_cs C (get_cs C newstate i) ''components''))
     ps d = d\<lparr>
     new_components := new_components d @ map (changed_ref C existing newstate i)
       (filter (\<lambda>p. \<not> IsNull C (snd p) \<and> get_cs C (get_cs C (get_cs C existing i) ''components'') (fst p) = None) ps),
     updated_components := updated_components d @ map (changed_ref C existing newstate i)
       (filter (\<lambda>p. \<not> IsNull C (snd p) \<and> get_cs C (get_cs C (get_cs C existing i) ''components'') (fst p) \<noteq> None) ps),
     deleted_components := deleted_components d @ map (changed_ref C existing newstate i)
       (filter (\<lambda>p. IsNull C (snd p)) ps)\<rparr>"
  by (induction ps arbitrary: d) (simp_all add: mark_updated_entity_def changed_ref_def Let_def)

lemma mark_entity_extends:
  "mark_entity C existing newstate e d = extend_diff C existing newstate [e] d"
  by (simp add: mark_entity_def Let_def fold_mark_updated extend_diff_def entity_added_def entity_deleted_def
      entity_changed_def added_refs_def updated_refs_def deleted_refs_def comps_of_def)

text \<open>
  Of a delta the entities and components that are new, changed and gone are reported in order, each
  in the one list it belongs to: an entity that is null in the delta is gone with all its components,
  one that did not exist is new with all of its, and of the others a component that is null is gone,
  one that did not exist is new, and the rest are updated.
\<close>

theorem changes_reported_once:
  "entity_changes C current newstate delta d =
    extend_diff C (get_cs C current ''entities'') (GetObjectItemCS C newstate ''entities'')
      (chain_of C (GetObjectItemCS C delta ''entities'')) d"
proof -
  have "fold (mark_entity C existing ns) es d = extend_diff C existing ns es d" for existing ns es
  proof (induction es arbitrary: d)
    case Nil
    then show ?case by (simp add: extend_diff_def)
  next
    case (Cons e es)
    then show ?case by (simp add: mark_entity_extends) (simp add: extend_diff_def)
  qed
  then show ?thesis by (simp add: entity_changes_def)
qed

section \<open>Two ways past the checks\<close>

text \<open>
  The revision comes from the intent a client sends. A negative one that is not a multiple of 64
  indexes the history before its start.
\<close>

theorem negative_revision_out_of_bounds:
  assumes "r < 0" and "r mod 64 \<noteq> 0"
  shows "allo_delta_compute D cache h r = None"
proof -
  have "slot_index r = None" using assms by (simp add: slot_index_def allo_statehistory_length_def)
  then show ?thesis by (simp add: allo_delta_compute_def statehistory_get_def Let_def split: option.split)
qed

theorem negative_revision_out_of_bounds_witness:
  "allo_delta_compute sample_delta_env (replicate 64 None) statehistory_new (- 1) = None"
  by (rule negative_revision_out_of_bounds) simp_all

text \<open>
  The cache of computed deltas is not part of the history: asked for the same step of revisions in a
  second history, the function returns the text of the first one.
\<close>

theorem delta_cache_shared:
  assumes "allo_delta_compute D cache h1 r = Some (text, cache', h1')" and "length cache = 64"
    and "statehistory_get_latest h2 = Some s" "s \<noteq> Empty" "latest_revision h2 = latest_revision h1"
    and "Option.bind (statehistory_get h2 r) slot_state \<noteq> None"
  shows "allo_delta_compute D cache' h2 r = Some (text, cache', h2)"
proof -
  obtain old2 where old2: "Option.bind (statehistory_get h2 r) slot_state = Some old2" using assms(6) by auto
  obtain i where i: "slot_index r = Some i"
    using old2 by (cases "slot_index r") (auto simp: statehistory_get_def)
  obtain l where l: "slot_index (latest_revision h1) = Some l"
    using assms(3,5) by (auto simp: statehistory_get_latest_def statehistory_get_def)
  have "i < length cache" using i assms(2) by (auto simp: slot_index_def allo_statehistory_length_def split: if_splits)
  then have "cached (cache' ! i) r (latest_revision h1) = Some text"
    using assms(1) by (auto simp: allo_delta_compute_def i l Let_def split: option.splits if_splits slot.splits)
  then show ?thesis using assms(3-5) old2 i l by (simp add: allo_delta_compute_def Let_def)
qed

theorem delta_cache_shared_witness:
  "\<exists>text cache'. allo_delta_compute sample_delta_env (replicate 64 None)
      \<lparr>history = [State (sample_state 0)] @ replicate 63 Empty, latest_revision = 0\<rparr> 0 =
      Some (text, cache', \<lparr>history = [State (sample_state 0)] @ replicate 63 Empty, latest_revision = 0\<rparr>) \<and>
    allo_delta_compute sample_delta_env cache'
      \<lparr>history = [State (jobj [])] @ replicate 63 Empty, latest_revision = 0\<rparr> 0 =
      Some (text, cache', \<lparr>history = [State (jobj [])] @ replicate 63 Empty, latest_revision = 0\<rparr>)"
proof -
  let ?h = "\<lambda>j. \<lparr>history = [State j] @ replicate 63 Empty, latest_revision = 0\<rparr>"
  obtain sent cache' where first: "allo_delta_compute sample_delta_env (replicate 64 None) (?h (sample_state 0)) 0 =
      Some (sent, cache', ?h (sample_state 0))"
    by (simp add: allo_delta_compute_def allo_delta_compute_cjson_def sample_delta_env_def statehistory_get_latest_def
        statehistory_get_def slot_index_nonneg slot_state_def Let_def rev_of_def [symmetric])
  from delta_cache_shared [OF this, of "?h (jobj [])" "State (jobj [])"] this show ?thesis
    by (auto simp: statehistory_get_latest_def statehistory_get_def slot_index_nonneg slot_state_def)
qed

end
