(* ===== verification/Client.thy ===== *)
theory Client
  imports Delta Intent Server
begin

text \<open>
  The client of \<^verbatim>\<open>src/client/client.c\<close>: the packets of each channel, applying state deltas to its own
  copy of the place, intents, interactions, the clock, assets, connecting and disconnecting. ENet and
  the media tracks are outside the model: a packet sent, a callback called and a call into the media
  code are recorded with their arguments, in order. \<open>None\<close> is a failed assertion, the use of a null
  pointer or of freed memory.
\<close>

section \<open>State\<close>

definition alloerror_connection_lost :: int where "alloerror_connection_lost = 1000"
definition alloerror_initialization_failure :: int where "alloerror_initialization_failure = 1002"
definition alloerror_failed_to_connect :: int where "alloerror_failed_to_connect = 1004"

datatype 'j client_call =
  State_changed "'j allo_state" "'j state_diff"
| Interaction_received allo_interaction
| Disconnected int "string option"
| Asset_bytes_requested string size_t size_t
| Asset_received string "u8 list" size_t size_t size_t
| Asset_state_changed "string option" asset_state
| Raw_state_delta 'j
| Clock_changed rat rat
| Media_statediff "'j state_diff"
| Media_packet "u8 list"

record ('j, 's) alloclient =
  place :: "'j allo_state"
  clock_latency :: rat
  clock_deltaToServer :: rat
  connection :: "peer option"
  latest_intent :: client_intent
  latest_intent_ts :: int
  latest_clockreq_ts :: int
  avatar_id :: "string option"
  states :: "'j statehistory"
  client_assets :: 's
  sent_packets :: "(nat \<times> u8 list) list"
  client_calls :: "'j client_call list"
  client_rates :: "nat \<Rightarrow> bitrate_data"
  deallocated :: bool

text \<open>Which of the callbacks the user has set.\<close>

record client_callbacks =
  wants_state :: bool
  wants_interaction :: bool
  wants_disconnected :: bool
  wants_asset_request_bytes :: bool
  wants_asset_receive :: bool
  wants_asset_state :: bool
  wants_raw_state_delta :: bool
  wants_clock :: bool

text \<open>
  The environment: JSON, its printer and parsers, the asset store, whether ENet takes a packet, and the
  two clocks (\<open>get_ts_mono\<close> in milliseconds, \<open>get_ts_monod\<close> in seconds).
\<close>

record ('j, 's) client_env =
  ce_delta :: "'j delta_env"
  ce_print :: "'j \<Rightarrow> string"
  ce_parse :: "string \<Rightarrow> 'j option"
  ce_parse_bytes :: "u8 list \<Rightarrow> 'j option \<times> nat"
  ce_store :: "'s store_api"
  ce_callbacks :: client_callbacks
  ce_accepts :: bool
  ce_can_malloc :: "size_t \<Rightarrow> bool"
  ts_mono :: int
  ts_monod :: rat
  protocol_version :: int

definition ce_json :: "('j, 's) client_env \<Rightarrow> 'j cjson" where
  "ce_json E = dj (ce_delta E)"

definition text_bytes :: "string \<Rightarrow> u8 list" where
  "text_bytes s = map of_char s"

definition add_call :: "'j client_call \<Rightarrow> ('j, 's) alloclient \<Rightarrow> ('j, 's) alloclient" where
  "add_call c cl = cl\<lparr>client_calls := client_calls cl @ [c]\<rparr>"

definition call_if :: "bool \<Rightarrow> 'j client_call \<Rightarrow> ('j, 's) alloclient \<Rightarrow> ('j, 's) alloclient" where
  "call_if b c cl = (if b then add_call c cl else cl)"

text \<open>A log line looks into the client; writing one for a client that is gone is \<open>None\<close>.\<close>

definition client_log :: "('j, 's) alloclient \<Rightarrow> ('j, 's) alloclient option" where
  "client_log cl = (if deallocated cl then None else Some cl)"

section \<open>State deltas\<close>

definition alloclient_ack_rev :: "int \<Rightarrow> ('j, 's) alloclient \<Rightarrow> ('j, 's) alloclient" where
  "alloclient_ack_rev r cl = cl\<lparr>latest_intent := (latest_intent cl)\<lparr>ack_state_rev := word_of_int r\<rparr>,
     place := (place cl)\<lparr>revision := word_of_int r\<rparr>\<rparr>"

text \<open>The three loops of \<open>_handle_parsed_statediff\<close>: new entities, deleted ones, and the components of all.\<close>

fun insert_new_entities :: "string list \<Rightarrow> 'j allo_state \<Rightarrow> 'j allo_state" where
  "insert_new_entities [] st = st"
| "insert_new_entities (i # is) st =
     insert_new_entities is
       (st\<lparr>fresh_at := Suc (fresh_at st), entities := entity_create (fresh_at st) i # entities st\<rparr>)"

fun delete_entities :: "string list \<Rightarrow> 'j allo_state \<Rightarrow> 'j allo_state option" where
  "delete_entities [] st = Some st"
| "delete_entities (i # is) st =
     (case state_get_entity st (Some i) of
        None \<Rightarrow> None
      | Some e \<Rightarrow>
          delete_entities is (st\<lparr>entities := remove_first (\<lambda>f. entity_at f = entity_at e) (entities st)\<rparr>))"

fun update_components :: "'j cjson \<Rightarrow> 'j list \<Rightarrow> 'j allo_state \<Rightarrow> 'j allo_state option" where
  "update_components C [] st = Some st"
| "update_components C (edesc # edescs) st =
     (case GetObjectItemCS C edesc ''id'' of
        None \<Rightarrow> None
      | Some i \<Rightarrow>
          (case state_get_entity st (string_value C (Some i)) of
             None \<Rightarrow> None
           | Some e \<Rightarrow>
               update_components C edescs
                 (st\<lparr>entities := map (\<lambda>f. if entity_at f = entity_at e
                        then f\<lparr>components := GetObjectItemCS C edesc ''components''\<rparr> else f) (entities st)\<rparr>)))"

definition apply_statediff ::
  "'j cjson \<Rightarrow> 'j \<Rightarrow> 'j state_diff \<Rightarrow> 'j allo_state \<Rightarrow> 'j allo_state option" where
  "apply_statediff C staterep diff st =
     Option.bind (delete_entities (deleted_entities diff) (insert_new_entities (new_entities diff) st))
       (update_components C (case GetObjectItemCS C staterep ''entities'' of None \<Rightarrow> [] | Some es \<Rightarrow> items C es))"

definition handle_parsed_statediff ::
  "('j, 's) client_env \<Rightarrow> 'j \<Rightarrow> 'j option \<Rightarrow> 'j state_diff \<Rightarrow> ('j, 's) alloclient \<Rightarrow> ('j, 's) alloclient option" where
  "handle_parsed_statediff E cmd staterep diff cl =
     (case staterep of
        None \<Rightarrow> Some (cl\<lparr>latest_intent := (latest_intent cl)\<lparr>ack_state_rev := 0\<rparr>\<rparr>)
      | Some rep \<Rightarrow>
          (case GetObjectItemCS (ce_json E) rep ''revision'' of
             None \<Rightarrow> None
           | Some rj \<Rightarrow>
               (let cl1 = alloclient_ack_rev (sint (valueint (ce_json E) rj)) cl
                in case apply_statediff (ce_json E) rep diff (place cl1) of
                     None \<Rightarrow> None
                   | Some st \<Rightarrow>
                       (let cl2 = add_call (Media_statediff diff) (cl1\<lparr>place := st\<rparr>)
                        in Some (call_if (wants_state (ce_callbacks E)) (State_changed (place cl2) diff) cl2)))))"

definition alloclient_parse_statediff ::
  "('j, 's) client_env \<Rightarrow> 'j \<Rightarrow> ('j, 's) alloclient \<Rightarrow> (int \<times> ('j, 's) alloclient) option" where
  "alloclient_parse_statediff E cmd cl =
     (if wants_raw_state_delta (ce_callbacks E) then Some (0, add_call (Raw_state_delta cmd) cl)
      else case allo_delta_apply (ce_delta E) (\<lambda>cmd rep diff. handle_parsed_statediff E cmd (Some rep) diff)
                  (Some allo_state_diff_init) cmd (states cl, cl) of
             None \<Rightarrow> None
           | Some (staterep, h, cl') \<Rightarrow> Some (revision_of (ce_json E) staterep, cl'\<lparr>states := h\<rparr>))"

section \<open>Commands and the clock\<close>

text \<open>
  \<open>parse_interaction\<close>; \<open>strcmp\<close> of a null pointer is \<open>None\<close>, and so is calling a callback that is not
  set. The Boolean is false when the place has rejected the client.
\<close>

definition array_string :: "'j cjson \<Rightarrow> 'j \<Rightarrow> int \<Rightarrow> string option" where
  "array_string C j i = string_value C (GetArrayItem C j i)"

definition announced ::
  "('j, 's) client_env \<Rightarrow> 'j \<Rightarrow> ('j, 's) alloclient \<Rightarrow> (bool \<times> ('j, 's) alloclient) option" where
  "announced E body_json cl =
     (let C = ce_json E
      in case array_string C body_json 1 of
           None \<Rightarrow> None
         | Some s \<Rightarrow>
             if s = ''error''
             then (if number_value C (GetArrayItem C body_json 2) = None \<or> \<not> wants_disconnected (ce_callbacks E) then None
                   else Some (False, add_call (Disconnected (cjson_get_int64_value C (GetArrayItem C body_json 2))
                                                 (array_string C body_json 3)) cl))
             else Some (True, cl\<lparr>avatar_id := Some s\<rparr>))"

definition parse_interaction ::
  "('j, 's) client_env \<Rightarrow> 'j \<Rightarrow> ('j, 's) alloclient \<Rightarrow> (bool \<times> ('j, 's) alloclient) option" where
  "parse_interaction E inter_json cl =
     (let C = ce_json E
      in case (GetArrayItem C inter_json 1, GetArrayItem C inter_json 2, GetArrayItem C inter_json 3,
               GetArrayItem C inter_json 4, GetArrayItem C inter_json 5) of
           (Some t, Some from_json, Some to_json, Some request, Some body_json) \<Rightarrow>
             (case array_string C body_json 0 of
                None \<Rightarrow> None
              | Some verb \<Rightarrow>
                  (case (if verb = ''announce'' then announced E body_json cl else Some (True, cl)) of
                     None \<Rightarrow> None
                   | Some (False, cl') \<Rightarrow> Some (False, cl')
                   | Some (True, cl') \<Rightarrow>
                       Some (True, call_if (wants_interaction (ce_callbacks E))
                         (Interaction_received (allo_interaction_create (string_value C (Some t))
                            (string_value C (Some from_json)) (string_value C (Some to_json))
                            (string_value C (Some request)) (Some (ce_print E body_json)))) cl')))
         | _ \<Rightarrow> None)"

definition parse_command ::
  "('j, 's) client_env \<Rightarrow> 'j option \<Rightarrow> ('j, 's) alloclient \<Rightarrow> (bool \<times> ('j, 's) alloclient) option" where
  "parse_command E cmdrep cl =
     (case cmdrep of
        None \<Rightarrow> None
      | Some j \<Rightarrow>
          (case array_string (ce_json E) j 0 of
             None \<Rightarrow> None
           | Some cmdname \<Rightarrow> if cmdname = ''interaction'' then parse_interaction E j cl else Some (True, cl)))"

definition parse_clock :: "('j, 's) client_env \<Rightarrow> 'j option \<Rightarrow> ('j, 's) alloclient \<Rightarrow> ('j, 's) alloclient option" where
  "parse_clock E response cl =
     (let C = ce_json E
      in case (get_cs C response ''client_time'', get_cs C response ''server_time'') of
           (Some client_time, Some server) \<Rightarrow>
             (let now = ts_monod E;
                  roundtrip = now - valuedouble C client_time;
                  latency = roundtrip / 2;
                  delta = valuedouble C server + roundtrip - now
              in Some (call_if (wants_clock (ce_callbacks E)) (Clock_changed latency delta)
                   (cl\<lparr>clock_latency := latency, clock_deltaToServer := delta\<rparr>)))
         | _ \<Rightarrow> None)"

section \<open>Assets\<close>

text \<open>\<open>allo_enet_peer_send\<close> to the server, with the statistics it keeps.\<close>

definition client_peer_send ::
  "('j, 's) client_env \<Rightarrow> nat \<Rightarrow> u8 list \<Rightarrow> ('j, 's) alloclient \<Rightarrow> ('j, 's) alloclient option" where
  "client_peer_send E channel packet cl =
     (if connection cl = None then None
      else if \<not> ce_accepts E then Some cl
      else (let n = word_of_nat (length packet);
                r1 = (client_rates cl)(channel := bitrate_increment_sent (client_rates cl channel) n)
            in Some (cl\<lparr>sent_packets := sent_packets cl @ [(channel, packet)],
                        client_rates := r1(CHANNEL_COUNT := bitrate_increment_sent (r1 CHANNEL_COUNT) n)\<rparr>)))"

definition client_asset_send_func ::
  "('j, 's) client_env \<Rightarrow> u16 \<Rightarrow> 'j \<Rightarrow> u8 list \<Rightarrow> size_t \<Rightarrow> ('j, 's) alloclient \<Rightarrow> ('j, 's) alloclient option" where
  "client_asset_send_func E mid header data len cl =
     (if connection cl = None then Some cl
      else case asset_build_enet_packet (\<lambda>j. text_bytes (ce_print E j)) mid header data len of
             None \<Rightarrow> None
           | Some packet \<Rightarrow> client_peer_send E CHANNEL_ASSETS packet cl)"

definition client_asset_request_bytes_func ::
  "('j, 's) client_env \<Rightarrow> string \<Rightarrow> size_t \<Rightarrow> size_t \<Rightarrow> ('j, 's) alloclient \<Rightarrow> ('j, 's) alloclient option" where
  "client_asset_request_bytes_func E i offset len cl =
     (if wants_asset_request_bytes (ce_callbacks E) then Some (add_call (Asset_bytes_requested i offset len) cl)
      else if \<not> ce_can_malloc E len then None
      else case api_read (ce_store E) (client_assets cl) i offset len of
             None \<Rightarrow> None
           | Some (read_bytes, bytes, out_total, s) \<Rightarrow>
               (let total_size = (case out_total of None \<Rightarrow> 0 | Some t \<Rightarrow> t); cl' = cl\<lparr>client_assets := s\<rparr>
                in if 0 <s read_bytes
                   then asset_deliver_bytes (ce_json E) (send_only (client_asset_send_func E)) i (Some bytes)
                          offset (scast read_bytes) total_size cl'
                   else asset_deliver_bytes (ce_json E) (send_only (client_asset_send_func E)) i None offset 0 0 cl'))"

definition client_asset_write_func ::
  "('j, 's) client_env \<Rightarrow> string \<Rightarrow> u8 list \<Rightarrow> size_t \<Rightarrow> size_t \<Rightarrow> size_t \<Rightarrow>
   ('j, 's) alloclient \<Rightarrow> (i32 \<times> ('j, 's) alloclient) option" where
  "client_asset_write_func E i data offset len total_size cl =
     (if wants_asset_receive (ce_callbacks E)
      then Some (ucast len, add_call (Asset_received i data offset len total_size) cl)
      else map_option (\<lambda>(r, s). (r, cl\<lparr>client_assets := s\<rparr>))
             (api_write (ce_store E) (client_assets cl) i offset data len total_size))"

definition client_asset_state_func ::
  "('j, 's) client_env \<Rightarrow> string option \<Rightarrow> asset_state \<Rightarrow> ('j, 's) alloclient \<Rightarrow> ('j, 's) alloclient option" where
  "client_asset_state_func E i state cl =
     Some (call_if (wants_asset_state (ce_callbacks E)) (Asset_state_changed i state) cl)"

definition client_handle_assets ::
  "('j, 's) client_env \<Rightarrow> u8 list \<Rightarrow> ('j, 's) alloclient \<Rightarrow> ('j, 's) alloclient option" where
  "client_handle_assets E data cl =
     asset_handle (ce_json E) (ce_parse_bytes E)
       \<lparr>on_request = Some (client_asset_request_bytes_func E), on_write = Some (client_asset_write_func E),
        on_send = client_asset_send_func E, on_state = client_asset_state_func E\<rparr> data cl"

definition client_asset_request ::
  "('j, 's) client_env \<Rightarrow> string \<Rightarrow> string option \<Rightarrow> ('j, 's) alloclient \<Rightarrow> ('j, 's) alloclient option" where
  "client_asset_request E i entity = asset_request (ce_json E) (send_only (client_asset_send_func E)) i entity"

definition client_asset_send ::
  "('j, 's) client_env \<Rightarrow> string \<Rightarrow> u8 list option \<Rightarrow> size_t \<Rightarrow> size_t \<Rightarrow> size_t \<Rightarrow>
   ('j, 's) alloclient \<Rightarrow> ('j, 's) alloclient option" where
  "client_asset_send E i data offset len total_size =
     asset_deliver_bytes (ce_json E) (send_only (client_asset_send_func E)) i data offset len total_size"

section \<open>Packets\<close>

definition count_received :: "nat \<Rightarrow> u8 list \<Rightarrow> ('j, 's) alloclient \<Rightarrow> ('j, 's) alloclient" where
  "count_received channel packet cl =
     (let n = word_of_nat (length packet);
          r1 = (client_rates cl)(CHANNEL_COUNT := bitrate_increment_received (client_rates cl CHANNEL_COUNT) n)
      in cl\<lparr>client_rates := (if channel < CHANNEL_COUNT
              then r1(channel := bitrate_increment_received (r1 channel) n) else r1)\<rparr>)"

definition parse_packet_from_channel ::
  "('j, 's) client_env \<Rightarrow> u8 list \<Rightarrow> nat \<Rightarrow> ('j, 's) alloclient \<Rightarrow> (bool \<times> ('j, 's) alloclient) option" where
  "parse_packet_from_channel E packet channel cl0 =
     (let cl = count_received channel packet cl0; json = fst (ce_parse_bytes E packet)
      in if channel = CHANNEL_STATEDIFFS
         then (case json of
                 None \<Rightarrow> None
               | Some cmdrep \<Rightarrow> map_option (\<lambda>(r, cl'). (True, cl')) (alloclient_parse_statediff E cmdrep cl))
         else if channel = CHANNEL_COMMANDS then parse_command E json cl
         else if channel = CHANNEL_ASSETS then map_option (Pair True) (client_handle_assets E packet cl)
         else if channel = CHANNEL_AUDIO \<or> channel = CHANNEL_VIDEO then Some (True, add_call (Media_packet packet) cl)
         else if channel = CHANNEL_CLOCK then map_option (Pair True) (parse_clock E json cl)
         else if channel = CHANNEL_COUNT then None
         else Some (True, cl))"

section \<open>Sending\<close>

definition alloclient_set_intent :: "client_intent \<Rightarrow> ('j, 's) alloclient \<Rightarrow> ('j, 's) alloclient" where
  "alloclient_set_intent intent cl =
     cl\<lparr>latest_intent := (allo_client_intent_clone intent (latest_intent cl))
          \<lparr>ack_state_rev := ack_state_rev (latest_intent cl)\<rparr>\<rparr>"

definition send_latest_intent :: "('j, 's) client_env \<Rightarrow> ('j, 's) alloclient \<Rightarrow> ('j, 's) alloclient option" where
  "send_latest_intent E cl =
     (let C = ce_json E;
          cmdrep = cjson_create_object C [(''cmd'', CreateString C ''intent''),
                     (''intent'', allo_client_intent_to_cjson C (latest_intent cl))]
      in client_peer_send E CHANNEL_STATEDIFFS (text_bytes (ce_print E cmdrep)) cl)"

definition send_clock_request :: "('j, 's) client_env \<Rightarrow> ('j, 's) alloclient \<Rightarrow> ('j, 's) alloclient option" where
  "send_clock_request E cl =
     (let C = ce_json E;
          cmdrep = cjson_create_object C [(''client_time'', CreateNumber C (ts_monod E))]
      in client_peer_send E CHANNEL_CLOCK (text_bytes (ce_print E cmdrep)) cl)"

definition alloclient_send_interaction ::
  "('j, 's) client_env \<Rightarrow> allo_interaction \<Rightarrow> ('j, 's) alloclient \<Rightarrow> ('j, 's) alloclient option" where
  "alloclient_send_interaction E interaction cl =
     client_peer_send E CHANNEL_COMMANDS
       (text_bytes (ce_print E (allo_interaction_to_cjson (ce_json E) (ce_parse E) interaction))) cl"

section \<open>Polling\<close>

text \<open>
  The loop over the events that \<open>enet_host_service\<close> delivers until its time is up. Of the state
  diffs only the last one is kept, and parsed when the loop has ended.
\<close>

fun poll_events ::
  "('j, 's) client_env \<Rightarrow> enet_event list \<Rightarrow> u8 list option \<Rightarrow> bool \<Rightarrow> ('j, 's) alloclient \<Rightarrow>
   (bool \<times> ('j, 's) alloclient) option" where
  "poll_events E [] lastDiffPacket any_messages cl =
     (case lastDiffPacket of
        None \<Rightarrow> Some (any_messages, cl)
      | Some packet \<Rightarrow>
          map_option (\<lambda>(r, cl'). (any_messages, cl')) (parse_packet_from_channel E packet CHANNEL_STATEDIFFS cl))"
| "poll_events E (event # events) lastDiffPacket any_messages cl =
     (case event of
        Receive p channel packet \<Rightarrow>
          if channel = CHANNEL_STATEDIFFS then poll_events E events (Some packet) True cl
          else (case parse_packet_from_channel E packet channel cl of
                  None \<Rightarrow> None
                | Some (remain, cl') \<Rightarrow>
                    if remain then poll_events E events lastDiffPacket True cl' else Some (True, cl'))
      | Disconnect p \<Rightarrow>
          map_option (\<lambda>cl'. (True, call_if (wants_disconnected (ce_callbacks E))
             (Disconnected alloerror_connection_lost (Some ''Lost connection to Place'')) cl')) (client_log cl)
      | _ \<Rightarrow> poll_events E events lastDiffPacket True cl)"

text \<open>\<open>_alloclient_poll\<close>: at most one clock request a second and twenty intents a second are sent.\<close>

definition alloclient_poll ::
  "('j, 's) client_env \<Rightarrow> enet_event list \<Rightarrow> ('j, 's) alloclient \<Rightarrow> (bool \<times> ('j, 's) alloclient) option" where
  "alloclient_poll E events cl =
     (if connection cl = None then Some (False, cl)
      else (let ts = ts_mono E
            in case (if latest_clockreq_ts cl + 1000 < ts
                     then map_option (\<lambda>c. c\<lparr>latest_clockreq_ts := ts\<rparr>) (send_clock_request E cl) else Some cl) of
                 None \<Rightarrow> None
               | Some cl1 \<Rightarrow>
                   (case (if latest_intent_ts cl1 + 1000 div 20 < ts
                          then map_option (\<lambda>c. c\<lparr>latest_intent_ts := ts\<rparr>) (send_latest_intent E cl1) else Some cl1) of
                      None \<Rightarrow> None
                    | Some cl2 \<Rightarrow> poll_events E events None False cl2)))"

section \<open>Connecting and disconnecting\<close>

text \<open>\<open>strstr\<close>: the position of the first occurrence.\<close>

fun strstr :: "string \<Rightarrow> string \<Rightarrow> nat option" where
  "strstr [] s = (if s = [] then Some 0 else None)"
| "strstr (c # cs) s =
     (if take (length s) (c # cs) = s then Some 0 else map_option Suc (strstr cs s))"

text \<open>\<open>allo_strndup\<close>: null for no characters; more characters than the string has are not copied.\<close>

definition allo_strndup :: "string \<Rightarrow> nat \<Rightarrow> string option" where
  "allo_strndup s n = (if n = 0 then None else Some (take n s))"

text \<open>
  The host and the port of a URL; the inner \<open>None\<close> is where the code gives up. A slash before the colon
  makes the length of the port negative, a huge \<open>size_t\<close>: the outer \<open>None\<close>.
\<close>

definition split_url :: "string \<Rightarrow> (string option \<times> string option) option option" where
  "split_url url =
     (if strstr url ''alloplace://'' = None then Some None
      else case strstr url ''://'' of
             None \<Rightarrow> Some None
           | Some pos \<Rightarrow>
               (let hostandport = drop (pos + 3) url;
                    colon = strstr hostandport '':'';
                    slash = strstr hostandport ''/'';
                    justhost = allo_strndup hostandport
                      (case colon of Some k \<Rightarrow> k
                       | None \<Rightarrow> (case slash of Some k \<Rightarrow> k | None \<Rightarrow> length hostandport))
                in case (colon, slash) of
                     (Some k, Some l) \<Rightarrow>
                       if l < k + 1 then None
                       else Some (Some (justhost, allo_strndup (drop (k + 1) hostandport) (l - (k + 1))))
                   | (Some k, None) \<Rightarrow> Some (Some (justhost, Some (drop (k + 1) hostandport)))
                   | _ \<Rightarrow> Some (Some (justhost, None))))"

text \<open>\<open>atoi\<close>: white space, a sign, digits; cut to the 16 bits of \<open>address.port\<close>.\<close>

definition digit :: "char \<Rightarrow> bool" where
  "digit c \<longleftrightarrow> 48 \<le> (of_char c :: nat) \<and> (of_char c :: nat) \<le> 57"

definition decimal :: "string \<Rightarrow> int" where
  "decimal s = foldl (\<lambda>n c. n * 10 + (of_char c - 48)) 0 (takeWhile digit s)"

definition atoi :: "string \<Rightarrow> int" where
  "atoi s =
     (case dropWhile (\<lambda>c. (of_char c :: nat) \<in> {9, 10, 11, 12, 13, 32}) s of
        [] \<Rightarrow> 0
      | c # cs \<Rightarrow> if c = CHR ''-'' then - decimal cs else if c = CHR ''+'' then decimal cs else decimal (c # cs))"

definition address_port :: "string option \<Rightarrow> u16" where
  "address_port justport = (case justport of None \<Rightarrow> 21337 | Some s \<Rightarrow> word_of_int (atoi s))"

text \<open>What ENet and Opus answer: a host, a peer for the address, the connection event, an encoder.\<close>

record connect_env =
  host_created :: bool
  connect_peer :: "string option \<Rightarrow> u16 \<Rightarrow> peer option"
  connect_event :: bool
  encoder_created :: bool

definition alloclient_disconnect :: "('j, 's) alloclient \<Rightarrow> ('j, 's) alloclient option" where
  "alloclient_disconnect cl =
     (case allo_delta_clear (states cl) of
        None \<Rightarrow> None
      | Some h \<Rightarrow> Some (cl\<lparr>states := h, deallocated := True\<rparr>))"

definition announce ::
  "('j, 's) client_env \<Rightarrow> string option \<Rightarrow> string option \<Rightarrow> ('j, 's) alloclient \<Rightarrow> (bool \<times> ('j, 's) alloclient) option" where
  "announce E identity avatar_desc cl =
     (let C = ce_json E;
          bodyobj = cjson_create_list C
            [Some (CreateString C ''announce''), Some (CreateString C ''version''),
             Some (CreateNumber C (of_int (protocol_version E))), Some (CreateString C ''identity''),
             Option.bind identity (ce_parse E), Some (CreateString C ''spawn_avatar''), Option.bind avatar_desc (ce_parse E)]
      in if GetArraySize C bodyobj \<noteq> 7 then map_option (Pair False) (client_log cl)
         else map_option (Pair True)
           (alloclient_send_interaction E (allo_interaction_create (Some ''request'') (Some '''') (Some ''place'')
              (Some ''ANN0'') (Some (ce_print E bodyobj))) cl))"

definition alloclient_connect ::
  "('j, 's) client_env \<Rightarrow> connect_env \<Rightarrow> string \<Rightarrow> string option \<Rightarrow> string option \<Rightarrow> ('j, 's) alloclient \<Rightarrow>
   (bool \<times> ('j, 's) alloclient) option" where
  "alloclient_connect E N url identity avatar_desc cl =
     (if \<not> host_created N then map_option (Pair False) (client_log cl)
      else case split_url url of
             None \<Rightarrow> None
           | Some None \<Rightarrow> map_option (Pair False) (client_log cl)
           | Some (Some (justhost, justport)) \<Rightarrow>
               (case connect_peer N justhost (address_port justport) of
                  None \<Rightarrow> map_option (Pair False) (client_log cl)
                | Some p \<Rightarrow>
                    if \<not> connect_event N then map_option (Pair False) (client_log cl)
                    else (let cl1 = cl\<lparr>connection := Some p\<rparr>
                          in if \<not> encoder_created N
                             then (case alloclient_disconnect cl1 of
                                     None \<Rightarrow> None
                                   | Some cl2 \<Rightarrow> map_option (Pair False) (client_log cl2))
                             else (case announce E identity avatar_desc cl1 of
                                     None \<Rightarrow> None
                                   | Some (True, cl2) \<Rightarrow> Some (True, cl2)
                                   | Some (False, cl2) \<Rightarrow> map_option (Pair False) (alloclient_disconnect cl2)))))"

definition alloclient_get_time :: "rat \<Rightarrow> ('j, 's) alloclient \<Rightarrow> rat" where
  "alloclient_get_time monod cl = monod + clock_deltaToServer cl"

definition alloclient_create :: "'s \<Rightarrow> ('j, 's) alloclient" where
  "alloclient_create store = \<lparr>place = \<lparr>revision = 0, entities = [], fresh_at = 0\<rparr>, clock_latency = 0,
     clock_deltaToServer = 0, connection = None, latest_intent = allo_client_intent_create, latest_intent_ts = 0,
     latest_clockreq_ts = 0, avatar_id = None, states = statehistory_new, client_assets = store, sent_packets = [],
     client_calls = [],
     client_rates = (\<lambda>c. \<lparr>sent_bytes = 0, sent_packet_count = 0, received_bytes = 0, received_packet_count = 0\<rparr>),
     deallocated = False\<rparr>"

section \<open>Pictures\<close>

datatype allopicture_format = rgba8888 | bgra8888 | rgb1555 | xrgb8888 | rgb565

fun allopicture_bpp :: "allopicture_format \<Rightarrow> i32" where
  "allopicture_bpp rgb1555 = 2"
| "allopicture_bpp rgb565 = 2"
| "allopicture_bpp _ = 4"

record allopicture =
  plane0 :: "u8 list"
  picture_format :: allopicture_format
  picture_width :: i32
  picture_height :: i32
  plane_count :: i32
  plane_byte_length :: i32
  plane_stride :: i32

text \<open>
  \<open>alloclient_send_video_pixels\<close>: the copy of the pixels, \<open>None\<close> when they are fewer than stride and
  height say (and for a negative product, which \<open>malloc\<close> and \<open>memcpy\<close> take as a huge one).
\<close>

definition video_picture ::
  "u8 list \<Rightarrow> i32 \<Rightarrow> i32 \<Rightarrow> allopicture_format \<Rightarrow> i32 \<Rightarrow> allopicture option" where
  "video_picture pixels width height format stride0 =
     (let stride = (if stride0 = 0 then width * allopicture_bpp format else stride0);
          n = stride * height
      in if sint n < 0 \<or> int (length pixels) < sint n then None
         else Some \<lparr>plane0 = take (nat (sint n)) pixels, picture_format = format, picture_width = width,
                    picture_height = height, plane_count = 1, plane_byte_length = n, plane_stride = stride\<rparr>)"

end
