(* ===== verification/Client_Correct.thy ===== *)
theory Client_Correct
  imports Client Delta_Correct
begin

text \<open>
  The client's copy of the place mirrors the states it receives, the state diffs of one poll count only
  by their last, URLs are split into host and port; and the two places where the client goes wrong about
  its state and its clock.
\<close>

section \<open>Looking up, adding and removing entities\<close>

definition copy_ok :: "'j allo_state \<Rightarrow> bool" where
  "copy_ok st \<longleftrightarrow> entities_ok (entities st) \<and> (\<forall>e \<in> set (entities st). entity_at e < fresh_at st) \<and>
     [] \<notin> set (map eid (entities st))"

lemma lookup_entity:
  assumes "copy_ok st" and "i \<in> set (map eid (entities st))"
  obtains e where "state_get_entity st (Some i) = Some e" "e \<in> set (entities st)" "eid e = i"
proof -
  have "i \<noteq> []" using assms by (cases i) (simp_all add: copy_ok_def)
  moreover obtain e where "List.find (\<lambda>e. i = eid e) (entities st) = Some e"
    using assms(2) find_None_iff [of "\<lambda>e. i = eid e" "entities st"] by fastforce
  ultimately show ?thesis using that [of e] by (auto simp: state_get_entity_def find_Some_iff)
qed

lemma insert_new_entities_ok:
  assumes "copy_ok st" and "distinct is" and "set is \<inter> set (map eid (entities st)) = {}" and "[] \<notin> set is"
  shows "copy_ok (insert_new_entities is st) \<and>
    set (map eid (entities (insert_new_entities is st))) = set is \<union> set (map eid (entities st))"
  using assms
proof (induction "is" arbitrary: st)
  case (Cons i "is")
  let ?st = "st\<lparr>fresh_at := Suc (fresh_at st), entities := entity_create (fresh_at st) i # entities st\<rparr>"
  have "fresh_at st \<notin> entity_at ` set (entities st)" using Cons.prems(1) by (auto simp: copy_ok_def)
  then have "copy_ok ?st"
    using Cons.prems by (auto simp: copy_ok_def entities_ok_def entity_create_def intro: less_SucI)
  then show ?case using Cons.IH [of ?st] Cons.prems by (auto simp: entity_create_def)
qed simp

lemma remove_first_filter:
  assumes "entities_ok es" and "e \<in> set es"
  shows "remove_first (\<lambda>f. entity_at f = entity_at e) es = filter (\<lambda>f. eid f \<noteq> eid e) es"
  using assms
proof (induction es)
  case (Cons f es)
  show ?case
  proof (cases "entity_at f = entity_at e")
    case True
    then have "f = e" using Cons.prems by (auto simp: entities_ok_def)
    then have "eid e \<notin> eid ` set es" using Cons.prems(1) by (simp add: entities_ok_def)
    then have "\<forall>g \<in> set es. eid g \<noteq> eid e" by (metis image_eqI)
    with True \<open>f = e\<close> show ?thesis by simp
  next
    case False
    then have "e \<in> set es" "entities_ok es" using Cons.prems by (auto simp: entities_ok_def)
    moreover have "eid f \<noteq> eid e" using Cons.prems(1) \<open>e \<in> set es\<close> by (auto simp: entities_ok_def)
    ultimately show ?thesis using Cons.IH False by simp
  qed
qed simp

lemma copy_ok_filter: "copy_ok st \<Longrightarrow> copy_ok (st\<lparr>entities := filter P (entities st)\<rparr>)"
  by (auto simp: copy_ok_def entities_ok_filter)

lemma delete_entities_ok:
  assumes "copy_ok st" and "distinct is" and "set is \<subseteq> set (map eid (entities st))"
  shows "delete_entities is st = Some (st\<lparr>entities := filter (\<lambda>e. eid e \<notin> set is) (entities st)\<rparr>)"
  using assms
proof (induction "is" arbitrary: st)
  case (Cons i "is")
  have i: "i \<in> set (map eid (entities st))" using Cons.prems(3) by simp
  obtain e where e: "state_get_entity st (Some i) = Some e" "e \<in> set (entities st)" "eid e = i"
    by (rule lookup_entity [OF Cons.prems(1) i])
  let ?st = "st\<lparr>entities := filter (\<lambda>f. eid f \<noteq> i) (entities st)\<rparr>"
  have "remove_first (\<lambda>f. entity_at f = entity_at e) (entities st) = entities ?st"
    using remove_first_filter [of "entities st" e] Cons.prems(1) e by (simp add: copy_ok_def)
  moreover have "set is \<subseteq> set (map eid (entities ?st))"
    using Cons.prems(2,3) by (fastforce simp: image_iff)
  ultimately show ?case
    using Cons.IH [OF copy_ok_filter [OF Cons.prems(1), of "\<lambda>f. eid f \<noteq> i"]] Cons.prems(2) e(1)
    by (simp add: conj_commute)
qed simp

text \<open>The components of every entity a list of descriptions names are replaced; the last description wins.\<close>

fun described :: "'j cjson \<Rightarrow> 'j list \<Rightarrow> 'j entity \<Rightarrow> 'j entity" where
  "described C [] e = e"
| "described C (d # ds) e = described C ds
     (if string_value C (GetObjectItemCS C d ''id'') = Some (eid e)
      then e\<lparr>components := GetObjectItemCS C d ''components''\<rparr> else e)"

lemma described_keeps [simp]: "eid (described C ds e) = eid e" "entity_at (described C ds e) = entity_at e"
  by (induction ds arbitrary: e) auto

lemma copy_ok_map:
  assumes "copy_ok st" and "\<And>e. eid (f e) = eid e" and "\<And>e. entity_at (f e) = entity_at e"
  shows "copy_ok (st\<lparr>entities := map f (entities st)\<rparr>)"
  using assms by (simp add: copy_ok_def entities_ok_def comp_def)

lemma update_components_ok:
  assumes "copy_ok st"
    and "\<forall>d \<in> set ds. \<exists>i. string_value C (GetObjectItemCS C d ''id'') = Some i \<and> i \<in> set (map eid (entities st))"
  shows "update_components C ds st = Some (st\<lparr>entities := map (described C ds) (entities st)\<rparr>)"
  using assms
proof (induction ds arbitrary: st)
  case (Cons d ds)
  obtain i j where i: "string_value C (GetObjectItemCS C d ''id'') = Some i" "i \<in> set (map eid (entities st))"
    "GetObjectItemCS C d ''id'' = Some j"
    using Cons.prems(2) by (cases "GetObjectItemCS C d ''id''") auto
  obtain e where e: "state_get_entity st (Some i) = Some e" "e \<in> set (entities st)" "eid e = i"
    by (rule lookup_entity [OF Cons.prems(1) i(2)])
  let ?f = "\<lambda>f. if entity_at f = entity_at e then f\<lparr>components := GetObjectItemCS C d ''components''\<rparr> else f"
  let ?st = "st\<lparr>entities := map ?f (entities st)\<rparr>"
  have same: "entity_at f = entity_at e \<longleftrightarrow> i = eid f" if "f \<in> set (entities st)" for f
    using entities_ok_same [of "entities st" f e] Cons.prems(1) that e(2,3) by (auto simp: copy_ok_def)
  have ids: "set (map eid (entities ?st)) = set (map eid (entities st))" by (auto simp: image_image)
  have "copy_ok ?st" by (rule copy_ok_map [OF Cons.prems(1)]) auto
  moreover have "\<forall>d \<in> set ds. \<exists>i. string_value C (GetObjectItemCS C d ''id'') = Some i \<and> i \<in> set (map eid (entities ?st))"
    unfolding ids using Cons.prems(2) by simp
  ultimately have "update_components C ds ?st = Some (?st\<lparr>entities := map (described C ds) (entities ?st)\<rparr>)"
    by (rule Cons.IH)
  moreover have "map (described C ds) (entities ?st) = map (described C (d # ds)) (entities st)"
    using same i(1) by simp
  ultimately show ?case using i e(1) by simp
qed (simp add: map_idI)

definition desc_id :: "'j cjson \<Rightarrow> 'j \<Rightarrow> string option" where
  "desc_id C d = string_value C (GetObjectItemCS C d ''id'')"

lemma described_Cons:
  "described C (d # ds) e = described C ds
     (if desc_id C d = Some (eid e) then e\<lparr>components := GetObjectItemCS C d ''components''\<rparr> else e)"
  by (simp add: desc_id_def)

lemma described_other: "Some (eid e) \<notin> desc_id C ` set ds \<Longrightarrow> described C ds e = e"
  by (induction ds) (auto simp: described_Cons simp del: described.simps(2))

lemma described_last:
  assumes "distinct (map (desc_id C) ds)" and "d \<in> set ds" and "desc_id C d = Some (eid e)"
  shows "components (described C ds e) = GetObjectItemCS C d ''components''"
  using assms
proof (induction ds arbitrary: e)
  case (Cons c ds)
  show ?case
  proof (cases "d = c")
    case True
    let ?e = "e\<lparr>components := GetObjectItemCS C c ''components''\<rparr>"
    have "desc_id C c \<notin> desc_id C ` set ds" using Cons.prems(1) by simp
    then have "Some (eid ?e) \<notin> desc_id C ` set ds" using Cons.prems(3) True by simp
    from described_other [OF this] show ?thesis
      using True Cons.prems(3) by (simp add: described_Cons del: described.simps(2))
  next
    case False
    then have d: "d \<in> set ds" using Cons.prems(2) by simp
    then have "desc_id C c \<noteq> desc_id C d" using Cons.prems(1) by auto
    then have "described C (c # ds) e = described C ds e"
      using Cons.prems(3) by (simp add: described_Cons del: described.simps(2))
    then show ?thesis using Cons.IH [of e] Cons.prems(1,3) d by simp
  qed
qed simp

section \<open>Mirroring a state\<close>

text \<open>
  \<open>mirrors C st es\<close>: the entities of \<open>st\<close> are those of the object whose members are \<open>es\<close>, with the
  components described there. \<open>described_by\<close> is what the client relies on of such an object, and
  \<open>delta_between\<close> what it relies on of the entities of a merge patch.
\<close>

definition mirrors :: "'j cjson \<Rightarrow> 'j allo_state \<Rightarrow> (string \<times> 'j) list \<Rightarrow> bool" where
  "mirrors C st es \<longleftrightarrow> copy_ok st \<and> set (map eid (entities st)) = fst ` set es \<and>
     (\<forall>(k, d) \<in> set es. \<forall>e \<in> set (entities st). eid e = k \<longrightarrow> components e = GetObjectItemCS C d ''components'')"

definition described_by :: "'j cjson \<Rightarrow> (string \<times> 'j) list \<Rightarrow> bool" where
  "described_by C es \<longleftrightarrow> distinct (map fst es) \<and>
     (\<forall>(k, d) \<in> set es. k \<noteq> [] \<and> string_value C (GetObjectItemCS C d ''id'') = Some k)"

definition delta_between :: "'j cjson \<Rightarrow> string set \<Rightarrow> (string \<times> 'j) list \<Rightarrow> string set \<Rightarrow> bool" where
  "delta_between C old es new \<longleftrightarrow> distinct (map fst es) \<and> (\<forall>(k, v) \<in> set es. IsNull C v \<longrightarrow> k \<in> old) \<and>
     new = (old \<union> fst ` set es) - fst ` set (filter (\<lambda>e. IsNull C (snd e)) es)"

lemma delta_between_diff:
  assumes "delta_between C old es new" and "\<And>k. get_cs C existing k = None \<longleftrightarrow> k \<notin> old"
  shows "set (map fst (filter (entity_added C existing) es)) = new - old"
    and "set (map fst (filter (entity_deleted C) es)) = old - new"
    and "distinct (map fst (filter P es))"
proof -
  have uniq: "v = w" if "(k, v) \<in> set es" "(k, w) \<in> set es" for k v w
    using assms(1) that eq_key_imp_eq_value [of es k v w] by (simp add: delta_between_def)
  define nulls where "nulls = fst ` set (filter (\<lambda>e. IsNull C (snd e)) es)"
  have nulls: "nulls \<subseteq> old" "new = (old \<union> fst ` set es) - nulls"
    using assms(1) by (auto simp: delta_between_def nulls_def)
  have apart: "k \<in> nulls \<longleftrightarrow> IsNull C v" if "(k, v) \<in> set es" for k v
  proof
    assume "k \<in> nulls"
    then obtain w where "(k, w) \<in> set es" "IsNull C w" by (auto simp: nulls_def)
    with uniq that show "IsNull C v" by blast
  next
    assume "IsNull C v"
    with that show "k \<in> nulls" by (force simp: nulls_def)
  qed
  show "set (map fst (filter (entity_added C existing) es)) = new - old"
  proof (rule set_eqI)
    fix k
    have "k \<in> set (map fst (filter (entity_added C existing) es)) \<longleftrightarrow> (\<exists>v. (k, v) \<in> set es \<and> \<not> IsNull C v) \<and> k \<notin> old"
      using assms(2) by (force simp: entity_added_def entity_deleted_def)
    also have "\<dots> \<longleftrightarrow> (\<exists>v. (k, v) \<in> set es) \<and> k \<notin> nulls \<and> k \<notin> old" using apart by blast
    also have "\<dots> \<longleftrightarrow> k \<in> new - old" by (force simp: nulls(2))
    finally show "k \<in> set (map fst (filter (entity_added C existing) es)) \<longleftrightarrow> k \<in> new - old" .
  qed
  have "set (map fst (filter (entity_deleted C) es)) = nulls"
    by (auto simp: nulls_def entity_deleted_def)
  also have "\<dots> = old - new" using nulls by blast
  finally show "set (map fst (filter (entity_deleted C) es)) = old - new" .
  show "distinct (map fst (filter P es))" using assms(1) by (simp add: delta_between_def distinct_map_filter)
qed

lemma apply_statediff_mirrors:
  assumes "copy_ok st" and "set (map eid (entities st)) = old"
    and "described_by C (chain_of C (GetObjectItemCS C rep ''entities''))"
    and "distinct (new_entities diff)" "set (new_entities diff) = fst ` set (chain_of C (GetObjectItemCS C rep ''entities'')) - old"
    and "distinct (deleted_entities diff)" "set (deleted_entities diff) = old - fst ` set (chain_of C (GetObjectItemCS C rep ''entities''))"
  shows "\<exists>st'. apply_statediff C rep diff st = Some st' \<and> mirrors C st' (chain_of C (GetObjectItemCS C rep ''entities''))"
proof -
  define es where "es = chain_of C (GetObjectItemCS C rep ''entities'')"
  note des = assms(3) [folded es_def] note new = assms(5) [folded es_def] note del = assms(7) [folded es_def]
  define st1 where "st1 = insert_new_entities (new_entities diff) st"
  have "copy_ok st1 \<and> set (map eid (entities st1)) = set (new_entities diff) \<union> old"
    unfolding st1_def assms(2) [symmetric]
    by (rule insert_new_entities_ok [OF assms(1,4)])
      (use new assms(2) des in \<open>auto simp: described_by_def\<close>)
  then have st1: "copy_ok st1" "set (map eid (entities st1)) = fst ` set es \<union> old" using new by auto
  define st2 where "st2 = st1\<lparr>entities := filter (\<lambda>e. eid e \<notin> set (deleted_entities diff)) (entities st1)\<rparr>"
  have delete: "delete_entities (deleted_entities diff) st1 = Some st2"
    unfolding st2_def by (rule delete_entities_ok [OF st1(1) assms(6)]) (use st1(2) del in auto)
  have "set (map eid (entities st2)) = set (map eid (entities st1)) - set (deleted_entities diff)"
    by (auto simp: st2_def)
  then have ids2: "set (map eid (entities st2)) = fst ` set es" using st1(2) del by auto
  have ok2: "copy_ok st2" unfolding st2_def by (rule copy_ok_filter [OF st1(1)])
  let ?ds = "map snd es"
  have names: "\<exists>i. string_value C (GetObjectItemCS C d ''id'') = Some i \<and> i \<in> set (map eid (entities st2))"
    if "d \<in> set ?ds" for d
    using that des unfolding ids2 by (force simp: described_by_def)
  define st3 where "st3 = st2\<lparr>entities := map (described C ?ds) (entities st2)\<rparr>"
  have update: "update_components C ?ds st2 = Some st3"
    unfolding st3_def by (rule update_components_ok [OF ok2]) (use names in blast)
  have "map (desc_id C) ?ds = map Some (map fst es)"
    using des by (auto simp: described_by_def desc_id_def)
  moreover have "distinct (map Some (map fst es))"
    using des by (subst distinct_map) (simp add: described_by_def)
  ultimately have uniq: "distinct (map (desc_id C) ?ds)" by (simp only:)
  have "components (described C ?ds e) = GetObjectItemCS C d ''components''" if "(eid e, d) \<in> set es" for e d
  proof (rule described_last [OF uniq])
    show "d \<in> set ?ds" using that by force
    show "desc_id C d = Some (eid e)" using that des by (auto simp: described_by_def desc_id_def)
  qed
  then have "mirrors C st3 es"
    using copy_ok_map [OF ok2, of "described C ?ds"] ids2 by (auto simp: mirrors_def st3_def)
  moreover have "apply_statediff C rep diff st = Some st3"
    using delete update
    by (cases "GetObjectItemCS C rep ''entities''") (simp_all add: apply_statediff_def st1_def es_def chain_of_def items_def)
  ultimately show ?thesis by (simp add: es_def)
qed

lemma absent_key: "cjson_lib C \<Longrightarrow> get_cs C v k = None \<longleftrightarrow> k \<notin> fst ` set (chain_of C v)"
  by (cases v) (auto simp: cjson_lib.object_cs_law assoc_None_iff chain_of_def)

text \<open>The components a client had do not matter: those of the new state replace them.\<close>

lemma handled_delta_mirrors:
  assumes "cjson_lib C" and "C = ce_json E" and "copy_ok (place cl)"
    and "set (map eid (entities (place cl))) = fst ` set (chain_of C (get_cs C current ''entities''))"
    and "described_by C (chain_of C (GetObjectItemCS C rep ''entities''))"
    and "delta_between C (fst ` set (chain_of C (get_cs C current ''entities'')))
           (chain_of C (GetObjectItemCS C delta ''entities'')) (fst ` set (chain_of C (GetObjectItemCS C rep ''entities'')))"
    and "GetObjectItemCS C rep ''revision'' = Some rj"
  shows "\<exists>cl'. handle_parsed_statediff E delta (Some rep) (entity_changes C current rep delta allo_state_diff_init) cl = Some cl' \<and>
    mirrors C (place cl') (chain_of C (GetObjectItemCS C rep ''entities'')) \<and>
    ack_state_rev (latest_intent cl') = word_of_int (sint (valueint C rj))"
proof -
  define diff where "diff = entity_changes C current rep delta allo_state_diff_init"
  define cl1 where "cl1 = alloclient_ack_rev (sint (valueint C rj)) cl"
  define es where "es = chain_of C (GetObjectItemCS C delta ''entities'')"
  let ?existing = "get_cs C current ''entities''"
  have diff: "new_entities diff = map fst (filter (entity_added C ?existing) es)"
    "deleted_entities diff = map fst (filter (entity_deleted C) es)"
    unfolding diff_def es_def changes_reported_once by (simp_all add: extend_diff_def allo_state_diff_init_def)
  have absent: "get_cs C ?existing k = None \<longleftrightarrow> k \<notin> fst ` set (chain_of C ?existing)" for k
    by (rule absent_key [OF assms(1)])
  note sets = delta_between_diff [OF assms(6) absent, folded es_def, folded diff]
  have place1: "copy_ok (place cl1)" "set (map eid (entities (place cl1))) = fst ` set (chain_of C ?existing)"
    using assms(3,4) by (auto simp: cl1_def alloclient_ack_rev_def copy_ok_def)
  obtain st' where st': "apply_statediff C rep diff (place cl1) = Some st'"
    "mirrors C st' (chain_of C (GetObjectItemCS C rep ''entities''))"
    using apply_statediff_mirrors [OF place1 assms(5), of diff] sets diff
      delta_between_diff(3) [OF assms(6) absent, folded es_def] by auto
  have "ack_state_rev (latest_intent cl1) = word_of_int (sint (valueint C rj))"
    by (simp add: cl1_def alloclient_ack_rev_def)
  with st' assms(7) show ?thesis
    unfolding handle_parsed_statediff_def diff_def [symmetric] assms(2) [symmetric]
    by (simp add: cl1_def [symmetric] Let_def call_if_def add_call_def)
qed

text \<open>
  C4. When a client mirrors a state and handles the delta that leads to a new one, nothing it looks up is
  missing, and afterwards it mirrors the new state: the same entities with the components described
  there. It acknowledges the revision of that state.
\<close>

theorem client_mirrors_state:
  assumes "cjson_lib C" and "C = ce_json E" and "mirrors C (place cl) (chain_of C (get_cs C current ''entities''))"
    and "described_by C (chain_of C (GetObjectItemCS C rep ''entities''))"
    and "delta_between C (fst ` set (chain_of C (get_cs C current ''entities'')))
           (chain_of C (GetObjectItemCS C delta ''entities'')) (fst ` set (chain_of C (GetObjectItemCS C rep ''entities'')))"
    and "GetObjectItemCS C rep ''revision'' = Some rj"
  shows "\<exists>cl'. handle_parsed_statediff E delta (Some rep) (entity_changes C current rep delta allo_state_diff_init) cl = Some cl' \<and>
    mirrors C (place cl') (chain_of C (GetObjectItemCS C rep ''entities'')) \<and>
    ack_state_rev (latest_intent cl') = word_of_int (sint (valueint C rj))"
  using handled_delta_mirrors [OF assms(1,2) _ _ assms(4-6)] assms(3) by (simp add: mirrors_def)

text \<open>A client that has the entity \<open>a\<close> receives a delta that removes it and adds \<open>b\<close>.\<close>

definition sample_callbacks :: client_callbacks where
  "sample_callbacks = \<lparr>wants_state = True, wants_interaction = True, wants_disconnected = True,
     wants_asset_request_bytes = False, wants_asset_receive = False, wants_asset_state = True,
     wants_raw_state_delta = False, wants_clock = True\<rparr>"

definition sample_client_env :: "(json, unit) client_env" where
  "sample_client_env = \<lparr>ce_delta = sample_delta_env, ce_print = (\<lambda>j. ''text''), ce_parse = (\<lambda>s. None),
     ce_parse_bytes = (\<lambda>bs. (None, 0)),
     ce_store = \<lparr>api_read = (\<lambda>s i a n. Some (0, [], None, s)), api_write = (\<lambda>s i a d n t. Some (0, s))\<rparr>,
     ce_callbacks = sample_callbacks, ce_accepts = True, ce_can_malloc = (\<lambda>n. True), ts_mono = 5000, ts_monod = 5,
     protocol_version = 3\<rparr>"

lemma sample_env_json [simp]: "ce_json sample_client_env = json_ops"
  by (simp add: ce_json_def sample_client_env_def sample_delta_env_def)

definition entity_desc :: "string \<Rightarrow> rat \<Rightarrow> json" where
  "entity_desc i r = jobj [(''id'', jstr i), (''components'', jobj [(''size'', jnum r)])]"

definition state_with :: "(string \<times> json) list \<Rightarrow> json" where
  "state_with es = jobj [(''revision'', jnum 2), (''entities'', jobj es)]"

lemma state_with_entities [simp]:
  "GetObjectItemCS json_ops (state_with es) ''entities'' = Some (jobj es)"
  "GetObjectItemCS json_ops (state_with es) ''revision'' = Some (jnum 2)"
  "chain_of json_ops (Some (jobj es)) = es"
  by (simp_all add: state_with_def chain_of_def json_defs)

theorem client_mirrors_state_witness:
  "\<exists>cl'. handle_parsed_statediff sample_client_env (state_with [(''a'', Node TNull 0 [] []), (''b'', entity_desc ''b'' 1)])
      (Some (state_with [(''b'', entity_desc ''b'' 1)]))
      (entity_changes json_ops (Some (state_with [(''a'', entity_desc ''a'' 1)])) (state_with [(''b'', entity_desc ''b'' 1)])
        (state_with [(''a'', Node TNull 0 [] []), (''b'', entity_desc ''b'' 1)]) allo_state_diff_init)
      ((alloclient_create ())\<lparr>place := \<lparr>revision = 1, entities = [\<lparr>entity_at = 0, eid = ''a'', owner_agent_id = None,
          components = Some (jobj [(''size'', jnum 1)])\<rparr>], fresh_at = 1\<rparr>\<rparr>) = Some cl' \<and>
    mirrors json_ops (place cl') [(''b'', entity_desc ''b'' 1)]"
proof -
  have "mirrors json_ops \<lparr>revision = 1, entities = [\<lparr>entity_at = 0, eid = ''a'', owner_agent_id = None,
      components = Some (jobj [(''size'', jnum 1)])\<rparr>], fresh_at = 1\<rparr> [(''a'', entity_desc ''a'' 1)]"
    by (simp add: mirrors_def copy_ok_def entities_ok_def entity_desc_def json_defs)
  moreover have "described_by json_ops [(''b'', entity_desc ''b'' 1)]"
    by (simp add: described_by_def entity_desc_def json_defs string_value_def)
  moreover have "delta_between json_ops {''a''} [(''a'', Node TNull 0 [] []), (''b'', entity_desc ''b'' 1)] {''b''}"
    by (auto simp: delta_between_def entity_desc_def json_defs)
  ultimately show ?thesis
    using client_mirrors_state [OF json.cjson_lib_axioms, of sample_client_env
        "(alloclient_create ())\<lparr>place := \<lparr>revision = 1, entities = [\<lparr>entity_at = 0, eid = ''a'', owner_agent_id = None,
          components = Some (jobj [(''size'', jnum 1)])\<rparr>], fresh_at = 1\<rparr>\<rparr>"
        "Some (state_with [(''a'', entity_desc ''a'' 1)])" "state_with [(''b'', entity_desc ''b'' 1)]"
        "state_with [(''a'', Node TNull 0 [] []), (''b'', entity_desc ''b'' 1)]" "jnum 2"]
    by auto
qed

section \<open>Polling\<close>

definition is_diff :: "enet_event \<Rightarrow> bool" where
  "is_diff event = (case event of Receive p channel packet \<Rightarrow> channel = CHANNEL_STATEDIFFS | _ \<Rightarrow> False)"

lemma pending_diff_replaced:
  assumes "\<exists>event \<in> set events. is_diff event"
  shows "poll_events E events last1 any1 cl = poll_events E events last2 any2 cl"
  using assms
proof (induction events arbitrary: last1 any1 last2 any2 cl)
  case (Cons event events)
  show ?case
  proof (cases "is_diff event")
    case True
    then show ?thesis by (cases event) (simp_all add: is_diff_def)
  next
    case False
    then have later: "\<exists>event \<in> set events. is_diff event" using Cons.prems by simp
    show ?thesis
    proof (cases event)
      case (Receive p channel packet)
      with False have "channel \<noteq> CHANNEL_STATEDIFFS" by (simp add: is_diff_def)
      with Receive Cons.IH [OF later, of last1 True _ last2 True] show ?thesis
        by (auto split: option.split)
    qed (use Cons.IH [OF later, of last1 True _ last2 True] in simp_all)
  qed
qed simp

text \<open>
  A state diff that is followed by another one in the same poll has no effect: polling without it
  gives the same result and the same client, whatever else arrives before and after.
\<close>

theorem stale_diff_skipped:
  assumes "\<exists>event \<in> set later. is_diff event"
  shows "poll_events E (earlier @ Receive p CHANNEL_STATEDIFFS packet # later) pending any cl =
    poll_events E (earlier @ later) pending any cl"
proof (induction earlier arbitrary: pending any cl)
  case Nil
  show ?case using pending_diff_replaced [OF assms, of E "Some packet" True cl pending any] by simp
next
  case (Cons event earlier)
  then show ?case by (auto split: enet_event.split option.split)
qed

theorem stale_diff_skipped_witness:
  "poll_events sample_client_env [Receive 0 CHANNEL_STATEDIFFS [1], Receive 0 CHANNEL_STATEDIFFS [2]] None False (alloclient_create ()) =
   poll_events sample_client_env [Receive 0 CHANNEL_STATEDIFFS [2]] None False (alloclient_create ())"
  using stale_diff_skipped [of "[Receive 0 CHANNEL_STATEDIFFS [2]]" sample_client_env "[]" 0 "[1]" None False "alloclient_create ()"]
  by (simp add: is_diff_def)

text \<open>
  A delta from a revision the client does not have changes nothing: the acknowledged revision stays
  what it was, although the handler is meant to reset it to zero in this case so that the server sends
  a full state.
\<close>

theorem unmergeable_delta_not_reset:
  assumes "C = ce_json E" and "\<not> wants_raw_state_delta (ce_callbacks E)"
    and "string_value C (GetObjectItem C delta ''patch_style'') = Some style"
    and "GetObjectItem C (DeleteItemFromObject C delta ''patch_style'') ''patch_from'' = Some from_json"
    and "Option.bind (statehistory_get (states cl) (cjson_get_int64_value C (Some from_json))) slot_state = Some current"
    and "current = None \<or> revision_of C current \<noteq> cjson_get_int64_value C (Some from_json)"
    and "statehistory_get_latest (states cl) \<noteq> None"
  shows "alloclient_parse_statediff E delta cl = Some (0, cl)"
proof -
  have "allo_delta_apply (ce_delta E) (\<lambda>cmd rep diff. handle_parsed_statediff E cmd (Some rep) diff) (Some allo_state_diff_init)
      delta (states cl, cl) = Some (None, states cl, cl)"
    using assms by (intro unknown_patch_refused [where style = style and from_json = from_json and current = current])
      (simp_all add: ce_json_def)
  then show ?thesis
    using assms(2) by (simp add: alloclient_parse_statediff_def revision_of_def cjson_get_int64_value_def)
qed

theorem unmergeable_delta_not_reset_witness:
  "alloclient_parse_statediff sample_client_env (sent_patch json_ops (sample_state 2) 1) (alloclient_create ()) =
    Some (0, alloclient_create ())"
  by (rule unmergeable_delta_not_reset [where C = json_ops and style = "''merge''" and from_json = "jnum 1" and current = None])
    (simp_all add: sample_client_env_def sample_callbacks_def sample_delta_env_def ce_json_def sent_patch_def sample_state_def
      json_defs same_key_def string_value_def cjson_get_int64_value_def statehistory_get_def statehistory_get_latest_def
      statehistory_new_def slot_index_nonneg slot_state_def alloclient_create_def)

section \<open>The clock\<close>

text \<open>
  When a packet takes \<open>l\<close> each way and the server's clock is \<open>off\<close> ahead, the client measures the
  latency \<open>l\<close> but takes the server to be \<open>off + l\<close> ahead: its estimate of the time is too late by the
  latency.
\<close>

theorem clock_late_by_latency:
  assumes "cjson_lib C" and "C = ce_json E"
    and "get_cs C response ''client_time'' = Some (CreateNumber C t)"
    and "get_cs C response ''server_time'' = Some (CreateNumber C (t + l + off))" and "ts_monod E = t + 2 * l"
  shows "\<exists>cl'. parse_clock E response cl = Some cl' \<and> clock_latency cl' = l \<and> clock_deltaToServer cl' = off + l \<and>
    alloclient_get_time now cl' = (now + off) + l"
  using assms
  by (simp add: parse_clock_def Let_def cjson_lib.number_law call_if_def add_call_def alloclient_get_time_def)

theorem clock_late_by_latency_witness:
  "\<exists>cl'. parse_clock sample_client_env (Some (jobj [(''client_time'', jnum 3), (''server_time'', jnum 104)])) (alloclient_create ()) =
      Some cl' \<and> clock_latency cl' = 1 \<and> clock_deltaToServer cl' = 101"
proof -
  let ?r = "Some (jobj [(''client_time'', jnum 3), (''server_time'', jnum 104)])"
  have "get_cs json_ops ?r ''client_time'' = Some (CreateNumber json_ops 3)"
    "get_cs json_ops ?r ''server_time'' = Some (CreateNumber json_ops (3 + 1 + 100))" "ts_monod sample_client_env = 3 + 2 * 1"
    by (simp_all add: json_defs sample_client_env_def)
  from clock_late_by_latency [OF json.cjson_lib_axioms sample_env_json [symmetric] this, of "alloclient_create ()" 0]
  show ?thesis by auto
qed

section \<open>URLs\<close>

lemma strstr_char: "c \<notin> set xs \<Longrightarrow> strstr (xs @ c # ys) [c] = Some (length xs)"
  by (induction xs) auto

lemma strstr_char_None: "c \<notin> set xs \<Longrightarrow> strstr xs [c] = None"
  by (induction xs) auto

lemma split_scheme:
  assumes "split_url (''alloplace://'' @ rest) = r"
  shows "r = (let colon = strstr rest '':''; slash = strstr rest ''/'';
      justhost = allo_strndup rest (case colon of Some k \<Rightarrow> k | None \<Rightarrow> (case slash of Some k \<Rightarrow> k | None \<Rightarrow> length rest))
    in case (colon, slash) of
         (Some k, Some l) \<Rightarrow> if l < k + 1 then None
           else Some (Some (justhost, allo_strndup (drop (k + 1) rest) (l - (k + 1))))
       | (Some k, None) \<Rightarrow> Some (Some (justhost, Some (drop (k + 1) rest)))
       | _ \<Rightarrow> Some (Some (justhost, None)))"
  using assms by (simp add: split_url_def numeral_eq_Suc)

text \<open>
  The host and the port of a URL are found in each of its four forms: with and without a port, with
  and without a path; a port in decimal becomes its number, and without one it is 21337.
\<close>

theorem url_split:
  assumes "host \<noteq> []" and "CHR '':'' \<notin> set host" "CHR ''/'' \<notin> set host"
    and "port \<noteq> []" and "list_all digit port" and "CHR '':'' \<notin> set path"
  shows "split_url (''alloplace://'' @ host) = Some (Some (Some host, None)) \<and>
    split_url (''alloplace://'' @ host @ ''/'' @ path) = Some (Some (Some host, None)) \<and>
    split_url (''alloplace://'' @ host @ '':'' @ port) = Some (Some (Some host, Some port)) \<and>
    split_url (''alloplace://'' @ host @ '':'' @ port @ ''/'' @ path) = Some (Some (Some host, Some port)) \<and>
    address_port (Some port) = word_of_int (foldl (\<lambda>n c. n * 10 + (of_char c - 48)) 0 port) \<and> address_port None = 21337"
proof -
  have "CHR '':'' \<notin> set port" "CHR ''/'' \<notin> set port"
    using assms(5) by (auto simp: list_all_iff digit_def)
  note chars = assms(2,3,6) this
  have no_slash: "CHR ''/'' \<notin> set (host @ CHR '':'' # port)" "CHR '':'' \<notin> set (host @ CHR ''/'' # path)"
    using chars by auto
  have slash: "strstr (host @ CHR '':'' # port @ CHR ''/'' # path) ''/'' = Some (length (host @ CHR '':'' # port))"
    using strstr_char [OF no_slash(1), of path] by simp
  have "split_url (''alloplace://'' @ host) = Some (Some (Some host, None))"
    using split_scheme [OF refl, of host] assms(1) chars by (simp add: strstr_char_None allo_strndup_def)
  moreover have "split_url (''alloplace://'' @ host @ ''/'' @ path) = Some (Some (Some host, None))"
    using split_scheme [OF refl, of "host @ ''/'' @ path"] assms(1) chars strstr_char_None [OF no_slash(2)]
    by (simp add: strstr_char allo_strndup_def)
  moreover have "split_url (''alloplace://'' @ host @ '':'' @ port) = Some (Some (Some host, Some port))"
    using split_scheme [OF refl, of "host @ '':'' @ port"] assms(1) chars strstr_char_None [OF no_slash(1)]
    by (simp add: strstr_char allo_strndup_def)
  moreover have "split_url (''alloplace://'' @ host @ '':'' @ port @ ''/'' @ path) = Some (Some (Some host, Some port))"
    using split_scheme [OF refl, of "host @ '':'' @ port @ ''/'' @ path"] assms(1,4) chars slash
    by (simp add: strstr_char allo_strndup_def)
  moreover have "atoi port = foldl (\<lambda>n c. n * 10 + (of_char c - 48)) 0 port"
  proof -
    have "dropWhile (\<lambda>c. (of_char c :: nat) \<in> {9, 10, 11, 12, 13, 32}) port = port"
      using assms(4,5) by (cases port) (auto simp: digit_def)
    moreover have "decimal port = foldl (\<lambda>n c. n * 10 + (of_char c - 48)) 0 port"
      using assms(5) by (simp add: decimal_def list_all_iff takeWhile_eq_all_conv [THEN iffD2])
    ultimately show ?thesis
      using assms(4,5) by (cases port) (auto simp: atoi_def digit_def)
  qed
  ultimately show ?thesis by (simp add: address_port_def)
qed

theorem url_split_witness:
  "split_url ''alloplace://nevyn.places.alloverse.com:21338/lobby'' = Some (Some (Some ''nevyn.places.alloverse.com'', Some ''21338''))"
  using url_split [of "''nevyn.places.alloverse.com''" "''21338''" "''lobby''"] by (simp add: digit_def)

end
