(* ===== verification/Client_Proxy.thy ===== *)
theory Client_Proxy
  imports Client
begin

text \<open>
  The threaded client of \<^verbatim>\<open>src/clientproxy.c\<close>: the proxy on the caller's thread and the bridge, a
  client of \<^verbatim>\<open>src/client/client.c\<close>, on the network thread, with a queue of messages in each direction
  and a mutex for each queue. The first sections are the functions of the file; the last one puts the two
  threads together, step by step with the locks they hold. The user's code is a parameter: what it
  does in a callback is the list of the calls it makes to the client. \<open>None\<close> is a failed assertion, the
  use of a null pointer or of freed memory.
\<close>

section \<open>Messages\<close>

datatype proxy_message_type =
  msg_connect | msg_interaction | msg_intent | msg_state_delta | msg_disconnect | msg_audio | msg_video
| msg_clock | msg_ack | msg_asset_request | msg_asset_send_data | msg_asset_state_callback
| msg_asset_receive_callback | msg_asset_request_bytes_callback

text \<open>The tagged union: a constructor for each type, with the member of the union it uses.\<close>

datatype 'j proxy_message =
  Connect_msg string string string
| Interaction_msg allo_interaction
| Intent_msg client_intent
| State_delta_msg 'j
| Disconnect_msg int "string option"
| Audio_msg u32 "u16 list"
| Video_msg u32 allopicture
| Clock_msg rat rat
| Ack_msg int
| Asset_request_msg string "string option"
| Asset_send_data_msg string size_t size_t size_t "u8 list option"
| Asset_state_msg string asset_state
| Asset_receive_msg string size_t size_t size_t "u8 list"
| Asset_request_bytes_msg string size_t size_t

fun msg_type :: "'j proxy_message \<Rightarrow> proxy_message_type" where
  "msg_type (Connect_msg _ _ _) = msg_connect"
| "msg_type (Interaction_msg _) = msg_interaction"
| "msg_type (Intent_msg _) = msg_intent"
| "msg_type (State_delta_msg _) = msg_state_delta"
| "msg_type (Disconnect_msg _ _) = msg_disconnect"
| "msg_type (Audio_msg _ _) = msg_audio"
| "msg_type (Video_msg _ _) = msg_video"
| "msg_type (Clock_msg _ _) = msg_clock"
| "msg_type (Ack_msg _) = msg_ack"
| "msg_type (Asset_request_msg _ _) = msg_asset_request"
| "msg_type (Asset_send_data_msg _ _ _ _ _) = msg_asset_send_data"
| "msg_type (Asset_state_msg _ _) = msg_asset_state_callback"
| "msg_type (Asset_receive_msg _ _ _ _ _) = msg_asset_receive_callback"
| "msg_type (Asset_request_bytes_msg _ _ _) = msg_asset_request_bytes_callback"

section \<open>State\<close>

record ('j, 's, 'u) proxy_state =
  bridgeclient :: "('j, 's) alloclient"
  proxyclient :: "('j, 's) alloclient"
  user :: 'u
  proxy_to_bridge :: "'j proxy_message list"
  proxy_to_bridge_len :: i32
  bridge_to_proxy :: "'j proxy_message list"
  bridge_to_proxy_len :: i32
  running :: bool
  exit_code :: int

text \<open>What the media code calls back with, and what the user's callbacks are called with.\<close>

datatype media_call =
  Audio_decoded u32 "u16 list"
| Video_decoded u32 "u8 list" i32 i32

datatype 'j user_event =
  User_call "'j client_call"
| User_media media_call

text \<open>The calls the user can make to the proxy; the acknowledgement is one the proxy makes itself.\<close>

datatype 'j proxy_call =
  Call_connect string string string
| Call_disconnect int
| Call_send_interaction allo_interaction
| Call_set_intent client_intent
| Call_send_audio u32 "u16 list" size_t
| Call_send_video u32 allopicture
| Call_asset_request string "string option"
| Call_asset_send string "u8 list option" size_t size_t size_t
| Call_ack int

text \<open>
  The environment. What the network does in a step of the bridge is chosen by a value of the type
  \<open>'n\<close>: the clocks, the outcome of connecting, the events.
\<close>

record ('n, 'j, 's, 'u) proxy_env =
  pe_bridge :: "'n \<Rightarrow> ('j, 's) client_env"
  pe_net :: "'n \<Rightarrow> connect_env"
  pe_events :: "'n \<Rightarrow> enet_event list"
  pe_media :: "u8 list \<Rightarrow> media_call list"
  pe_proxy :: "('j, 's) client_env"
  pe_wants_audio :: bool
  pe_wants_video :: bool
  pe_react :: "'j user_event \<Rightarrow> 'u \<Rightarrow> 'u \<times> 'j proxy_call list"

definition enqueue_proxy_to_bridge ::
  "'j proxy_message \<Rightarrow> ('j, 's, 'u) proxy_state \<Rightarrow> ('j, 's, 'u) proxy_state" where
  "enqueue_proxy_to_bridge msg st =
     st\<lparr>proxy_to_bridge := proxy_to_bridge st @ [msg], proxy_to_bridge_len := proxy_to_bridge_len st + 1\<rparr>"

definition enqueue_bridge_to_proxy ::
  "'j proxy_message \<Rightarrow> ('j, 's, 'u) proxy_state \<Rightarrow> ('j, 's, 'u) proxy_state" where
  "enqueue_bridge_to_proxy msg st =
     st\<lparr>bridge_to_proxy := bridge_to_proxy st @ [msg], bridge_to_proxy_len := bridge_to_proxy_len st + 1\<rparr>"

section \<open>The proxy's side of the API\<close>

definition proxy_alloclient_connect ::
  "string \<Rightarrow> string \<Rightarrow> string \<Rightarrow> ('j, 's, 'u) proxy_state \<Rightarrow> ('j, 's, 'u) proxy_state" where
  "proxy_alloclient_connect url identity avatar_desc = enqueue_proxy_to_bridge (Connect_msg url identity avatar_desc)"

text \<open>The first part of \<open>proxy_alloclient_disconnect\<close>; then it waits for the other thread to end.\<close>

definition proxy_alloclient_disconnect :: "int \<Rightarrow> ('j, 's, 'u) proxy_state \<Rightarrow> ('j, 's, 'u) proxy_state" where
  "proxy_alloclient_disconnect reason = enqueue_proxy_to_bridge (Disconnect_msg reason None)"

definition proxy_alloclient_send_interaction ::
  "allo_interaction \<Rightarrow> ('j, 's, 'u) proxy_state \<Rightarrow> ('j, 's, 'u) proxy_state" where
  "proxy_alloclient_send_interaction interaction =
     enqueue_proxy_to_bridge (Interaction_msg (allo_interaction_clone interaction))"

definition proxy_alloclient_set_intent ::
  "client_intent \<Rightarrow> ('j, 's, 'u) proxy_state \<Rightarrow> ('j, 's, 'u) proxy_state" where
  "proxy_alloclient_set_intent intent st =
     enqueue_proxy_to_bridge (Intent_msg (allo_client_intent_clone intent allo_client_intent_create))
       (st\<lparr>proxyclient := alloclient_set_intent intent (proxyclient st)\<rparr>)"

definition proxy_alloclient_send_audio ::
  "u32 \<Rightarrow> u16 list \<Rightarrow> size_t \<Rightarrow> ('j, 's, 'u) proxy_state \<Rightarrow> ('j, 's, 'u) proxy_state option" where
  "proxy_alloclient_send_audio track_id pcm sample_count st =
     (if length pcm < unat sample_count then None
      else Some (enqueue_proxy_to_bridge (Audio_msg track_id (take (unat sample_count) pcm)) st))"

definition proxy_alloclient_send_video ::
  "u32 \<Rightarrow> allopicture \<Rightarrow> ('j, 's, 'u) proxy_state \<Rightarrow> ('j, 's, 'u) proxy_state" where
  "proxy_alloclient_send_video track_id picture = enqueue_proxy_to_bridge (Video_msg track_id picture)"

definition proxy_alloclient_asset_request ::
  "string \<Rightarrow> string option \<Rightarrow> ('j, 's, 'u) proxy_state \<Rightarrow> ('j, 's, 'u) proxy_state" where
  "proxy_alloclient_asset_request i entity = enqueue_proxy_to_bridge (Asset_request_msg i entity)"

definition proxy_alloclient_asset_send ::
  "string \<Rightarrow> u8 list option \<Rightarrow> size_t \<Rightarrow> size_t \<Rightarrow> size_t \<Rightarrow> ('j, 's, 'u) proxy_state \<Rightarrow> ('j, 's, 'u) proxy_state option"
where
  "proxy_alloclient_asset_send i data offset len total_size st =
     (case data of
        None \<Rightarrow> Some (enqueue_proxy_to_bridge (Asset_send_data_msg i offset len total_size None) st)
      | Some d \<Rightarrow>
          if length d < unat len then None
          else Some (enqueue_proxy_to_bridge (Asset_send_data_msg i offset len total_size (Some (take (unat len) d))) st))"

definition proxy_alloclient_get_time :: "rat \<Rightarrow> ('j, 's, 'u) proxy_state \<Rightarrow> rat" where
  "proxy_alloclient_get_time monod st = monod + clock_deltaToServer (proxyclient st)"

definition call_proxy :: "'j proxy_call \<Rightarrow> ('j, 's, 'u) proxy_state \<Rightarrow> ('j, 's, 'u) proxy_state option" where
  "call_proxy c st =
     (case c of
        Call_connect url identity avatar_desc \<Rightarrow> Some (proxy_alloclient_connect url identity avatar_desc st)
      | Call_disconnect reason \<Rightarrow> Some (proxy_alloclient_disconnect reason st)
      | Call_send_interaction i \<Rightarrow> Some (proxy_alloclient_send_interaction i st)
      | Call_set_intent intent \<Rightarrow> Some (proxy_alloclient_set_intent intent st)
      | Call_send_audio track_id pcm n \<Rightarrow> proxy_alloclient_send_audio track_id pcm n st
      | Call_send_video track_id picture \<Rightarrow> Some (proxy_alloclient_send_video track_id picture st)
      | Call_asset_request i entity \<Rightarrow> Some (proxy_alloclient_asset_request i entity st)
      | Call_asset_send i data offset len total_size \<Rightarrow> proxy_alloclient_asset_send i data offset len total_size st
      | Call_ack r \<Rightarrow> Some (enqueue_proxy_to_bridge (Ack_msg r) st))"

section \<open>The bridge's callbacks\<close>

text \<open>
  Each makes the message that is then queued for the proxy; \<open>strdup\<close> of a null pointer and the
  assertions on received data are \<open>None\<close>.
\<close>

definition bridge_asset_state_callback :: "string option \<Rightarrow> asset_state \<Rightarrow> 'j proxy_message option" where
  "bridge_asset_state_callback i state = map_option (\<lambda>s. Asset_state_msg s state) i"

definition bridge_asset_receive_callback ::
  "string \<Rightarrow> u8 list \<Rightarrow> size_t \<Rightarrow> size_t \<Rightarrow> size_t \<Rightarrow> 'j proxy_message option" where
  "bridge_asset_receive_callback i data offset len total_size =
     (if len = 0 \<or> length data < unat len then None
      else Some (Asset_receive_msg i offset len total_size (take (unat len) data)))"

definition bridge_asset_request_bytes_callback :: "string \<Rightarrow> size_t \<Rightarrow> size_t \<Rightarrow> 'j proxy_message" where
  "bridge_asset_request_bytes_callback i offset len = Asset_request_bytes_msg i offset len"

definition bridge_raw_state_delta_callback :: "'j \<Rightarrow> 'j proxy_message" where
  "bridge_raw_state_delta_callback cmd = State_delta_msg cmd"

definition bridge_interaction_callback :: "allo_interaction \<Rightarrow> 'j proxy_message" where
  "bridge_interaction_callback interaction = Interaction_msg interaction"

definition bridge_audio_callback :: "u32 \<Rightarrow> u16 list \<Rightarrow> 'j proxy_message" where
  "bridge_audio_callback track_id pcm = Audio_msg track_id pcm"

definition bridge_video_callback :: "u32 \<Rightarrow> u8 list \<Rightarrow> i32 \<Rightarrow> i32 \<Rightarrow> 'j proxy_message" where
  "bridge_video_callback track_id pixels wide high =
     Video_msg track_id \<lparr>plane0 = pixels, picture_format = rgba8888, picture_width = wide, picture_height = high,
       plane_count = 0, plane_byte_length = 0, plane_stride = 0\<rparr>"

definition bridge_disconnected_callback :: "int \<Rightarrow> string option \<Rightarrow> 'j proxy_message" where
  "bridge_disconnected_callback code message = Disconnect_msg code message"

definition bridge_clock_callback :: "rat \<Rightarrow> rat \<Rightarrow> 'j proxy_message" where
  "bridge_clock_callback latency delta = Clock_msg latency delta"

fun bridge_media :: "media_call \<Rightarrow> 'j proxy_message" where
  "bridge_media (Audio_decoded track_id pcm) = bridge_audio_callback track_id pcm"
| "bridge_media (Video_decoded track_id pixels wide high) = bridge_video_callback track_id pixels wide high"

text \<open>The callbacks that \<open>clientproxy_create\<close> sets; the bridge has none for states, as it parses no deltas.\<close>

definition bridge_callback ::
  "('n, 'j, 's, 'u) proxy_env \<Rightarrow> 'j client_call \<Rightarrow> 'j proxy_message list option" where
  "bridge_callback P c =
     (case c of
        Asset_state_changed i state \<Rightarrow> map_option (\<lambda>m. [m]) (bridge_asset_state_callback i state)
      | Asset_received i data offset len total_size \<Rightarrow>
          map_option (\<lambda>m. [m]) (bridge_asset_receive_callback i data offset len total_size)
      | Asset_bytes_requested i offset len \<Rightarrow> Some [bridge_asset_request_bytes_callback i offset len]
      | Raw_state_delta cmd \<Rightarrow> Some [bridge_raw_state_delta_callback cmd]
      | Interaction_received i \<Rightarrow> Some [bridge_interaction_callback i]
      | Disconnected code message \<Rightarrow> Some [bridge_disconnected_callback code message]
      | Clock_changed latency delta \<Rightarrow> Some [bridge_clock_callback latency delta]
      | Media_packet packet \<Rightarrow> Some (map bridge_media (pe_media P packet))
      | State_changed _ _ \<Rightarrow> Some []
      | Media_statediff _ \<Rightarrow> Some [])"

text \<open>A function of the client run on the bridge, and the messages its callbacks make, in order.\<close>

fun messages_of :: "('n, 'j, 's, 'u) proxy_env \<Rightarrow> 'j client_call list \<Rightarrow> 'j proxy_message list option" where
  "messages_of P [] = Some []"
| "messages_of P (c # cs) =
     (case (bridge_callback P c, messages_of P cs) of (Some ms, Some ns) \<Rightarrow> Some (ms @ ns) | _ \<Rightarrow> None)"

definition on_bridge ::
  "('n, 'j, 's, 'u) proxy_env \<Rightarrow> (('j, 's) alloclient \<Rightarrow> ('j, 's) alloclient option) \<Rightarrow> ('j, 's, 'u) proxy_state \<Rightarrow>
   (('j, 's, 'u) proxy_state \<times> 'j proxy_message list) option" where
  "on_bridge P f st =
     (case f ((bridgeclient st)\<lparr>client_calls := []\<rparr>) of
        None \<Rightarrow> None
      | Some b \<Rightarrow> map_option (Pair (st\<lparr>bridgeclient := b\<rparr>)) (messages_of P (client_calls b)))"

section \<open>The bridge's handlers\<close>

type_synonym ('n, 'j, 's, 'u) bridge_handler =
  "('n, 'j, 's, 'u) proxy_env \<Rightarrow> 'n \<Rightarrow> 'j proxy_message \<Rightarrow> ('j, 's, 'u) proxy_state \<Rightarrow>
   (('j, 's, 'u) proxy_state \<times> 'j proxy_message list) option"

definition bridge_alloclient_connect :: "('n, 'j, 's, 'u) bridge_handler" where
  "bridge_alloclient_connect P n msg st =
     (case msg of
        Connect_msg url identity avatar_desc \<Rightarrow>
          (case alloclient_connect (pe_bridge P n) (pe_net P n) url (Some identity) (Some avatar_desc)
                  ((bridgeclient st)\<lparr>client_calls := []\<rparr>) of
             None \<Rightarrow> None
           | Some (success, b) \<Rightarrow>
               (case messages_of P (client_calls b) of
                  None \<Rightarrow> None
                | Some ms \<Rightarrow>
                    if success then Some (st\<lparr>bridgeclient := b\<rparr>, ms)
                    else if deallocated b then None
                    else Some (st\<lparr>bridgeclient := b\<rparr>,
                           ms @ [bridge_disconnected_callback alloerror_failed_to_connect (Some ''Failed to connect'')])))
      | _ \<Rightarrow> None)"

definition bridge_alloclient_disconnect :: "('n, 'j, 's, 'u) bridge_handler" where
  "bridge_alloclient_disconnect P n msg st =
     (case msg of
        Disconnect_msg code message \<Rightarrow> Some (st\<lparr>running := False, exit_code := code\<rparr>, [])
      | _ \<Rightarrow> None)"

definition bridge_alloclient_send_interaction :: "('n, 'j, 's, 'u) bridge_handler" where
  "bridge_alloclient_send_interaction P n msg st =
     (case msg of
        Interaction_msg i \<Rightarrow> on_bridge P (alloclient_send_interaction (pe_bridge P n) i) st
      | _ \<Rightarrow> None)"

definition bridge_alloclient_set_intent :: "('n, 'j, 's, 'u) bridge_handler" where
  "bridge_alloclient_set_intent P n msg st =
     (case msg of
        Intent_msg intent \<Rightarrow> on_bridge P (\<lambda>b. Some (alloclient_set_intent intent b)) st
      | _ \<Rightarrow> None)"

text \<open>Sending audio and video ends in the media code, which calls nothing back.\<close>

definition bridge_alloclient_send_audio :: "('n, 'j, 's, 'u) bridge_handler" where
  "bridge_alloclient_send_audio P n msg st = (case msg of Audio_msg track_id pcm \<Rightarrow> Some (st, []) | _ \<Rightarrow> None)"

definition bridge_alloclient_send_video :: "('n, 'j, 's, 'u) bridge_handler" where
  "bridge_alloclient_send_video P n msg st = (case msg of Video_msg track_id picture \<Rightarrow> Some (st, []) | _ \<Rightarrow> None)"

definition bridge_alloclient_ack :: "('n, 'j, 's, 'u) bridge_handler" where
  "bridge_alloclient_ack P n msg st =
     (case msg of Ack_msg r \<Rightarrow> on_bridge P (\<lambda>b. Some (alloclient_ack_rev r b)) st | _ \<Rightarrow> None)"

definition bridge_alloclient_asset_request :: "('n, 'j, 's, 'u) bridge_handler" where
  "bridge_alloclient_asset_request P n msg st =
     (case msg of
        Asset_request_msg i entity \<Rightarrow> on_bridge P (client_asset_request (pe_bridge P n) i entity) st
      | _ \<Rightarrow> None)"

definition bridge_alloclient_asset_send_data :: "('n, 'j, 's, 'u) bridge_handler" where
  "bridge_alloclient_asset_send_data P n msg st =
     (case msg of
        Asset_send_data_msg i offset len total_size data \<Rightarrow>
          on_bridge P (client_asset_send (pe_bridge P n) i data offset len total_size) st
      | _ \<Rightarrow> None)"

fun bridge_message_lookup_table :: "proxy_message_type \<Rightarrow> ('n, 'j, 's, 'u) bridge_handler option" where
  "bridge_message_lookup_table msg_connect = Some bridge_alloclient_connect"
| "bridge_message_lookup_table msg_disconnect = Some bridge_alloclient_disconnect"
| "bridge_message_lookup_table msg_interaction = Some bridge_alloclient_send_interaction"
| "bridge_message_lookup_table msg_intent = Some bridge_alloclient_set_intent"
| "bridge_message_lookup_table msg_audio = Some bridge_alloclient_send_audio"
| "bridge_message_lookup_table msg_video = Some bridge_alloclient_send_video"
| "bridge_message_lookup_table msg_ack = Some bridge_alloclient_ack"
| "bridge_message_lookup_table msg_asset_request = Some bridge_alloclient_asset_request"
| "bridge_message_lookup_table msg_asset_send_data = Some bridge_alloclient_asset_send_data"
| "bridge_message_lookup_table _ = None"

section \<open>The proxy's handlers\<close>

type_synonym ('n, 'j, 's, 'u) proxy_handler =
  "('n, 'j, 's, 'u) proxy_env \<Rightarrow> 'j proxy_message \<Rightarrow> ('j, 's, 'u) proxy_state \<Rightarrow>
   (('j, 's, 'u) proxy_state \<times> 'j proxy_call list) option"

text \<open>A callback of the user, if it is set.\<close>

definition call_user ::
  "('n, 'j, 's, 'u) proxy_env \<Rightarrow> bool \<Rightarrow> 'j user_event \<Rightarrow> ('j, 's, 'u) proxy_state \<Rightarrow>
   ('j, 's, 'u) proxy_state \<times> 'j proxy_call list" where
  "call_user P wanted event st =
     (if wanted then (case pe_react P event (user st) of (u, cs) \<Rightarrow> (st\<lparr>user := u\<rparr>, cs)) else (st, []))"

definition user_callbacks :: "('n, 'j, 's, 'u) proxy_env \<Rightarrow> client_callbacks" where
  "user_callbacks P = ce_callbacks (pe_proxy P)"

definition proxy_asset_state_callback :: "('n, 'j, 's, 'u) proxy_handler" where
  "proxy_asset_state_callback P msg st =
     (case msg of
        Asset_state_msg i state \<Rightarrow>
          Some (call_user P (wants_asset_state (user_callbacks P)) (User_call (Asset_state_changed (Some i) state)) st)
      | _ \<Rightarrow> None)"

definition proxy_asset_receive_callback :: "('n, 'j, 's, 'u) proxy_handler" where
  "proxy_asset_receive_callback P msg st =
     (case msg of
        Asset_receive_msg i offset len total_size data \<Rightarrow>
          Some (call_user P (wants_asset_receive (user_callbacks P))
            (User_call (Asset_received i data offset len total_size)) st)
      | _ \<Rightarrow> None)"

definition proxy_alloclient_asset_request_bytes_callback :: "('n, 'j, 's, 'u) proxy_handler" where
  "proxy_alloclient_asset_request_bytes_callback P msg st =
     (case msg of
        Asset_request_bytes_msg i offset len \<Rightarrow>
          Some (call_user P (wants_asset_request_bytes (user_callbacks P))
            (User_call (Asset_bytes_requested i offset len)) st)
      | _ \<Rightarrow> None)"

text \<open>The state callbacks of a parsed delta come before the acknowledgement.\<close>

fun call_user_list ::
  "('n, 'j, 's, 'u) proxy_env \<Rightarrow> 'j client_call list \<Rightarrow> ('j, 's, 'u) proxy_state \<Rightarrow>
   ('j, 's, 'u) proxy_state \<times> 'j proxy_call list" where
  "call_user_list P [] st = (st, [])"
| "call_user_list P (c # cs) st =
     (case call_user P (case c of State_changed _ _ \<Rightarrow> True | _ \<Rightarrow> False) (User_call c) st of
        (st', out) \<Rightarrow> (case call_user_list P cs st' of (st'', out') \<Rightarrow> (st'', out @ out')))"

definition proxy_raw_state_delta_callback :: "('n, 'j, 's, 'u) proxy_handler" where
  "proxy_raw_state_delta_callback P msg st =
     (case msg of
        State_delta_msg delta \<Rightarrow>
          (case alloclient_parse_statediff (pe_proxy P) delta ((proxyclient st)\<lparr>client_calls := []\<rparr>) of
             None \<Rightarrow> None
           | Some (r, p) \<Rightarrow>
               (case call_user_list P (client_calls p) (st\<lparr>proxyclient := p\<rparr>) of
                  (st', out) \<Rightarrow> Some (st', out @ [Call_ack r])))
      | _ \<Rightarrow> None)"

definition proxy_interaction_callback :: "('n, 'j, 's, 'u) proxy_handler" where
  "proxy_interaction_callback P msg st =
     (case msg of
        Interaction_msg i \<Rightarrow>
          Some (call_user P (wants_interaction (user_callbacks P)) (User_call (Interaction_received i)) st)
      | _ \<Rightarrow> None)"

definition proxy_audio_callback :: "('n, 'j, 's, 'u) proxy_handler" where
  "proxy_audio_callback P msg st =
     (case msg of
        Audio_msg track_id pcm \<Rightarrow> Some (call_user P (pe_wants_audio P) (User_media (Audio_decoded track_id pcm)) st)
      | _ \<Rightarrow> None)"

definition proxy_video_callback :: "('n, 'j, 's, 'u) proxy_handler" where
  "proxy_video_callback P msg st =
     (case msg of
        Video_msg track_id picture \<Rightarrow>
          Some (call_user P (pe_wants_video P)
            (User_media (Video_decoded track_id (plane0 picture) (picture_width picture) (picture_height picture))) st)
      | _ \<Rightarrow> None)"

definition proxy_disconnected_callback :: "('n, 'j, 's, 'u) proxy_handler" where
  "proxy_disconnected_callback P msg st =
     (case msg of
        Disconnect_msg code message \<Rightarrow>
          Some (call_user P (wants_disconnected (user_callbacks P)) (User_call (Disconnected code message)) st)
      | _ \<Rightarrow> None)"

definition proxy_clock_callback :: "('n, 'j, 's, 'u) proxy_handler" where
  "proxy_clock_callback P msg st =
     (case msg of
        Clock_msg latency delta \<Rightarrow>
          Some (call_user P (wants_clock (user_callbacks P)) (User_call (Clock_changed latency delta))
            (st\<lparr>proxyclient := (proxyclient st)\<lparr>clock_latency := latency, clock_deltaToServer := delta\<rparr>\<rparr>))
      | _ \<Rightarrow> None)"

fun proxy_message_lookup_table :: "proxy_message_type \<Rightarrow> ('n, 'j, 's, 'u) proxy_handler option" where
  "proxy_message_lookup_table msg_state_delta = Some proxy_raw_state_delta_callback"
| "proxy_message_lookup_table msg_interaction = Some proxy_interaction_callback"
| "proxy_message_lookup_table msg_audio = Some proxy_audio_callback"
| "proxy_message_lookup_table msg_video = Some proxy_video_callback"
| "proxy_message_lookup_table msg_disconnect = Some proxy_disconnected_callback"
| "proxy_message_lookup_table msg_clock = Some proxy_clock_callback"
| "proxy_message_lookup_table msg_asset_state_callback = Some proxy_asset_state_callback"
| "proxy_message_lookup_table msg_asset_receive_callback = Some proxy_asset_receive_callback"
| "proxy_message_lookup_table msg_asset_request_bytes_callback = Some proxy_alloclient_asset_request_bytes_callback"
| "proxy_message_lookup_table _ = None"

section \<open>The loops\<close>

text \<open>Taking the first message off a queue and running its handler.\<close>

definition take_from_bridge ::
  "('n, 'j, 's, 'u) proxy_env \<Rightarrow> 'j proxy_message \<Rightarrow> ('j, 's, 'u) proxy_state \<Rightarrow>
   (('j, 's, 'u) proxy_state \<times> 'j proxy_call list) option" where
  "take_from_bridge P msg st =
     (case proxy_message_lookup_table (msg_type msg) of
        None \<Rightarrow> None
      | Some callback \<Rightarrow>
          callback P msg (st\<lparr>bridge_to_proxy := tl (bridge_to_proxy st), bridge_to_proxy_len := bridge_to_proxy_len st - 1\<rparr>))"

definition take_from_proxy ::
  "('n, 'j, 's, 'u) proxy_env \<Rightarrow> 'n \<Rightarrow> 'j proxy_message \<Rightarrow> ('j, 's, 'u) proxy_state \<Rightarrow>
   (('j, 's, 'u) proxy_state \<times> 'j proxy_message list) option" where
  "take_from_proxy P n msg st =
     (case bridge_message_lookup_table (msg_type msg) of
        None \<Rightarrow> None
      | Some callback \<Rightarrow>
          callback P n msg (st\<lparr>proxy_to_bridge := tl (proxy_to_bridge st), proxy_to_bridge_len := proxy_to_bridge_len st - 1\<rparr>))"

text \<open>
  \<open>proxy_alloclient_poll\<close> when the other thread stays out of the way: it works through the queue and
  stops after a disconnect message. A callback that disconnects frees the mutex that is then unlocked.
\<close>

fun is_call_disconnect :: "'j proxy_call \<Rightarrow> bool" where
  "is_call_disconnect (Call_disconnect _) = True"
| "is_call_disconnect _ = False"

fun is_call_ack :: "'j proxy_call \<Rightarrow> bool" where
  "is_call_ack (Call_ack _) = True"
| "is_call_ack _ = False"

definition make_calls ::
  "'j proxy_call list \<Rightarrow> ('j, 's, 'u) proxy_state \<Rightarrow> ('j, 's, 'u) proxy_state option" where
  "make_calls = fold_opt (\<lambda>c st. if is_call_disconnect c then None else call_proxy c st)"

fun poll_queue ::
  "('n, 'j, 's, 'u) proxy_env \<Rightarrow> 'j proxy_message list \<Rightarrow> ('j, 's, 'u) proxy_state \<Rightarrow> ('j, 's, 'u) proxy_state option"
where
  "poll_queue P [] st = Some st"
| "poll_queue P (msg # msgs) st =
     (case take_from_bridge P msg st of
        None \<Rightarrow> None
      | Some (st', out) \<Rightarrow>
          (case make_calls out st' of
             None \<Rightarrow> None
           | Some st'' \<Rightarrow> if msg_type msg = msg_disconnect then Some st'' else poll_queue P msgs st''))"

definition proxy_alloclient_poll ::
  "('n, 'j, 's, 'u) proxy_env \<Rightarrow> ('j, 's, 'u) proxy_state \<Rightarrow> ('j, 's, 'u) proxy_state option" where
  "proxy_alloclient_poll P st = poll_queue P (bridge_to_proxy st) st"

text \<open>\<open>bridge_check_for_messages\<close> and \<open>bridge_check_for_network\<close>, likewise.\<close>

fun check_queue ::
  "('n, 'j, 's, 'u) proxy_env \<Rightarrow> 'n list \<Rightarrow> 'j proxy_message list \<Rightarrow> ('j, 's, 'u) proxy_state \<Rightarrow>
   ('j, 's, 'u) proxy_state option" where
  "check_queue P (n # ns) (msg # msgs) st =
     (case take_from_proxy P n msg st of
        None \<Rightarrow> None
      | Some (st', out) \<Rightarrow> check_queue P ns msgs (fold enqueue_bridge_to_proxy out st'))"
| "check_queue P _ _ st = Some st"

definition bridge_check_for_messages ::
  "('n, 'j, 's, 'u) proxy_env \<Rightarrow> 'n list \<Rightarrow> ('j, 's, 'u) proxy_state \<Rightarrow> ('j, 's, 'u) proxy_state option" where
  "bridge_check_for_messages P ns st = check_queue P ns (proxy_to_bridge st) st"

definition bridge_check_for_network ::
  "('n, 'j, 's, 'u) proxy_env \<Rightarrow> 'n \<Rightarrow> ('j, 's, 'u) proxy_state \<Rightarrow>
   (('j, 's, 'u) proxy_state \<times> 'j proxy_message list) option" where
  "bridge_check_for_network P n = on_bridge P (\<lambda>b. map_option snd (alloclient_poll (pe_bridge P n) (pe_events P n) b))"

definition clientproxy_create :: "('j, 's) alloclient \<Rightarrow> ('j, 's) alloclient \<Rightarrow> 'u \<Rightarrow> ('j, 's, 'u) proxy_state" where
  "clientproxy_create target proxy u = \<lparr>bridgeclient = target, proxyclient = proxy, user = u,
     proxy_to_bridge = [], proxy_to_bridge_len = 0, bridge_to_proxy = [], bridge_to_proxy_len = 0,
     running = True, exit_code = 0\<rparr>"

section \<open>Two threads\<close>

text \<open>
  Where each thread is. The proxy holds the lock of the queue it reads while it is polling, with the
  calls its current handler still has to make, and when a call of these disconnects. The bridge holds
  the lock of its queue while it is checking, with the messages its current handler has still to
  queue. Each \<open>enqueue\<close> needs the lock of its queue for the length of a step.
\<close>

datatype 'j proxy_thread =
  Proxy_idle
| Proxy_polling "'j proxy_call list" bool
| Proxy_joining bool
| Proxy_disconnected
| Proxy_crashed

datatype 'j bridge_thread =
  Bridge_loop
| Bridge_network "'j proxy_message list"
| Bridge_checking "'j proxy_message list"
| Bridge_exited
| Bridge_crashed

record ('j, 's, 'u) threads =
  shared :: "('j, 's, 'u) proxy_state"
  proxy_at :: "'j proxy_thread"
  bridge_at :: "'j bridge_thread"

fun holds_bridge_to_proxy :: "'j proxy_thread \<Rightarrow> bool" where
  "holds_bridge_to_proxy (Proxy_polling _ _) = True"
| "holds_bridge_to_proxy (Proxy_joining polling) = polling"
| "holds_bridge_to_proxy _ = False"

fun holds_proxy_to_bridge :: "'j bridge_thread \<Rightarrow> bool" where
  "holds_proxy_to_bridge (Bridge_checking _) = True"
| "holds_proxy_to_bridge _ = False"

datatype 'j label = Silent | Proxy_sends "'j proxy_message" | Bridge_takes "'j proxy_message"
| Bridge_sends "'j proxy_message" | Proxy_takes "'j proxy_message"

inductive step ::
  "('n, 'j, 's, 'u) proxy_env \<Rightarrow> ('j, 's, 'u) threads \<Rightarrow> 'j label \<Rightarrow> ('j, 's, 'u) threads \<Rightarrow> bool" for P where
  user_calls: "proxy_at t = Proxy_idle \<Longrightarrow> \<not> is_call_ack c \<Longrightarrow> \<not> holds_proxy_to_bridge (bridge_at t) \<Longrightarrow> call_proxy c (shared t) = Some st \<Longrightarrow>
    step P t (Proxy_sends (last (proxy_to_bridge st)))
      (t\<lparr>shared := st, proxy_at := if is_call_disconnect c then Proxy_joining False else Proxy_idle\<rparr>)"
| poll_begins: "proxy_at t = Proxy_idle \<Longrightarrow> step P t Silent (t\<lparr>proxy_at := Proxy_polling [] False\<rparr>)"
| poll_takes: "proxy_at t = Proxy_polling [] False \<Longrightarrow> bridge_to_proxy (shared t) = msg # msgs \<Longrightarrow>
    take_from_bridge P msg (shared t) = Some (st, out) \<Longrightarrow>
    step P t (Proxy_takes msg) (t\<lparr>shared := st, proxy_at := Proxy_polling out (msg_type msg = msg_disconnect)\<rparr>)"
| poll_crashes: "proxy_at t = Proxy_polling [] False \<Longrightarrow> bridge_to_proxy (shared t) = msg # msgs \<Longrightarrow>
    take_from_bridge P msg (shared t) = None \<Longrightarrow> step P t Silent (t\<lparr>proxy_at := Proxy_crashed\<rparr>)"
| callback_calls: "proxy_at t = Proxy_polling (c # cs) d \<Longrightarrow> \<not> holds_proxy_to_bridge (bridge_at t) \<Longrightarrow>
    call_proxy c (shared t) = Some st \<Longrightarrow>
    step P t (Proxy_sends (last (proxy_to_bridge st)))
      (t\<lparr>shared := st, proxy_at := if is_call_disconnect c then Proxy_joining True else Proxy_polling cs d\<rparr>)"
| callback_crashes: "proxy_at t = Proxy_polling (c # cs) d \<Longrightarrow> call_proxy c (shared t) = None \<Longrightarrow>
    step P t Silent (t\<lparr>proxy_at := Proxy_crashed\<rparr>)"
| poll_ends: "proxy_at t = Proxy_polling [] d \<Longrightarrow> d \<or> bridge_to_proxy (shared t) = [] \<Longrightarrow>
    step P t Silent (t\<lparr>proxy_at := Proxy_idle\<rparr>)"
| join_ends: "proxy_at t = Proxy_joining polling \<Longrightarrow> bridge_at t = Bridge_exited \<Longrightarrow>
    step P t Silent (t\<lparr>proxy_at := if polling then Proxy_crashed else Proxy_disconnected\<rparr>)"
| network: "bridge_at t = Bridge_loop \<Longrightarrow> running (shared t) \<Longrightarrow>
    bridge_check_for_network P n (shared t) = Some (st, out) \<Longrightarrow>
    step P t Silent (t\<lparr>shared := st, bridge_at := Bridge_network out\<rparr>)"
| network_crashes: "bridge_at t = Bridge_loop \<Longrightarrow> running (shared t) \<Longrightarrow>
    bridge_check_for_network P n (shared t) = None \<Longrightarrow> step P t Silent (t\<lparr>bridge_at := Bridge_crashed\<rparr>)"
| network_sends: "bridge_at t = Bridge_network (msg # msgs) \<Longrightarrow> \<not> holds_bridge_to_proxy (proxy_at t) \<Longrightarrow>
    step P t (Bridge_sends msg) (t\<lparr>shared := enqueue_bridge_to_proxy msg (shared t), bridge_at := Bridge_network msgs\<rparr>)"
| check_begins: "bridge_at t = Bridge_network [] \<Longrightarrow> step P t Silent (t\<lparr>bridge_at := Bridge_checking []\<rparr>)"
| check_takes: "bridge_at t = Bridge_checking [] \<Longrightarrow> proxy_to_bridge (shared t) = msg # msgs \<Longrightarrow>
    take_from_proxy P n msg (shared t) = Some (st, out) \<Longrightarrow>
    step P t (Bridge_takes msg) (t\<lparr>shared := st, bridge_at := Bridge_checking out\<rparr>)"
| check_crashes: "bridge_at t = Bridge_checking [] \<Longrightarrow> proxy_to_bridge (shared t) = msg # msgs \<Longrightarrow>
    take_from_proxy P n msg (shared t) = None \<Longrightarrow> step P t Silent (t\<lparr>bridge_at := Bridge_crashed\<rparr>)"
| check_sends: "bridge_at t = Bridge_checking (msg # msgs) \<Longrightarrow> \<not> holds_bridge_to_proxy (proxy_at t) \<Longrightarrow>
    step P t (Bridge_sends msg) (t\<lparr>shared := enqueue_bridge_to_proxy msg (shared t), bridge_at := Bridge_checking msgs\<rparr>)"
| check_ends: "bridge_at t = Bridge_checking [] \<Longrightarrow> proxy_to_bridge (shared t) = [] \<Longrightarrow>
    step P t Silent (t\<lparr>bridge_at := Bridge_loop\<rparr>)"
| bridge_ends: "bridge_at t = Bridge_loop \<Longrightarrow> \<not> running (shared t) \<Longrightarrow> alloclient_disconnect (bridgeclient (shared t)) = Some b \<Longrightarrow>
    step P t Silent (t\<lparr>shared := (shared t)\<lparr>bridgeclient := b\<rparr>, bridge_at := Bridge_exited\<rparr>)"
| bridge_end_crashes: "bridge_at t = Bridge_loop \<Longrightarrow> \<not> running (shared t) \<Longrightarrow>
    alloclient_disconnect (bridgeclient (shared t)) = None \<Longrightarrow> step P t Silent (t\<lparr>bridge_at := Bridge_crashed\<rparr>)"

inductive run ::
  "('n, 'j, 's, 'u) proxy_env \<Rightarrow> ('j, 's, 'u) threads \<Rightarrow> 'j label list \<Rightarrow> ('j, 's, 'u) threads \<Rightarrow> bool" for P where
  run_nil: "run P t [] t"
| run_step: "run P t ls t' \<Longrightarrow> step P t' l t'' \<Longrightarrow> run P t (ls @ [l]) t''"

definition threads_init :: "('j, 's) alloclient \<Rightarrow> ('j, 's) alloclient \<Rightarrow> 'u \<Rightarrow> ('j, 's, 'u) threads" where
  "threads_init target proxy u =
     \<lparr>shared = clientproxy_create target proxy u, proxy_at = Proxy_idle, bridge_at = Bridge_loop\<rparr>"

end
