(* ===== verification/Client_Proxy_Correct.thy ===== *)
theory Client_Proxy_Correct
  imports Client_Proxy Client_Correct
begin

text \<open>
  What the two threads of the client keep: every message in a queue has a handler, the messages arrive
  in the order in which they were sent and none is lost, a poll is a run of the proxy alone, and a
  disconnect can always run to its end; unless it is made inside a callback.
\<close>

section \<open>What the handlers leave alone\<close>

text \<open>The queues with their lengths, and whether the bridge is to go on.\<close>

definition frame :: "('j, 's, 'u) proxy_state \<Rightarrow> ('j proxy_message list \<times> i32) \<times> ('j proxy_message list \<times> i32) \<times> bool" where
  "frame st = ((proxy_to_bridge st, proxy_to_bridge_len st), (bridge_to_proxy st, bridge_to_proxy_len st), running st)"

definition for_bridge :: "'j proxy_message \<Rightarrow> bool" where
  "for_bridge m \<longleftrightarrow> msg_type m \<in> {msg_connect, msg_disconnect, msg_interaction, msg_intent, msg_audio, msg_video,
     msg_ack, msg_asset_request, msg_asset_send_data}"

definition for_proxy :: "'j proxy_message \<Rightarrow> bool" where
  "for_proxy m \<longleftrightarrow> msg_type m \<in> {msg_state_delta, msg_interaction, msg_audio, msg_video, msg_disconnect, msg_clock,
     msg_asset_state_callback, msg_asset_receive_callback, msg_asset_request_bytes_callback}"

lemma for_bridge_handled: "for_bridge m \<Longrightarrow> bridge_message_lookup_table (msg_type m) \<noteq> None"
  by (auto simp: for_bridge_def)

lemma for_proxy_handled: "for_proxy m \<Longrightarrow> proxy_message_lookup_table (msg_type m) \<noteq> None"
  by (auto simp: for_proxy_def)

lemma frame_update [simp]: "frame (st\<lparr>proxyclient := p\<rparr>) = frame st" "frame (st\<lparr>bridgeclient := b\<rparr>) = frame st"
  "frame (st\<lparr>user := u\<rparr>) = frame st"
  by (simp_all add: frame_def)

lemma call_user_frame: "call_user P wanted event st = (st', out) \<Longrightarrow> frame st' = frame st"
  by (auto simp: call_user_def split: if_splits prod.splits)

lemma call_user_list_frame: "call_user_list P cs st = (st', out) \<Longrightarrow> frame st' = frame st"
proof (induction cs arbitrary: st st' out)
  case (Cons c cs)
  obtain st1 o1 where 1: "call_user P (case c of State_changed _ _ \<Rightarrow> True | _ \<Rightarrow> False) (User_call c) st = (st1, o1)"
    by fastforce
  obtain st2 o2 where 2: "call_user_list P cs st1 = (st2, o2)" by fastforce
  from Cons.prems 1 2 have "st' = st2" by simp
  with Cons.IH [OF 2] call_user_frame [OF 1] show ?case by simp
qed simp

lemmas proxy_handlers = proxy_asset_state_callback_def proxy_asset_receive_callback_def
  proxy_alloclient_asset_request_bytes_callback_def proxy_raw_state_delta_callback_def proxy_interaction_callback_def
  proxy_audio_callback_def proxy_video_callback_def proxy_disconnected_callback_def proxy_clock_callback_def

lemma proxy_handler_frame:
  assumes "proxy_message_lookup_table (msg_type m) = Some callback" and "callback P m st = Some (st', out)"
  shows "frame st' = frame st"
  using assms
  by (cases m) (auto simp: proxy_handlers split: option.splits prod.splits
      dest!: call_user_frame call_user_list_frame)

lemma for_proxy_simps [simp]:
  "for_proxy (bridge_media c)" "for_proxy (Asset_state_msg i state)" "for_proxy (Asset_receive_msg i offset len total_size data)"
  "for_proxy (Asset_request_bytes_msg i offset len)" "for_proxy (State_delta_msg d)" "for_proxy (Interaction_msg a)"
  "for_proxy (Disconnect_msg code message)" "for_proxy (Clock_msg latency delta)"
  by (cases c; simp add: for_proxy_def bridge_audio_callback_def bridge_video_callback_def)
    (simp_all add: for_proxy_def)

lemma bridge_callback_for_proxy: "bridge_callback P c = Some ms \<Longrightarrow> \<forall>m \<in> set ms. for_proxy m"
  by (cases c) (auto simp: bridge_callback_def bridge_asset_state_callback_def bridge_asset_receive_callback_def
    bridge_asset_request_bytes_callback_def bridge_raw_state_delta_callback_def bridge_interaction_callback_def
    bridge_disconnected_callback_def bridge_clock_callback_def split: if_splits)

lemma messages_of_for_proxy: "messages_of P cs = Some ms \<Longrightarrow> \<forall>m \<in> set ms. for_proxy m"
proof (induction cs arbitrary: ms)
  case (Cons c cs)
  then obtain ms1 ms2 where "bridge_callback P c = Some ms1" "messages_of P cs = Some ms2" "ms = ms1 @ ms2"
    by (auto split: option.splits)
  with Cons.IH bridge_callback_for_proxy show ?case by fastforce
qed simp

lemma on_bridge_frame: "on_bridge P f st = Some (st', out) \<Longrightarrow> frame st' = frame st \<and> (\<forall>m \<in> set out. for_proxy m)"
  by (auto simp: on_bridge_def split: option.splits dest: messages_of_for_proxy)

lemmas bridge_handlers = bridge_alloclient_send_interaction_def bridge_alloclient_set_intent_def
  bridge_alloclient_send_audio_def bridge_alloclient_send_video_def bridge_alloclient_ack_def
  bridge_alloclient_asset_request_def bridge_alloclient_asset_send_data_def

lemma connect_frame:
  "bridge_alloclient_connect P n m st = Some (st', out) \<Longrightarrow> frame st' = frame st \<and> (\<forall>m \<in> set out. for_proxy m)"
  by (auto simp: bridge_alloclient_connect_def bridge_disconnected_callback_def
      split: proxy_message.splits option.splits prod.splits if_splits dest: bspec [OF messages_of_for_proxy])

lemma bridge_handler_frame:
  assumes "bridge_message_lookup_table (msg_type m) = Some callback" and "callback P n m st = Some (st', out)"
  shows "(if msg_type m = msg_disconnect then frame st' = (fst (frame st), fst (snd (frame st)), False) else frame st' = frame st) \<and>
    (\<forall>m \<in> set out. for_proxy m)"
proof (cases m)
  case (Connect_msg url identity avatar_desc)
  with assms show ?thesis by (auto dest: connect_frame)
next
  case (Disconnect_msg code message)
  with assms show ?thesis by (auto simp: bridge_alloclient_disconnect_def frame_def)
qed (use assms in \<open>auto simp: bridge_handlers dest!: on_bridge_frame\<close>)

lemma take_from_bridge_frame:
  assumes "take_from_bridge P m st = Some (st', out)"
  shows "frame st' = (fst (frame st), (tl (bridge_to_proxy st), bridge_to_proxy_len st - 1), running st)"
  using assms by (auto simp: take_from_bridge_def frame_def split: option.splits
      dest: proxy_handler_frame [unfolded frame_def])

lemma take_from_proxy_frame:
  assumes "take_from_proxy P n m st = Some (st', out)"
  shows "frame st' = ((tl (proxy_to_bridge st), proxy_to_bridge_len st - 1), fst (snd (frame st)),
      running st \<and> msg_type m \<noteq> msg_disconnect) \<and> (\<forall>m \<in> set out. for_proxy m)"
  using assms by (auto simp: take_from_proxy_def frame_def split: option.splits if_splits
      dest: bridge_handler_frame [unfolded frame_def])

text \<open>A call of the user puts one message into the queue to the bridge.\<close>

lemma call_proxy_frame:
  assumes "call_proxy c st = Some st'"
  shows "\<exists>m. for_bridge m \<and> frame st' = ((proxy_to_bridge st @ [m], proxy_to_bridge_len st + 1), fst (snd (frame st)), running st) \<and>
    (is_call_disconnect c \<longrightarrow> msg_type m = msg_disconnect)"
  using assms
  by (cases c) (auto simp: call_proxy_def enqueue_proxy_to_bridge_def frame_def for_bridge_def
      proxy_alloclient_connect_def proxy_alloclient_disconnect_def proxy_alloclient_send_interaction_def
      proxy_alloclient_set_intent_def proxy_alloclient_send_audio_def proxy_alloclient_send_video_def
      proxy_alloclient_asset_request_def proxy_alloclient_asset_send_def split: option.splits if_splits)

section \<open>Every message has a handler\<close>

fun to_send :: "'j bridge_thread \<Rightarrow> 'j proxy_message list" where
  "to_send (Bridge_network ms) = ms"
| "to_send (Bridge_checking ms) = ms"
| "to_send _ = []"

definition queues_ok :: "('j, 's, 'u) threads \<Rightarrow> bool" where
  "queues_ok t \<longleftrightarrow> (\<forall>m \<in> set (proxy_to_bridge (shared t)). for_bridge m) \<and>
     (\<forall>m \<in> set (bridge_to_proxy (shared t)) \<union> set (to_send (bridge_at t)). for_proxy m) \<and>
     proxy_to_bridge_len (shared t) = word_of_nat (length (proxy_to_bridge (shared t))) \<and>
     bridge_to_proxy_len (shared t) = word_of_nat (length (bridge_to_proxy (shared t)))"

text \<open>What a step does to the queues, by its label.\<close>

fun queue_effect ::
  "'j label \<Rightarrow> 'j proxy_message list \<times> 'j proxy_message list \<Rightarrow> 'j proxy_message list \<times> 'j proxy_message list \<Rightarrow> bool"
where
  "queue_effect Silent q q' \<longleftrightarrow> q' = q"
| "queue_effect (Proxy_sends m) q q' \<longleftrightarrow> q' = (fst q @ [m], snd q)"
| "queue_effect (Bridge_takes m) q q' \<longleftrightarrow> q = (m # fst q', snd q')"
| "queue_effect (Bridge_sends m) q q' \<longleftrightarrow> q' = (fst q, snd q @ [m])"
| "queue_effect (Proxy_takes m) q q' \<longleftrightarrow> q = (fst q', m # snd q')"

definition both_queues :: "('j, 's, 'u) threads \<Rightarrow> 'j proxy_message list \<times> 'j proxy_message list" where
  "both_queues t = (proxy_to_bridge (shared t), bridge_to_proxy (shared t))"

lemma network_frame:
  "bridge_check_for_network P n st = Some (st', out) \<Longrightarrow> frame st' = frame st \<and> (\<forall>m \<in> set out. for_proxy m)"
  unfolding bridge_check_for_network_def by (rule on_bridge_frame)

lemma frame_eqD:
  "frame st = frame st' \<Longrightarrow> proxy_to_bridge st = proxy_to_bridge st' \<and> proxy_to_bridge_len st = proxy_to_bridge_len st' \<and>
    bridge_to_proxy st = bridge_to_proxy st' \<and> bridge_to_proxy_len st = bridge_to_proxy_len st' \<and> running st = running st'"
  by (simp add: frame_def)

lemma frame_parts:
  assumes "frame st = ((a, b), (c, d), r)"
  shows "proxy_to_bridge st = a" "proxy_to_bridge_len st = b" "bridge_to_proxy st = c" "bridge_to_proxy_len st = d" "running st = r"
  using assms by (simp_all add: frame_def)

lemma step_effect: "step P t l t' \<Longrightarrow> queue_effect l (both_queues t) (both_queues t')"
proof (induction rule: step.induct)
  case (user_calls t c st)
  then obtain m where "frame st = ((proxy_to_bridge (shared t) @ [m], proxy_to_bridge_len (shared t) + 1),
      fst (snd (frame (shared t))), running (shared t))" using call_proxy_frame by blast
  then show ?case by (simp add: both_queues_def frame_def)
next
  case (callback_calls t c cs d st)
  then obtain m where "frame st = ((proxy_to_bridge (shared t) @ [m], proxy_to_bridge_len (shared t) + 1),
      fst (snd (frame (shared t))), running (shared t))" using call_proxy_frame by blast
  then show ?case by (simp add: both_queues_def frame_def)
next
  case (poll_takes t msg msgs st out)
  then show ?case using take_from_bridge_frame [OF poll_takes(3)] by (simp add: both_queues_def frame_def)
next
  case (check_takes t msg msgs n st out)
  then show ?case using take_from_proxy_frame [OF check_takes(3)] by (simp add: both_queues_def frame_def)
next
  case (network t n st out)
  then show ?case using network_frame [OF network(3)] by (simp add: both_queues_def frame_def)
qed (simp_all add: both_queues_def enqueue_bridge_to_proxy_def)

lemma step_queues_ok: "step P t l t' \<Longrightarrow> queues_ok t \<Longrightarrow> queues_ok t'"
proof (induction rule: step.induct)
  case (user_calls t c st)
  then obtain m where "for_bridge m" "frame st = ((proxy_to_bridge (shared t) @ [m], proxy_to_bridge_len (shared t) + 1),
      fst (snd (frame (shared t))), running (shared t))" using call_proxy_frame by blast
  with user_calls.prems show ?case by (auto simp: queues_ok_def frame_def)
next
  case (callback_calls t c cs d st)
  then obtain m where "for_bridge m" "frame st = ((proxy_to_bridge (shared t) @ [m], proxy_to_bridge_len (shared t) + 1),
      fst (snd (frame (shared t))), running (shared t))" using call_proxy_frame by blast
  with callback_calls.prems show ?case by (auto simp: queues_ok_def frame_def)
next
  case (poll_takes t msg msgs st out)
  with take_from_bridge_frame [OF poll_takes(3)] show ?case by (auto simp: queues_ok_def frame_def)
next
  case (check_takes t msg msgs n st out)
  with take_from_proxy_frame [OF check_takes(3)] show ?case by (auto simp: queues_ok_def frame_def)
next
  case (network t n st out)
  with network_frame [OF network(3)] show ?case by (auto simp: queues_ok_def frame_def)
qed (auto simp: queues_ok_def enqueue_bridge_to_proxy_def)

lemma run_invariant:
  assumes "run P t ls t'" and "I t" and "\<And>u l u'. step P u l u' \<Longrightarrow> I u \<Longrightarrow> I u'"
  shows "I t'"
  using assms by (induction rule: run.induct) auto

lemma run_trans: "run P u ls' v \<Longrightarrow> run P t ls u \<Longrightarrow> run P t (ls @ ls') v"
proof (induction rule: run.induct)
  case (run_step u ls' v l w)
  then show ?case using run.run_step [of P t "ls @ ls'" v l w] by simp
qed simp

lemma run_Cons: "step P t l u \<Longrightarrow> run P u ls v \<Longrightarrow> run P t (l # ls) v"
  using run_trans [of P u ls v t "[l]"] run.run_step [OF run_nil, of P t l u] by simp

text \<open>
  C11. Whatever the user, the network and the schedule do, every message in the queue to the bridge has a
  handler there, every message in the queue to the proxy has one on its side, and the two counters are
  the lengths of the queues as 32-bit integers.
\<close>

theorem messages_have_handlers:
  assumes "run P (threads_init target proxy u) ls t"
  shows "(\<forall>m \<in> set (proxy_to_bridge (shared t)). bridge_message_lookup_table (msg_type m) \<noteq> (None :: ('n, 'j, 's, 'u) bridge_handler option)) \<and>
    (\<forall>m \<in> set (bridge_to_proxy (shared t)). proxy_message_lookup_table (msg_type m) \<noteq> (None :: ('n, 'j, 's, 'u) proxy_handler option)) \<and>
    proxy_to_bridge_len (shared t) = word_of_nat (length (proxy_to_bridge (shared t))) \<and>
    bridge_to_proxy_len (shared t) = word_of_nat (length (bridge_to_proxy (shared t)))"
proof -
  have "queues_ok (threads_init target proxy u)"
    by (simp add: queues_ok_def threads_init_def clientproxy_create_def)
  with assms have "queues_ok t" by (rule run_invariant) (rule step_queues_ok)
  then show ?thesis by (auto simp: queues_ok_def for_bridge_handled for_proxy_handled)
qed

section \<open>Nothing is lost and nothing overtakes\<close>

fun sent_by_proxy :: "'j label list \<Rightarrow> 'j proxy_message list" where
  "sent_by_proxy [] = []"
| "sent_by_proxy (l # ls) = (case l of Proxy_sends m \<Rightarrow> m # sent_by_proxy ls | _ \<Rightarrow> sent_by_proxy ls)"

fun taken_by_bridge :: "'j label list \<Rightarrow> 'j proxy_message list" where
  "taken_by_bridge [] = []"
| "taken_by_bridge (l # ls) = (case l of Bridge_takes m \<Rightarrow> m # taken_by_bridge ls | _ \<Rightarrow> taken_by_bridge ls)"

fun sent_by_bridge :: "'j label list \<Rightarrow> 'j proxy_message list" where
  "sent_by_bridge [] = []"
| "sent_by_bridge (l # ls) = (case l of Bridge_sends m \<Rightarrow> m # sent_by_bridge ls | _ \<Rightarrow> sent_by_bridge ls)"

fun taken_by_proxy :: "'j label list \<Rightarrow> 'j proxy_message list" where
  "taken_by_proxy [] = []"
| "taken_by_proxy (l # ls) = (case l of Proxy_takes m \<Rightarrow> m # taken_by_proxy ls | _ \<Rightarrow> taken_by_proxy ls)"

lemma trace_append [simp]:
  "sent_by_proxy (ls @ ls') = sent_by_proxy ls @ sent_by_proxy ls'"
  "taken_by_bridge (ls @ ls') = taken_by_bridge ls @ taken_by_bridge ls'"
  "sent_by_bridge (ls @ ls') = sent_by_bridge ls @ sent_by_bridge ls'"
  "taken_by_proxy (ls @ ls') = taken_by_proxy ls @ taken_by_proxy ls'"
  by (induction ls) (auto split: label.split)

lemma run_order:
  assumes "run P t0 ls t" and "both_queues t0 = ([], [])"
  shows "sent_by_proxy ls = taken_by_bridge ls @ fst (both_queues t) \<and>
    sent_by_bridge ls = taken_by_proxy ls @ snd (both_queues t)"
  using assms
proof (induction rule: run.induct)
  case (run_step t ls u l v)
  from step_effect [OF run_step.hyps(2)] run_step.IH run_step.prems show ?case by (cases l) auto
qed simp

text \<open>
  C3. In both directions, what has been sent is what has been taken, in the same order, followed by what
  is in the queue.
\<close>

theorem messages_in_order:
  assumes "run P (threads_init target proxy u) ls t"
  shows "sent_by_proxy ls = taken_by_bridge ls @ proxy_to_bridge (shared t) \<and>
    sent_by_bridge ls = taken_by_proxy ls @ bridge_to_proxy (shared t)"
  using run_order [OF assms] by (simp add: both_queues_def threads_init_def clientproxy_create_def)

text \<open>A user who has connected, and a bridge that has read its queue.\<close>

definition sample_proxy_env :: "(unit, json, unit, unit) proxy_env" where
  "sample_proxy_env = \<lparr>pe_bridge = (\<lambda>n. sample_client_env),
     pe_net = (\<lambda>n. \<lparr>host_created = False, connect_peer = (\<lambda>h p. None), connect_event = False, encoder_created = False\<rparr>),
     pe_events = (\<lambda>n. []), pe_media = (\<lambda>p. []), pe_proxy = sample_client_env, pe_wants_audio = False,
     pe_wants_video = False, pe_react = (\<lambda>e u. (u, []))\<rparr>"

definition sample_threads :: "(json, unit, unit) threads" where
  "sample_threads = threads_init (alloclient_create ()) (alloclient_create ()) ()"

definition sample_threads_sent :: "(json, unit, unit) threads" where
  "sample_threads_sent = sample_threads\<lparr>shared := proxy_alloclient_asset_request ''x'' None (shared sample_threads)\<rparr>"

lemma sample_run: "run sample_proxy_env sample_threads [Proxy_sends (Asset_request_msg ''x'' None)] sample_threads_sent"
proof -
  have "step sample_proxy_env sample_threads (Proxy_sends (last (proxy_to_bridge (shared sample_threads_sent))))
      (sample_threads\<lparr>shared := shared sample_threads_sent,
         proxy_at := if is_call_disconnect (Call_asset_request ''x'' None :: json proxy_call) then Proxy_joining False else Proxy_idle\<rparr>)"
    by (rule user_calls) (simp_all add: sample_threads_def sample_threads_sent_def threads_init_def call_proxy_def)
  then have "step sample_proxy_env sample_threads (Proxy_sends (Asset_request_msg ''x'' None)) sample_threads_sent"
    by (simp add: sample_threads_def sample_threads_sent_def threads_init_def clientproxy_create_def
        proxy_alloclient_asset_request_def enqueue_proxy_to_bridge_def)
  then show ?thesis using run_Cons [OF _ run_nil] by blast
qed

theorem messages_have_handlers_witness:
  "bridge_message_lookup_table (msg_type (hd (proxy_to_bridge (shared sample_threads_sent)))) \<noteq>
     (None :: (unit, json, unit, unit) bridge_handler option) \<and> proxy_to_bridge_len (shared sample_threads_sent) = 1"
proof -
  have "proxy_to_bridge (shared sample_threads_sent) = [Asset_request_msg ''x'' None]"
    by (simp add: sample_threads_sent_def sample_threads_def threads_init_def clientproxy_create_def
        proxy_alloclient_asset_request_def enqueue_proxy_to_bridge_def)
  with messages_have_handlers [OF sample_run [unfolded sample_threads_def]] show ?thesis by auto
qed

theorem messages_in_order_witness:
  "sent_by_proxy [Proxy_sends (Asset_request_msg ''x'' None)] =
   taken_by_bridge [Proxy_sends (Asset_request_msg ''x'' None)] @ proxy_to_bridge (shared sample_threads_sent)"
  using messages_in_order [OF sample_run [unfolded sample_threads_def]] by blast

section \<open>A poll is a run of the proxy\<close>

text \<open>
  The steps of the proxy: every step of the bridge takes or sends a message of the bridge, or goes on from
  where the bridge was.
\<close>

definition by_proxy :: "('j, 's, 'u) threads \<Rightarrow> 'j label \<Rightarrow> ('j, 's, 'u) threads \<Rightarrow> bool" where
  "by_proxy t l t' \<longleftrightarrow> bridge_at t' = bridge_at t \<and> (\<forall>m. l \<noteq> Bridge_takes m \<and> l \<noteq> Bridge_sends m)"

lemma by_proxy_moves:
  "step P t l t' \<Longrightarrow> by_proxy t l t' \<Longrightarrow> proxy_at t' \<noteq> proxy_at t \<or> (\<exists>m. l = Proxy_sends m \<or> l = Proxy_takes m)"
  by (erule step.cases) (auto simp: by_proxy_def)

inductive proxy_run ::
  "('n, 'j, 's, 'u) proxy_env \<Rightarrow> ('j, 's, 'u) threads \<Rightarrow> 'j label list \<Rightarrow> ('j, 's, 'u) threads \<Rightarrow> bool" for P where
  proxy_run_nil: "proxy_run P t [] t"
| proxy_run_Cons: "proxy_run P t (l # ls) t'"
    if "step P t l u" and "by_proxy t l u" and "proxy_run P u ls t'"

lemma proxy_run_trans: "proxy_run P t ls u \<Longrightarrow> proxy_run P u ls' t' \<Longrightarrow> proxy_run P t (ls @ ls') t'"
  by (induction rule: proxy_run.induct) (auto intro: proxy_run_Cons)

text \<open>A run of the proxy is a run of the two threads.\<close>

lemma proxy_run_run: "proxy_run P t ls t' \<Longrightarrow> run P t ls t'"
  by (induction rule: proxy_run.induct) (auto intro: run_nil run_Cons)

definition polling :: "('j, 's, 'u) proxy_state \<Rightarrow> 'j proxy_call list \<Rightarrow> bool \<Rightarrow> 'j bridge_thread \<Rightarrow> ('j, 's, 'u) threads" where
  "polling st cs d b = \<lparr>shared = st, proxy_at = Proxy_polling cs d, bridge_at = b\<rparr>"

lemma make_calls_run:
  assumes "make_calls cs st = Some st'" and "\<not> holds_proxy_to_bridge b"
  shows "\<exists>ls. proxy_run P (polling st cs d b) ls (polling st' [] d b)"
  using assms
proof (induction cs arbitrary: st)
  case Nil
  then show ?case using proxy_run_nil by (force simp: make_calls_def)
next
  case (Cons c cs)
  then obtain st1 where c: "call_proxy c st = Some st1" "\<not> is_call_disconnect c" "make_calls cs st1 = Some st'"
    by (auto simp: make_calls_def split: option.splits if_splits)
  have "step P (polling st (c # cs) d b) (Proxy_sends (last (proxy_to_bridge st1)))
      ((polling st (c # cs) d b)\<lparr>shared := st1, proxy_at := if is_call_disconnect c then Proxy_joining True else Proxy_polling cs d\<rparr>)"
    by (rule callback_calls) (use c Cons.prems in \<open>simp_all add: polling_def\<close>)
  then have "step P (polling st (c # cs) d b) (Proxy_sends (last (proxy_to_bridge st1))) (polling st1 cs d b)"
    using c(2) by (simp add: polling_def)
  moreover have "by_proxy (polling st (c # cs) d b) (Proxy_sends (last (proxy_to_bridge st1))) (polling st1 cs d b)"
    by (simp add: by_proxy_def polling_def)
  ultimately show ?case using Cons.IH [OF c(3) Cons.prems(2)] proxy_run_Cons by blast
qed

lemma make_calls_keep:
  "make_calls cs st = Some st' \<Longrightarrow> bridge_to_proxy st' = bridge_to_proxy st"
proof (induction cs arbitrary: st)
  case (Cons c cs)
  then obtain st1 where c: "call_proxy c st = Some st1" "make_calls cs st1 = Some st'"
    by (auto simp: make_calls_def split: option.splits if_splits)
  from call_proxy_frame [OF c(1)] have "bridge_to_proxy st1 = bridge_to_proxy st" by (auto simp: frame_def)
  with Cons.IH [OF c(2)] show ?case by simp
qed (simp add: make_calls_def)

lemma take_run:
  assumes "take_from_bridge P m st = Some (st', out)" and "bridge_to_proxy st = m # ms"
  shows "step P (polling st [] False b) (Proxy_takes m) (polling st' out (msg_type m = msg_disconnect) b)"
    and "bridge_to_proxy st' = ms"
proof -
  have "step P (polling st [] False b) (Proxy_takes m)
      ((polling st [] False b)\<lparr>shared := st', proxy_at := Proxy_polling out (msg_type m = msg_disconnect)\<rparr>)"
    by (rule poll_takes) (use assms in \<open>simp_all add: polling_def\<close>)
  then show "step P (polling st [] False b) (Proxy_takes m) (polling st' out (msg_type m = msg_disconnect) b)"
    by (simp add: polling_def)
  show "bridge_to_proxy st' = ms" using take_from_bridge_frame [OF assms(1)] assms(2) by (simp add: frame_def)
qed

lemma poll_ends_run:
  assumes "d \<or> bridge_to_proxy st = []"
  shows "proxy_run P (polling st [] d b) [Silent] \<lparr>shared = st, proxy_at = Proxy_idle, bridge_at = b\<rparr>"
proof -
  have "step P (polling st [] d b) Silent ((polling st [] d b)\<lparr>proxy_at := Proxy_idle\<rparr>)"
    by (rule poll_ends [where d = d]) (use assms in \<open>simp_all add: polling_def\<close>)
  then show ?thesis using proxy_run_Cons [OF _ _ proxy_run_nil, of P "polling st [] d b" Silent] by (simp add: polling_def by_proxy_def)
qed

text \<open>The messages that are left after a poll: those behind the first disconnect message.\<close>

definition left_after_poll :: "'j proxy_message list \<Rightarrow> 'j proxy_message list" where
  "left_after_poll ms = tl (dropWhile (\<lambda>m. msg_type m \<noteq> msg_disconnect) ms)"

lemma poll_queue_run:
  assumes "poll_queue P ms st = Some st'" and "bridge_to_proxy st = ms" and "\<not> holds_proxy_to_bridge b"
  shows "(\<exists>ls. proxy_run P (polling st [] False b) ls \<lparr>shared = st', proxy_at = Proxy_idle, bridge_at = b\<rparr>) \<and>
    bridge_to_proxy st' = left_after_poll ms"
  using assms(1,2)
proof (induction ms arbitrary: st)
  case Nil
  then have "proxy_run P (polling st [] False b) [Silent] \<lparr>shared = st', proxy_at = Proxy_idle, bridge_at = b\<rparr>"
    using poll_ends_run [where d = False and st = st] by simp
  with Nil show ?case by (auto simp: left_after_poll_def)
next
  case (Cons m ms)
  let ?d = "msg_type m = msg_disconnect"
  obtain st1 out st2 where m: "take_from_bridge P m st = Some (st1, out)" "make_calls out st1 = Some st2"
    "(if ?d then Some st2 else poll_queue P ms st2) = Some st'"
    using Cons.prems(1) by (auto split: option.splits prod.splits)
  note take = take_run [OF m(1) Cons.prems(2)]
  obtain ls where ls: "proxy_run P (polling st1 out ?d b) ls (polling st2 [] ?d b)"
    using make_calls_run [OF m(2) assms(3)] by blast
  have first: "proxy_run P (polling st [] False b) (Proxy_takes m # ls) (polling st2 [] ?d b)"
    by (rule proxy_run_Cons [OF take(1) _ ls]) (simp add: by_proxy_def polling_def)
  have left: "bridge_to_proxy st2 = ms" using make_calls_keep [OF m(2)] take(2) by simp
  show ?case
  proof (cases ?d)
    case True
    then have "st' = st2" using m(3) by simp
    have "proxy_run P (polling st2 [] ?d b) [Silent] \<lparr>shared = st2, proxy_at = Proxy_idle, bridge_at = b\<rparr>"
      by (rule poll_ends_run) (use True in simp)
    from proxy_run_trans [OF first this] \<open>st' = st2\<close> True left show ?thesis by (auto simp: left_after_poll_def)
  next
    case False
    with Cons.IH [OF _ left] m(3) obtain ls' where
      "proxy_run P (polling st2 [] False b) ls' \<lparr>shared = st', proxy_at = Proxy_idle, bridge_at = b\<rparr>"
      "bridge_to_proxy st' = left_after_poll ms" by auto
    with proxy_run_trans [OF first] False show ?thesis by (auto simp: left_after_poll_def)
  qed
qed

text \<open>
  C20. While the bridge does not hold the lock of its queue, what \<open>proxy_alloclient_poll\<close> computes is
  reached by steps of the proxy alone (\<open>proxy_run\<close>: no step of the bridge is among them), and the bridge
  stays where it was; and it takes all messages up to and with the first disconnect.
\<close>

theorem poll_refines_steps:
  assumes "proxy_alloclient_poll P st = Some st'" and "\<not> holds_proxy_to_bridge b"
  shows "(\<exists>ls. proxy_run P \<lparr>shared = st, proxy_at = Proxy_idle, bridge_at = b\<rparr> ls \<lparr>shared = st', proxy_at = Proxy_idle, bridge_at = b\<rparr>) \<and>
    bridge_to_proxy st' = left_after_poll (bridge_to_proxy st)"
proof -
  let ?t = "\<lparr>shared = st, proxy_at = Proxy_idle, bridge_at = b\<rparr>"
  have "step P ?t Silent (?t\<lparr>proxy_at := Proxy_polling [] False\<rparr>)" by (rule poll_begins) simp
  then have "step P ?t Silent (polling st [] False b)" by (simp add: polling_def)
  moreover have "by_proxy ?t Silent (polling st [] False b)" by (simp add: by_proxy_def polling_def)
  ultimately show ?thesis
    using poll_queue_run [OF assms(1) [unfolded proxy_alloclient_poll_def] refl assms(2)] proxy_run_Cons by blast
qed

definition sample_queue :: "(json, unit, unit) proxy_state" where
  "sample_queue = (shared sample_threads)\<lparr>bridge_to_proxy := [Clock_msg 1 2, Disconnect_msg 1000 None, Clock_msg 3 4]\<rparr>"

theorem poll_refines_steps_witness:
  "\<exists>st' ls. proxy_run sample_proxy_env \<lparr>shared = sample_queue, proxy_at = Proxy_idle, bridge_at = Bridge_loop\<rparr> ls
      \<lparr>shared = st', proxy_at = Proxy_idle, bridge_at = Bridge_loop\<rparr> \<and> bridge_to_proxy st' = [Clock_msg 3 4]"
proof -
  have "\<exists>st'. proxy_alloclient_poll sample_proxy_env sample_queue = Some st'"
    by (simp add: proxy_alloclient_poll_def sample_queue_def take_from_bridge_def proxy_clock_callback_def
        proxy_disconnected_callback_def call_user_def sample_proxy_env_def make_calls_def split: if_splits)
  then obtain st' where "proxy_alloclient_poll sample_proxy_env sample_queue = Some st'" by blast
  from poll_refines_steps [OF this, of Bridge_loop] show ?thesis
    by (auto simp: sample_queue_def left_after_poll_def)
qed

section \<open>Disconnecting\<close>

text \<open>A proxy that waits for the bridge, its disconnect message on the way or already taken.\<close>

definition disconnecting :: "('j, 's, 'u) threads \<Rightarrow> bool" where
  "disconnecting t \<longleftrightarrow> ((\<exists>m \<in> set (proxy_to_bridge (shared t)). msg_type m = msg_disconnect) \<or> \<not> running (shared t)) \<and>
     (bridge_at t = Bridge_exited \<longrightarrow> \<not> running (shared t))"

definition join_ok :: "('j, 's, 'u) threads \<Rightarrow> bool" where
  "join_ok t \<longleftrightarrow> (\<forall>polling. proxy_at t = Proxy_joining polling \<longrightarrow> disconnecting t) \<and>
     (bridge_at t = Bridge_exited \<longrightarrow> \<not> running (shared t))"

lemma step_join_ok: "step P t l t' \<Longrightarrow> join_ok t \<Longrightarrow> join_ok t'"
proof (induction rule: step.induct)
  case (user_calls t c st)
  then obtain m where "frame st = ((proxy_to_bridge (shared t) @ [m], proxy_to_bridge_len (shared t) + 1),
      fst (snd (frame (shared t))), running (shared t))" "is_call_disconnect c \<longrightarrow> msg_type m = msg_disconnect"
    using call_proxy_frame by blast
  with user_calls.prems show ?case by (auto simp: join_ok_def disconnecting_def frame_def)
next
  case (callback_calls t c cs d st)
  then obtain m where "frame st = ((proxy_to_bridge (shared t) @ [m], proxy_to_bridge_len (shared t) + 1),
      fst (snd (frame (shared t))), running (shared t))" "is_call_disconnect c \<longrightarrow> msg_type m = msg_disconnect"
    using call_proxy_frame by blast
  with callback_calls.prems show ?case by (auto simp: join_ok_def disconnecting_def frame_def)
next
  case (poll_takes t msg msgs st out)
  with take_from_bridge_frame [OF poll_takes(3)] show ?case by (auto simp: join_ok_def frame_def)
next
  case (check_takes t msg msgs n st out)
  with take_from_proxy_frame [OF check_takes(3)] show ?case by (auto simp: join_ok_def disconnecting_def frame_def)
next
  case (network t n st out)
  with network_frame [OF network(3)] show ?case by (auto simp: join_ok_def disconnecting_def frame_def)
qed (auto simp: join_ok_def disconnecting_def enqueue_bridge_to_proxy_def)

text \<open>The proxy has left, or the network thread has crashed.\<close>

definition over :: "('j, 's, 'u) threads \<Rightarrow> bool" where
  "over t \<longleftrightarrow> proxy_at t = Proxy_disconnected \<or> bridge_at t = Bridge_crashed"

definition can_end :: "('n, 'j, 's, 'u) proxy_env \<Rightarrow> ('j, 's, 'u) threads \<Rightarrow> bool" where
  "can_end P t \<longleftrightarrow> (\<exists>ls t'. run P t ls t' \<and> over t')"

definition joining :: "('j, 's, 'u) proxy_state \<Rightarrow> 'j bridge_thread \<Rightarrow> ('j, 's, 'u) threads" where
  "joining st b = \<lparr>shared = st, proxy_at = Proxy_joining False, bridge_at = b\<rparr>"

lemma can_end_now: "over t \<Longrightarrow> can_end P t"
  using run_nil by (force simp: can_end_def)

lemma can_end_step: "step P t l t' \<Longrightarrow> can_end P t' \<Longrightarrow> can_end P t"
  using run_Cons by (fastforce simp: can_end_def)

lemma joining_updates [simp]:
  "shared (joining st b) = st" "proxy_at (joining st b) = Proxy_joining False" "bridge_at (joining st b) = b"
  "(joining st b)\<lparr>bridge_at := b'\<rparr> = joining st b'" "(joining st b)\<lparr>shared := st', bridge_at := b'\<rparr> = joining st' b'"
  by (simp_all add: joining_def)

lemma end_from_exited: "can_end P (joining st Bridge_exited)"
proof -
  let ?t = "joining st Bridge_exited"
  have "step P ?t Silent (?t\<lparr>proxy_at := if False then Proxy_crashed else Proxy_disconnected\<rparr>)"
    by (rule join_ends) simp_all
  then show ?thesis by (rule can_end_step) (rule can_end_now, simp add: over_def)
qed

lemma end_from_crash: "can_end P (joining st Bridge_crashed)"
  by (rule can_end_now) (simp add: over_def)

lemma end_from_loop: "\<not> running st \<Longrightarrow> can_end P (joining st Bridge_loop)"
proof (cases "alloclient_disconnect (bridgeclient st)")
  case None
  assume "\<not> running st"
  with None have "step P (joining st Bridge_loop) Silent ((joining st Bridge_loop)\<lparr>bridge_at := Bridge_crashed\<rparr>)"
    by (intro bridge_end_crashes) simp_all
  then show ?thesis by (rule can_end_step) (simp add: end_from_crash)
next
  case (Some b)
  assume "\<not> running st"
  with Some have "step P (joining st Bridge_loop) Silent
      ((joining st Bridge_loop)\<lparr>shared := (shared (joining st Bridge_loop))\<lparr>bridgeclient := b\<rparr>, bridge_at := Bridge_exited\<rparr>)"
    by (intro bridge_ends) simp_all
  then show ?thesis by (rule can_end_step) (simp add: end_from_exited)
qed

definition to_stop :: "('j, 's, 'u) proxy_state \<Rightarrow> bool" where
  "to_stop st \<longleftrightarrow> (\<exists>m \<in> set (proxy_to_bridge st). msg_type m = msg_disconnect) \<or> \<not> running st"

lemma to_stop_enqueue [simp]: "to_stop (enqueue_bridge_to_proxy m st) = to_stop st"
  by (simp add: to_stop_def enqueue_bridge_to_proxy_def)

lemma enqueue_keeps [simp]: "proxy_to_bridge (enqueue_bridge_to_proxy m st) = proxy_to_bridge st"
  by (simp add: enqueue_bridge_to_proxy_def)

lemma check_sends_all:
  assumes "\<And>st'. to_stop st' = to_stop st \<Longrightarrow> proxy_to_bridge st' = proxy_to_bridge st \<Longrightarrow> can_end P (joining st' (Bridge_checking []))"
  shows "can_end P (joining st (Bridge_checking ms))"
  using assms
proof (induction ms arbitrary: st)
  case (Cons m ms)
  let ?t = "joining st (Bridge_checking (m # ms))"
  have "step P ?t (Bridge_sends m) (?t\<lparr>shared := enqueue_bridge_to_proxy m (shared ?t), bridge_at := Bridge_checking ms\<rparr>)"
    by (rule check_sends) simp_all
  moreover have "can_end P (joining (enqueue_bridge_to_proxy m st) (Bridge_checking ms))"
    by (rule Cons.IH) (simp add: Cons.prems)
  ultimately show ?case by (auto intro: can_end_step)
qed simp

lemma end_from_checking:
  fixes P :: "('n, 'j, 's, 'u) proxy_env" and st :: "('j, 's, 'u) proxy_state"
  shows "to_stop st \<Longrightarrow> can_end P (joining st (Bridge_checking []))"
proof (induction "proxy_to_bridge st" arbitrary: st)
  case Nil
  let ?t = "joining st (Bridge_checking [])"
  have "step P ?t Silent (?t\<lparr>bridge_at := Bridge_loop\<rparr>)" by (rule check_ends) (simp_all add: Nil(1) [symmetric])
  moreover have "\<not> running st" using Nil by (simp add: to_stop_def)
  ultimately show ?case using can_end_step [OF _ end_from_loop] by simp
next
  case (Cons m ms)
  let ?t = "joining st (Bridge_checking [])"
  fix n :: 'n
  show ?case
  proof (cases "take_from_proxy P n m st")
    case None
    then have "step P ?t Silent (?t\<lparr>bridge_at := Bridge_crashed\<rparr>)"
      using Cons(2) by (intro check_crashes [where msg = m and msgs = ms]) simp_all
    then show ?thesis by (rule can_end_step) (simp add: end_from_crash)
  next
    case (Some result)
    then obtain st1 out where taken: "take_from_proxy P n m st = Some (st1, out)" by (cases result) simp
    then have "step P ?t (Bridge_takes m) (?t\<lparr>shared := st1, bridge_at := Bridge_checking out\<rparr>)"
      using Cons(2) by (intro check_takes [where msgs = ms]) simp_all
    moreover have "can_end P (joining st1 (Bridge_checking out))"
    proof (rule check_sends_all)
      fix st' :: "('j, 's, 'u) proxy_state" assume st': "to_stop st' = to_stop st1" "proxy_to_bridge st' = proxy_to_bridge st1"
      from take_from_proxy_frame [OF taken] Cons(2) [symmetric]
      have "proxy_to_bridge st1 = ms" "running st1 = (running st \<and> msg_type m \<noteq> msg_disconnect)"
        by (simp_all add: frame_def)
      with st' Cons(2) [symmetric] Cons(3) have "ms = proxy_to_bridge st'" "to_stop st'" by (auto simp: to_stop_def)
      then show "can_end P (joining st' (Bridge_checking []))" by (rule Cons(1))
    qed
    ultimately show ?thesis by (auto intro: can_end_step)
  qed
qed

lemma end_from_network: "to_stop st \<Longrightarrow> can_end P (joining st (Bridge_network ms))"
proof (induction ms arbitrary: st)
  case Nil
  let ?t = "joining st (Bridge_network [])"
  have "step P ?t Silent (?t\<lparr>bridge_at := Bridge_checking []\<rparr>)" by (rule check_begins) simp
  then show ?case using can_end_step [OF _ end_from_checking [OF Nil]] by simp
next
  case (Cons m ms)
  let ?t = "joining st (Bridge_network (m # ms))"
  have "step P ?t (Bridge_sends m) (?t\<lparr>shared := enqueue_bridge_to_proxy m (shared ?t), bridge_at := Bridge_network ms\<rparr>)"
    by (rule network_sends) simp_all
  moreover have "can_end P (joining (enqueue_bridge_to_proxy m st) (Bridge_network ms))"
    by (rule Cons.IH) (simp add: Cons.prems)
  ultimately show ?case by (auto intro: can_end_step)
qed

lemma end_from_anywhere:
  fixes P :: "('n, 'j, 's, 'u) proxy_env"
  assumes "to_stop st" and "b = Bridge_exited \<longrightarrow> \<not> running st"
  shows "can_end P (joining st b)"
proof (cases b)
  case Bridge_loop
  show ?thesis
  proof (cases "running st")
    case False
    with Bridge_loop show ?thesis by (simp add: end_from_loop)
  next
    case True
    fix n :: 'n
    show ?thesis
    proof (cases "bridge_check_for_network P n st")
      case None
      with True have "step P (joining st Bridge_loop) Silent ((joining st Bridge_loop)\<lparr>bridge_at := Bridge_crashed\<rparr>)"
        by (intro network_crashes) simp_all
      then show ?thesis unfolding Bridge_loop by (rule can_end_step) (simp add: end_from_crash)
    next
      case (Some result)
      then obtain st1 out where net: "bridge_check_for_network P n st = Some (st1, out)" by (cases result) simp
      with True have "step P (joining st Bridge_loop) Silent
          ((joining st Bridge_loop)\<lparr>shared := st1, bridge_at := Bridge_network out\<rparr>)"
        by (intro network) simp_all
      moreover have "to_stop st1"
        using network_frame [OF net] assms(1) by (auto simp: to_stop_def dest: frame_eqD)
      ultimately show ?thesis unfolding Bridge_loop using can_end_step end_from_network by fastforce
    qed
  qed
next
  case (Bridge_network ms)
  with assms(1) show ?thesis by (simp add: end_from_network)
next
  case (Bridge_checking ms)
  show ?thesis unfolding Bridge_checking
    by (rule check_sends_all) (use assms(1) end_from_checking in blast)
qed (simp_all add: end_from_exited end_from_crash)

text \<open>
  C19. Wherever the two threads are when the user has called disconnect outside a callback, the call can
  return: there is a continuation in which the bridge takes what is in its queue, leaves its loop and
  ends, unless the network thread crashes in a handler.
\<close>

theorem disconnect_can_return:
  assumes "run P (threads_init target proxy u) ls t" and "proxy_at t = Proxy_joining False"
  shows "\<exists>ls' t'. run P t ls' t' \<and> (proxy_at t' = Proxy_disconnected \<or> bridge_at t' = Bridge_crashed)"
proof -
  have "join_ok (threads_init target proxy u)" by (simp add: join_ok_def threads_init_def)
  with assms(1) have "join_ok t" by (rule run_invariant) (rule step_join_ok)
  with assms(2) have "to_stop (shared t)" "bridge_at t = Bridge_exited \<longrightarrow> \<not> running (shared t)"
    by (auto simp: join_ok_def disconnecting_def to_stop_def)
  then have "can_end P (joining (shared t) (bridge_at t))" by (rule end_from_anywhere)
  moreover have "joining (shared t) (bridge_at t) = t" using assms(2) by (simp add: joining_def)
  ultimately show ?thesis by (simp add: can_end_def over_def)
qed

theorem disconnect_can_return_witness:
  "\<exists>t ls'' t'. run sample_proxy_env sample_threads [Proxy_sends (Disconnect_msg 1001 None)] t \<and> run sample_proxy_env t ls'' t' \<and>
    (proxy_at t' = Proxy_disconnected \<or> bridge_at t' = Bridge_crashed)"
proof -
  let ?st = "proxy_alloclient_disconnect 1001 (shared sample_threads)"
  let ?c = "Call_disconnect 1001 :: json proxy_call"
  let ?t = "sample_threads\<lparr>shared := ?st, proxy_at := if is_call_disconnect ?c then Proxy_joining False else Proxy_idle\<rparr>"
  have "step sample_proxy_env sample_threads (Proxy_sends (last (proxy_to_bridge ?st))) ?t"
    by (rule user_calls [where c = ?c]) (simp_all add: sample_threads_def threads_init_def call_proxy_def)
  then have "step sample_proxy_env sample_threads (Proxy_sends (Disconnect_msg 1001 None)) ?t"
    by (simp add: proxy_alloclient_disconnect_def enqueue_proxy_to_bridge_def)
  from run_Cons [OF this run_nil]
  have run: "run sample_proxy_env sample_threads [Proxy_sends (Disconnect_msg 1001 None)] ?t" .
  from disconnect_can_return [OF run [unfolded sample_threads_def]] run show ?thesis
    unfolding sample_threads_def by auto
qed

text \<open>
  A disconnect made inside a callback never returns: the proxy waits with the lock of the queue it
  was reading, and a bridge with something to put there is stuck with it for good; if the
  bridge does end, the proxy goes on with the mutex it has destroyed.
\<close>

theorem disconnect_in_callback_fails:
  assumes "proxy_at t = Proxy_joining True" and "run P t ls t'"
  shows "(proxy_at t' = Proxy_joining True \<or> proxy_at t' = Proxy_crashed) \<and>
    (bridge_at t = Bridge_network (m # ms) \<or> bridge_at t = Bridge_checking (m # ms) \<longrightarrow> t' = t)"
proof -
  have stays: "proxy_at v = Proxy_joining True \<or> proxy_at v = Proxy_crashed"
    if "step P u l v" "proxy_at u = Proxy_joining True \<or> proxy_at u = Proxy_crashed" for u l v
    using that by (auto elim: step.cases)
  have stuck: "\<not> step P u l v"
    if "proxy_at u = Proxy_joining True" "bridge_at u = Bridge_network (m # ms) \<or> bridge_at u = Bridge_checking (m # ms)" for u l v
    using that by (auto elim: step.cases)
  from assms(2,1) show ?thesis
    by (induction rule: run.induct) (use stays stuck in blast)+
qed

definition sample_joining :: "(json, unit, unit) threads" where
  "sample_joining = sample_threads\<lparr>proxy_at := Proxy_joining True, bridge_at := Bridge_network [Clock_msg 1 2]\<rparr>"

theorem disconnect_in_callback_fails_witness:
  "\<not> (\<exists>ls t'. run sample_proxy_env sample_joining ls t' \<and> proxy_at t' = Proxy_disconnected)"
proof
  assume "\<exists>ls t'. run sample_proxy_env sample_joining ls t' \<and> proxy_at t' = Proxy_disconnected"
  then obtain ls t' where "run sample_proxy_env sample_joining ls t'" and gone: "proxy_at t' = Proxy_disconnected" by blast
  from disconnect_in_callback_fails [OF _ this(1), of "Clock_msg 1 2" "[]"]
  have "proxy_at t' = Proxy_joining True \<or> proxy_at t' = Proxy_crashed" by (simp add: sample_joining_def)
  with gone show False by simp
qed

text \<open>
  The same holds of any call the user makes in a callback while the bridge handles a connect that fails:
  each thread waits for the lock of the other.
\<close>

lemma crossed_locks_stuck:
  assumes "proxy_at t = Proxy_polling (c # cs) d" and "bridge_at t = Bridge_checking (m # ms)"
    and "call_proxy c (shared t) \<noteq> None"
  shows "\<not> step P t l t'"
  using assms by (auto elim: step.cases)

end
