(* ===== verification/Movement.thy ===== *)
theory Movement
  imports Intent
begin

text \<open>
  What clients do to the place through their intents, \<^verbatim>\<open>src/simulation\<close>: moving an avatar with the
  stick (\<^verbatim>\<open>stick_movement.c\<close>), posing the parts of a body (\<^verbatim>\<open>pose_movement.c\<close>) and dragging what a
  hand holds (\<^verbatim>\<open>grabbing.c\<close>). An entity is read and written through its address. \<open>None\<close> is a null
  pointer that is followed, a parent cycle, or a double that is not a finite number.
\<close>

section \<open>Libraries\<close>

text \<open>\<open>libm\<close>, and the functions of \<^verbatim>\<open>mathc\<close> that the simulation calls; an arc cosine may be a NaN.\<close>

record quaternion =
  qx :: rat
  qy :: rat
  qz :: rat
  qw :: rat

record simlib =
  mathc_of :: mathc
  lib_cos :: "rat \<Rightarrow> rat"
  lib_sin :: "rat \<Rightarrow> rat"
  lib_sqrt :: "rat \<Rightarrow> rat"
  lib_acosf :: "rat \<Rightarrow> rat option"
  vec3_length :: "allo_vector \<Rightarrow> rat"
  vec3_lerp :: "allo_vector \<Rightarrow> allo_vector \<Rightarrow> rat \<Rightarrow> allo_vector"
  quat_from_axis_angle :: "allo_vector \<Rightarrow> rat \<Rightarrow> quaternion"
  quat_slerp :: "quaternion \<Rightarrow> quaternion \<Rightarrow> rat \<Rightarrow> quaternion"
  mat4_rotation_quat :: "quaternion \<Rightarrow> allo_m4x4"
  mat4_rotation_axis :: "allo_vector \<Rightarrow> rat \<Rightarrow> allo_m4x4"
  mat4_translation :: "allo_m4x4 \<Rightarrow> allo_vector \<Rightarrow> allo_m4x4"
  mat4_scaling :: "allo_m4x4 \<Rightarrow> allo_vector \<Rightarrow> allo_m4x4"
  easing_function :: "string \<Rightarrow> rat \<Rightarrow> rat"

section \<open>Lengths and rotations\<close>

record allo_rotation =
  angle :: rat
  axis :: allo_vector

definition allo_vector_length :: "simlib \<Rightarrow> allo_vector \<Rightarrow> rat" where
  "allo_vector_length L l = lib_sqrt L (allo_vector_dot l l)"

definition allo_vector_normalize :: "simlib \<Rightarrow> allo_vector \<Rightarrow> allo_vector" where
  "allo_vector_normalize L l =
     (let len = allo_vector_length L l in if len = 0 then l else allo_vector_scale l (1 / len))"

definition allo_vector_div :: "allo_vector \<Rightarrow> allo_vector \<Rightarrow> allo_vector option" where
  "allo_vector_div l r =
     (if vx r = 0 \<or> vy r = 0 \<or> vz r = 0 then None
      else Some (vec (vx l / vx r) (vy l / vy r) (vz l / vz r)))"

definition allo_m4x4_get_rotation :: "simlib \<Rightarrow> allo_m4x4 \<Rightarrow> allo_rotation option" where
  "allo_m4x4_get_rotation L l =
     (let ax = allo_vector_normalize L (vec (c2r3 l - c3r2 l) (c3r1 l - c1r3 l) (c1r2 l - c2r1 l));
          lengths = vec (vec3_length L (vec (c1r1 l) (c1r2 l) (c1r3 l)))
                        (vec3_length L (vec (c2r1 l) (c2r2 l) (c2r3 l)))
                        (vec3_length L (vec (c3r1 l) (c3r2 l) (c3r3 l)));
          diagonal = vec (c1r1 l) (c2r2 l) (c3r3 l)
      in case allo_vector_div diagonal lengths of
           None \<Rightarrow> None
         | Some d \<Rightarrow> map_option (\<lambda>a. \<lparr>angle = a, axis = ax\<rparr>) (lib_acosf L ((vx d + vy d + vz d - 1) / 2)))"

section \<open>Entities by address\<close>

definition entity_by_address :: "'j allo_state \<Rightarrow> nat \<Rightarrow> 'j entity option" where
  "entity_by_address st a = List.find (\<lambda>e. entity_at e = a) (entities st)"

definition set_transform_at :: "'j cjson \<Rightarrow> nat \<Rightarrow> allo_m4x4 \<Rightarrow> 'j allo_state \<Rightarrow> 'j allo_state" where
  "set_transform_at C a m st = st\<lparr>entities := map (\<lambda>e. if entity_at e = a then entity_set_transform C e m else e) (entities st)\<rparr>"

text \<open>\<open>entity_set_transform\<close> and the mark that the component has changed, which every movement ends with.\<close>

definition move_entity ::
  "'j cjson \<Rightarrow> 'j entity \<Rightarrow> allo_m4x4 \<Rightarrow> 'j allo_state \<times> 'j state_diff option \<Rightarrow> 'j allo_state \<times> 'j state_diff option" where
  "move_entity C e m sd =
     (set_transform_at C (entity_at e) m (fst sd),
      allo_state_diff_mark_component_updated (snd sd) (eid e) ''transform''
        (get_cs C (components (entity_set_transform C e m)) ''transform''))"

text \<open>\<open>allosim_get_child_with_pose\<close>, whose inner \<open>None\<close> is a null pointer.\<close>

fun find_pose :: "'j cjson \<Rightarrow> string \<Rightarrow> string \<Rightarrow> 'j entity list \<Rightarrow> 'j entity option option" where
  "find_pose C avatar_id pose_name [] = Some None"
| "find_pose C avatar_id pose_name (e # es) =
     (case (parent_id C e, get_cs C (get_cs C (components e) ''intent'') ''actuate_pose'') of
        (Some p, Some pose) \<Rightarrow>
          if p = avatar_id
          then (case string_value C (Some pose) of
                  None \<Rightarrow> None
                | Some s \<Rightarrow> if s = pose_name then Some (Some e) else find_pose C avatar_id pose_name es)
          else find_pose C avatar_id pose_name es
      | _ \<Rightarrow> find_pose C avatar_id pose_name es)"

definition allosim_get_child_with_pose ::
  "'j cjson \<Rightarrow> 'j allo_state \<Rightarrow> 'j entity option \<Rightarrow> string \<Rightarrow> 'j entity option option" where
  "allosim_get_child_with_pose C st avatar pose_name =
     (case avatar of
        None \<Rightarrow> Some None
      | Some a \<Rightarrow> if pose_name = [] then Some None else find_pose C (eid a) pose_name (entities st))"

section \<open>Moving with the stick\<close>

definition create_movement :: "simlib \<Rightarrow> allo_m4x4 \<Rightarrow> rat \<Rightarrow> rat \<Rightarrow> rat \<Rightarrow> allo_m4x4" where
  "create_movement L heading_transform ya xm zm =
     (let M = mathc_of L;
          inverse_head = allo_m4x4_inverse M heading_transform;
          rotation = allo_m4x4_rotate (lib_cos L ya) (lib_sin L ya) (vec 0 (- 1) 0);
          translation = allo_m4x4_translate (vec xm 0 zm);
          full_movement = allo_m4x4_concat M (allo_m4x4_concat M (allo_m4x4_concat M rotation heading_transform)
            translation) inverse_head;
          movement_vector = allo_m4x4_transform full_movement (vec 0 0 0) True;
          constrainer = allo_m4x4_translate (vec 0 (- vy movement_vector) 0)
      in allo_m4x4_concat M full_movement constrainer)"

text \<open>The transform that \<open>allosim_stick_movement\<close> computes from those of the avatar and its head.\<close>

definition stick_transform :: "simlib \<Rightarrow> allo_m4x4 \<Rightarrow> allo_m4x4 \<Rightarrow> client_intent \<Rightarrow> rat \<Rightarrow> allo_m4x4" where
  "stick_transform L old_transform heading_transform intent dt =
     (let M = mathc_of L;
          speed = 2;
          distance = speed * dt;
          movement = create_movement L heading_transform (yaw intent) (xmovement intent * distance) (zmovement intent * distance);
          old_position = allo_m4x4_transform old_transform (vec 0 0 0) True;
          old_positional_transform = allo_m4x4_translate old_position;
          head_worldcoords = allo_m4x4_concat M old_transform heading_transform;
          just_rotation = create_movement L heading_transform (yaw intent) 0 0;
          new_transform_r = allo_m4x4_concat M old_positional_transform just_rotation;
          new_head_worldcoords = allo_m4x4_concat M new_transform_r heading_transform;
          a = allo_m4x4_transform head_worldcoords (vec 0 0 0) True;
          b = allo_m4x4_transform new_head_worldcoords (vec 0 0 0) True;
          keep_head_centered = allo_m4x4_translate (allo_vector_subtract a b);
          new_transform = allo_m4x4_concat M old_positional_transform movement
      in allo_m4x4_concat M keep_head_centered new_transform)"

definition allosim_stick_movement ::
  "simlib \<Rightarrow> 'j cjson \<Rightarrow> 'j entity option \<Rightarrow> 'j entity option \<Rightarrow> client_intent \<Rightarrow> rat \<Rightarrow> bool \<Rightarrow>
   'j allo_state \<times> 'j state_diff option \<Rightarrow> (allo_m4x4 \<times> 'j allo_state \<times> 'j state_diff option) option" where
  "allosim_stick_movement L C avatar head intent dt write sd =
     (if wants_stick_movement intent = 0 \<and> write then Some (allo_m4x4_identity, sd)
      else
        (let m = stick_transform L (entity_get_transform C avatar) (entity_get_transform C head) intent dt
         in if \<not> write then Some (m, sd)
            else case avatar of
                   None \<Rightarrow> None
                 | Some av \<Rightarrow> Some (m, move_entity C av m sd)))"

section \<open>Posing\<close>

text \<open>
  The loop of \<open>allosim_pose_movements\<close>. \<open>intent\<close> is the variable of the function: the loop over the
  other intents assigns it, and the iterations that follow find it so.
\<close>

fun find_intent :: "string \<Rightarrow> client_intent list \<Rightarrow> client_intent option option" where
  "find_intent from_avatar [] = Some None"
| "find_intent from_avatar (i # is) =
     (case intent_entity_id i of
        None \<Rightarrow> None
      | Some s \<Rightarrow> if from_avatar = s then Some (Some i) else find_intent from_avatar is)"

definition pose_matrix :: "client_intent \<Rightarrow> string \<Rightarrow> allo_m4x4 option" where
  "pose_matrix intent actuate_pose =
     (if actuate_pose = ''hand/left'' then Some (hand_matrix (left_hand (poses intent)))
      else if actuate_pose = ''hand/right'' then Some (hand_matrix (right_hand (poses intent)))
      else if actuate_pose = ''head'' then Some (pose_head (poses intent))
      else if actuate_pose = ''torso'' then Some (pose_torso (poses intent))
      else if actuate_pose = ''root'' then Some (pose_root (poses intent))
      else None)"

text \<open>One entity: the intent that is current afterwards, and the matrix the entity is given, if any.\<close>

definition pose_entity ::
  "'j cjson \<Rightarrow> string option \<Rightarrow> client_intent list \<Rightarrow> client_intent \<Rightarrow> 'j entity \<Rightarrow> (client_intent \<times> allo_m4x4 option) option"
where
  "pose_entity C avatar_owner others intent e =
     (let rels = get_cs C (components e) ''relationships'';
          parent = string_value C (get_cs C rels ''parent'');
          intents = get_cs C (components e) ''intent'';
          actuate_pose = string_value C (get_cs C intents ''actuate_pose'');
          from_avatar = string_value C (get_cs C intents ''from_avatar'')
      in case actuate_pose of
           None \<Rightarrow> Some (intent, None)
         | Some pose \<Rightarrow>
             (case (owner_agent_id e, avatar_owner) of
                (Some _, None) \<Rightarrow> None
              | (owner, _) \<Rightarrow>
                  if owner \<noteq> None \<and> owner \<noteq> avatar_owner then Some (intent, None)
                  else
                    (case (case from_avatar of None \<Rightarrow> Some None | Some f \<Rightarrow> find_intent f others) of
                       None \<Rightarrow> None
                     | Some found \<Rightarrow>
                         (let intent' = (case found of None \<Rightarrow> intent | Some other \<Rightarrow> other);
                              mine = (case parent of
                                        Some p \<Rightarrow> if pose \<noteq> ''root'' then p else eid e
                                      | None \<Rightarrow> eid e);
                              m = (case pose_matrix intent' pose of
                                     None \<Rightarrow> None
                                   | Some m \<Rightarrow> if allo_m4x4_is_identity m then None else Some m)
                          in if from_avatar = None
                             then (case intent_entity_id intent' of
                                     None \<Rightarrow> None
                                   | Some i \<Rightarrow> Some (intent', if i \<noteq> mine then None else m))
                             else Some (intent', m)))))"

fun pose_entities ::
  "'j cjson \<Rightarrow> string option \<Rightarrow> client_intent list \<Rightarrow> client_intent \<Rightarrow> 'j entity list \<Rightarrow>
   'j allo_state \<times> 'j state_diff option \<Rightarrow> ('j allo_state \<times> 'j state_diff option) option" where
  "pose_entities C avatar_owner others intent [] sd = Some sd"
| "pose_entities C avatar_owner others intent (e # es) sd =
     (case pose_entity C avatar_owner others intent e of
        None \<Rightarrow> None
      | Some (intent', None) \<Rightarrow> pose_entities C avatar_owner others intent' es sd
      | Some (intent', Some m) \<Rightarrow> pose_entities C avatar_owner others intent' es (move_entity C e m sd))"

definition allosim_pose_movements ::
  "'j cjson \<Rightarrow> 'j entity \<Rightarrow> client_intent \<Rightarrow> client_intent list \<Rightarrow> 'j allo_state \<times> 'j state_diff option \<Rightarrow>
   ('j allo_state \<times> 'j state_diff option) option" where
  "allosim_pose_movements C avatar intent others sd =
     pose_entities C (owner_agent_id avatar) others intent (entities (fst sd)) sd"

section \<open>Grabbing\<close>

definition constrain :: "simlib \<Rightarrow> allo_m4x4 \<Rightarrow> allo_m4x4 \<Rightarrow> allo_vector \<Rightarrow> allo_vector \<Rightarrow> allo_m4x4 option" where
  "constrain L orig update tconstraint rconstraint =
     (let oldT = allo_m4x4_get_position orig;
          newT = allo_m4x4_get_position update;
          tconstraint_inv = allo_vector_subtract (vec 1 1 1) tconstraint;
          constrainedTranslation = allo_vector_add (allo_vector_mul oldT tconstraint_inv) (allo_vector_mul newT tconstraint);
          rconstraint_inv = allo_vector_subtract (vec 1 1 1) rconstraint
      in case (allo_m4x4_get_rotation L orig, allo_m4x4_get_rotation L update) of
           (Some oldR, Some newR) \<Rightarrow>
             (let constrainedAxis = allo_vector_add (allo_vector_mul (axis oldR) rconstraint_inv)
                    (allo_vector_mul (axis newR) rconstraint)
              in Some (allo_m4x4_concat (mathc_of L) (allo_m4x4_translate constrainedTranslation)
                   (allo_m4x4_rotate (lib_cos L (angle newR)) (lib_sin L (angle newR)) constrainedAxis)))
         | _ \<Rightarrow> None)"

text \<open>A constraint of three values, or no constraint.\<close>

definition constraint_of :: "'j cjson \<Rightarrow> 'j option \<Rightarrow> allo_vector" where
  "constraint_of C v = (case v of None \<Rightarrow> vec 1 1 1 | Some j \<Rightarrow> if GetArraySize C j = 3 then cjson2vec C j else vec 1 1 1)"

text \<open>Which entity moves when one is grabbed.\<close>

definition actuated_by :: "'j cjson \<Rightarrow> 'j allo_state \<Rightarrow> 'j entity option \<Rightarrow> 'j option \<Rightarrow> 'j entity option option" where
  "actuated_by C st grabbed grabbable =
     (case string_value C (get_cs C grabbable ''actuate_on'') of
        None \<Rightarrow> Some grabbed
      | Some on \<Rightarrow>
          if on = [] then Some grabbed
          else if on = ''$parent'' then (case grabbed of None \<Rightarrow> None | Some g \<Rightarrow> Some (entity_get_parent C st g))
          else Some (state_get_entity st (Some on)))"

definition grabbed_transform ::
  "simlib \<Rightarrow> 'j cjson \<Rightarrow> nat \<Rightarrow> 'j allo_state \<Rightarrow> pose_grab \<Rightarrow> 'j entity \<Rightarrow> 'j entity \<Rightarrow> 'j entity \<Rightarrow> 'j \<Rightarrow> allo_m4x4 option" where
  "grabbed_transform L C depth st held grabber grabbed actuated grabbable =
     (let M = mathc_of L in
      case state_convert_coordinate_space M C depth st (entity_get_transform C (Some grabber))
             (entity_get_parent C st grabber) None of
        None \<Rightarrow> None
      | Some world_from_grabber \<Rightarrow>
          (let world_from_grabbed = allo_m4x4_concat M world_from_grabber (grabber_from_entity_transform held)
           in case state_convert_coordinate_space M C depth st allo_m4x4_identity (Some actuated) (Some grabbed) of
                None \<Rightarrow> None
              | Some grabbed_from_actuated \<Rightarrow>
                  (case state_convert_coordinate_space M C depth st
                          (allo_m4x4_concat M world_from_grabbed grabbed_from_actuated) None (entity_get_parent C st actuated) of
                     None \<Rightarrow> None
                   | Some parent_from_actuated \<Rightarrow>
                       constrain L (entity_get_transform C (Some actuated)) parent_from_actuated
                         (constraint_of C (GetObjectItemCS C grabbable ''translation_constraint''))
                         (constraint_of C (GetObjectItemCS C grabbable ''rotation_constraint'')))))"

text \<open>One hand. The grabber was looked up before either hand moved anything.\<close>

definition handle_grab ::
  "simlib \<Rightarrow> 'j cjson \<Rightarrow> nat \<Rightarrow> pose_grab \<Rightarrow> 'j entity option \<Rightarrow> 'j allo_state \<times> 'j state_diff option \<Rightarrow>
   ('j allo_state \<times> 'j state_diff option) option" where
  "handle_grab L C depth held grabber0 sd =
     (let st = fst sd;
          grabber = (case grabber0 of None \<Rightarrow> None | Some g \<Rightarrow> entity_by_address st (entity_at g));
          grabbed = state_get_entity st (grab_entity held);
          grabbable = (case grabbed of None \<Rightarrow> None | Some g \<Rightarrow> get_cs C (components g) ''grabbable'')
      in case actuated_by C st grabbed grabbable of
           None \<Rightarrow> None
         | Some actuated \<Rightarrow>
             (case (grabber, grabbed, actuated, grabbable) of
                (Some gr, Some gd, Some ac, Some gb) \<Rightarrow>
                  map_option (\<lambda>m. move_entity C ac m sd) (grabbed_transform L C depth st held gr gd ac gb)
              | _ \<Rightarrow> Some sd))"

definition allosim_handle_grabs ::
  "simlib \<Rightarrow> 'j cjson \<Rightarrow> nat \<Rightarrow> 'j entity \<Rightarrow> client_intent \<Rightarrow> 'j allo_state \<times> 'j state_diff option \<Rightarrow>
   ('j allo_state \<times> 'j state_diff option) option" where
  "allosim_handle_grabs L C depth avatar intent sd =
     (case (allosim_get_child_with_pose C (fst sd) (Some avatar) ''hand/left'',
            allosim_get_child_with_pose C (fst sd) (Some avatar) ''hand/right'') of
        (Some l, Some r) \<Rightarrow>
          (case handle_grab L C depth (grab (left_hand (poses intent))) l sd of
             None \<Rightarrow> None
           | Some sd' \<Rightarrow> handle_grab L C depth (grab (right_hand (poses intent))) r sd')
      | _ \<Rightarrow> None)"

section \<open>A library for examples\<close>

text \<open>
  The library with rational approximations: short Taylor polynomials, one step of Newton's method,
  and linear interpolation of quaternions.
\<close>

definition approx_cos :: "rat \<Rightarrow> rat" where
  "approx_cos x = 1 - x * x / 2"

definition approx_sin :: "rat \<Rightarrow> rat" where
  "approx_sin x = x - x * x * x / 6"

definition lerp :: "rat \<Rightarrow> rat \<Rightarrow> rat \<Rightarrow> rat" where
  "lerp a b f = a + (b - a) * f"

definition quat_about :: "allo_vector \<Rightarrow> rat \<Rightarrow> quaternion" where
  "quat_about a r = (let k = approx_sin (r / 2)
     in \<lparr>qx = vx a * k, qy = vy a * k, qz = vz a * k, qw = approx_cos (r / 2)\<rparr>)"

definition quat_lerp :: "quaternion \<Rightarrow> quaternion \<Rightarrow> rat \<Rightarrow> quaternion" where
  "quat_lerp p q f = \<lparr>qx = lerp (qx p) (qx q) f, qy = lerp (qy p) (qy q) f, qz = lerp (qz p) (qz q) f,
     qw = lerp (qw p) (qw q) f\<rparr>"

definition quat_matrix :: "quaternion \<Rightarrow> allo_m4x4" where
  "quat_matrix q = (let x = qx q; y = qy q; z = qz q; w = qw q
     in m_of (1 - 2 * (y * y + z * z)) (2 * (x * y + z * w)) (2 * (x * z - y * w)) 0
             (2 * (x * y - z * w)) (1 - 2 * (x * x + z * z)) (2 * (y * z + x * w)) 0
             (2 * (x * z + y * w)) (2 * (y * z - x * w)) (1 - 2 * (x * x + y * y)) 0
             0 0 0 1)"

definition approx_lib :: simlib where
  "approx_lib = \<lparr>
     mathc_of = mathc_ops,
     lib_cos = approx_cos,
     lib_sin = approx_sin,
     lib_sqrt = (\<lambda>x. (1 + x) / 2),
     lib_acosf = (\<lambda>x. if - 1 \<le> x \<and> x \<le> 1 then Some (3 / 2 - x) else None),
     vec3_length = (\<lambda>v. (1 + allo_vector_dot v v) / 2),
     vec3_lerp = (\<lambda>a b f. vec (lerp (vx a) (vx b) f) (lerp (vy a) (vy b) f) (lerp (vz a) (vz b) f)),
     quat_from_axis_angle = quat_about,
     quat_slerp = quat_lerp,
     mat4_rotation_quat = quat_matrix,
     mat4_rotation_axis = (\<lambda>a r. allo_m4x4_rotate (approx_cos r) (approx_sin r) a),
     mat4_translation = (\<lambda>m v. product (allo_m4x4_translate v) m),
     mat4_scaling = (\<lambda>m v. product (m_of (vx v) 0 0 0  0 (vy v) 0 0  0 0 (vz v) 0  0 0 0 1) m),
     easing_function = (\<lambda>name t. t)\<rparr>"

lemma approx_lib_mathc [simp]: "mathc_of approx_lib = mathc_ops"
  by (simp add: approx_lib_def)

end
