(* ===== verification/Animation.thy ===== *)
theory Animation
  imports Movement
begin

text \<open>
  The animation of the properties of components, \<^verbatim>\<open>src/simulation/animation_prop.c\<close> and
  \<^verbatim>\<open>src/simulation/animation.c\<close>. A pointer into the components of an entity is the path of child
  numbers that leads to it. \<open>None\<close> is a null pointer that is followed, a read beyond a buffer, a
  conversion without a defined result, or a value stored that is not a finite number.
\<close>

section \<open>Pointers into a JSON value\<close>

fun at_path :: "('j, 'z) cjson_scheme \<Rightarrow> 'j \<Rightarrow> nat list \<Rightarrow> 'j option" where
  "at_path C j [] = Some j"
| "at_path C j (n # ns) = (if n < length (chain C j) then at_path C (items C j ! n) ns else None)"

fun put_path :: "('j, 'z) cjson_scheme \<Rightarrow> 'j \<Rightarrow> nat list \<Rightarrow> 'j \<Rightarrow> 'j" where
  "put_path C j [] v = v"
| "put_path C j (n # ns) v =
     (if n < length (chain C j) then put C j n (put_path C (items C j ! n) ns v) else j)"

section \<open>Values that can be interpolated\<close>

datatype MathVariantType = TypeInvalid | TypeDouble | TypeVec3 | TypeRotation | TypeMat4

text \<open>
  The union is its sixteen doubles: a number is the first, a vector the first three, a rotation its
  angle and then its axis. A double that was not written, or is not a number, is \<open>None\<close>.
\<close>

record MathVariant =
  mtype :: MathVariantType
  cells :: "rat option list"

definition unwritten :: "rat option list" where
  "unwritten = replicate 16 None"

definition stored_cells :: "rat option list \<Rightarrow> rat option list" where
  "stored_cells cs = cs @ drop (length cs) unwritten"

definition as_double :: "MathVariant \<Rightarrow> rat option" where
  "as_double m = cells m ! 0"

fun vec_of_cells :: "rat option list \<Rightarrow> allo_vector option" where
  "vec_of_cells (Some x # Some y # Some z # cs) = Some (vec x y z)"
| "vec_of_cells cs = None"

definition as_vec :: "MathVariant \<Rightarrow> allo_vector option" where
  "as_vec m = vec_of_cells (cells m)"

definition as_rotation :: "MathVariant \<Rightarrow> allo_rotation option" where
  "as_rotation m =
     (case (cells m ! 0, vec_of_cells (drop 1 (cells m))) of
        (Some a, Some ax) \<Rightarrow> Some \<lparr>angle = a, axis = ax\<rparr>
      | _ \<Rightarrow> None)"

definition as_matrix :: "MathVariant \<Rightarrow> allo_m4x4 option" where
  "as_matrix m = map_option m_of_list (those (cells m))"

definition matrix_cells :: "allo_m4x4 option \<Rightarrow> rat option list" where
  "matrix_cells m = (case m of None \<Rightarrow> unwritten | Some a \<Rightarrow> map Some (v_of a))"

definition vector_cells :: "allo_vector option \<Rightarrow> rat option list" where
  "vector_cells v = stored_cells (case v of None \<Rightarrow> [] | Some a \<Rightarrow> map Some [vx a, vy a, vz a])"

definition rotation_cells :: "allo_rotation option \<Rightarrow> rat option list" where
  "rotation_cells r =
     stored_cells (case r of None \<Rightarrow> [] | Some a \<Rightarrow> map Some [angle a, vx (axis a), vy (axis a), vz (axis a)])"

definition mathvariant_from_json :: "'j cjson \<Rightarrow> 'j option \<Rightarrow> MathVariant" where
  "mathvariant_from_json C json =
     (case json of
        None \<Rightarrow> \<lparr>mtype = TypeInvalid, cells = unwritten\<rparr>
      | Some j \<Rightarrow>
          if IsNumber C j then \<lparr>mtype = TypeDouble, cells = stored_cells [Some (valuedouble C j)]\<rparr>
          else if GetArraySize C j = 3 then \<lparr>mtype = TypeVec3, cells = vector_cells (Some (cjson2vec C j))\<rparr>
          else if GetArraySize C j = 4
          then \<lparr>mtype = TypeRotation, cells = stored_cells (map (\<lambda>i. number_value C (GetArrayItem C j i)) [0, 1, 2, 3])\<rparr>
          else if GetArraySize C j = 16 then \<lparr>mtype = TypeMat4, cells = matrix_cells (Some (cjson2m C (Some j)))\<rparr>
          else \<lparr>mtype = TypeInvalid, cells = unwritten\<rparr>)"

text \<open>The children of a node from number \<open>n\<close> on, as many as there are values, get them.\<close>

fun set_children :: "'j cjson \<Rightarrow> nat \<Rightarrow> rat option list \<Rightarrow> 'j \<Rightarrow> 'j option" where
  "set_children C n [] j = Some j"
| "set_children C n (r # rs) j =
     (if n < length (chain C j)
      then (case r of
              None \<Rightarrow> None
            | Some d \<Rightarrow> set_children C (Suc n) rs (put C j n (with_valuedouble C (items C j ! n) d)))
      else Some j)"

text \<open>
  The case of a rotation stores the angle and goes on into the case of a vector, whose loop reads the
  union from its beginning.
\<close>

definition mathvariant_replace_json :: "'j cjson \<Rightarrow> MathVariant \<Rightarrow> 'j \<Rightarrow> 'j option" where
  "mathvariant_replace_json C variant toreplace =
     (case mtype variant of
        TypeDouble \<Rightarrow> map_option (with_valuedouble C toreplace) (cells variant ! 0)
      | TypeRotation \<Rightarrow>
          (case chain C toreplace of
             [] \<Rightarrow> None
           | _ \<Rightarrow> Option.bind (set_children C 0 (take 1 (cells variant)) toreplace) (set_children C 1 (take 3 (cells variant))))
      | TypeVec3 \<Rightarrow> set_children C 0 (take 3 (cells variant)) toreplace
      | TypeMat4 \<Rightarrow> set_children C 0 (take 16 (cells variant)) toreplace
      | TypeInvalid \<Rightarrow> Some toreplace)"

section \<open>The property that is animated\<close>

datatype PropertyAnimationUsage = UsageInvalid | UsageStandard | UsageMatRot | UsageMatTrans | UsageMatScale

definition mat_usage :: "PropertyAnimationUsage \<Rightarrow> bool" where
  "mat_usage u \<longleftrightarrow> u = UsageMatRot \<or> u = UsageMatTrans \<or> u = UsageMatScale"

record property_animation =
  act_on :: "nat list option"
  comp_path :: "nat list option"
  current :: MathVariant
  from_value :: MathVariant
  to_value :: MathVariant
  usage :: PropertyAnimationUsage
  component_index :: nat

definition variants_are_compatible :: "property_animation \<Rightarrow> bool" where
  "variants_are_compatible prop =
     (let src = mtype (from_value prop); dest = mtype (current prop); u = usage prop; idx = component_index prop
      in u = UsageStandard \<and> src = dest \<or>
         mat_usage u \<and> 0 < idx \<and> src = TypeDouble \<or>
         u = UsageMatRot \<and> src = TypeRotation \<and> dest = TypeMat4 \<or>
         u = UsageMatTrans \<and> src = TypeVec3 \<and> dest = TypeMat4 \<or>
         u = UsageMatScale \<and> src = TypeVec3 \<and> dest = TypeMat4)"

text \<open>\<open>sscanf (\<dots>, "%d", \<dots>)\<close>: space, a sign and digits, whatever follows them.\<close>

definition is_digit :: "char \<Rightarrow> bool" where
  "is_digit c \<longleftrightarrow> 48 \<le> (of_char c :: nat) \<and> (of_char c :: nat) \<le> 57"

definition is_space :: "char \<Rightarrow> bool" where
  "is_space c \<longleftrightarrow> (of_char c :: nat) = 32 \<or> 9 \<le> (of_char c :: nat) \<and> (of_char c :: nat) \<le> 13"

definition digits_value :: "string \<Rightarrow> int" where
  "digits_value ds = foldl (\<lambda>n c. 10 * n + (of_char c - 48)) 0 ds"

definition scan_d :: "string \<Rightarrow> int option" where
  "scan_d s =
     (let t = dropWhile is_space s;
          sign = (case t of c # _ \<Rightarrow> if c = CHR ''-'' then Some (- 1) else if c = CHR ''+'' then Some 1 else None | [] \<Rightarrow> None);
          ds = takeWhile is_digit (if sign = None then t else tl t)
      in if ds = [] then None else Some ((case sign of None \<Rightarrow> 1 | Some g \<Rightarrow> g) * digits_value ds))"

text \<open>What one key of the path does; the inner \<open>None\<close> of \<open>act_on\<close> is a null pointer.\<close>

definition follow_key :: "'j cjson \<Rightarrow> 'j \<Rightarrow> string \<Rightarrow> property_animation \<Rightarrow> property_animation option" where
  "follow_key C comps this_prop prop =
     (case act_on prop of
        None \<Rightarrow> None
      | Some p \<Rightarrow>
          (case at_path C comps p of
             None \<Rightarrow> None
           | Some node \<Rightarrow>
               (case scan_d this_prop of
                  Some index \<Rightarrow>
                    if index < - 2147483648 \<or> 2147483648 \<le> index then None
                    else Some (prop\<lparr>act_on := (if GetArrayItem C node index = None then None else Some (p @ [nat index]))\<rparr>)
                | None \<Rightarrow>
                    Some
                      (if mtype (current prop) = TypeMat4 \<and> this_prop = ''rotation'' then prop\<lparr>usage := UsageMatRot\<rparr>
                       else if mtype (current prop) = TypeMat4 \<and> this_prop = ''translation'' then prop\<lparr>usage := UsageMatTrans\<rparr>
                       else if mtype (current prop) = TypeMat4 \<and> this_prop = ''scale'' then prop\<lparr>usage := UsageMatScale\<rparr>
                       else if mat_usage (usage prop) \<and> this_prop = ''x'' then prop\<lparr>component_index := 1\<rparr>
                       else if mat_usage (usage prop) \<and> this_prop = ''y'' then prop\<lparr>component_index := 2\<rparr>
                       else if mat_usage (usage prop) \<and> this_prop = ''z'' then prop\<lparr>component_index := 3\<rparr>
                       else prop\<lparr>act_on := (if GetObjectItemCS C node this_prop = None then None
                              else Some (p @ [assoc_index ((=) this_prop) (chain C node)]))\<rparr>))))"

text \<open>The end of the path.\<close>

definition finish_property :: "property_animation \<Rightarrow> property_animation" where
  "finish_property prop =
     (if \<not> variants_are_compatible prop \<or> mtype (from_value prop) = TypeInvalid \<or>
        mtype (to_value prop) = TypeInvalid \<or> mtype (current prop) = TypeInvalid
      then prop\<lparr>usage := UsageInvalid\<rparr> else prop)"

text \<open>The value that the key leads to.\<close>

definition read_current :: "'j cjson \<Rightarrow> 'j \<Rightarrow> property_animation \<Rightarrow> property_animation" where
  "read_current C comps prop =
     (let cur = mathvariant_from_json C (Option.bind (act_on prop) (at_path C comps))
      in prop\<lparr>current := cur,
           usage := (if mtype cur \<noteq> TypeInvalid \<and> usage prop = UsageInvalid then UsageStandard else usage prop),
           comp_path := (if comp_path prop = None then act_on prop else comp_path prop)\<rparr>)"

text \<open>
  A key of 255 characters fills the buffer, and \<open>sscanf\<close> reads beyond it; a longer one does not end
  at a separator.
\<close>

function animation_derive_property ::
  "'j cjson \<Rightarrow> 'j \<Rightarrow> property_animation \<Rightarrow> string \<Rightarrow> property_animation option" where
  "animation_derive_property C comps prop path =
     (let this_prop = takeWhile (\<lambda>c. c \<noteq> CHR ''.'') (take 255 path);
          more = drop (length this_prop) path
      in if more \<noteq> [] \<and> hd more \<noteq> CHR ''.'' then Some (prop\<lparr>usage := UsageInvalid\<rparr>)
         else if length this_prop = 255 then None
         else
           (case follow_key C comps this_prop prop of
              None \<Rightarrow> None
            | Some prop1 \<Rightarrow>
                if act_on prop1 = None then Some (prop1\<lparr>usage := UsageInvalid\<rparr>)
                else if more \<noteq> [] then animation_derive_property C comps (read_current C comps prop1) (tl more)
                else Some (finish_property (read_current C comps prop1))))"
  by pat_completeness auto

termination
  by (relation "measure (\<lambda>(C, comps, prop, path). length path)") auto

declare animation_derive_property.simps [simp del]

definition propertyanimation_create ::
  "'j cjson \<Rightarrow> 'j \<Rightarrow> 'j option \<Rightarrow> 'j option \<Rightarrow> string option \<Rightarrow> property_animation option" where
  "propertyanimation_create C comps from to path =
     (let prop = \<lparr>act_on = Some [], comp_path = None, current = \<lparr>mtype = TypeInvalid, cells = replicate 16 (Some 0)\<rparr>,
            from_value = mathvariant_from_json C from, to_value = mathvariant_from_json C to,
            usage = UsageInvalid, component_index = 0\<rparr>
      in if mtype (from_value prop) \<noteq> mtype (to_value prop) then Some prop
         else case path of None \<Rightarrow> None | Some p \<Rightarrow> animation_derive_property C comps prop p)"

section \<open>Interpolation\<close>

definition lift2 :: "('a \<Rightarrow> 'b \<Rightarrow> 'c) \<Rightarrow> 'a option \<Rightarrow> 'b option \<Rightarrow> 'c option" where
  "lift2 f a b = (case (a, b) of (Some x, Some y) \<Rightarrow> Some (f x y) | _ \<Rightarrow> None)"

definition rotation_between :: "simlib \<Rightarrow> rat \<Rightarrow> allo_rotation \<Rightarrow> allo_rotation \<Rightarrow> allo_rotation option" where
  "rotation_between L fraction from to =
     (let fromq = quat_from_axis_angle L (axis from) (angle from);
          toq = quat_from_axis_angle L (axis to) (angle to)
      in allo_m4x4_get_rotation L (mat4_rotation_quat L (quat_slerp L fromq toq fraction)))"

text \<open>The value between \<open>from\<close> and \<open>to\<close>, whatever it is used for.\<close>

definition interpolated :: "simlib \<Rightarrow> MathVariant \<Rightarrow> MathVariant \<Rightarrow> rat \<Rightarrow> MathVariant" where
  "interpolated L from to fraction =
     (case mtype from of
        TypeDouble \<Rightarrow> \<lparr>mtype = TypeDouble,
          cells = stored_cells [lift2 (\<lambda>f t. f + fraction * (t - f)) (as_double from) (as_double to)]\<rparr>
      | TypeVec3 \<Rightarrow> \<lparr>mtype = TypeVec3, cells = vector_cells (lift2 (\<lambda>f t. vec3_lerp L f t fraction) (as_vec from) (as_vec to))\<rparr>
      | TypeRotation \<Rightarrow> \<lparr>mtype = TypeRotation,
          cells = rotation_cells (Option.bind (lift2 (rotation_between L fraction) (as_rotation from) (as_rotation to)) id)\<rparr>
      | TypeMat4 \<Rightarrow> \<lparr>mtype = TypeMat4,
          cells = matrix_cells (lift2 (\<lambda>f t. allo_m4x4_interpolate f t fraction) (as_matrix from) (as_matrix to))\<rparr>
      | TypeInvalid \<Rightarrow> \<lparr>mtype = TypeInvalid, cells = unwritten\<rparr>)"

definition keep_translation :: "rat option list \<Rightarrow> rat option list \<Rightarrow> rat option list" where
  "keep_translation old cs = cs[12 := old ! 12, 13 := old ! 13, 14 := old ! 14]"

definition animation_interpolate_property :: "simlib \<Rightarrow> property_animation \<Rightarrow> rat \<Rightarrow> MathVariant" where
  "animation_interpolate_property L prop fraction =
     (let ret = interpolated L (from_value prop) (to_value prop) fraction;
          cur = current prop; ci = component_index prop; cs = cells cur
      in case usage prop of
           UsageStandard \<Rightarrow> ret
         | UsageMatRot \<Rightarrow> cur\<lparr>cells := keep_translation cs (matrix_cells
             (if 0 < ci
              then map_option (mat4_rotation_axis L (vec (if ci = 1 then 1 else 0) (if ci = 2 then 1 else 0) (if ci = 3 then 1 else 0)))
                     (as_double ret)
              else map_option (\<lambda>r. mat4_rotation_axis L (axis r) (angle r)) (as_rotation ret)))\<rparr>
         | UsageMatTrans \<Rightarrow>
             cur\<lparr>cells := (if 0 < ci then cs[11 + ci := as_double ret]
               else matrix_cells (lift2 (mat4_translation L) (as_matrix cur) (as_vec ret)))\<rparr>
         | UsageMatScale \<Rightarrow>
             cur\<lparr>cells := (if 0 < ci then cs[(ci - 1) * 5 := as_double ret]
               else matrix_cells (lift2 (mat4_scaling L) (as_matrix cur) (as_vec ret)))\<rparr>
         | UsageInvalid \<Rightarrow> cur)"

section \<open>Easing\<close>

definition easings :: "(string \<times> string) list" where
  "easings =
     [(''quadInOut'', ''quadratic_ease_in_out''), (''quadIn'', ''quadratic_ease_in''), (''quadOut'', ''quadratic_ease_out''),
      (''bounceInOut'', ''bounce_ease_in_out''), (''bounceIn'', ''bounce_ease_in''), (''bounceOut'', ''bounce_ease_out''),
      (''backInOut'', ''back_ease_in_out''), (''backIn'', ''back_ease_in''), (''backOut'', ''back_ease_out''),
      (''sineInOut'', ''sine_ease_in_out''), (''sineIn'', ''sine_ease_in''), (''sineOut'', ''sine_ease_out''),
      (''cubicInOut'', ''cubic_ease_in_out''), (''cubicIn'', ''cubic_ease_in''), (''cubicOut'', ''cubic_ease_out''),
      (''quartInOut'', ''quartic_ease_in_out''), (''quartIn'', ''quartic_ease_in''), (''quartOut'', ''quartic_ease_out''),
      (''quintInOut'', ''quintic_ease_in_out''), (''quintIn'', ''quintic_ease_in''), (''quintOut'', ''quintic_ease_out''),
      (''elasticInOut'', ''elastic_ease_in_out''), (''elasticIn'', ''elastic_ease_in''), (''elasticOut'', ''elastic_ease_out''),
      (''circularInOut'', ''circular_ease_in_out''), (''circularIn'', ''circular_ease_in''), (''circularOut'', ''circular_ease_out''),
      (''expInOut'', ''exponential_ease_in_out''), (''expIn'', ''exponential_ease_in''), (''expOut'', ''exponential_ease_out'')]"

definition ease :: "simlib \<Rightarrow> rat \<Rightarrow> string \<Rightarrow> rat" where
  "ease L value easing =
     (if easing = ''linear'' then value
      else case map_of easings easing of None \<Rightarrow> value | Some f \<Rightarrow> easing_function L f value)"

section \<open>One animation\<close>

text \<open>Conversion to an integer drops the fraction; \<open>fmod\<close> and \<open>%\<close> have the sign of their first argument.\<close>

definition trunc :: "rat \<Rightarrow> int" where
  "trunc r = (if 0 \<le> r then \<lfloor>r\<rfloor> else - \<lfloor>- r\<rfloor>)"

definition fmod :: "rat \<Rightarrow> rat \<Rightarrow> rat" where
  "fmod x y = x - of_int (trunc (x / y)) * y"

definition is_true :: "'j cjson \<Rightarrow> 'j option \<Rightarrow> bool" where
  "is_true C v = (case v of None \<Rightarrow> False | Some j \<Rightarrow> IsTrue C j)"

text \<open>
  How far the animation is: its progress, and whether it is done. The outer \<open>None\<close> is a conversion
  of a value that is no \<open>int64_t\<close>, the inner one the early return before the animation starts. When
  the duration is zero the quotients are infinite or not a number.
\<close>

definition animation_progress :: "rat \<Rightarrow> rat \<Rightarrow> bool \<Rightarrow> bool \<Rightarrow> (rat \<times> bool \<times> bool) option option" where
  "animation_progress elapsed duration repeats autoreverses =
     (if duration = 0 then if elapsed < 0 \<and> \<not> repeats then Some None else None
      else
        (let seconds_into = (if repeats then fmod elapsed duration else elapsed);
             progress = seconds_into / duration;
             iteration = trunc (elapsed / duration)
         in if progress < 0 then Some None
            else if iteration < - 9223372036854775808 \<or> 9223372036854775808 \<le> iteration then None
            else Some (Some (if 1 < progress then 1 else progress, 1 < progress,
                   repeats \<and> autoreverses \<and> 0 \<le> iteration \<and> iteration mod 2 = 1))))"

definition allosim_animate_process ::
  "simlib \<Rightarrow> 'j cjson \<Rightarrow> string \<Rightarrow> 'j \<Rightarrow> rat \<Rightarrow> 'j \<times> 'j state_diff option \<Rightarrow>
   (bool \<times> 'j \<times> 'j state_diff option) option" where
  "allosim_animate_process L C entity_id anim server_time cd =
     (let comps = fst cd;
          field = GetObjectItemCS C anim;
          path = string_value C (field ''path'');
          easing = (case string_value C (field ''easing'') of None \<Rightarrow> ''linear'' | Some e \<Rightarrow> e)
      in case (number_value C (field ''start_at''), number_value C (field ''duration'')) of
           (Some start_at, Some duration) \<Rightarrow>
             (case animation_progress (server_time - start_at) duration (is_true C (field ''repeats''))
                     (is_true C (field ''autoreverses'')) of
                None \<Rightarrow> None
              | Some None \<Rightarrow> Some (False, cd)
              | Some (Some (progress, finished, swap)) \<Rightarrow>
                  (case propertyanimation_create C comps (if swap then field ''to'' else field ''from'')
                          (if swap then field ''from'' else field ''to'') path of
                     None \<Rightarrow> None
                   | Some prop \<Rightarrow>
                       if usage prop = UsageInvalid then Some (False, cd)
                       else
                         (case (act_on prop, comp_path prop) of
                            (Some target, Some cp) \<Rightarrow>
                              (case Option.bind (at_path C comps target)
                                      (mathvariant_replace_json C
                                        (animation_interpolate_property L prop (ease L progress easing))) of
                                 None \<Rightarrow> None
                               | Some node \<Rightarrow>
                                   (let comps' = put_path C comps target node
                                    in Some (finished, comps',
                                         allo_state_diff_mark_component_updated (snd cd) entity_id
                                           (fst (chain C comps ! hd cp)) (at_path C comps' cp))))
                          | _ \<Rightarrow> None)))
         | _ \<Rightarrow> None)"

section \<open>All animations\<close>

text \<open>
  The loop over the list of animations at \<open>ap\<close>: \<open>n\<close> is the position of \<open>anim\<close>, and \<open>todo\<close> how many
  are left. A finished animation is detached from the list.
\<close>

fun animate_list ::
  "simlib \<Rightarrow> 'j cjson \<Rightarrow> string \<Rightarrow> nat list \<Rightarrow> rat \<Rightarrow> nat \<Rightarrow> nat \<Rightarrow> 'j \<times> 'j state_diff option \<Rightarrow>
   ('j \<times> 'j state_diff option) option" where
  "animate_list L C entity_id ap server_time 0 n cd = Some cd"
| "animate_list L C entity_id ap server_time (Suc todo) n cd =
     (case at_path C (fst cd) (ap @ [n]) of
        None \<Rightarrow> None
      | Some anim \<Rightarrow>
          (case allosim_animate_process L C entity_id anim server_time cd of
             None \<Rightarrow> None
           | Some (remove, comps, diff) \<Rightarrow>
               if remove
               then (case at_path C comps ap of
                       None \<Rightarrow> None
                     | Some anims \<Rightarrow>
                         animate_list L C entity_id ap server_time todo n (put_path C comps ap (DetachChild C anims n), diff))
               else animate_list L C entity_id ap server_time todo (Suc n) (comps, diff)))"

definition animate_entity ::
  "simlib \<Rightarrow> 'j cjson \<Rightarrow> rat \<Rightarrow> 'j entity \<times> 'j state_diff option \<Rightarrow> ('j entity \<times> 'j state_diff option) option" where
  "animate_entity L C server_time ed =
     (case ed of (e, diff) \<Rightarrow>
      case components e of
        None \<Rightarrow> Some (e, diff)
      | Some comps \<Rightarrow>
          (case GetObjectItemCS C comps ''property_animations'' of
             None \<Rightarrow> Some (e, diff)
           | Some pa \<Rightarrow>
               (case GetObjectItemCS C pa ''animations'' of
                  None \<Rightarrow> None
                | Some anims \<Rightarrow>
                    (let ap = [assoc_index ((=) ''property_animations'') (chain C comps), assoc_index ((=) ''animations'') (chain C pa)]
                     in map_option (\<lambda>(comps', diff'). (e\<lparr>components := Some comps'\<rparr>, diff'))
                          (animate_list L C (eid e) ap server_time (length (chain C anims)) 0 (comps, diff))))))"

fun animate_entities ::
  "simlib \<Rightarrow> 'j cjson \<Rightarrow> rat \<Rightarrow> 'j entity list \<Rightarrow> 'j state_diff option \<Rightarrow> ('j entity list \<times> 'j state_diff option) option" where
  "animate_entities L C server_time [] diff = Some ([], diff)"
| "animate_entities L C server_time (e # es) diff =
     (case animate_entity L C server_time (e, diff) of
        None \<Rightarrow> None
      | Some (e', diff') \<Rightarrow>
          map_option (\<lambda>(es', d). (e' # es', d)) (animate_entities L C server_time es diff'))"

definition allosim_animate ::
  "simlib \<Rightarrow> 'j cjson \<Rightarrow> rat \<Rightarrow> 'j allo_state \<times> 'j state_diff option \<Rightarrow> ('j allo_state \<times> 'j state_diff option) option" where
  "allosim_animate L C server_time sd =
     map_option (\<lambda>(es, d). ((fst sd)\<lparr>entities := es\<rparr>, d)) (animate_entities L C server_time (entities (fst sd)) (snd sd))"

end
