(* ===== verification/Animation_Correct.thy ===== *)
theory Animation_Correct
  imports Animation
begin

text \<open>
  What the animations do: the number a path of keys leads to is interpolated, an animation is removed
  when it has run and could be applied, and how matrices and rotations go wrong.
\<close>

section \<open>Paths of keys\<close>

text \<open>Keys that the path parser takes as keys, and the node and the path that a list of them leads to.\<close>

definition plain_key :: "string \<Rightarrow> bool" where
  "plain_key k \<longleftrightarrow> length k < 255 \<and> CHR ''.'' \<notin> set k \<and> scan_d k = None \<and>
     k \<notin> {''rotation'', ''translation'', ''scale''}"

fun follow_keys :: "'j cjson \<Rightarrow> 'j \<Rightarrow> string list \<Rightarrow> (nat list \<times> 'j) option" where
  "follow_keys C j [] = Some ([], j)"
| "follow_keys C j (k # ks) =
     (case GetObjectItemCS C j k of
        None \<Rightarrow> None
      | Some v \<Rightarrow> map_option (\<lambda>(p, w). (assoc_index ((=) k) (chain C j) # p, w)) (follow_keys C v ks))"

fun join_keys :: "string list \<Rightarrow> string" where
  "join_keys [] = []"
| "join_keys [k] = k"
| "join_keys (k # ks) = k @ CHR ''.'' # join_keys ks"

lemma segment_of_path:
  assumes "CHR ''.'' \<notin> set k" and "length k < 255"
  shows "takeWhile (\<lambda>c. c \<noteq> CHR ''.'') (take 255 k) = k"
    and "takeWhile (\<lambda>c. c \<noteq> CHR ''.'') (take 255 (k @ CHR ''.'' # xs)) = k"
proof -
  have k: "takeWhile (\<lambda>c. c \<noteq> CHR ''.'') k = k" using assms(1) by (auto simp: takeWhile_eq_all_conv)
  then show "takeWhile (\<lambda>c. c \<noteq> CHR ''.'') (take 255 k) = k" using assms(2) by simp
  obtain n where n: "255 - length k = Suc n" using assms(2) by (metis Suc_diff_Suc)
  have "\<And>c. c \<in> set k \<Longrightarrow> c \<noteq> CHR ''.''" using assms(1) by auto
  then show "takeWhile (\<lambda>c. c \<noteq> CHR ''.'') (take 255 (k @ CHR ''.'' # xs)) = k"
    using assms(2) n by (simp add: takeWhile_append2)
qed

lemma derive_last:
  assumes "plain_key k"
  shows "animation_derive_property C comps prop k =
    (case follow_key C comps k prop of
       None \<Rightarrow> None
     | Some prop1 \<Rightarrow>
         if act_on prop1 = None then Some (prop1\<lparr>usage := UsageInvalid\<rparr>)
         else Some (finish_property (read_current C comps prop1)))"
proof -
  have k: "CHR ''.'' \<notin> set k" "length k < 255" using assms by (simp_all add: plain_key_def)
  show ?thesis
    unfolding animation_derive_property.simps [of C comps "prop" k] Let_def segment_of_path(1)[OF k]
    using k by (simp split: option.split)
qed

lemma derive_more:
  assumes "plain_key k"
  shows "animation_derive_property C comps prop (k @ CHR ''.'' # path) =
    (case follow_key C comps k prop of
       None \<Rightarrow> None
     | Some prop1 \<Rightarrow>
         if act_on prop1 = None then Some (prop1\<lparr>usage := UsageInvalid\<rparr>)
         else animation_derive_property C comps (read_current C comps prop1) path)"
proof -
  have k: "CHR ''.'' \<notin> set k" "length k < 255" using assms by (simp_all add: plain_key_def)
  show ?thesis
    unfolding animation_derive_property.simps [of C comps "prop" "k @ CHR ''.'' # path"] Let_def segment_of_path(2)[OF k]
    using k by (simp split: option.split)
qed

context cjson_lib begin

lemma at_path_append: "at_path C j p = Some v \<Longrightarrow> at_path C j (p @ q) = at_path C v q"
  by (induction p arbitrary: j) (auto split: if_splits)

lemma items_assoc_index:
  assumes "assoc q (chain C j) = Some v"
  shows "items C j ! assoc_index q (chain C j) = v"
proof -
  have "assoc q kvs = Some v \<Longrightarrow> map snd kvs ! assoc_index q kvs = v" for kvs
    by (induction q kvs rule: assoc.induct) (auto split: if_splits)
  then show ?thesis using assms by (simp add: items_def)
qed

lemma at_path_key:
  "GetObjectItemCS C j k = Some v \<Longrightarrow> at_path C j (assoc_index ((=) k) (chain C j) # q) = at_path C v q"
  by (simp add: object_cs_law items_assoc_index)

lemma follow_plain_key:
  assumes "plain_key k" and "\<not> mat_usage (usage prop)"
    and "act_on prop = Some p" and "at_path C comps p = Some node" and "GetObjectItemCS C node k = Some v"
  shows "follow_key C comps k prop = Some (prop\<lparr>act_on := Some (p @ [assoc_index ((=) k) (chain C node)])\<rparr>)"
  using assms by (auto simp: follow_key_def plain_key_def)

lemma at_path_put_path:
  "at_path C j p = Some v \<Longrightarrow> at_path C (put_path C j p w) p = Some w"
proof (induction p arbitrary: j)
  case (Cons n p)
  then have n: "n < length (chain C j)" and v: "at_path C (items C j ! n) p = Some v" by (auto split: if_splits)
  then have "length (chain C (put C j n u)) = length (chain C j)" "items C (put C j n u) ! n = u" for u
    by (simp_all add: put_law items_def)
  then show ?case using n Cons.IH [OF v] by simp
qed simp

end

text \<open>What a path of plain keys makes of a fresh property.\<close>

definition standard_property ::
  "property_animation \<Rightarrow> nat list \<Rightarrow> nat list \<Rightarrow> MathVariant \<Rightarrow> property_animation" where
  "standard_property prop p q cur =
     prop\<lparr>act_on := Some (p @ q), current := cur, usage := UsageStandard,
       comp_path := (if comp_path prop = None then Some (p @ [hd q]) else comp_path prop)\<rparr>"

lemma read_current_simps [simp]:
  "act_on (read_current C comps prop) = act_on prop" "from_value (read_current C comps prop) = from_value prop"
  "to_value (read_current C comps prop) = to_value prop"
  "component_index (read_current C comps prop) = component_index prop"
  "current (read_current C comps prop) = mathvariant_from_json C (Option.bind (act_on prop) (at_path C comps))"
  "comp_path (read_current C comps prop) = (if comp_path prop = None then act_on prop else comp_path prop)"
  by (simp_all add: read_current_def Let_def)

lemma usage_read_current:
  "\<not> mat_usage (usage prop) \<Longrightarrow> \<not> mat_usage (usage (read_current C comps prop))"
  "mtype (current (read_current C comps prop)) \<noteq> TypeInvalid \<Longrightarrow> \<not> mat_usage (usage prop) \<Longrightarrow>
     usage (read_current C comps prop) = UsageStandard"
  by (cases "usage prop"; auto simp: read_current_def Let_def mat_usage_def)+

lemma finish_standard:
  assumes "usage prop = UsageStandard" and "mtype (from_value prop) = mtype (current prop)"
    and "mtype (to_value prop) = mtype (current prop)" and "mtype (current prop) \<noteq> TypeInvalid"
  shows "finish_property prop = prop"
  using assms by (simp add: finish_property_def variants_are_compatible_def)

context cjson_lib begin

lemma derive_keys:
  assumes "ks \<noteq> []" and "list_all plain_key ks" and "follow_keys C node ks = Some (q, target)"
    and "act_on prop = Some p" and "at_path C comps p = Some node" and "\<not> mat_usage (usage prop)"
    and "mtype (mathvariant_from_json C (Some target)) = t" and "t \<noteq> TypeInvalid"
    and "mtype (from_value prop) = t" and "mtype (to_value prop) = t"
  shows "animation_derive_property C comps prop (join_keys ks) =
    Some (standard_property prop p q (mathvariant_from_json C (Some target)))"
  using assms
proof (induction ks arbitrary: "prop" node p q rule: join_keys.induct)
  case (2 k)
  let ?i = "assoc_index ((=) k) (chain C node)" and ?cur = "mathvariant_from_json C (Some target)"
  let ?p1 = "prop\<lparr>act_on := Some (p @ [?i])\<rparr>"
  from 2 have v: "GetObjectItemCS C node k = Some target" and q: "q = [?i]" by (auto split: option.splits)
  have f: "follow_key C comps k prop = Some ?p1" using 2 v by (intro follow_plain_key) auto
  have at: "at_path C comps (p @ [?i]) = Some target" using 2 at_path_append at_path_key [OF v, of "[]"] by simp
  let ?r = "read_current C comps ?p1"
  have cur: "current ?r = ?cur" by (simp add: at)
  have "usage ?r = UsageStandard" using 2 cur by (intro usage_read_current) simp_all
  then have "finish_property ?r = ?r" using 2 cur by (intro finish_standard) simp_all
  moreover have "?r = standard_property prop p q ?cur"
    using \<open>usage ?r = UsageStandard\<close> cur q by (intro property_animation.equality) (simp_all add: standard_property_def)
  ultimately show ?case using 2 f by (simp add: derive_last)
next
  case (3 k k' ks)
  let ?i = "assoc_index ((=) k) (chain C node)" and ?cur = "mathvariant_from_json C (Some target)"
  let ?p1 = "prop\<lparr>act_on := Some (p @ [?i])\<rparr>"
  let ?r = "read_current C comps ?p1"
  from 3 obtain v q' where v: "GetObjectItemCS C node k = Some v" and q: "q = ?i # q'"
    and fk: "follow_keys C v (k' # ks) = Some (q', target)" by (auto split: option.splits)
  have f: "follow_key C comps k prop = Some ?p1" using 3 v by (intro follow_plain_key) auto
  have at: "at_path C comps (p @ [?i]) = Some v" using 3 at_path_append at_path_key [OF v, of "[]"] by simp
  have "animation_derive_property C comps ?r (join_keys (k' # ks)) = Some (standard_property ?r (p @ [?i]) q' ?cur)"
    using 3 fk at usage_read_current(1) [of ?p1] by (intro 3(1)) simp_all
  moreover have "standard_property ?r (p @ [?i]) q' ?cur = standard_property prop p q ?cur"
    using q by (intro property_animation.equality) (simp_all add: standard_property_def read_current_def Let_def)
  ultimately show ?case using 3 f by (simp add: derive_more)
qed simp

end

lemma assoc_index_put [simp]: "assoc_index p (assoc_put p w kvs) = assoc_index p kvs"
  by (induction p w kvs rule: assoc_put.induct) auto

context cjson_lib begin

lemma put_key:
  assumes "GetObjectItemCS C j k = Some v"
  shows "chain C (put C j (assoc_index ((=) k) (chain C j)) w) = assoc_put ((=) k) w (chain C j)"
  using assms by (simp add: object_cs_law put_law assoc_put_list_update)

lemma follow_keys_at_path: "follow_keys C j ks = Some (q, v) \<Longrightarrow> at_path C j q = Some v"
  by (induction ks arbitrary: j q)
    (auto split: option.splits simp: at_path_key simp del: at_path.simps(2))

lemma follow_keys_put:
  assumes "follow_keys C j ks = Some (q, v)"
  shows "follow_keys C (put_path C j q w) ks = Some (q, w)"
  using assms
proof (induction ks arbitrary: j q)
  case (Cons k ks)
  then obtain u q' where u: "GetObjectItemCS C j k = Some u" and q: "q = assoc_index ((=) k) (chain C j) # q'"
    and f: "follow_keys C u ks = Some (q', v)" by (auto split: option.splits)
  let ?i = "assoc_index ((=) k) (chain C j)" and ?u = "put_path C u q' w"
  have i: "?i < length (chain C j)" using u by (simp add: object_cs_law)
  have j: "put_path C j q w = put C j ?i ?u" using u q i by (simp add: object_cs_law items_assoc_index)
  have ch: "chain C (put_path C j q w) = assoc_put ((=) k) ?u (chain C j)" using j put_key [OF u] by simp
  then have "GetObjectItemCS C (put_path C j q w) k = Some ?u" using u by (simp add: object_cs_law)
  then show ?case using Cons.IH [OF f] ch q by simp
qed simp

lemma put_path_other_key:
  assumes "follow_keys C j (k # ks) = Some (q, v)" and "l \<noteq> k"
  shows "GetObjectItemCS C (put_path C j q w) l = GetObjectItemCS C j l"
proof -
  from assms obtain u q' where u: "GetObjectItemCS C j k = Some u" and q: "q = assoc_index ((=) k) (chain C j) # q'"
    by (auto split: option.splits)
  then have "put_path C j q w = put C j (assoc_index ((=) k) (chain C j)) (put_path C u q' w)"
    by (simp add: object_cs_law items_assoc_index)
  then have "chain C (put_path C j q w) = assoc_put ((=) k) (put_path C u q' w) (chain C j)" using put_key [OF u] by simp
  then show ?thesis using assms(2) by (simp add: object_cs_law assoc_put_other)
qed

lemma variant_of_number: "number_value C v = Some r \<Longrightarrow>
  mathvariant_from_json C v = \<lparr>mtype = TypeDouble, cells = stored_cells [Some r]\<rparr>"
  by (auto simp: number_value_def mathvariant_from_json_def split: option.splits if_splits)

lemma create_property:
  assumes "ks \<noteq> []" and "list_all plain_key ks" and "follow_keys C comps ks = Some (q, target)"
    and "mtype (mathvariant_from_json C from) = mt" and "mtype (mathvariant_from_json C to) = mt"
    and "mtype (mathvariant_from_json C (Some target)) = mt" and "mt \<noteq> TypeInvalid"
  shows "\<exists>prop. propertyanimation_create C comps from to (Some (join_keys ks)) = Some prop \<and>
    act_on prop = Some q \<and> comp_path prop = Some [hd q] \<and> usage prop = UsageStandard \<and>
    from_value prop = mathvariant_from_json C from \<and> to_value prop = mathvariant_from_json C to"
  using assms derive_keys [OF assms(1-3), where p = "[]"]
  by (simp add: propertyanimation_create_def mat_usage_def standard_property_def)

lemma create_number_property:
  assumes "ks \<noteq> []" and "list_all plain_key ks" and "follow_keys C comps ks = Some (q, target)"
    and "number_value C from = Some f" and "number_value C to = Some t" and "IsNumber C target"
  shows "\<exists>prop. propertyanimation_create C comps from to (Some (join_keys ks)) = Some prop \<and>
    act_on prop = Some q \<and> comp_path prop = Some [hd q] \<and> usage prop = UsageStandard \<and>
    from_value prop = \<lparr>mtype = TypeDouble, cells = stored_cells [Some f]\<rparr> \<and>
    to_value prop = \<lparr>mtype = TypeDouble, cells = stored_cells [Some t]\<rparr>"
proof -
  have "number_value C (Some target) = Some (valuedouble C target)" using assms by (simp add: number_value_def)
  then show ?thesis using create_property [OF assms(1-3), of "from" TypeDouble "to"] assms by (simp add: variant_of_number)
qed

end

text \<open>How far an animation is that does not repeat.\<close>

lemma progress_once:
  assumes "0 < d" and "0 \<le> x" and "x / d < 9223372036854775808"
  shows "animation_progress x d False autoreverses = Some (Some (min 1 (x / d), d < x, False))"
proof -
  have "0 \<le> x / d" using assms by simp
  moreover have "trunc (x / d) < 9223372036854775808" using assms \<open>0 \<le> x / d\<close> by (simp add: trunc_def floor_less_iff)
  moreover have "0 \<le> trunc (x / d)" using \<open>0 \<le> x / d\<close> by (simp add: trunc_def)
  moreover have "1 < x / d \<longleftrightarrow> d < x" using assms(1) by (simp add: less_divide_eq)
  ultimately show ?thesis using assms(1) by (simp add: animation_progress_def Let_def min_def)
qed

definition easing_of :: "'j cjson \<Rightarrow> 'j \<Rightarrow> string" where
  "easing_of C anim = (case string_value C (GetObjectItemCS C anim ''easing'') of None \<Rightarrow> ''linear'' | Some e \<Rightarrow> e)"

text \<open>The animation of one property, once its progress and its value are known.\<close>

lemma process_standard:
  assumes "animation_progress (now - s) d (is_true C (GetObjectItemCS C anim ''repeats''))
      (is_true C (GetObjectItemCS C anim ''autoreverses'')) = Some (Some (p, finished, False))"
    and "number_value C (GetObjectItemCS C anim ''start_at'') = Some s"
    and "number_value C (GetObjectItemCS C anim ''duration'') = Some d"
    and "propertyanimation_create C comps (GetObjectItemCS C anim ''from'') (GetObjectItemCS C anim ''to'')
      (string_value C (GetObjectItemCS C anim ''path'')) = Some pa"
    and "usage pa = UsageStandard" and "act_on pa = Some q" and "comp_path pa = Some [hd q]"
    and "at_path C comps q = Some target"
    and "mathvariant_replace_json C (interpolated L (from_value pa) (to_value pa) (ease L p (easing_of C anim))) target = Some w"
  shows "\<exists>diff'. allosim_animate_process L C i anim now (comps, diff) = Some (finished, put_path C comps q w, diff')"
  using assms
  by (simp add: allosim_animate_process_def animation_interpolate_property_def Let_def easing_of_def del: at_path.simps(2))

text \<open>
  C15. The animation of a number: while it runs, the number that the path of keys leads to is the one
  between the two ends that the eased progress picks; the animation is finished after its duration,
  having left the number at the end; nothing else in the component list changes.
\<close>

theorem number_is_animated:
  assumes "cjson_lib C" and "list_all plain_key (k # ks)"
    and "string_value C (GetObjectItemCS C anim ''path'') = Some (join_keys (k # ks))"
    and "number_value C (GetObjectItemCS C anim ''from'') = Some f" and "number_value C (GetObjectItemCS C anim ''to'') = Some t"
    and "number_value C (GetObjectItemCS C anim ''start_at'') = Some s"
    and "number_value C (GetObjectItemCS C anim ''duration'') = Some d"
    and "\<not> is_true C (GetObjectItemCS C anim ''repeats'')"
    and "0 < d" and "s \<le> now" and "(now - s) / d < 9223372036854775808"
    and "follow_keys C comps (k # ks) = Some (q, target)" and "IsNumber C target"
  shows "\<exists>comps' diff' v. allosim_animate_process L C i anim now (comps, diff) = Some (d < now - s, comps', diff') \<and>
    follow_keys C comps' (k # ks) = Some (q, v) \<and> IsNumber C v \<and>
    valuedouble C v = f + ease L (min 1 ((now - s) / d)) (easing_of C anim) * (t - f) \<and>
    (l \<noteq> k \<longrightarrow> GetObjectItemCS C comps' l = GetObjectItemCS C comps l)"
proof -
  note lib = assms(1)
  let ?r = "f + ease L (min 1 ((now - s) / d)) (easing_of C anim) * (t - f)"
  let ?from = "GetObjectItemCS C anim ''from''" and ?to = "GetObjectItemCS C anim ''to''"
  let ?w = "with_valuedouble C target ?r"
  obtain p where p: "propertyanimation_create C comps ?from ?to (Some (join_keys (k # ks))) = Some p"
      "act_on p = Some q" "comp_path p = Some [hd q]" "usage p = UsageStandard"
      "from_value p = \<lparr>mtype = TypeDouble, cells = stored_cells [Some f]\<rparr>" "to_value p = \<lparr>mtype = TypeDouble, cells = stored_cells [Some t]\<rparr>"
    using cjson_lib.create_number_property [OF lib _ assms(2) assms(12) assms(4,5) assms(13)] by auto
  have val: "mathvariant_replace_json C (interpolated L (from_value p) (to_value p)
      (ease L (min 1 ((now - s) / d)) (easing_of C anim))) target = Some ?w"
    by (simp add: p interpolated_def as_double_def stored_cells_def lift2_def mathvariant_replace_json_def)
  have "animation_progress (now - s) d False (is_true C (GetObjectItemCS C anim ''autoreverses'')) =
      Some (Some (min 1 ((now - s) / d), d < now - s, False))" using assms by (intro progress_once) simp_all
  then have "\<exists>diff'. allosim_animate_process L C i anim now (comps, diff) = Some (d < now - s, put_path C comps q ?w, diff')"
    by (intro process_standard [where p = "min 1 ((now - s) / d)" and pa = p])
      (use assms p val cjson_lib.follow_keys_at_path [OF lib assms(12)] in simp_all)
  moreover have "follow_keys C (put_path C comps q ?w) (k # ks) = Some (q, ?w)"
    by (rule cjson_lib.follow_keys_put [OF lib assms(12)])
  moreover have "IsNumber C ?w" "valuedouble C ?w = ?r" using cjson_lib.assign_law [OF lib] assms(13) by simp_all
  moreover have "l \<noteq> k \<Longrightarrow> GetObjectItemCS C (put_path C comps q ?w) l = GetObjectItemCS C comps l"
    by (rule cjson_lib.put_path_other_key [OF lib assms(12)])
  ultimately show ?thesis by blast
qed

theorem number_is_animated_witness:
  "\<exists>comps' diff' v. allosim_animate_process approx_lib json_ops ''e''
     (jobj [(''path'', jstr ''light.power''), (''from'', jnum 2), (''to'', jnum 4), (''start_at'', jnum 10), (''duration'', jnum 8)])
     14 (jobj [(''light'', jobj [(''power'', jnum 2)])], None) = Some (False, comps', diff') \<and>
   follow_keys json_ops comps' [''light'', ''power''] = Some ([0, 0], v) \<and> IsNumber json_ops v \<and> valuedouble json_ops v = 3"
proof -
  let ?anim = "jobj [(''path'', jstr ''light.power''), (''from'', jnum 2), (''to'', jnum 4), (''start_at'', jnum 10), (''duration'', jnum 8)]"
  have e: "easing_of json_ops ?anim = ''linear''" by (simp add: easing_of_def json_eval)
  have r: "\<not> is_true json_ops (GetObjectItemCS json_ops ?anim ''repeats'')" by (simp add: is_true_def json_eval)
  show ?thesis
    using number_is_animated [OF json.cjson_lib_axioms, of "''light''" "[''power'']" ?anim 2 4 10 8 14
        "jobj [(''light'', jobj [(''power'', jnum 2)])]" "[0, 0]" "jnum 2" approx_lib "''e''" None "''other''"] r
    by (simp add: plain_key_def scan_d_def is_space_def is_digit_def json_eval string_value_def number_value_def
        ease_def e) (elim exE conjE, intro exI conjI, assumption+)
qed

section \<open>When an animation ends\<close>

definition can_apply :: "'j cjson \<Rightarrow> 'j \<Rightarrow> 'j \<Rightarrow> bool" where
  "can_apply C comps anim =
     (case propertyanimation_create C comps (GetObjectItemCS C anim ''from'') (GetObjectItemCS C anim ''to'')
             (string_value C (GetObjectItemCS C anim ''path'')) of
        None \<Rightarrow> False
      | Some prop \<Rightarrow> usage prop \<noteq> UsageInvalid)"

lemma repeating_progress:
  assumes "animation_progress x d True autoreverses = Some (Some (p, finished, swap))" and "0 < d"
  shows "\<not> finished"
proof -
  have "fmod x d / d = x / d - of_int (trunc (x / d))" using assms(2) by (simp add: fmod_def diff_divide_distrib)
  also have "\<dots> \<le> 1"
  proof (cases "0 \<le> x / d")
    case True
    then show ?thesis using floor_correct [of "x / d"] by (simp add: trunc_def)
  next
    case False
    then have "trunc (x / d) = - \<lfloor>- (x / d)\<rfloor>" by (simp only: trunc_def if_False)
    moreover have "of_int \<lfloor>- (x / d)\<rfloor> \<le> - (x / d)" by (rule of_int_floor_le)
    ultimately show ?thesis by linarith
  qed
  finally show ?thesis using assms by (auto simp: animation_progress_def Let_def split: if_splits)
qed

lemma single_progress:
  assumes "0 < d"
  shows "animation_progress x d False autoreverses = Some None \<Longrightarrow> x < 0"
    and "animation_progress x d False autoreverses = Some (Some (p, finished, swap)) \<Longrightarrow> finished = (d < x) \<and> \<not> swap"
  using assms by (auto simp: animation_progress_def Let_def less_divide_eq divide_less_0_iff split: if_splits)

text \<open>
  C29. An animation is removed exactly when it does not repeat, its duration is over and its property can
  be animated: one whose property is missing or of another type stays in the list forever, and
  changes nothing.
\<close>

theorem animation_removed_iff:
  assumes "allosim_animate_process L C i anim now cd = Some (remove, cd')"
    and "number_value C (GetObjectItemCS C anim ''start_at'') = Some s"
    and "number_value C (GetObjectItemCS C anim ''duration'') = Some d" and "0 < d"
  shows "remove = (\<not> is_true C (GetObjectItemCS C anim ''repeats'') \<and> d < now - s \<and> can_apply C (fst cd) anim)"
proof (cases "is_true C (GetObjectItemCS C anim ''repeats'')")
  case True
  then show ?thesis using assms repeating_progress [OF _ assms(4), of "now - s"]
    by (auto simp: allosim_animate_process_def Let_def split: option.splits prod.splits if_splits)
next
  case False
  then show ?thesis using assms
    by (auto dest!: single_progress [OF assms(4)] simp: allosim_animate_process_def Let_def can_apply_def split: option.splits prod.splits if_splits)
qed

theorem animation_removed_iff_witness:
  "\<exists>cd'. allosim_animate_process approx_lib json_ops ''e''
     (jobj [(''path'', jstr ''light.power''), (''from'', jnum 2), (''to'', jnum 4), (''start_at'', jnum 10), (''duration'', jnum 8)])
     20 (jobj [(''light'', jobj [])], None) = Some (False, cd') \<and>
   \<not> can_apply json_ops (jobj [(''light'', jobj [])])
     (jobj [(''path'', jstr ''light.power''), (''from'', jnum 2), (''to'', jnum 4), (''start_at'', jnum 10), (''duration'', jnum 8)])"
proof -
  let ?anim = "jobj [(''path'', jstr ''light.power''), (''from'', jnum 2), (''to'', jnum 4), (''start_at'', jnum 10), (''duration'', jnum 8)]"
  let ?comps = "jobj [(''light'', jobj [])]"
  have "allosim_animate_process approx_lib json_ops ''e'' ?anim 20 (?comps, None) = Some (False, ?comps, None)"
    by code_simp
  then show ?thesis
    using animation_removed_iff [of approx_lib json_ops "''e''" ?anim 20 "(?comps, None)" False "(?comps, None)" 10 8]
    by (simp add: json_eval number_value_def is_true_def)
qed

section \<open>Matrices and rotations\<close>

context cjson_lib begin

lemma set_children_values:
  assumes "n + length rs \<le> length (chain C j)"
  shows "\<exists>j'. set_children C n (map Some rs) j = Some j' \<and> length (chain C j') = length (chain C j) \<and>
    map (valuedouble C) (items C j') =
      take n (map (valuedouble C) (items C j)) @ rs @ drop (n + length rs) (map (valuedouble C) (items C j))"
  using assms
proof (induction rs arbitrary: n j)
  case (Cons r rs)
  let ?j = "put C j n (with_valuedouble C (items C j ! n) r)" and ?vs = "map (valuedouble C) (items C j)"
  have n: "n < length (chain C j)" using Cons.prems by simp
  then have ch: "chain C ?j = (chain C j)[n := (fst (chain C j ! n), with_valuedouble C (items C j ! n) r)]" by (rule put_law)
  then have vs: "map (valuedouble C) (items C ?j) = ?vs[n := r]" by (simp add: items_def map_update assign_law)
  have "Suc n + length rs \<le> length (chain C ?j)" using Cons.prems ch by simp
  from Cons.IH [OF this] obtain j' where j': "set_children C (Suc n) (map Some rs) ?j = Some j'"
    "length (chain C j') = length (chain C ?j)"
    "map (valuedouble C) (items C j') = take (Suc n) (?vs[n := r]) @ rs @ drop (Suc n + length rs) (?vs[n := r])"
    using vs by auto
  have "take (Suc n) (?vs[n := r]) = take n ?vs @ [r]" using n by (simp add: take_Suc_conv_app_nth)
  then show ?case using n j' ch by simp
qed simp

lemma rotation_stored:
  assumes "length (chain C j) = 4"
  shows "\<exists>j'. mathvariant_replace_json C \<lparr>mtype = TypeRotation, cells = rotation_cells (Some r)\<rparr> j = Some j' \<and>
    map (valuedouble C) (items C j') = [angle r, angle r, vx (axis r), vy (axis r)]"
proof -
  let ?vs = "map (valuedouble C) (items C j)" and ?xs = "[angle r, vx (axis r), vy (axis r)]"
  have "0 + length [angle r] \<le> length (chain C j)" using assms by simp
  from set_children_values [OF this] obtain j1 where j1: "set_children C 0 (map Some [angle r]) j = Some j1"
    "length (chain C j1) = length (chain C j)"
    "map (valuedouble C) (items C j1) = take 0 ?vs @ [angle r] @ drop (0 + length [angle r]) ?vs" by (elim exE conjE)
  have vs: "length ?vs = 4" using assms by simp
  have "1 + length ?xs \<le> length (chain C j1)" using assms j1(2) by simp
  from set_children_values [OF this] obtain j2 where j2: "set_children C 1 (map Some ?xs) j1 = Some j2"
    "map (valuedouble C) (items C j2) = take 1 (map (valuedouble C) (items C j1)) @ ?xs @
       drop (1 + length ?xs) (map (valuedouble C) (items C j1))" by (elim exE conjE)
  have cells: "take 1 (rotation_cells (Some r)) = map Some [angle r]"
    "take 3 (rotation_cells (Some r)) = map Some [angle r, vx (axis r), vy (axis r)]"
    by (simp_all add: rotation_cells_def stored_cells_def)
  have "chain C j \<noteq> []" using assms by auto
  then have "mathvariant_replace_json C \<lparr>mtype = TypeRotation, cells = rotation_cells (Some r)\<rparr> j =
      Option.bind (set_children C 0 (take 1 (rotation_cells (Some r))) j) (set_children C 1 (take 3 (rotation_cells (Some r))))"
    by (cases "chain C j") (simp_all add: mathvariant_replace_json_def)
  also have "\<dots> = Some j2" by (simp only: cells j1(1) j2(1) Option.bind.bind_lunit)
  finally have "mathvariant_replace_json C \<lparr>mtype = TypeRotation, cells = rotation_cells (Some r)\<rparr> j = Some j2" .
  moreover have "map (valuedouble C) (items C j2) = [angle r, angle r, vx (axis r), vy (axis r)]"
    unfolding j2(2) j1(3) using vs by simp
  ultimately show ?thesis by (intro exI conjI)
qed

end

text \<open>
  A rotation goes back into its four numbers one place too far: the angle stands where the first
  coordinate of the axis belongs, the axis is shifted by one and its last coordinate is lost.
\<close>

theorem rotation_stored_shifted:
  assumes "cjson_lib C" and "length (chain C j) = 4"
  shows "\<exists>j'. mathvariant_replace_json C \<lparr>mtype = TypeRotation, cells = rotation_cells (Some r)\<rparr> j = Some j' \<and>
    map (valuedouble C) (items C j') = [angle r, angle r, vx (axis r), vy (axis r)]"
  by (rule cjson_lib.rotation_stored [OF assms])

theorem rotation_stored_shifted_witness:
  "\<exists>j'. mathvariant_replace_json json_ops
       \<lparr>mtype = TypeRotation, cells = rotation_cells (Some \<lparr>angle = 3, axis = vec 0 1 0\<rparr>)\<rparr>
       (jarr [jnum 9, jnum 1, jnum 0, jnum 0]) = Some j' \<and>
     map (valuedouble json_ops) (items json_ops j') = [3, 3, 0, 1]"
  using rotation_stored_shifted [OF json.cjson_lib_axioms, of "jarr [jnum 9, jnum 1, jnum 0, jnum 0]" "\<lparr>angle = 3, axis = vec 0 1 0\<rparr>"]
  by (simp add: json_eval)

lemma those_map_Some: "those (map Some xs) = Some xs"
  by (induction xs) auto

context cjson_lib begin

lemma matrix_stored:
  assumes "length (chain C j) = 16"
  shows "\<exists>j'. mathvariant_replace_json C \<lparr>mtype = TypeMat4, cells = matrix_cells (Some m)\<rparr> j = Some j' \<and>
    cjson2m C (Some j') = m"
proof -
  let ?vs = "map (valuedouble C) (items C j)"
  have "0 + length (v_of m) \<le> length (chain C j)" using assms by simp
  from set_children_values [OF this] obtain j' where j': "set_children C 0 (map Some (v_of m)) j = Some j'"
    "length (chain C j') = length (chain C j)"
    "map (valuedouble C) (items C j') = take 0 ?vs @ v_of m @ drop (0 + length (v_of m)) ?vs" by (elim exE conjE)
  have "mathvariant_replace_json C \<lparr>mtype = TypeMat4, cells = matrix_cells (Some m)\<rparr> j = Some j'"
    using j'(1) by (simp add: mathvariant_replace_json_def matrix_cells_def)
  moreover have "cjson2m C (Some j') = m"
    using j'(2,3) assms by (simp add: cjson2m_def size_law del: m_of_list.simps)
  ultimately show ?thesis by (intro exI conjI)
qed

lemma variant_of_matrix:
  assumes "length (chain C j) = 16" and "\<not> IsNumber C j"
  shows "mathvariant_from_json C (Some j) = \<lparr>mtype = TypeMat4, cells = matrix_cells (Some (cjson2m C (Some j)))\<rparr>"
  using assms by (simp add: mathvariant_from_json_def size_law)

end

text \<open>
  The animation of a matrix runs backwards: when it is over, and gone from the list, the matrix is
  the one it should have started from.
\<close>

theorem matrix_animation_ends_at_start:
  assumes "cjson_lib C" and "list_all plain_key (k # ks)"
    and "string_value C (GetObjectItemCS C anim ''path'') = Some (join_keys (k # ks))"
    and "GetObjectItemCS C anim ''from'' = Some f" and "\<not> IsNumber C f" and "length (chain C f) = 16"
    and "GetObjectItemCS C anim ''to'' = Some t" and "\<not> IsNumber C t" and "length (chain C t) = 16"
    and "number_value C (GetObjectItemCS C anim ''start_at'') = Some s"
    and "number_value C (GetObjectItemCS C anim ''duration'') = Some d"
    and "\<not> is_true C (GetObjectItemCS C anim ''repeats'')" and "ease L 1 (easing_of C anim) = 1"
    and "0 < d" and "d < now - s" and "(now - s) / d < 9223372036854775808"
    and "follow_keys C comps (k # ks) = Some (q, target)" and "\<not> IsNumber C target" and "length (chain C target) = 16"
  shows "\<exists>comps' diff' v. allosim_animate_process L C i anim now (comps, diff) = Some (True, comps', diff') \<and>
    follow_keys C comps' (k # ks) = Some (q, v) \<and> cjson2m C (Some v) = cjson2m C (Some f)"
proof -
  note lib = assms(1)
  note variant = cjson_lib.variant_of_matrix [OF lib]
  let ?f = "cjson2m C (Some f)" and ?t = "cjson2m C (Some t)"
  obtain p where p: "propertyanimation_create C comps (Some f) (Some t) (Some (join_keys (k # ks))) = Some p"
      "act_on p = Some q" "comp_path p = Some [hd q]" "usage p = UsageStandard"
      "from_value p = \<lparr>mtype = TypeMat4, cells = matrix_cells (Some ?f)\<rparr>" "to_value p = \<lparr>mtype = TypeMat4, cells = matrix_cells (Some ?t)\<rparr>"
    using cjson_lib.create_property [OF lib _ assms(2,17), of "Some f" TypeMat4 "Some t"]
    by (auto simp: variant assms)
  have "interpolated L (from_value p) (to_value p) 1 = \<lparr>mtype = TypeMat4, cells = matrix_cells (Some ?f)\<rparr>"
    using matrix_interpolation_reversed [of ?f ?t]
    by (simp add: p interpolated_def as_matrix_def lift2_def matrix_cells_def those_map_Some del: m_of_list.simps)
  then obtain w where w: "mathvariant_replace_json C (interpolated L (from_value p) (to_value p) 1) target = Some w"
      "cjson2m C (Some w) = ?f"
    using cjson_lib.matrix_stored [OF lib assms(19), of ?f] by auto
  have "1 < (now - s) / d" using assms(14,15) by (simp add: less_divide_eq)
  then have prog: "animation_progress (now - s) d False (is_true C (GetObjectItemCS C anim ''autoreverses'')) =
      Some (Some (1, True, False))" using progress_once [OF assms(14) _ assms(16)] assms(14,15) by simp
  have "\<exists>diff'. allosim_animate_process L C i anim now (comps, diff) = Some (True, put_path C comps q w, diff')"
    by (rule process_standard [where p = 1 and pa = p])
      (use assms p w prog cjson_lib.follow_keys_at_path [OF lib assms(17)] in simp_all)
  then show ?thesis using cjson_lib.follow_keys_put [OF lib assms(17)] w(2) by blast
qed

definition sample_matrix :: "rat \<Rightarrow> json" where
  "sample_matrix x = m2cjson json_ops (allo_m4x4_translate (vec x 0 0))"

lemma sample_matrix:
  "\<not> IsNumber json_ops (sample_matrix x)" "length (chain json_ops (sample_matrix x)) = 16"
  "cjson2m json_ops (Some (sample_matrix x)) = allo_m4x4_translate (vec x 0 0)"
proof -
  have "items json_ops (sample_matrix x) = map (CreateNumber json_ops) (v_of (allo_m4x4_translate (vec x 0 0)))"
    unfolding sample_matrix_def by (rule json.items_m2cjson)
  then have "length (items json_ops (sample_matrix x)) = 16" by simp
  then show "length (chain json_ops (sample_matrix x)) = 16" by simp
  show "cjson2m json_ops (Some (sample_matrix x)) = allo_m4x4_translate (vec x 0 0)"
    unfolding sample_matrix_def by (rule json.cjson2m_m2cjson)
  show "\<not> IsNumber json_ops (sample_matrix x)"
    by (simp add: sample_matrix_def m2cjson_def json_defs v_of_def)
qed

theorem matrix_animation_ends_at_start_witness:
  "\<exists>comps' diff' v. allosim_animate_process approx_lib json_ops ''e''
     (jobj [(''path'', jstr ''transform.matrix''), (''from'', sample_matrix 2), (''to'', sample_matrix 5),
        (''start_at'', jnum 10), (''duration'', jnum 8)])
     20 (jobj [(''transform'', jobj [(''matrix'', sample_matrix 5)])], None) = Some (True, comps', diff') \<and>
   follow_keys json_ops comps' [''transform'', ''matrix''] = Some ([0, 0], v) \<and>
   cjson2m json_ops (Some v) = allo_m4x4_translate (vec 2 0 0)"
proof -
  let ?anim = "jobj [(''path'', jstr ''transform.matrix''), (''from'', sample_matrix 2), (''to'', sample_matrix 5),
        (''start_at'', jnum 10), (''duration'', jnum 8)]"
  have e: "easing_of json_ops ?anim = ''linear''" by (simp add: easing_of_def json_eval)
  have r: "\<not> is_true json_ops (GetObjectItemCS json_ops ?anim ''repeats'')" by (simp add: is_true_def json_eval)
  show ?thesis
    using matrix_animation_ends_at_start [OF json.cjson_lib_axioms, of "''transform''" "[''matrix'']" ?anim
        "sample_matrix 2" "sample_matrix 5" 10 8 approx_lib 20 "jobj [(''transform'', jobj [(''matrix'', sample_matrix 5)])]"
        "[0, 0]" "sample_matrix 5" "''e''" None] r sample_matrix
    by (simp add: plain_key_def scan_d_def is_space_def is_digit_def json_eval string_value_def number_value_def
        ease_def e)
qed

section \<open>Keys\<close>

text \<open>A key that begins with a digit is taken as a number, and a key of 255 characters overruns its buffer.\<close>

lemma digit_key_is_index: "scan_d ''3d_model'' = Some 3"
  by code_simp

lemma long_key_unterminated:
  assumes "length k = 255" and "CHR ''.'' \<notin> set k"
  shows "animation_derive_property C comps pa k = None"
proof -
  have k: "takeWhile (\<lambda>c. c \<noteq> CHR ''.'') (take 255 k) = k" using assms by (auto simp: takeWhile_eq_all_conv)
  show ?thesis
    unfolding animation_derive_property.simps [of C comps pa k] Let_def k using assms(1) by simp
qed

end
