(* ===== verification/Simulation.thy ===== *)
theory Simulation
  imports Animation
begin

text \<open>
  One tick of the simulation, \<^verbatim>\<open>src/simulation/simulation.c\<close>: the clock of the place, what each
  client moves, then the animations.
\<close>

section \<open>Movement of every client\<close>

text \<open>
  The loop over the intents. The inner \<open>False\<close> is the early return from the function, at an intent
  whose avatar does not exist: what comes after it in the function is left out too.
\<close>

fun simulate_intents ::
  "simlib \<Rightarrow> 'j cjson \<Rightarrow> nat \<Rightarrow> client_intent list \<Rightarrow> rat \<Rightarrow> client_intent list \<Rightarrow> 'j allo_state \<times> 'j state_diff option \<Rightarrow>
   (bool \<times> 'j allo_state \<times> 'j state_diff option) option" where
  "simulate_intents L C depth all dt [] sd = Some (True, sd)"
| "simulate_intents L C depth all dt (intent # intents) sd =
     (case state_get_entity (fst sd) (intent_entity_id intent) of
        None \<Rightarrow> Some (False, sd)
      | Some avatar \<Rightarrow>
          (case allosim_get_child_with_pose C (fst sd) (Some avatar) ''head'' of
             None \<Rightarrow> None
           | Some head \<Rightarrow>
               (case allosim_stick_movement L C (Some avatar) head intent dt True sd of
                  None \<Rightarrow> None
                | Some (_, sd1) \<Rightarrow>
                    (case allosim_pose_movements C avatar intent all sd1 of
                       None \<Rightarrow> None
                     | Some sd2 \<Rightarrow>
                         (case allosim_handle_grabs L C depth avatar intent sd2 of
                            None \<Rightarrow> None
                          | Some sd3 \<Rightarrow> simulate_intents L C depth all dt intents sd3)))))"

definition allo_simulate_iteration ::
  "simlib \<Rightarrow> 'j cjson \<Rightarrow> nat \<Rightarrow> client_intent list \<Rightarrow> rat \<Rightarrow> rat \<Rightarrow> 'j allo_state \<times> 'j state_diff option \<Rightarrow>
   ('j allo_state \<times> 'j state_diff option) option" where
  "allo_simulate_iteration L C depth intents server_time dt sd =
     (case simulate_intents L C depth intents dt intents sd of
        None \<Rightarrow> None
      | Some (False, sd') \<Rightarrow> Some sd'
      | Some (True, sd') \<Rightarrow> allosim_animate L C server_time sd')"

section \<open>The clock\<close>

text \<open>The components of the place with a clock, the time it showed, and the clock after it is set.\<close>

definition set_clock :: "'j cjson \<Rightarrow> 'j option \<Rightarrow> rat \<Rightarrow> ('j option \<times> rat \<times> 'j) option" where
  "set_clock C comps server_time =
     (case get_cs C comps ''clock'' of
        None \<Rightarrow>
          (let clock = cjson_create_object C [(''time'', SetNumberValue C (CreateNumber C server_time) server_time)]
           in Some (map_option (\<lambda>c. AddItemToObject C c ''clock'' clock) comps,
                valuedouble C (CreateNumber C server_time), clock))
      | Some clock \<Rightarrow>
          (case GetObjectItemCS C clock ''time'' of
             None \<Rightarrow> None
           | Some time \<Rightarrow>
               (let clock' = put_cs C clock ''time'' (SetNumberValue C time server_time)
                in Some (map_option (\<lambda>c. put_cs C c ''clock'' clock') comps, valuedouble C time, clock'))))"

definition tick_clock ::
  "'j cjson \<Rightarrow> rat \<Rightarrow> 'j allo_state \<times> 'j state_diff option \<Rightarrow> (rat \<times> 'j allo_state \<times> 'j state_diff option) option" where
  "tick_clock C server_time sd =
     (case state_get_entity (fst sd) (Some ''place'') of
        None \<Rightarrow> Some (0, sd)
      | Some place \<Rightarrow>
          map_option (\<lambda>(comps, old_time, clock).
              (old_time,
               (fst sd)\<lparr>entities := map (\<lambda>e. if entity_at e = entity_at place then e\<lparr>components := comps\<rparr> else e) (entities (fst sd))\<rparr>,
               allo_state_diff_mark_component_updated (snd sd) ''place'' ''clock'' (Some clock)))
            (set_clock C (components place) server_time))"

text \<open>A step of the simulation is a fifth of a second at most.\<close>

definition step_length :: "rat \<Rightarrow> rat \<Rightarrow> rat" where
  "step_length server_time old_time = (let dt = server_time - old_time in if dt < 1 / 5 then dt else 1 / 5)"

definition allo_simulate ::
  "simlib \<Rightarrow> 'j cjson \<Rightarrow> nat \<Rightarrow> client_intent list \<Rightarrow> rat \<Rightarrow> 'j allo_state \<times> 'j state_diff option \<Rightarrow>
   ('j allo_state \<times> 'j state_diff option) option" where
  "allo_simulate L C depth intents server_time sd =
     (case tick_clock C server_time sd of
        None \<Rightarrow> None
      | Some (old_time, sd') \<Rightarrow>
          allo_simulate_iteration L C depth intents server_time (step_length server_time old_time) sd')"

section \<open>The root pose of a client\<close>

definition allosim_simulate_root_pose ::
  "simlib \<Rightarrow> 'j cjson \<Rightarrow> 'j allo_state \<Rightarrow> string \<Rightarrow> rat \<Rightarrow> client_intent \<Rightarrow> client_intent option" where
  "allosim_simulate_root_pose L C st avatar_id dt intent =
     (let avatar = state_get_entity st (Some avatar_id)
      in case allosim_get_child_with_pose C st avatar ''head'' of
           None \<Rightarrow> None
         | Some head \<Rightarrow>
             map_option (\<lambda>(m, _). intent\<lparr>poses := (poses intent)\<lparr>pose_root := m\<rparr>, xmovement := 0, zmovement := 0\<rparr>)
               (allosim_stick_movement L C avatar head intent dt False (st, None)))"

end
