(* ===== verification/Simulation_Correct.thy ===== *)
theory Simulation_Correct
  imports Simulation Animation_Correct
begin

text \<open>
  What a tick of the simulation keeps and does: who can be moved by whom, how turning leaves the head
  in place, how time is measured, and how a missing avatar ends the tick.
\<close>

section \<open>Transforms with an affine inverse\<close>

lemma affine_cofactor_inverse:
  assumes "affine m" and "determinant m \<noteq> 0"
  shows "affine (cofactor_inverse m)"
proof -
  have c: "c1r4 (cofactors m) = 0" "c2r4 (cofactors m) = 0" "c3r4 (cofactors m) = 0"
    using assms(1) by (simp_all add: affine_def cofactors_def Let_def m_defs)
  have d: "c4r4 (cofactors m) = determinant m"
    using assms(1) by (simp add: affine_def determinant_def cofactors_def Let_def m_defs algebra_simps)
  show ?thesis using assms(2) c d by (simp add: cofactor_inverse_def affine_def m_defs)
qed

context mathc_lib begin

lemma inverse_is_cofactor:
  assumes "determinant m \<noteq> 0"
  shows "allo_m4x4_inverse M m = cofactor_inverse m"
proof -
  let ?i = "mat4_inverse M m" and ?c = "cofactor_inverse m"
  have "?i = product (product ?c m) ?i" by (simp add: cofactor_inverse_inverts assms)
  also have "\<dots> = ?c" by (simp add: product_assoc inverse_law assms)
  finally show ?thesis by (simp add: allo_m4x4_inverse_def)
qed

lemma affine_concat: "affine a \<Longrightarrow> affine b \<Longrightarrow> affine (allo_m4x4_concat M a b)"
  by (simp add: allo_m4x4_concat_def multiply_law affine_product)

lemma affine_inverse: "affine m \<Longrightarrow> determinant m \<noteq> 0 \<Longrightarrow> affine (allo_m4x4_inverse M m)"
  by (simp add: inverse_is_cofactor affine_cofactor_inverse)

lemma position_translated:
  assumes "affine b"
  shows "allo_m4x4_get_position (allo_m4x4_concat M (allo_m4x4_translate t) b) =
    allo_vector_add t (allo_m4x4_get_position b)"
  using assms by (simp add: allo_m4x4_concat_def multiply_law affine_def product_def m_defs Let_def vec_eq_iff allo_vector_add_def)

end

lemma affine_create_movement:
  assumes "mathc_lib (mathc_of L)" and "affine h" and "determinant h \<noteq> 0"
  shows "affine (create_movement L h ya xm zm)"
  using assms mathc_lib.affine_concat [OF assms(1)] mathc_lib.affine_inverse [OF assms(1)]
  by (simp add: create_movement_def Let_def)

text \<open>
  C23. Turning without moving leaves the head of the avatar where it was in the world, however the head
  stands on the avatar.
\<close>

theorem turning_keeps_head_in_place:
  assumes "mathc_lib (mathc_of L)" and "affine head" and "determinant head \<noteq> 0"
    and "xmovement intent = 0" and "zmovement intent = 0"
  shows "allo_m4x4_get_position (allo_m4x4_concat (mathc_of L) (stick_transform L old head intent dt) head) =
    allo_m4x4_get_position (allo_m4x4_concat (mathc_of L) old head)"
proof -
  let ?M = "mathc_of L"
  note concat = mathc_lib.concat_assoc [OF assms(1)] mathc_lib.affine_concat [OF assms(1)]
  let ?p = "allo_m4x4_translate (allo_m4x4_get_position old)"
  let ?r = "allo_m4x4_concat ?M ?p (create_movement L head (yaw intent) 0 0)"
  let ?a = "allo_m4x4_get_position (allo_m4x4_concat ?M old head)"
  let ?b = "allo_m4x4_get_position (allo_m4x4_concat ?M ?r head)"
  have "stick_transform L old head intent dt = allo_m4x4_concat ?M (allo_m4x4_translate (allo_vector_subtract ?a ?b)) ?r"
    using assms(4,5) by (simp add: stick_transform_def Let_def allo_m4x4_get_position_def)
  moreover have "affine (allo_m4x4_concat ?M ?r head)"
    using assms by (intro concat(2) affine_create_movement) simp_all
  ultimately show ?thesis
    using mathc_lib.position_translated [OF assms(1), of "allo_m4x4_concat ?M ?r head" "allo_vector_subtract ?a ?b"]
    by (simp only: concat(1)) (simp add: allo_vector_add_def allo_vector_subtract_def vec_eq_iff)
qed

theorem turning_keeps_head_in_place_witness:
  "allo_m4x4_get_position (allo_m4x4_concat mathc_ops
      (stick_transform approx_lib allo_m4x4_identity (allo_m4x4_translate (vec 0 2 1))
         (allo_client_intent_create\<lparr>yaw := 3 / 2\<rparr>) 1) (allo_m4x4_translate (vec 0 2 1))) = vec 0 2 1"
  using turning_keeps_head_in_place [of approx_lib "allo_m4x4_translate (vec 0 2 1)"
      "allo_client_intent_create\<lparr>yaw := 3 / 2\<rparr>" allo_m4x4_identity 1] mathc.mathc_lib_axioms
  by (simp add: mathc.concat_identity allo_client_intent_create_def)
    (simp add: determinant_def cofactors_def Let_def m_defs vec_eq_iff)

text \<open>The movement is a turn around the vertical axis after a step on the ground.\<close>

definition upright :: "allo_m4x4 \<Rightarrow> bool" where
  "upright m \<longleftrightarrow> affine m \<and> c1r2 m = 0 \<and> c2r2 m = 1 \<and> c3r2 m = 0"

lemma height_after_upright:
  "upright m \<Longrightarrow> affine b \<Longrightarrow> vy (allo_m4x4_get_position (product m b)) =
     vy (allo_m4x4_get_position m) + vy (allo_m4x4_get_position b)"
  by (simp add: upright_def affine_def product_def m_defs Let_def)

lemma upright_simps [simp]:
  "upright (allo_m4x4_rotate rcos rsin (vec 0 (- 1) 0))" "upright (allo_m4x4_translate t)"
  by (simp_all add: upright_def affine_def allo_m4x4_rotate_def m_defs Let_def)

lemma upright_product: "upright a \<Longrightarrow> upright b \<Longrightarrow> upright (product a b)"
  by (simp add: upright_def affine_product) (simp add: product_def m_of_def affine_def)

lemma product_translate:
  "affine h \<Longrightarrow> product h (allo_m4x4_translate t) = product (allo_m4x4_translate (allo_m4x4_transform h t False)) h"
  by (simp add: affine_def product_def m_defs Let_def)

lemma position_translate [simp]: "allo_m4x4_get_position (allo_m4x4_translate t) = t"
  by (simp add: m_defs vec_eq_iff)

lemma movement_form:
  assumes "mathc_lib (mathc_of L)" and "affine h" and "determinant h \<noteq> 0"
  shows "\<exists>w. vy w = 0 \<and> create_movement L h ya xm zm =
    product (allo_m4x4_rotate (lib_cos L ya) (lib_sin L ya) (vec 0 (- 1) 0)) (allo_m4x4_translate w)"
proof -
  let ?M = "mathc_of L" and ?rot = "allo_m4x4_rotate (lib_cos L ya) (lib_sin L ya) (vec 0 (- 1) 0)"
  let ?w = "allo_m4x4_transform h (vec xm 0 zm) False"
  have inv: "product h (allo_m4x4_inverse ?M h) = allo_m4x4_identity"
    by (simp add: mathc_lib.inverse_is_cofactor [OF assms(1,3)] cofactor_inverse_inverts assms(3))
  have concat: "allo_m4x4_concat ?M a b = product a b" for a b
    by (simp add: allo_m4x4_concat_def mathc_lib.multiply_law [OF assms(1)])
  have "product (product (product ?rot h) (allo_m4x4_translate (vec xm 0 zm))) (allo_m4x4_inverse ?M h) =
      product ?rot (allo_m4x4_translate ?w)"
    by (simp add: product_assoc inv product_translate [OF assms(2)])
  then have m: "create_movement L h ya xm zm =
      product (product ?rot (allo_m4x4_translate ?w)) (allo_m4x4_translate (vec 0 (- vy (allo_m4x4_get_position (product ?rot (allo_m4x4_translate ?w)))) 0))"
    by (simp add: create_movement_def Let_def concat allo_m4x4_get_position_def)
  have "vy (allo_m4x4_get_position ?rot) = 0" by (simp add: allo_m4x4_rotate_def m_defs Let_def)
  then have "vy (allo_m4x4_get_position (product ?rot (allo_m4x4_translate ?w))) = vy ?w"
    by (simp add: height_after_upright)
  then have "create_movement L h ya xm zm = product ?rot (allo_m4x4_translate (vec (vx ?w) 0 (vz ?w)))"
    unfolding m by (simp add: product_assoc) (simp add: product_def m_defs)
  then show ?thesis by (intro exI [of _ "vec (vx ?w) 0 (vz ?w)"]) simp
qed

text \<open>
  Walking and turning with the stick never lifts or sinks an avatar that stands upright, wherever the
  head looks.
\<close>

theorem stick_keeps_height:
  assumes "mathc_lib (mathc_of L)" and "affine head" and "determinant head \<noteq> 0" and "upright old"
  shows "vy (allo_m4x4_get_position (stick_transform L old head intent dt)) = vy (allo_m4x4_get_position old)"
proof -
  let ?M = "mathc_of L" and ?rot = "allo_m4x4_rotate (lib_cos L (yaw intent)) (lib_sin L (yaw intent)) (vec 0 (- 1) 0)"
  let ?pos = "allo_m4x4_get_position" and ?T = allo_m4x4_translate
  have concat: "allo_m4x4_concat ?M a b = product a b" for a b
    by (simp add: allo_m4x4_concat_def mathc_lib.multiply_law [OF assms(1)])
  obtain w where w: "vy w = 0"
    "create_movement L head (yaw intent) (xmovement intent * (2 * dt)) (zmovement intent * (2 * dt)) = product ?rot (?T w)"
    using movement_form [OF assms(1-3)] by blast
  obtain u where u: "vy u = 0" "create_movement L head (yaw intent) 0 0 = product ?rot (?T u)"
    using movement_form [OF assms(1-3)] by blast
  have up: "upright (product ?rot (?T v))" for v by (simp add: upright_product)
  have affine: "upright m \<Longrightarrow> affine m" for m by (simp add: upright_def)
  have rot: "vy (?pos ?rot) = 0" by (simp add: allo_m4x4_rotate_def m_defs Let_def)
  have flat: "vy (?pos (product ?rot (?T v))) = vy v" for v by (simp add: height_after_upright rot)
  let ?b = "product (product (?T (?pos old)) (product ?rot (?T u))) head"
  have "vy (?pos (product old head)) = vy (?pos ?b)"
    using assms(2,4) u(1) by (simp add: height_after_upright upright_product up affine flat)
  moreover have "stick_transform L old head intent dt =
      product (?T (allo_vector_subtract (?pos (product old head)) (?pos ?b))) (product (?T (?pos old)) (product ?rot (?T w)))"
    by (simp add: stick_transform_def Let_def concat w(2) u(2) flip: allo_m4x4_get_position_def)
  ultimately show ?thesis
    using w(1) by (simp add: height_after_upright upright_product up affine flat allo_vector_subtract_def)
qed

theorem stick_keeps_height_witness:
  "vy (allo_m4x4_get_position (stick_transform approx_lib (allo_m4x4_translate (vec 1 5 1))
     (allo_m4x4_translate (vec 0 2 1)) (allo_client_intent_create\<lparr>yaw := 3 / 2, zmovement := 1\<rparr>) (1 / 10))) = 5"
  using stick_keeps_height [of approx_lib "allo_m4x4_translate (vec 0 2 1)" "allo_m4x4_translate (vec 1 5 1)"]
    mathc.mathc_lib_axioms
  by (simp add: determinant_def cofactors_def Let_def) (simp add: m_defs)

section \<open>What a movement keeps\<close>

definition identity_of :: "'j entity \<Rightarrow> nat \<times> string \<times> string option" where
  "identity_of e = (entity_at e, eid e, owner_agent_id e)"

definition same_entities :: "'j allo_state \<Rightarrow> 'j allo_state \<Rightarrow> bool" where
  "same_entities st st' \<longleftrightarrow> map identity_of (entities st') = map identity_of (entities st) \<and>
     revision st' = revision st \<and> fresh_at st' = fresh_at st"

lemma same_entities_refl [simp]: "same_entities st st"
  by (simp add: same_entities_def)

lemma same_entities_trans: "same_entities st st' \<Longrightarrow> same_entities st' st'' \<Longrightarrow> same_entities st st''"
  by (simp add: same_entities_def)

lemma identity_set_transform [simp]:
  "entity_at (entity_set_transform C e m) = entity_at e" "eid (entity_set_transform C e m) = eid e"
  "owner_agent_id (entity_set_transform C e m) = owner_agent_id e"
  by (simp_all add: entity_set_transform_def Let_def split: option.split)

lemma same_move [simp]: "same_entities (fst sd) (fst (move_entity C e m sd))"
  by (simp add: same_entities_def move_entity_def set_transform_at_def identity_of_def comp_def if_distrib [of "\<lambda>f. f _"] cong: if_cong)

text \<open>The addresses of what an agent owns.\<close>

definition owned :: "string \<Rightarrow> 'j allo_state \<Rightarrow> nat set" where
  "owned a st = entity_at ` {e \<in> set (entities st). owner_agent_id e = Some a}"

definition untouched :: "nat set \<Rightarrow> 'j allo_state \<Rightarrow> 'j allo_state \<Rightarrow> bool" where
  "untouched A st st' \<longleftrightarrow> (\<forall>e \<in> set (entities st). entity_at e \<in> A \<longrightarrow> e \<in> set (entities st'))"

lemma untouched_refl [simp]: "untouched A st st"
  by (simp add: untouched_def)

lemma untouched_trans: "untouched A st st' \<Longrightarrow> untouched A st' st'' \<Longrightarrow> untouched A st st''"
  by (auto simp: untouched_def)

lemma owned_identity: "owned a st = fst ` {i \<in> set (map identity_of (entities st)). snd (snd i) = Some a}"
  by (force simp: owned_def identity_of_def)

lemma addresses_identity: "map entity_at es = map fst (map identity_of es)"
  by (simp add: identity_of_def comp_def)

lemma owned_same: "same_entities st st' \<Longrightarrow> owned a st' = owned a st"
  by (simp only: owned_identity same_entities_def)

lemma distinct_same:
  "same_entities st st' \<Longrightarrow> distinct (map entity_at (entities st)) \<Longrightarrow> distinct (map entity_at (entities st'))"
  by (simp only: addresses_identity same_entities_def)

lemma untouched_move: "entity_at x \<notin> A \<Longrightarrow> untouched A (fst sd) (fst (move_entity C x m sd))"
  by (force simp: untouched_def move_entity_def set_transform_at_def)

lemma get_entity_same:
  assumes "same_entities st st'" and "state_get_entity st' i = Some x'"
  shows "\<exists>x. state_get_entity st i = Some x \<and> identity_of x = identity_of x'"
proof -
  have "List.find (\<lambda>e. s = eid e) es' = Some y' \<Longrightarrow> map identity_of es' = map identity_of es \<Longrightarrow>
      \<exists>y. List.find (\<lambda>e. s = eid e) es = Some y \<and> identity_of y = identity_of y'" for s y' and es es' :: "'a entity list"
  proof (induction es arbitrary: es')
    case (Cons e es)
    then show ?case by (cases es') (auto simp: identity_of_def split: if_splits)
  qed simp
  then show ?thesis using assms by (auto simp: state_get_entity_def same_entities_def split: option.splits if_splits)
qed

text \<open>Posing moves what the owner of the avatar owns, or what nobody does.\<close>

lemma pose_entity_owner:
  "pose_entity C owner others intent e = Some (intent', Some m) \<Longrightarrow> owner_agent_id e = None \<or> owner_agent_id e = owner"
  by (auto simp: pose_entity_def Let_def split: option.splits if_splits)

lemma pose_entities_keep:
  assumes "pose_entities C owner others intent es sd = Some sd'"
    and "\<And>e. e \<in> set es \<Longrightarrow> entity_at e \<in> A \<Longrightarrow> owner_agent_id e = Some a" and "owner \<noteq> Some a"
  shows "same_entities (fst sd) (fst sd') \<and> untouched A (fst sd) (fst sd')"
  using assms
proof (induction es arbitrary: intent sd)
  case (Cons e es)
  obtain intent' m where p: "pose_entity C owner others intent e = Some (intent', m)"
    using Cons.prems by (auto split: option.splits)
  show ?case
  proof (cases m)
    case None
    then show ?thesis using p Cons.prems by (intro Cons.IH [of intent']) auto
  next
    case (Some n)
    then have "entity_at e \<notin> A" using pose_entity_owner p Cons.prems(2) [of e] Cons.prems(3) by fastforce
    then have "untouched A (fst sd) (fst (move_entity C e n sd))" by (rule untouched_move)
    moreover have "same_entities (fst (move_entity C e n sd)) (fst sd') \<and> untouched A (fst (move_entity C e n sd)) (fst sd')"
      using p Some Cons.prems by (intro Cons.IH [of intent']) auto
    ultimately show ?thesis using same_entities_trans [OF same_move] untouched_trans by blast
  qed
qed simp

lemma no_grab: "grab_entity g = None \<Longrightarrow> handle_grab L C depth g gr sd = Some sd"
  by (simp add: handle_grab_def state_get_entity_def actuated_by_def Let_def split: option.split)

definition holds_nothing :: "client_intent \<Rightarrow> bool" where
  "holds_nothing i \<longleftrightarrow> grab_entity (grab (left_hand (poses i))) = None \<and> grab_entity (grab (right_hand (poses i))) = None"

text \<open>The entities of agents whose avatar is not among those that move.\<close>

definition moves_none_of :: "string \<Rightarrow> 'j allo_state \<Rightarrow> client_intent \<Rightarrow> bool" where
  "moves_none_of a st i \<longleftrightarrow> holds_nothing i \<and>
     (case state_get_entity st (intent_entity_id i) of None \<Rightarrow> True | Some av \<Rightarrow> owner_agent_id av \<noteq> Some a)"

lemma moves_none_same: "same_entities st st' \<Longrightarrow> moves_none_of a st i \<Longrightarrow> moves_none_of a st' i"
  using get_entity_same [of st st' "intent_entity_id i"]
  by (fastforce simp: moves_none_of_def identity_of_def split: option.splits)

lemma stick_keep:
  assumes "allosim_stick_movement L C (Some av) head intent dt True sd = Some (m, sd')" and "entity_at av \<notin> A"
  shows "same_entities (fst sd) (fst sd') \<and> untouched A (fst sd) (fst sd')"
  using assms(1) untouched_move [OF assms(2), of sd]
  by (auto simp: allosim_stick_movement_def Let_def split: if_splits)

lemma in_owned:
  assumes "distinct (map entity_at (entities st))" and "e \<in> set (entities st)"
  shows "entity_at e \<in> owned a st \<longleftrightarrow> owner_agent_id e = Some a"
  using assms by (auto simp: owned_def distinct_map dest: inj_onD)

lemma simulate_intents_keep:
  assumes "simulate_intents L C depth others dt intents sd = Some (done, sd')"
    and "distinct (map entity_at (entities (fst sd)))"
    and "list_all (moves_none_of a (fst sd)) intents"
  shows "same_entities (fst sd) (fst sd') \<and> untouched (owned a (fst sd)) (fst sd) (fst sd')"
  using assms
proof (induction intents arbitrary: sd)
  case (Cons i ins)
  let ?A = "owned a (fst sd)"
  show ?case
  proof (cases "state_get_entity (fst sd) (intent_entity_id i)")
    case None
    then show ?thesis using Cons.prems(1) by simp
  next
    case (Some av)
    with Cons.prems(1) obtain head m sd1 sd2 sd3 where
        stick: "allosim_stick_movement L C (Some av) head i dt True sd = Some (m, sd1)"
      and pose: "allosim_pose_movements C av i others sd1 = Some sd2"
      and grabs: "allosim_handle_grabs L C depth av i sd2 = Some sd3"
      and rest: "simulate_intents L C depth others dt ins sd3 = Some (done, sd')"
      by (auto split: option.splits)
    have av: "owner_agent_id av \<noteq> Some a" and hold: "holds_nothing i"
      using Cons.prems(3) Some by (auto simp: moves_none_of_def)
    have "av \<in> set (entities (fst sd))"
      using Some by (auto simp: state_get_entity_def find_Some_iff split: option.splits if_splits)
    then have "entity_at av \<notin> ?A" using av in_owned [OF Cons.prems(2)] by simp
    then have one: "same_entities (fst sd) (fst sd1)" "untouched ?A (fst sd) (fst sd1)"
      using stick_keep [OF stick] by auto
    have d1: "distinct (map entity_at (entities (fst sd1)))" by (rule distinct_same [OF one(1) Cons.prems(2)])
    have two: "same_entities (fst sd1) (fst sd2) \<and> untouched ?A (fst sd1) (fst sd2)"
      using pose in_owned [OF d1, of _ a] owned_same [OF one(1), of a] av
      by (intro pose_entities_keep [where a = a]) (auto simp: allosim_pose_movements_def)
    have "sd3 = sd2" using grabs hold by (auto simp: allosim_handle_grabs_def holds_nothing_def no_grab split: option.splits)
    then have three: "same_entities (fst sd) (fst sd3)" "untouched ?A (fst sd) (fst sd3)"
      using one two same_entities_trans untouched_trans by blast+
    have "same_entities (fst sd3) (fst sd') \<and> untouched (owned a (fst sd3)) (fst sd3) (fst sd')"
    proof (rule Cons.IH [OF rest])
      show "distinct (map entity_at (entities (fst sd3)))" by (rule distinct_same [OF three(1) Cons.prems(2)])
      show "list_all (moves_none_of a (fst sd3)) ins"
        using Cons.prems(3) moves_none_same [OF three(1)] by (auto simp: list_all_iff)
    qed
    then show ?thesis using three owned_same [OF three(1), of a] same_entities_trans untouched_trans by metis
  qed
qed simp

text \<open>
  C8. While the intents that are simulated grab nothing at all, and none of their avatars is owned by agent
  \<open>a\<close>, their movement leaves every entity of \<open>a\<close> untouched. An intent that grabs anything is left
  out: the grabbed entity can name another one to be moved in its place.
\<close>

theorem clients_move_their_own:
  assumes "simulate_intents L C depth others dt intents (st, diff) = Some (done, st', diff')"
    and "distinct (map entity_at (entities st))"
    and "list_all (moves_none_of a st) intents"
    and "e \<in> set (entities st)" and "owner_agent_id e = Some a"
  shows "e \<in> set (entities st')"
  using simulate_intents_keep [OF assms(1), of a] assms(2-5) in_owned [OF assms(2,4), of a]
  by (simp add: untouched_def)

section \<open>The early return\<close>

text \<open>
  An intent whose avatar does not exist ends the tick for everyone: the clients after it do not
  move, and nothing is animated.
\<close>

lemma missing_avatar_ends_loop:
  assumes "simulate_intents L C depth others dt before sd = Some (True, sd')"
    and "state_get_entity (fst sd') (intent_entity_id i) = None"
  shows "simulate_intents L C depth others dt (before @ i # after) sd = Some (False, sd')"
  using assms
proof (induction before arbitrary: sd)
  case (Cons b before)
  then show ?case by (auto split: option.splits)
qed simp

theorem missing_avatar_ends_tick:
  assumes "simulate_intents L C depth (before @ i # after) dt before sd = Some (True, sd')"
    and "state_get_entity (fst sd') (intent_entity_id i) = None"
  shows "allo_simulate_iteration L C depth (before @ i # after) server_time dt sd = Some sd'"
  by (simp add: allo_simulate_iteration_def missing_avatar_ends_loop [OF assms])

section \<open>Time\<close>

text \<open>The clock shows the time of the tick, and the next tick measures from there.\<close>

context cjson_lib begin

lemma set_clock_twice:
  assumes "set_clock C (Some comps) t1 = Some (comps1, old, clock)"
  shows "\<exists>comps2 clock2. set_clock C comps1 t2 = Some (comps2, t1, clock2)"
proof (cases "GetObjectItemCS C comps ''clock''")
  case None
  let ?c = "cjson_create_object C [(''time'', SetNumberValue C (CreateNumber C t1) t1)]"
  have "comps1 = Some (AddItemToObject C comps ''clock'' ?c)" using assms None by (auto simp: set_clock_def Let_def)
  moreover have "GetObjectItemCS C (AddItemToObject C comps ''clock'' ?c) ''clock'' = Some ?c"
    using None by (simp add: object_cs_law add_object_law assoc_append)
  ultimately show ?thesis by (simp add: set_clock_def Let_def object_cs_law assign_law)
next
  case (Some c)
  then obtain time where time: "GetObjectItemCS C c ''time'' = Some time"
    using assms by (auto simp: set_clock_def split: option.splits)
  let ?c = "put_cs C c ''time'' (SetNumberValue C time t1)"
  have c1: "comps1 = Some (put_cs C comps ''clock'' ?c)" using assms Some time by (auto simp: set_clock_def Let_def)
  have "GetObjectItemCS C (put_cs C comps ''clock'' ?c) ''clock'' = Some ?c"
    using Some by (simp add: put_cs_def put_key object_cs_law)
  moreover have "GetObjectItemCS C ?c ''time'' = Some (SetNumberValue C time t1)"
    using time by (simp add: put_cs_def put_key object_cs_law)
  ultimately show ?thesis unfolding c1 by (simp add: set_clock_def Let_def assign_law)
qed

end

text \<open>
  Once a tick has set the clock of the place, the next tick measures its length from the time of the
  first, and steps over a fifth of a second at most.
\<close>

theorem ticks_measure_time:
  assumes "cjson_lib C" and "tick_clock C t1 sd = Some (old, sd1)"
    and "state_get_entity (fst sd) (Some ''place'') = Some place" and "components place \<noteq> None"
    and "distinct (map entity_at (entities (fst sd)))"
  shows "\<exists>sd2. tick_clock C t2 sd1 = Some (t1, sd2) \<and> step_length t2 t1 \<le> 1 / 5 \<and>
    (t2 - t1 < 1 / 5 \<longrightarrow> step_length t2 t1 = t2 - t1)"
proof -
  obtain comps where comps: "components place = Some comps" using assms(4) by auto
  obtain comps1 clock where set: "set_clock C (Some comps) t1 = Some (comps1, old, clock)"
    and sd1: "fst sd1 = (fst sd)\<lparr>entities := map (\<lambda>e. if entity_at e = entity_at place then e\<lparr>components := comps1\<rparr> else e)
      (entities (fst sd))\<rparr>"
    using assms(2,3) comps by (auto simp: tick_clock_def)
  have "List.find (\<lambda>e. ''place'' = eid e) (map f es) = Some (p\<lparr>components := comps1\<rparr>)"
    if "List.find (\<lambda>e. ''place'' = eid e) es = Some p"
      and "f = (\<lambda>e. if entity_at e = entity_at p then e\<lparr>components := comps1\<rparr> else e)" for f es and p :: "'a entity"
    using that by (induction es) (auto split: if_splits)
  then have "state_get_entity (fst sd1) (Some ''place'') = Some (place\<lparr>components := comps1\<rparr>)"
    using assms(3) by (simp add: state_get_entity_def sd1)
  then show ?thesis
    using cjson_lib.set_clock_twice [OF assms(1) set, of t2] by (auto simp: tick_clock_def step_length_def Let_def)
qed

section \<open>Examples\<close>

definition sample_body :: "nat \<Rightarrow> string \<Rightarrow> string \<Rightarrow> (string \<times> json) list \<Rightarrow> json entity" where
  "sample_body a i owner comps = \<lparr>entity_at = a, eid = i, owner_agent_id = Some owner, components = Some (jobj comps)\<rparr>"

definition sample_pose :: "(string \<times> json) list \<Rightarrow> string \<times> json" where
  "sample_pose kvs = (''intent'', jobj kvs)"

text \<open>The agent \<open>a\<close> owns an avatar, its torso, and a mirror of the head of the avatar of \<open>b\<close>.\<close>

definition sample_mirror :: "json entity" where
  "sample_mirror = sample_body 0 ''mirror'' ''a'' [sample_pose [(''actuate_pose'', jstr ''head''), (''from_avatar'', jstr ''bob'')]]"

definition sample_torso :: "json entity" where
  "sample_torso = sample_body 1 ''torso'' ''a''
     [(''relationships'', jobj [(''parent'', jstr ''alice'')]), sample_pose [(''actuate_pose'', jstr ''torso'')]]"

definition sample_place :: "json allo_state" where
  "sample_place = \<lparr>revision = 1, entities = [sample_mirror, sample_torso, sample_body 2 ''alice'' ''a'' [],
     sample_body 3 ''bob'' ''b'' []], fresh_at = 5\<rparr>"

definition sample_intent :: "string \<Rightarrow> rat \<Rightarrow> client_intent" where
  "sample_intent i x = allo_client_intent_create\<lparr>intent_entity_id := Some i,
     poses := (poses allo_client_intent_create)\<lparr>pose_head := allo_m4x4_translate (vec x 0 0),
       pose_torso := allo_m4x4_translate (vec x 0 0)\<rparr>\<rparr>"

lemmas sample_entity_defs = sample_body_def sample_pose_def sample_mirror_def sample_torso_def sample_place_def

theorem clients_move_their_own_witness:
  "\<exists>done st' diff'. simulate_intents approx_lib json_ops 9 [sample_intent ''alice'' 1] (1 / 10) [sample_intent ''alice'' 1]
     (sample_place, None) = Some (done, st', diff') \<and> sample_body 3 ''bob'' ''b'' [] \<in> set (entities st')"
proof -
  let ?s = "simulate_intents approx_lib json_ops 9 [sample_intent ''alice'' 1] (1 / 10) [sample_intent ''alice'' 1] (sample_place, None)"
  have "?s \<noteq> None" by code_simp
  then obtain fin st' diff' where s: "?s = Some (fin, st', diff')" by auto
  have "list_all (moves_none_of ''b'' sample_place) [sample_intent ''alice'' 1]" by code_simp
  from clients_move_their_own [OF s _ this, of "sample_body 3 ''bob'' ''b'' []"]
  show ?thesis using s by (simp add: sample_entity_defs)
qed

theorem missing_avatar_ends_tick_witness:
  "allo_simulate_iteration approx_lib json_ops 9 ([] @ sample_intent ''carol'' 1 # [sample_intent ''alice'' 1]) 8 (1 / 10)
     (sample_place, None) = Some (sample_place, None)"
  by (rule missing_avatar_ends_tick)
    (simp_all add: state_get_entity_def sample_entity_defs sample_intent_def allo_client_intent_create_def)

theorem ticks_measure_time_witness:
  "\<exists>sd2 sd1. tick_clock json_ops 7 (allo_state_init\<lparr>entities := [sample_body 0 ''place'' ''p'' []]\<rparr>, None) = Some (7, sd1) \<and>
     tick_clock json_ops (36 / 5) sd1 = Some (7, sd2)"
proof -
  let ?sd = "(allo_state_init\<lparr>entities := [sample_body 0 ''place'' ''p'' []]\<rparr>, None)"
  have "tick_clock json_ops 7 ?sd \<noteq> None \<and> fst (the (tick_clock json_ops 7 ?sd)) = 7" by code_simp
  then obtain sd1 where s: "tick_clock json_ops 7 ?sd = Some (7, sd1)" by auto
  show ?thesis
    using ticks_measure_time [OF json.cjson_lib_axioms s, of "sample_body 0 ''place'' ''p'' []" "36 / 5"] s
    by (auto simp: sample_body_def state_get_entity_def allo_state_init_def)
qed

section \<open>A mirror takes over the intent\<close>

text \<open>
  When an entity shows the pose of another avatar, the entities that follow it in the list are posed
  by the other avatar's intent too: a part of the body that belongs to the avatar itself, and stands
  after the mirror, is not moved at all.
\<close>

theorem mirror_stops_own_pose:
  assumes "pose_entity C owner others intent mirror = Some (other, m)" and "intent_entity_id other = Some o'"
    and "string_value C (get_cs C (get_cs C (components e) ''intent'') ''actuate_pose'') = Some pose" and "pose \<noteq> ''root''"
    and "string_value C (get_cs C (get_cs C (components e) ''intent'') ''from_avatar'') = None"
    and "parent_id C e = Some p" and "p \<noteq> o'" and "owner = Some a"
  shows "pose_entities C owner others intent [mirror, e] sd = pose_entities C owner others intent [mirror] sd"
proof -
  have "pose_entity C owner others other e = Some (other, None)"
    using assms(2-8) by (auto simp: pose_entity_def parent_id_def Let_def split: option.split)
  then show ?thesis using assms(1) by (cases m) simp_all
qed

theorem mirror_stops_own_pose_witness:
  "pose_entities json_ops (Some ''a'') [sample_intent ''alice'' 1, sample_intent ''bob'' 2] (sample_intent ''alice'' 1)
     [sample_mirror, sample_torso] (sample_place, None) =
   pose_entities json_ops (Some ''a'') [sample_intent ''alice'' 1, sample_intent ''bob'' 2] (sample_intent ''alice'' 1)
     [sample_mirror] (sample_place, None)"
  by (rule mirror_stops_own_pose [where other = "sample_intent ''bob'' 2" and o' = "''bob''" and pose = "''torso''"
        and p = "''alice''" and a = "''a''" and m = "Some (allo_m4x4_translate (vec 2 0 0))"])
    (code_simp | simp)+

end
