(* ===== verification/Media.thy ===== *)
theory Media
  imports Server State
begin

text \<open>
  Media tracks, \<^verbatim>\<open>src/media\<close>: the list of tracks, which subsystem takes a track, how a client follows
  the \<open>live_media\<close> components of the place, and the packets in which sound and pictures travel. Opus
  and the JPEG coder are parameters; the subsystem on ffmpeg, which nothing in the repository
  registers, is left out. A track is known by its place in the list. \<open>None\<close> is a failed assertion or
  a null pointer that is followed.
\<close>

section \<open>Tracks\<close>

datatype media_type = allo_media_type_invalid | allo_media_type_audio | allo_media_type_video

datatype media_subsystem = Audio_subsystem | Mjpeg_subsystem

text \<open>What a subsystem keeps in a track: an Opus decoder, which may be null, or nothing but the format.\<close>

datatype 'd media_info = No_info | Opus "'d option" | Mjpeg

record 'd media_track =
  track_id :: u32
  track_type :: media_type
  origin :: "nat option"
  listeners :: "nat list"
  subsystem :: "media_subsystem option"
  bitrates :: bitrate_data
  info :: "'d media_info"

definition media_track_find :: "'d media_track list \<Rightarrow> u32 \<Rightarrow> nat option" where
  "media_track_find ts i =
     (let n = length (takeWhile (\<lambda>t. track_id t \<noteq> i) ts) in if n < length ts then Some n else None)"

definition media_track_new :: "u32 \<Rightarrow> media_type \<Rightarrow> 'd media_track" where
  "media_track_new i ty = \<lparr>track_id = i, track_type = ty, origin = None, listeners = [], subsystem = None,
     bitrates = \<lparr>sent_bytes = 0, sent_packet_count = 0, received_bytes = 0, received_packet_count = 0\<rparr>, info = No_info\<rparr>"

text \<open>The list with the track, and the place of the track.\<close>

definition media_track_create :: "'d media_track list \<Rightarrow> u32 \<Rightarrow> media_type \<Rightarrow> 'd media_track list \<times> nat" where
  "media_track_create ts i ty = (ts @ [media_track_new i ty], length ts)"

definition media_track_find_or_create :: "'d media_track list \<Rightarrow> u32 \<Rightarrow> media_type \<Rightarrow> 'd media_track list \<times> nat" where
  "media_track_find_or_create ts i ty =
     (case media_track_find ts i of Some n \<Rightarrow> (ts, n) | None \<Rightarrow> media_track_create ts i ty)"

definition media_track_type_from_string :: "string option \<Rightarrow> media_type" where
  "media_track_type_from_string s =
     (case s of
        None \<Rightarrow> allo_media_type_invalid
      | Some t \<Rightarrow> if t = ''video'' then allo_media_type_video
                 else if t = ''audio'' then allo_media_type_audio
                 else allo_media_type_invalid)"

section \<open>Subsystems\<close>

text \<open>
  The coders: \<open>opus_create\<close> makes a decoder, \<open>opus_decode\<close> gives samples, or nothing when it fails, and
  the decoder after it; \<open>opus_encode\<close> gives bytes or fails; \<open>jpeg_chunks\<close> are the pieces in which the
  JPEG coder hands over a picture, \<open>jpeg_decode\<close> gives pixels and a size.
\<close>

record ('j, 'd, 'p) media_env =
  mj :: "'j cjson"
  opus_create :: "'d option"
  opus_decode :: "'d \<Rightarrow> u8 list \<Rightarrow> u16 list option \<times> 'd"
  opus_encode :: "u16 list \<Rightarrow> u8 list option"
  jpeg_chunks :: "'p \<Rightarrow> u8 list list"
  jpeg_decode :: "u8 list \<Rightarrow> ('p \<times> i32 \<times> i32) option"
  picture_is_rgba :: "'p \<Rightarrow> bool"

definition audio_track_initialize :: "('j, 'd, 'p) media_env \<Rightarrow> 'd media_track \<Rightarrow> 'j \<Rightarrow> bool \<times> 'd media_track" where
  "audio_track_initialize E t component =
     (if track_type t \<noteq> allo_media_type_audio then (False, t)
      else if string_value (mj E) (GetObjectItemCS (mj E) component ''format'') = Some ''opus''
      then (True, t\<lparr>info := Opus (opus_create E)\<rparr>)
      else (False, t))"

definition video_track_initialize :: "('j, 'd, 'p) media_env \<Rightarrow> 'd media_track \<Rightarrow> 'j \<Rightarrow> (bool \<times> 'd media_track) option" where
  "video_track_initialize E t component =
     (if track_type t \<noteq> allo_media_type_video then Some (False, t)
      else case string_value (mj E) (GetObjectItemCS (mj E) component ''format'') of
             None \<Rightarrow> None
           | Some f \<Rightarrow> Some (if f = ''mjpeg'' then (True, t\<lparr>info := Mjpeg\<rparr>) else (False, t)))"

definition track_initialize ::
  "('j, 'd, 'p) media_env \<Rightarrow> media_subsystem \<Rightarrow> 'd media_track \<Rightarrow> 'j \<Rightarrow> (bool \<times> 'd media_track) option" where
  "track_initialize E s t component =
     (case s of
        Audio_subsystem \<Rightarrow> Some (audio_track_initialize E t component)
      | Mjpeg_subsystem \<Rightarrow> video_track_initialize E t component)"

text \<open>The registered subsystems, at most 255.\<close>

definition media_subsystem_register :: "media_subsystem list \<Rightarrow> media_subsystem \<Rightarrow> media_subsystem list" where
  "media_subsystem_register subsystems s = (if length subsystems < 255 then subsystems @ [s] else subsystems)"

definition media_initialize :: "media_subsystem list \<Rightarrow> media_subsystem list" where
  "media_initialize subsystems =
     media_subsystem_register (media_subsystem_register subsystems Audio_subsystem) Mjpeg_subsystem"

text \<open>The first subsystem that takes the track.\<close>

fun choose_subsystem ::
  "('j, 'd, 'p) media_env \<Rightarrow> media_subsystem list \<Rightarrow> 'd media_track \<Rightarrow> 'j \<Rightarrow> 'd media_track option" where
  "choose_subsystem E [] t component = Some t"
| "choose_subsystem E (s # ss) t component =
     (case track_initialize E s t component of
        None \<Rightarrow> None
      | Some (True, t') \<Rightarrow> Some (t'\<lparr>subsystem := Some s\<rparr>)
      | Some (False, t') \<Rightarrow> choose_subsystem E ss t' component)"

text \<open>\<open>_media_track_destroy\<close> of the track at a place; destroying an audio track asserts its decoder.\<close>

definition media_track_destroy :: "'d media_track list \<Rightarrow> nat \<Rightarrow> 'd media_track list option" where
  "media_track_destroy ts n =
     (case (subsystem (ts ! n), info (ts ! n)) of
        (Some Audio_subsystem, Opus None) \<Rightarrow> None
      | _ \<Rightarrow> Some (splice_out ts n 1))"

section \<open>Following the components of the place\<close>

definition client_track_find_or_create ::
  "('j, 'd, 'p) media_env \<Rightarrow> media_subsystem list \<Rightarrow> u32 \<Rightarrow> media_type \<Rightarrow> 'j \<Rightarrow> 'd media_track list \<Rightarrow>
   'd media_track list option" where
  "client_track_find_or_create E subsystems i ty component ts =
     (case media_track_find ts i of
        Some n \<Rightarrow> if track_type (ts ! n) = ty then Some ts else None
      | None \<Rightarrow>
          (case media_track_create ts i ty of
             (ts', n) \<Rightarrow>
               (case choose_subsystem E subsystems (ts' ! n) component of
                  None \<Rightarrow> None
                | Some t \<Rightarrow>
                    if subsystem t = None then media_track_destroy (ts'[n := t]) n else Some (ts'[n := t]))))"

definition client_track_destroy :: "u32 \<Rightarrow> 'd media_track list \<Rightarrow> 'd media_track list option" where
  "client_track_destroy i ts =
     (case media_track_find ts i of None \<Rightarrow> Some ts | Some n \<Rightarrow> media_track_destroy ts n)"

text \<open>The track and the type that a \<open>live_media\<close> component describes.\<close>

definition described_track :: "'j cjson \<Rightarrow> 'j \<Rightarrow> (u32 \<times> media_type) option" where
  "described_track C cdata =
     (let ty = media_track_type_from_string (string_value C (GetObjectItemCS C cdata ''type''))
      in case GetObjectItemCS C cdata ''track_id'' of
           None \<Rightarrow> None
         | Some j \<Rightarrow> if ty = allo_media_type_invalid \<or> \<not> IsNumber C j then None else Some (valueint C j, ty))"

definition add_track_from_comp ::
  "('j, 'd, 'p) media_env \<Rightarrow> media_subsystem list \<Rightarrow> 'j option \<Rightarrow> 'd media_track list \<Rightarrow> 'd media_track list option" where
  "add_track_from_comp E subsystems cdata ts =
     (case cdata of
        None \<Rightarrow> Some ts
      | Some component \<Rightarrow>
          (case described_track (mj E) component of
             None \<Rightarrow> Some ts
           | Some (i, ty) \<Rightarrow> client_track_find_or_create E subsystems i ty component ts))"

definition remove_track_from_comp :: "'j cjson \<Rightarrow> 'j option \<Rightarrow> 'd media_track list \<Rightarrow> 'd media_track list option" where
  "remove_track_from_comp C cdata ts =
     (case get_cs C cdata ''track_id'' of
        None \<Rightarrow> Some ts
      | Some j \<Rightarrow> client_track_destroy (valueint C j) ts)"

definition media_handle_statediff ::
  "('j, 'd, 'p) media_env \<Rightarrow> media_subsystem list \<Rightarrow> 'j state_diff \<Rightarrow> 'd media_track list \<Rightarrow> 'd media_track list option" where
  "media_handle_statediff E subsystems diff ts =
     (let live = filter (\<lambda>r. ref_name r = ''live_media'')
      in case fold_opt (\<lambda>r. add_track_from_comp E subsystems (newdata r)) (live (new_components diff)) ts of
           None \<Rightarrow> None
         | Some ts1 \<Rightarrow>
             (case fold_opt (\<lambda>r ts. case remove_track_from_comp (mj E) (olddata r) ts of
                        None \<Rightarrow> None
                      | Some ts' \<Rightarrow> add_track_from_comp E subsystems (newdata r) ts')
                    (live (updated_components diff)) ts1 of
                None \<Rightarrow> None
              | Some ts2 \<Rightarrow> fold_opt (\<lambda>r. remove_track_from_comp (mj E) (olddata r)) (live (deleted_components diff)) ts2))"

section \<open>Receiving\<close>

datatype 'p media_callback =
  Audio_callback u32 "u16 list"
| Video_callback u32 'p i32 i32

text \<open>The packet of a track: its id, most significant byte first, and what the coder made.\<close>

definition packet_track :: "u8 list \<Rightarrow> u32 option" where
  "packet_track data =
     (case data of
        a # b # c # d # x # y # z # rest \<Rightarrow> Some (be32_get a b c d)
      | _ \<Rightarrow> None)"

text \<open>\<open>parse\<close> of a subsystem: the track after it, and the callback it makes.\<close>

definition subsystem_parse ::
  "('j, 'd, 'p) media_env \<Rightarrow> bool \<Rightarrow> bool \<Rightarrow> media_subsystem \<Rightarrow> 'd media_track \<Rightarrow> u8 list \<Rightarrow>
   ('d media_track \<times> 'p media_callback list) option" where
  "subsystem_parse E audio_callback video_callback s t data =
     (case s of
        Audio_subsystem \<Rightarrow>
          (case info t of
             Opus (Some d) \<Rightarrow>
               (case opus_decode E d data of
                  (None, d') \<Rightarrow> None
                | (Some pcm, d') \<Rightarrow>
                    Some (t\<lparr>info := Opus (Some d')\<rparr>, if audio_callback then [Audio_callback (track_id t) pcm] else []))
           | _ \<Rightarrow> None)
      | Mjpeg_subsystem \<Rightarrow>
          Some (t, if \<not> video_callback then []
                   else case jpeg_decode E data of
                          None \<Rightarrow> []
                        | Some (pixels, wide, high) \<Rightarrow> [Video_callback (track_id t) pixels wide high]))"

definition parse_media ::
  "('j, 'd, 'p) media_env \<Rightarrow> bool \<Rightarrow> bool \<Rightarrow> u8 list \<Rightarrow> 'd media_track list \<Rightarrow>
   ('d media_track list \<times> 'p media_callback list) option" where
  "parse_media E audio_callback video_callback data ts =
     (case packet_track data of
        None \<Rightarrow> None
      | Some i \<Rightarrow>
          (case media_track_find ts i of
             None \<Rightarrow> Some (ts, [])
           | Some n \<Rightarrow>
               (let t = (ts ! n)\<lparr>bitrates := bitrate_increment_received (bitrates (ts ! n)) (word_of_nat (length data))\<rparr>
                in case subsystem t of
                     None \<Rightarrow> None
                   | Some s \<Rightarrow>
                       map_option (\<lambda>(t', calls). (ts[n := t'], calls))
                         (subsystem_parse E audio_callback video_callback s t (drop 4 data)))))"

section \<open>Sending\<close>

text \<open>
  A packet that is sent counts for its track. \<open>accepted\<close> is what ENet says to the packet, which the
  functions assert; the result is the packet, if there is one.
\<close>

definition count_sent :: "u32 \<Rightarrow> nat \<Rightarrow> 'd media_track list \<Rightarrow> 'd media_track list" where
  "count_sent i n ts =
     (case media_track_find ts i of
        None \<Rightarrow> ts
      | Some k \<Rightarrow> ts[k := (ts ! k)\<lparr>bitrates := bitrate_increment_sent (bitrates (ts ! k)) (word_of_nat n)\<rparr>])"

definition alloclient_send_audio ::
  "('j, 'd, 'p) media_env \<Rightarrow> bool \<Rightarrow> bool \<Rightarrow> u32 \<Rightarrow> u16 list \<Rightarrow> 'd media_track list \<Rightarrow>
   (u8 list option \<times> 'd media_track list) option" where
  "alloclient_send_audio E is_connected accepted i pcm ts =
     (if length pcm \<noteq> 480 \<and> length pcm \<noteq> 960 then None
      else if \<not> is_connected then Some (None, ts)
      else case opus_encode E pcm of
             None \<Rightarrow> Some (None, ts)
           | Some bytes \<Rightarrow>
               if length bytes < 3 then Some (None, ts)
               else if \<not> accepted then None
               else Some (Some (be32 i @ bytes), count_sent i (4 + length bytes) ts))"

text \<open>
  The JPEG coder hands over its output piece by piece: the first makes the packet, after four bytes
  for the id, the others are appended.
\<close>

definition create_packet :: "u8 list option \<Rightarrow> u8 list \<Rightarrow> u8 list option" where
  "create_packet packet encoded =
     (case packet of None \<Rightarrow> Some ([0, 0, 0, 0] @ encoded) | Some p \<Rightarrow> Some (p @ encoded))"

definition mjpeg_encode :: "('j, 'd, 'p) media_env \<Rightarrow> 'p \<Rightarrow> u8 list option option" where
  "mjpeg_encode E picture =
     (if \<not> picture_is_rgba E picture then None else Some (foldl create_packet None (jpeg_chunks E picture)))"

definition alloclient_send_video ::
  "('j, 'd, 'p) media_env \<Rightarrow> bool \<Rightarrow> bool \<Rightarrow> u32 \<Rightarrow> 'p \<Rightarrow> 'd media_track list \<Rightarrow>
   (u8 list option \<times> 'd media_track list) option" where
  "alloclient_send_video E is_connected accepted i picture ts =
     (if \<not> is_connected then Some (None, ts)
      else case media_track_find ts i of
             None \<Rightarrow> Some (None, ts)
           | Some n \<Rightarrow>
               if track_type (ts ! n) \<noteq> allo_media_type_video then Some (None, ts)
               else if subsystem (ts ! n) \<noteq> Some Mjpeg_subsystem then None
               else (case mjpeg_encode E picture of
                       None \<Rightarrow> None
                     | Some None \<Rightarrow> Some (None, ts)
                     | Some (Some packet) \<Rightarrow>
                         if \<not> accepted then None
                         else Some (Some (blit packet 0 (be32 i)), count_sent i (length packet) ts)))"

end
