(* ===== verification/Uri.thy ===== *)
theory Uri
  imports Prelude
begin

text \<open>
  Splitting a URL into its parts, \<^verbatim>\<open>src/uri.h\<close>. Iterators are positions in the string; a range
  whose end is before its start is \<open>None\<close>.
\<close>

record uri =
  query_string :: string
  uri_path :: string
  protocol :: string
  host :: string
  uri_port :: string

definition empty_uri :: uri where
  "empty_uri = \<lparr>query_string = [], uri_path = [], protocol = [], host = [], uri_port = []\<rparr>"

text \<open>\<open>std::find\<close> in the part of a string from one position to another.\<close>

definition find_in :: "string \<Rightarrow> nat \<Rightarrow> nat \<Rightarrow> char \<Rightarrow> nat" where
  "find_in s i j c = i + length (takeWhile (\<lambda>d. d \<noteq> c) (take (j - i) (drop i s)))"

definition substring :: "string \<Rightarrow> nat \<Rightarrow> nat \<Rightarrow> string" where
  "substring s i j = take (j - i) (drop i s)"

definition protocol_end :: "string \<Rightarrow> string \<times> nat" where
  "protocol_end s =
     (let n = find_in s 0 (length s) (CHR '':''); prot = drop n s
      in if n \<noteq> length s \<and> 3 < length prot \<and> take 3 prot = ''://'' then (take n s, n + 3) else ([], 0))"

definition uri_parse :: "string \<Rightarrow> uri option" where
  "uri_parse s =
     (if s = [] then Some empty_uri
      else case protocol_end s of
             (prot, host_start) \<Rightarrow>
               (let uri_end = length s;
                    query_start = find_in s 0 uri_end (CHR ''?'');
                    path_start = find_in s host_start uri_end (CHR ''/'');
                    port_end = (if path_start \<noteq> uri_end then path_start else query_start)
                in if port_end < host_start \<or> path_start \<noteq> uri_end \<and> query_start < path_start then None
                   else
                     (let host_end = find_in s host_start port_end (CHR '':'')
                      in Some \<lparr>query_string = drop query_start s,
                               uri_path = (if path_start \<noteq> uri_end then substring s path_start query_start else []),
                               protocol = prot,
                               host = substring s host_start host_end,
                               uri_port = (if host_end \<noteq> uri_end \<and> s ! host_end = CHR '':''
                                           then substring s (host_end + 1) port_end else [])\<rparr>)))"

definition HostWithPort :: "uri \<Rightarrow> string" where
  "HostWithPort u = host u @ (if uri_port u \<noteq> [] then CHR '':'' # uri_port u else [])"

definition PathWithQuery :: "uri \<Rightarrow> string" where
  "PathWithQuery u = uri_path u @ query_string u"

section \<open>A URL and its parts\<close>

lemma takeWhile_stop: "c \<notin> set xs \<Longrightarrow> takeWhile (\<lambda>d. d \<noteq> c) (xs @ c # ys) = xs"
  by (induction xs) auto

lemma takeWhile_all: "c \<notin> set xs \<Longrightarrow> takeWhile (\<lambda>d. d \<noteq> c) xs = xs"
  by (induction xs) auto

text \<open>Finding a character in a text that is put together from pieces.\<close>

lemma find_first: "c \<notin> set xs \<Longrightarrow> length xs < j \<Longrightarrow> find_in (xs @ c # ys) 0 j c = length xs"
proof -
  assume a: "c \<notin> set xs" "length xs < j"
  then obtain k where "j - length xs = Suc k" by (metis Suc_diff_Suc)
  then show ?thesis using a by (simp add: find_in_def takeWhile_stop)
qed

lemma find_none: "c \<notin> set (take j s) \<Longrightarrow> j \<le> length s \<Longrightarrow> find_in s 0 j c = j"
  by (simp add: find_in_def takeWhile_all)

text \<open>
  A URL without a protocol, of a host, a port, a path and maybe a query, is taken apart so that the
  two strings the launcher uses, the host with its port and the path with its query, are its halves.
\<close>

theorem uri_splits:
  assumes "set h \<inter> {CHR ''/'', CHR '':'', CHR ''?''} = {}" and "set p \<inter> {CHR ''/'', CHR '':'', CHR ''?''} = {}" and "p \<noteq> []"
    and "CHR ''?'' \<notin> set path"
    and "s = (h @ CHR '':'' # p) @ (CHR ''/'' # path) @ CHR ''?'' # query"
  shows "\<exists>u. uri_parse s = Some u \<and> HostWithPort u = h @ CHR '':'' # p \<and>
    PathWithQuery u = CHR ''/'' # path @ CHR ''?'' # query"
proof -
  let ?hp = "h @ CHR '':'' # p" and ?path = "CHR ''/'' # path"
  have s1: "s = h @ CHR '':'' # (p @ ?path @ CHR ''?'' # query)" using assms(5) by simp
  have s2: "s = ?hp @ CHR ''/'' # (path @ CHR ''?'' # query)" using assms(5) by simp
  have s3: "s = (?hp @ ?path) @ CHR ''?'' # query" using assms(5) by simp
  have colon: "find_in s 0 (length s) (CHR '':'') = length h" unfolding s1 using assms(1) by (intro find_first) auto
  have slash: "find_in s 0 (length s) (CHR ''/'') = length ?hp" unfolding s2 using assms(1,2) by (intro find_first) auto
  have query: "find_in s 0 (length s) (CHR ''?'') = length (?hp @ ?path)"
    unfolding s3 using assms(1,2,4) by (intro find_first) auto
  have port: "find_in s 0 (length ?hp) (CHR '':'') = length h" unfolding s1 using assms(1) by (intro find_first) auto
  obtain c p' where p: "p = c # p'" "c \<noteq> CHR ''/''" using assms(2,3) by (cases p) auto
  have "protocol_end s = ([], 0)" unfolding protocol_end_def colon Let_def by (simp add: s1 p)
  moreover have "s ! length h = CHR '':''" by (simp add: s1)
  ultimately have "uri_parse s = Some \<lparr>query_string = CHR ''?'' # query, uri_path = ?path, protocol = [], host = h, uri_port = p\<rparr>"
    using colon slash query port assms(5) unfolding uri_parse_def substring_def Let_def by simp
  then show ?thesis using assms(3) by (simp add: HostWithPort_def PathWithQuery_def)
qed

theorem uri_splits_witness:
  "\<exists>u. uri_parse ''host:80/app?x=1'' = Some u \<and> HostWithPort u = ''host:80'' \<and> PathWithQuery u = ''/app?x=1''"
  using uri_splits [of "''host''" "''80''" "''app''" "''host:80/app?x=1''" "''x=1''"] by simp

end
