(* ===== verification/Place.thy ===== *)
theory Place
  imports Media Delta Simulation Uri
begin

text \<open>
  The server of a place, \<^verbatim>\<open>src/standalone_server.cpp\<close>: the agents that are connected, the entities they
  own, the interactions they have with the place, the media tracks it distributes and the ticks in
  which it simulates and sends the state. What is sent is recorded with the agent it goes to. Agents
  are known by their addresses. \<open>None\<close> is a null pointer that is followed, a failed assertion or the
  use of an entity or agent that has been freed.
\<close>

section \<open>State\<close>

record 'j agent =
  agent_at :: nat
  agent_id :: string
  avatar_entity_id :: "string option"
  identity :: "'j option"
  agent_intent :: client_intent

datatype place_event =
  Sent nat nat string
| Sent_media nat nat "u8 list"
| Disconnected nat int

record ('j, 'g) place_server =
  world :: "'j allo_state"
  agents :: "'j agent list"
  tracks :: "unit media_track list"
  next_free_track_id :: int
  launch_requests :: "(string \<times> allo_interaction) list"
  hist :: "'j statehistory"
  diff_cache :: diffcache
  last_simulate_at :: rat
  seed :: 'g
  events :: "place_event list"

text \<open>
  The libraries and settings: cJSON with its parser and printer, \<open>rand\<close>, the depth of entity trees,
  the name and the address of the place, the figures ENet keeps of an agent, and the POST request of
  the web client, which gives a status and a body unless the connection fails.
\<close>

record ('j, 'g) place_env =
  deltas :: "'j delta_env"
  parse :: "string \<Rightarrow> 'j option"
  parse_bytes :: "u8 list \<Rightarrow> 'j option"
  print :: "'j \<Rightarrow> string"
  rand :: "'g \<Rightarrow> nat \<times> 'g"
  depth :: nat
  lib :: simlib
  placename :: string
  placeurl :: string
  protocol_version :: i32
  agent_stats :: "'j allo_state \<Rightarrow> 'j agent \<Rightarrow> string"
  http_post :: "string \<Rightarrow> string \<Rightarrow> (string \<times> string) list \<Rightarrow> string \<Rightarrow> (nat \<times> string) option"

abbreviation pj :: "('j, 'g) place_env \<Rightarrow> 'j cjson" where
  "pj E \<equiv> dj (deltas E)"

definition alloerror_outdated_version :: int where "alloerror_outdated_version = 1003"
definition alloerror_kicked_by_admin :: int where "alloerror_kicked_by_admin = 1005"

section \<open>Helpers\<close>

definition log_event :: "place_event \<Rightarrow> ('j, 'g) place_server \<Rightarrow> ('j, 'g) place_server" where
  "log_event ev s = s\<lparr>events := events s @ [ev]\<rparr>"

definition send_interaction_to_client ::
  "('j, 'g) place_env \<Rightarrow> nat \<Rightarrow> allo_interaction \<Rightarrow> ('j, 'g) place_server \<Rightarrow> ('j, 'g) place_server" where
  "send_interaction_to_client E a i = log_event (Sent a CHANNEL_COMMANDS (print E (allo_interaction_to_cjson (pj E) (parse E) i)))"

text \<open>
  The response to a request, as every handler makes it: \<open>send_place_interaction_response\<close>, which most
  of them repeat in place.
\<close>

definition place_response :: "('j, 'g) place_env \<Rightarrow> string \<Rightarrow> string option \<Rightarrow> 'j \<Rightarrow> allo_interaction" where
  "place_response E receiver request respbody =
     allo_interaction_create (Some ''response'') (Some ''place'') (Some receiver) request (Some (print E respbody))"

definition send_place_interaction_response ::
  "('j, 'g) place_env \<Rightarrow> nat \<Rightarrow> allo_interaction \<Rightarrow> 'j \<Rightarrow> ('j, 'g) place_server \<Rightarrow> ('j, 'g) place_server" where
  "send_place_interaction_response E a request respbody =
     send_interaction_to_client E a (place_response E [] (request_id request) respbody)"

definition string_list :: "'j cjson \<Rightarrow> string list \<Rightarrow> 'j" where
  "string_list C ss = cjson_create_list C (map (Some \<circ> CreateString C) ss)"

text \<open>\<open>cJSON_DetachItemFromArray\<close> and \<open>cJSON_DetachItemFromObjectCaseSensitive\<close>: what is taken out, and what is left.\<close>

definition detach_item :: "'j cjson \<Rightarrow> 'j \<Rightarrow> int \<Rightarrow> 'j option \<times> 'j" where
  "detach_item C j i = (case GetArrayItem C j i of None \<Rightarrow> (None, j) | Some v \<Rightarrow> (Some v, DeleteItemFromArray C j i))"

definition detach_cs :: "'j cjson \<Rightarrow> 'j option \<Rightarrow> string \<Rightarrow> 'j option \<times> 'j option" where
  "detach_cs C j k =
     (case get_cs C j k of None \<Rightarrow> (None, j) | Some v \<Rightarrow> (Some v, map_option (\<lambda>x. DeleteItemFromObjectCS C x k) j))"

definition get_ci :: "'j cjson \<Rightarrow> 'j option \<Rightarrow> string \<Rightarrow> 'j option" where
  "get_ci C j k = (case j of None \<Rightarrow> None | Some x \<Rightarrow> GetObjectItem C x k)"

definition find_service :: "'j cjson \<Rightarrow> 'j allo_state \<Rightarrow> string option \<Rightarrow> 'j entity option" where
  "find_service C st by_servicename =
     (case by_servicename of
        None \<Rightarrow> None
      | Some name \<Rightarrow> List.find (\<lambda>e. string_value C (get_cs C (get_cs C (components e) ''service_discovery'') ''name'') = Some name)
                      (entities st))"

definition find_agent_by_id :: "('j, 'g) place_server \<Rightarrow> string option \<Rightarrow> 'j agent option" where
  "find_agent_by_id s by_id =
     (case by_id of None \<Rightarrow> None | Some i \<Rightarrow> List.find (\<lambda>a. agent_id a = i) (agents s))"

definition update_agent :: "nat \<Rightarrow> ('j agent \<Rightarrow> 'j agent) \<Rightarrow> ('j, 'g) place_server \<Rightarrow> ('j, 'g) place_server" where
  "update_agent a f s = s\<lparr>agents := map (\<lambda>c. if agent_at c = a then f c else c) (agents s)\<rparr>"

definition set_components :: "nat \<Rightarrow> 'j option \<Rightarrow> ('j, 'g) place_server \<Rightarrow> ('j, 'g) place_server" where
  "set_components a comps s = s\<lparr>world := (world s)\<lparr>entities :=
     map (\<lambda>e. if entity_at e = a then e\<lparr>components := comps\<rparr> else e) (entities (world s))\<rparr>\<rparr>"

text \<open>\<open>allo_state_add_entity_from_spec\<close> on the state of the server.\<close>

definition add_entity ::
  "('j, 'g) place_env \<Rightarrow> string option \<Rightarrow> 'j option \<Rightarrow> ('j, 'g) place_server \<Rightarrow> ('j entity \<times> ('j, 'g) place_server) option"
where
  "add_entity E owner spec s =
     (case allo_state_add_entity_from_spec (pj E) (rand E) (depth E) owner spec None (world s, seed s) of
        None \<Rightarrow> None
      | Some (a, st, g) \<Rightarrow> map_option (\<lambda>e. (e, s\<lparr>world := st, seed := g\<rparr>)) (entity_by_address st a))"

section \<open>Agents that come and go\<close>

definition agent_connected :: "('j, 'g) place_env \<Rightarrow> nat \<Rightarrow> ('j, 'g) place_server \<Rightarrow> ('j, 'g) place_server" where
  "agent_connected E a s =
     (case allo_generate_id (rand E) 16 (seed s) of
        (i, g) \<Rightarrow> s\<lparr>agents := \<lparr>agent_at = a, agent_id = i, avatar_entity_id = None, identity = None,
                      agent_intent = allo_client_intent_create\<rparr> # agents s, seed := g\<rparr>)"

text \<open>
  The loop of \<open>clients_changed\<close> over the entities: the next one is read before the current one is
  removed with its descendants. The entity is unlinked twice, which changes nothing the second time.
\<close>

fun next_address_of :: "nat \<Rightarrow> 'j entity list \<Rightarrow> nat option" where
  "next_address_of a [] = None"
| "next_address_of a (e # es) =
     (if entity_at e = a then (case es of [] \<Rightarrow> None | f # fs \<Rightarrow> Some (entity_at f)) else next_address_of a es)"

fun drop_entities :: "'j cjson \<Rightarrow> string \<Rightarrow> nat \<Rightarrow> nat option \<Rightarrow> 'j allo_state \<Rightarrow> 'j allo_state option" where
  "drop_entities C owner n None st = Some st"
| "drop_entities C owner 0 (Some a) st = None"
| "drop_entities C owner (Suc n) (Some a) st =
     (case entity_by_address st a of
        None \<Rightarrow> None
      | Some e \<Rightarrow>
          (let following = next_address_of a (entities st)
           in case owner_agent_id e of
                None \<Rightarrow> None
              | Some o' \<Rightarrow>
                  if o' = owner
                  then (case allo_state_remove_entity C st a AlloRemovalCascade of
                          None \<Rightarrow> None
                        | Some st' \<Rightarrow> drop_entities C owner n following st')
                  else drop_entities C owner n following st))"

text \<open>The loop over the tracks: one entry of the listeners is taken out, a track of the agent goes.\<close>

definition drop_tracks :: "nat \<Rightarrow> 'd media_track list \<Rightarrow> 'd media_track list" where
  "drop_tracks a ts =
     filter (\<lambda>t. origin t \<noteq> Some a) (map (\<lambda>t. t\<lparr>listeners := remove_first (\<lambda>l. l = a) (listeners t)\<rparr>) ts)"

definition clients_changed ::
  "('j, 'g) place_env \<Rightarrow> 'j agent option \<Rightarrow> ('j, 'g) place_server \<Rightarrow> ('j, 'g) place_server option" where
  "clients_changed E removed s =
     (case removed of
        None \<Rightarrow> Some s
      | Some r \<Rightarrow>
          map_option (\<lambda>st. s\<lparr>world := st, tracks := drop_tracks (agent_at r) (tracks s)\<rparr>)
            (drop_entities (pj E) (agent_id r) (length (entities (world s)))
               (map_option entity_at (case entities (world s) of [] \<Rightarrow> None | e # es \<Rightarrow> Some e)) (world s)))"

text \<open>A lost connection: the server unlinks the agent and calls \<open>clients_changed\<close>.\<close>

definition agent_lost :: "('j, 'g) place_env \<Rightarrow> 'j agent \<Rightarrow> ('j, 'g) place_server \<Rightarrow> ('j, 'g) place_server option" where
  "agent_lost E r s =
     clients_changed E (Some r) (s\<lparr>agents := remove_first (\<lambda>c. agent_at c = agent_at r) (agents s)\<rparr>)"

definition handle_intent :: "nat \<Rightarrow> client_intent \<Rightarrow> ('j, 'g) place_server \<Rightarrow> ('j, 'g) place_server" where
  "handle_intent a intent =
     update_agent a (\<lambda>c. c\<lparr>agent_intent :=
       (allo_client_intent_clone intent (agent_intent c))\<lparr>intent_entity_id := avatar_entity_id c\<rparr>\<rparr>)"

section \<open>Interactions with the place\<close>

type_synonym ('j, 'g) handler =
  "('j, 'g) place_env \<Rightarrow> nat \<Rightarrow> allo_interaction \<Rightarrow> 'j \<Rightarrow> ('j, 'g) place_server \<Rightarrow> ('j, 'g) place_server option"

definition handle_invalid_place_interaction ::
  "('j, 'g) place_env \<Rightarrow> nat \<Rightarrow> allo_interaction \<Rightarrow> 'j option \<Rightarrow> ('j, 'g) place_server \<Rightarrow> ('j, 'g) place_server option" where
  "handle_invalid_place_interaction E a i msg s =
     (case itype i of
        None \<Rightarrow> None
      | Some t \<Rightarrow>
          if t \<noteq> ''request'' then Some s
          else
            (let C = pj E; cmd = Option.bind msg (\<lambda>b. GetArrayItem C b 0)
             in Some (send_place_interaction_response E a i
                  (cjson_create_list C [map_option (CreateString C) (string_value C cmd), Some (CreateString C ''error''),
                     Some (CreateString C ''invalid request'')]) s)))"

text \<open>The app that a client asked for has come with the avatar token it was given.\<close>

definition handle_app_launched ::
  "('j, 'g) place_env \<Rightarrow> string \<Rightarrow> 'j entity \<Rightarrow> ('j, 'g) place_server \<Rightarrow> ('j, 'g) place_server" where
  "handle_app_launched E token ava s =
     (case List.find (\<lambda>r. fst r = token) (launch_requests s) of
        None \<Rightarrow> s
      | Some (t, req) \<Rightarrow>
          (let s' = s\<lparr>launch_requests := remove_first (\<lambda>r. fst r = token) (launch_requests s)\<rparr>
           in case state_get_entity (world s') (sender_entity_id req) of
                None \<Rightarrow> s'
              | Some requestor \<Rightarrow>
                  (case find_agent_by_id s' (owner_agent_id requestor) of
                     None \<Rightarrow> s'
                   | Some client \<Rightarrow>
                       send_interaction_to_client E (agent_at client)
                         (place_response E (case sender_entity_id req of None \<Rightarrow> [] | Some x \<Rightarrow> x) (request_id req)
                           (string_list (pj E) [''launch_app'', ''ok'', eid ava])) s')))"

definition handle_place_announce_interaction :: "('j, 'g) handler" where
  "handle_place_announce_interaction E a i msg s =
     (let C = pj E
      in case GetArrayItem C msg 2 of
           None \<Rightarrow> None
         | Some v \<Rightarrow>
             (let version = valueint C v;
                  ident = GetArrayItem C msg 4;
                  (avatar, msg') = detach_item C msg 6;
                  (avatarC, spec) = detach_cs C avatar ''avatar'';
                  tokenj = get_cs C avatarC ''token''
              in case (tokenj, string_value C tokenj) of
                   (Some _, None) \<Rightarrow> None
                 | (_, token) \<Rightarrow>
                     (case List.find (\<lambda>c. agent_at c = a) (agents s) of
                        None \<Rightarrow> None
                      | Some client \<Rightarrow>
                          (case add_entity E (Some (agent_id client)) spec s of
                             None \<Rightarrow> None
                           | Some (ava, s1) \<Rightarrow>
                               (let s2 = update_agent a (\<lambda>c. c\<lparr>avatar_entity_id := Some (eid ava), identity := ident\<rparr>) s1;
                                    s3 = (case token of None \<Rightarrow> s2 | Some t \<Rightarrow> handle_app_launched E t ava s2)
                                in Some (if version \<noteq> protocol_version E
                                     then log_event (Disconnected a alloerror_outdated_version)
                                       (send_place_interaction_response E a i
                                         (cjson_create_list C [Some (CreateString C ''announce''), Some (CreateString C ''error''),
                                            Some (CreateNumber C (of_int alloerror_outdated_version)),
                                            Some (CreateString C ''Please update your app. Outdated network protocol.'')]) s3)
                                     else send_place_interaction_response E a i
                                            (string_list C [''announce'', eid ava, placename E]) s3))))))"

definition handle_place_spawn_entity_interaction :: "('j, 'g) handler" where
  "handle_place_spawn_entity_interaction E a i msg s =
     (case List.find (\<lambda>c. agent_at c = a) (agents s) of
        None \<Rightarrow> None
      | Some client \<Rightarrow>
          map_option (\<lambda>(e, s1). send_place_interaction_response E a i (string_list (pj E) [''spawn_entity'', eid e]) s1)
            (add_entity E (Some (agent_id client)) (fst (detach_item (pj E) msg 1)) s))"

definition handle_place_remove_entity_interaction :: "('j, 'g) handler" where
  "handle_place_remove_entity_interaction E a i msg s =
     (let C = pj E;
          (jeid, body1) = detach_item C msg 1;
          (jmodes, body2) = detach_item C body1 2;
          mode = (if string_value C jmodes = Some ''reparent'' then AlloRemovalReparent else AlloRemovalCascade)
      in map_option (\<lambda>(ok, st). send_place_interaction_response E a i
             (string_list C [''remove_entity'', if ok then ''ok'' else ''failed'']) (s\<lparr>world := st\<rparr>))
           (case string_value C jeid of
              None \<Rightarrow> Some (False, world s)
            | Some x \<Rightarrow> allo_state_remove_entity_id C (world s) x mode))"

text \<open>
  Changing components: each new one replaces the one of its name, without regard to case. Then the
  ones that are named in the array at place 5 are deleted.
\<close>

definition replace_components :: "'j cjson \<Rightarrow> 'j \<Rightarrow> 'j option \<Rightarrow> 'j option" where
  "replace_components C news comps =
     (if IsObject C news
      then fold (\<lambda>(k, v) cs. map_option (\<lambda>c. AddItemToObject C (DeleteItemFromObject C c k) k v) cs) (chain C news) comps
      else comps)"

definition delete_components :: "'j cjson \<Rightarrow> 'j option \<Rightarrow> 'j option \<Rightarrow> 'j option" where
  "delete_components C names comps =
     fold (\<lambda>(_, n) cs. case string_value C (Some n) of
         None \<Rightarrow> cs
       | Some k \<Rightarrow> map_option (\<lambda>c. DeleteItemFromObject C c k) cs) (chain_of C names) comps"

definition handle_place_change_components_interaction :: "('j, 'g) handler" where
  "handle_place_change_components_interaction E a i msg s =
     (let C = pj E
      in case GetArrayItem C msg 1 of
           None \<Rightarrow> None
         | Some entity_id \<Rightarrow>
             (let (comps, msg') = detach_item C msg 3;
                  rmcomps = GetArrayItem C msg' 5
              in case state_get_entity (world s) (string_value C (Some entity_id)) of
                   None \<Rightarrow> Some (send_place_interaction_response E a i
                            (string_list C [''change_components'', ''error'', ''no such entity'']) s)
                 | Some e \<Rightarrow>
                     (case comps of
                        None \<Rightarrow> None
                      | Some news \<Rightarrow>
                          Some (send_place_interaction_response E a i (string_list C [''change_components'', ''ok''])
                            (set_components (entity_at e)
                               (delete_components C rmcomps (replace_components C news (components e))) s)))))"

section \<open>Media tracks of the place\<close>

definition handle_place_allocate_track_interaction :: "('j, 'g) handler" where
  "handle_place_allocate_track_interaction E a i msg s =
     (let C = pj E; entity = state_get_entity (world s) (sender_entity_id i)
      in case entity of
           None \<Rightarrow> Some (send_place_interaction_response E a i
                    (string_list C [''allocate_track'', ''failed'', ''only one track allowed per entity'']) s)
         | Some e \<Rightarrow>
             if get_ci C (components e) ''live_media'' \<noteq> None
             then Some (send_place_interaction_response E a i
                    (string_list C [''allocate_track'', ''failed'', ''only one track allowed per entity'']) s)
             else
               (case GetArrayItem C msg 1 of
                  None \<Rightarrow> None
                | Some media_type \<Rightarrow>
                    (let n = next_free_track_id s;
                         mediacomp = create_object_until C
                           [(''track_id'', Some (CreateNumber C (of_int n))),
                            (''type'', Some (cjson_clear C media_type)),
                            (''format'', map_option (cjson_clear C) (GetArrayItem C msg 2)),
                            (''metadata'', GetArrayItem C msg 3)];
                         (ts, k) = media_track_find_or_create (tracks s) (word_of_int n)
                           (media_track_type_from_string (string_value C (Some media_type)))
                     in if n = 2147483647 then None
                        else Some (send_place_interaction_response E a i
                               (cjson_create_list C [Some (CreateString C ''allocate_track''), Some (CreateString C ''ok''),
                                  Some (CreateNumber C (of_int n))])
                               (set_components (entity_at e)
                                  (map_option (\<lambda>c. AddItemToObject C c ''live_media'' mediacomp) (components e))
                                  (s\<lparr>next_free_track_id := n + 1, tracks := ts[k := (ts ! k)\<lparr>origin := Some a\<rparr>]\<rparr>))))))"

definition handle_place_media_track_interaction :: "('j, 'g) handler" where
  "handle_place_media_track_interaction E a i msg s =
     (let C = pj E;
          answer = (\<lambda>words s. Some (send_place_interaction_response E a i (string_list C (''media_track'' # words)) s))
      in case (GetArrayItem C msg 1, string_value C (GetArrayItem C msg 2)) of
           (Some j, Some verb) \<Rightarrow>
             if \<not> IsNumber C j then answer [''failed'', ''missing id or verb''] s
             else
               (let i' = valueint C j
                in case media_track_find (tracks s) i' of
                     None \<Rightarrow> answer [''failed'', ''invalid track id''] s
                   | Some n \<Rightarrow>
                       (let t = tracks s ! n;
                            ok = cjson_create_list C [Some (CreateString C ''media_track''), Some (CreateString C ''ok''),
                              Some (CreateNumber C (of_nat (unat i')))];
                            change = (\<lambda>ls. Some (send_place_interaction_response E a i ok
                              (s\<lparr>tracks := (tracks s)[n := t\<lparr>listeners := ls\<rparr>]\<rparr>)))
                        in if verb = ''subscribe'' then change (listeners t @ [a])
                           else if verb = ''unsubscribe'' then change (remove_first (\<lambda>l. l = a) (listeners t))
                           else answer [''failed'', ''incorrect verb''] s))
         | _ \<Rightarrow> answer [''failed'', ''missing id or verb''] s)"

section \<open>Animations of the place\<close>

definition with_animation :: "'j cjson \<Rightarrow> string \<Rightarrow> 'j \<Rightarrow> 'j \<Rightarrow> 'j" where
  "with_animation C anim_id spec comps =
     (let comps1 = (if GetObjectItemCS C comps ''property_animations'' = None
            then AddItemToObject C comps ''property_animations''
                   (cjson_create_object C [(''animations'', CreateObject C)]) else comps)
      in case GetObjectItemCS C comps1 ''property_animations'' of
           None \<Rightarrow> comps1
         | Some pa \<Rightarrow>
             (case GetObjectItemCS C pa ''animations'' of
                None \<Rightarrow> comps1
              | Some anims \<Rightarrow>
                  put_cs C comps1 ''property_animations'' (put_cs C pa ''animations'' (AddItemToObject C anims anim_id spec))))"

definition handle_place_add_property_animation_interaction :: "('j, 'g) handler" where
  "handle_place_add_property_animation_interaction E a i msg s =
     (let C = pj E; spec = fst (detach_item C msg 1)
      in if get_ci C spec ''path'' \<noteq> None \<and> get_ci C spec ''from'' \<noteq> None \<and> get_ci C spec ''to'' \<noteq> None
         then (case state_get_entity (world s) (sender_entity_id i) of
                 None \<Rightarrow> None
               | Some e \<Rightarrow>
                   (case allo_generate_id (rand E) 8 (seed s) of
                      (anim_id, g) \<Rightarrow>
                        Some (send_place_interaction_response E a i
                          (string_list C [''add_property_animation'', ''ok'', anim_id])
                          (set_components (entity_at e) (map_option (with_animation C anim_id (the spec)) (components e))
                            (s\<lparr>seed := g\<rparr>)))))
         else Some (send_place_interaction_response E a i
                (string_list C [''add_property_animation'', ''failed'', ''invalid argument'']) s))"

text \<open>\<open>can't remove that animation because it doesn't exist\<close>, where 39 is the apostrophe.\<close>

definition no_such_animation :: string where
  "no_such_animation = ''can'' @ char_of (39 :: nat) # ''t remove that animation because it doesn'' @
     char_of (39 :: nat) # ''t exist''"

definition handle_place_remove_property_animation_interaction :: "('j, 'g) handler" where
  "handle_place_remove_property_animation_interaction E a i msg s =
     (let C = pj E;
          failed = (\<lambda>e. Some (send_place_interaction_response E a i
            (string_list C [''remove_property_animation'', ''failed'', e]) s))
      in case string_value C (GetArrayItem C msg 1) of
           None \<Rightarrow> failed ''missing animation ID''
         | Some anim_id \<Rightarrow>
             (case state_get_entity (world s) (sender_entity_id i) of
                None \<Rightarrow> None
              | Some e \<Rightarrow>
                  (let pa = get_cs C (components e) ''property_animations'';
                       anims = get_cs C pa ''animations''
                   in case (components e, pa, anims, get_cs C anims anim_id) of
                        (Some c, Some p, Some l, Some anim) \<Rightarrow>
                          Some (send_place_interaction_response E a i
                            (string_list C [''remove_property_animation'', ''ok'', anim_id])
                            (set_components (entity_at e)
                               (Some (put_cs C c ''property_animations'' (put_cs C p ''animations''
                                  (DeleteItemFromObjectCS C l anim_id)))) s))
                      | _ \<Rightarrow> failed no_such_animation)))"

section \<open>Agents of the place\<close>

text \<open>What an agent is listed as; the entity of its avatar is followed without a check.\<close>

definition describe_agent :: "('j, 'g) place_env \<Rightarrow> 'j allo_state \<Rightarrow> 'j agent \<Rightarrow> 'j option" where
  "describe_agent E st c =
     (let C = pj E
      in case state_get_entity st (avatar_entity_id c) of
           None \<Rightarrow> None
         | Some ent \<Rightarrow> Some (create_object_until C
             [(''display_name'', map_option (cjson_clear C) (get_cs C (identity c) ''display_name'')),
              (''agent_id'', Some (CreateString C (agent_id c))),
              (''avatar_id'', map_option (CreateString C) (avatar_entity_id c)),
              (''is_visor'', Some (CreateBool C (get_cs C (components ent) ''visor'' \<noteq> None))),
              (''stats'', Some (CreateString C (agent_stats E st c)))]))"

definition handle_place_list_agents_interaction :: "('j, 'g) handler" where
  "handle_place_list_agents_interaction E a i msg s =
     (let C = pj E
      in map_option (\<lambda>agentlist. send_place_interaction_response E a i
             (cjson_create_list C [Some (CreateString C ''list_agents''), Some (CreateString C ''ok''), Some agentlist]) s)
           (fold_opt (\<lambda>c l. map_option (AddItemToArray C l) (describe_agent E (world s) c)) (agents s) (CreateArray C)))"

definition handle_place_kick_agent_interaction :: "('j, 'g) handler" where
  "handle_place_kick_agent_interaction E a i msg s =
     (let C = pj E
      in case string_value C (GetArrayItem C msg 1) of
           None \<Rightarrow> handle_invalid_place_interaction E a i (Some msg) s
         | Some kicked \<Rightarrow>
             Some (case find_agent_by_id s (Some kicked) of
                     Some c \<Rightarrow> send_place_interaction_response E a i (string_list C [''list_agents'', ''ok''])
                                 (log_event (Disconnected (agent_at c) alloerror_kicked_by_admin) s)
                   | None \<Rightarrow> send_place_interaction_response E a i
                                 (string_list C [''list_agents'', ''error'', ''agent not found'']) s))"

text \<open>\<open>std::regex_replace\<close> of a line feed by a backslash and an n.\<close>

definition escape_newlines :: "string \<Rightarrow> string" where
  "escape_newlines t = concat (map (\<lambda>c. if c = char_of (10 :: nat) then [char_of (92 :: nat), CHR ''n''] else [c]) t)"

definition handle_place_launch_app_interaction :: "('j, 'g) handler" where
  "handle_place_launch_app_interaction E a i msg s =
     (let C = pj E
      in case string_value C (GetArrayItem C msg 1) of
           None \<Rightarrow> None
         | Some app_url \<Rightarrow>
             (let (args0, msg') = detach_item C msg 2;
                  (token, g) = allo_generate_id (rand E) 19 (seed s);
                  args = AddItemToObject C (case args0 of None \<Rightarrow> CreateObject C | Some x \<Rightarrow> x) ''avatarToken'' (CreateString C token);
                  s1 = s\<lparr>seed := g\<rparr>
              in if take 8 app_url \<noteq> ''alloapp:'' then handle_invalid_place_interaction E a i (Some msg') s1
                 else
                   (case state_get_entity (world s) (sender_entity_id i) of
                      None \<Rightarrow> None
                    | Some reqent \<Rightarrow>
                        (case Option.bind (find_agent_by_id s (owner_agent_id reqent)) identity of
                           None \<Rightarrow> None
                         | Some ident \<Rightarrow>
                             (case uri_parse (drop 8 app_url) of
                                None \<Rightarrow> None
                              | Some u \<Rightarrow>
                                  (let failed = (\<lambda>err. Some (send_place_interaction_response E a i
                                         (string_list C [''launch_app'', ''error'', err]) s1))
                                   in case http_post E (HostWithPort u) (PathWithQuery u)
                                          [(''x-alloverse-server'', placeurl E),
                                           (''x-alloverse-launched-by'', escape_newlines (print E ident))] (print E args) of
                                        None \<Rightarrow> failed ''Failed connection to app gateway''
                                      | Some (status, answer) \<Rightarrow>
                                          if status \<noteq> 200 then failed answer
                                          else Some (s1\<lparr>launch_requests := launch_requests s1 @
                                                 [(token, allo_interaction_clone i)]\<rparr>)))))))"

section \<open>Dispatch\<close>

definition place_handlers :: "(string \<times> ('j, 'g) handler) list" where
  "place_handlers =
     [(''announce'', handle_place_announce_interaction),
      (''change_components'', handle_place_change_components_interaction),
      (''spawn_entity'', handle_place_spawn_entity_interaction),
      (''remove_entity'', handle_place_remove_entity_interaction),
      (''allocate_track'', handle_place_allocate_track_interaction),
      (''media_track'', handle_place_media_track_interaction),
      (''add_property_animation'', handle_place_add_property_animation_interaction),
      (''remove_property_animation'', handle_place_remove_property_animation_interaction),
      (''list_agents'', handle_place_list_agents_interaction),
      (''kick_agent'', handle_place_kick_agent_interaction),
      (''launch_app'', handle_place_launch_app_interaction)]"

definition handle_place_interaction ::
  "('j, 'g) place_env \<Rightarrow> nat \<Rightarrow> allo_interaction \<Rightarrow> ('j, 'g) place_server \<Rightarrow> ('j, 'g) place_server option" where
  "handle_place_interaction E a i s =
     (case Option.bind (body i) (parse E) of
        None \<Rightarrow> None
      | Some msg \<Rightarrow>
          (case string_value (pj E) (GetArrayItem (pj E) msg 0) of
             None \<Rightarrow> None
           | Some name \<Rightarrow>
               map_option (\<lambda>s'. s'\<lparr>last_simulate_at := 0\<rparr>)
                 (case map_of place_handlers name of
                    Some h \<Rightarrow> h E a i msg s
                  | None \<Rightarrow> handle_invalid_place_interaction E a i (Some msg) s)))"

definition handle_interaction ::
  "('j, 'g) place_env \<Rightarrow> nat \<Rightarrow> allo_interaction \<Rightarrow> ('j, 'g) place_server \<Rightarrow> ('j, 'g) place_server option" where
  "handle_interaction E a i s =
     (case receiver_entity_id i of
        None \<Rightarrow> None
      | Some receiver \<Rightarrow>
          if receiver = ''place'' then handle_place_interaction E a i s
          else
            (case Option.bind (state_get_entity (world s) (Some receiver)) (\<lambda>e. find_agent_by_id s (owner_agent_id e)) of
               Some c \<Rightarrow> Some (send_interaction_to_client E (agent_at c) i s)
             | None \<Rightarrow> handle_invalid_place_interaction E a i (Option.bind (body i) (parse E)) s))"

definition handle_clock ::
  "('j, 'g) place_env \<Rightarrow> nat \<Rightarrow> 'j option \<Rightarrow> rat \<Rightarrow> ('j, 'g) place_server \<Rightarrow> ('j, 'g) place_server option" where
  "handle_clock E a cmd now s =
     (let C = pj E
      in case cmd of
           None \<Rightarrow> None
         | Some j \<Rightarrow>
             (let j' = (case GetObjectItemCS C j ''server_time'' of
                    None \<Rightarrow> AddItemToObject C j ''server_time'' (SetNumberValue C (CreateNumber C 0) now)
                  | Some t \<Rightarrow> put_cs C j ''server_time'' (SetNumberValue C t now))
              in Some (log_event (Sent a CHANNEL_CLOCK (print E j')) s)))"

text \<open>A listener that has been freed is not followed without harm.\<close>

definition handle_media ::
  "nat \<Rightarrow> u8 list \<Rightarrow> nat \<Rightarrow> ('j, 'g) place_server \<Rightarrow> ('j, 'g) place_server option" where
  "handle_media a data channel s =
     (case packet_track data of
        None \<Rightarrow> None
      | Some i \<Rightarrow>
          (case media_track_find (tracks s) i of
             None \<Rightarrow> Some s
           | Some n \<Rightarrow>
               if origin (tracks s ! n) \<noteq> Some a then Some s
               else fold_opt (\<lambda>l s. if l \<in> agent_at ` set (agents s) then Some (log_event (Sent_media l channel data) s) else None)
                      (listeners (tracks s ! n)) s))"

definition received_from_client ::
  "('j, 'g) place_env \<Rightarrow> nat \<Rightarrow> nat \<Rightarrow> u8 list \<Rightarrow> rat \<Rightarrow> ('j, 'g) place_server \<Rightarrow> ('j, 'g) place_server option" where
  "received_from_client E a channel data now s =
     (if channel = CHANNEL_STATEDIFFS
      then (case allo_client_intent_parse_cjson (pj E) (get_cs (pj E) (parse_bytes E data) ''intent'') of
              None \<Rightarrow> None
            | Some intent \<Rightarrow> Some (handle_intent a intent s))
      else if channel = CHANNEL_COMMANDS
      then (case Option.bind (parse_bytes E data) (allo_interaction_parse_cjson (pj E) (print E)) of
              None \<Rightarrow> None
            | Some i \<Rightarrow> handle_interaction E a i s)
      else if channel = CHANNEL_CLOCK then handle_clock E a (parse_bytes E data) now s
      else if channel = CHANNEL_VIDEO \<or> channel = CHANNEL_AUDIO then handle_media a data channel s
      else Some s)"

section \<open>Ticks\<close>

text \<open>The revision starts over before it is too large for a number in JSON.\<close>

definition next_revision :: "u64 \<Rightarrow> u64" where
  "next_revision r = (if r + 1 = 9007199254740990 then 0 else r + 1)"

fun send_deltas ::
  "('j, 'g) place_env \<Rightarrow> 'j agent list \<Rightarrow> ('j, 'g) place_server \<Rightarrow> ('j, 'g) place_server option" where
  "send_deltas E [] s = Some s"
| "send_deltas E (c # cs) s =
     (case allo_delta_compute (deltas E) (diff_cache s) (hist s) (sint (ack_state_rev (agent_intent c))) of
        None \<Rightarrow> None
      | Some (text, cache, h) \<Rightarrow>
          send_deltas E cs (log_event (Sent (agent_at c) CHANNEL_STATEDIFFS text) (s\<lparr>diff_cache := cache, hist := h\<rparr>)))"

definition broadcast_server_state :: "('j, 'g) place_env \<Rightarrow> ('j, 'g) place_server \<Rightarrow> ('j, 'g) place_server option" where
  "broadcast_server_state E s =
     (let s1 = s\<lparr>world := (world s)\<lparr>revision := next_revision (revision (world s))\<rparr>\<rparr>;
          m = allo_state_to_json (pj E) (world s1) False
      in case allo_delta_insert (pj E) (hist s1) m of
           None \<Rightarrow> None
         | Some h \<Rightarrow> send_deltas E (agents s1) (s1\<lparr>hist := h\<rparr>))"

text \<open>\<open>step\<close> after the events of the network: the intents of the first 32 agents are simulated.\<close>

definition tick :: "('j, 'g) place_env \<Rightarrow> rat \<Rightarrow> rat \<Rightarrow> ('j, 'g) place_server \<Rightarrow> ('j, 'g) place_server option" where
  "tick E goalDt now s =
     (if now < last_simulate_at s + goalDt then Some s
      else
        (let intents = map agent_intent (take 32 (agents s))
         in case allo_simulate (lib E) (pj E) (depth E) intents now (world s, None) of
              None \<Rightarrow> None
            | Some (st, _) \<Rightarrow> broadcast_server_state E (s\<lparr>last_simulate_at := now, world := st\<rparr>)))"

section \<open>Start\<close>

definition add_place :: "('j, 'g) place_env \<Rightarrow> ('j, 'g) place_server \<Rightarrow> ('j, 'g) place_server option" where
  "add_place E s =
     (let C = pj E;
          spec = cjson_create_object C
            [(''transform'', cjson_create_object C [(''matrix'', m2cjson C (allo_m4x4_translate (vec 0 0 0)))]),
             (''clock'', cjson_create_object C [(''time'', CreateNumber C 0)])]
      in map_option (\<lambda>(e, s'). s'\<lparr>world := set_eid (entity_at e) ''place'' (world s')\<rparr>) (add_entity E None (Some spec) s))"

definition start_standalone :: "('j, 'g) place_env \<Rightarrow> 'g \<Rightarrow> ('j, 'g) place_server option" where
  "start_standalone E g =
     add_place E \<lparr>world = allo_state_init, agents = [], tracks = [], next_free_track_id = 1, launch_requests = [],
       hist = statehistory_new, diff_cache = replicate 64 None, last_simulate_at = 0, seed = g, events = []\<rparr>"

end
