(* ===== verification/Place_Correct.thy ===== *)
theory Place_Correct
  imports Place State_Correct Simulation_Correct
begin

text \<open>
  The server of a place: requests are answered, media go to the listeners of their track, track ids
  stay unique, and a lost agent takes its entities along; and the messages and the agents that the
  server does not handle as it means to.
\<close>

section \<open>What handlers leave alone\<close>

lemma log_event_simps [simp]:
  "world (log_event ev s) = world s" "agents (log_event ev s) = agents s" "tracks (log_event ev s) = tracks s"
  "next_free_track_id (log_event ev s) = next_free_track_id s" "launch_requests (log_event ev s) = launch_requests s"
  "events (log_event ev s) = events s @ [ev]"
  by (simp_all add: log_event_def)

lemma update_agent_simps [simp]:
  "world (update_agent a f s) = world s" "tracks (update_agent a f s) = tracks s"
  "next_free_track_id (update_agent a f s) = next_free_track_id s" "events (update_agent a f s) = events s"
  by (simp_all add: update_agent_def)

lemma set_components_simps [simp]:
  "agents (set_components a c s) = agents s" "tracks (set_components a c s) = tracks s"
  "next_free_track_id (set_components a c s) = next_free_track_id s" "events (set_components a c s) = events s"
  "launch_requests (set_components a c s) = launch_requests s"
  by (simp_all add: set_components_def)

lemma send_simps [simp]:
  "world (send_interaction_to_client E a i s) = world s" "agents (send_interaction_to_client E a i s) = agents s"
  "tracks (send_interaction_to_client E a i s) = tracks s"
  "next_free_track_id (send_interaction_to_client E a i s) = next_free_track_id s"
  "launch_requests (send_interaction_to_client E a i s) = launch_requests s"
  "events (send_interaction_to_client E a i s) =
     events s @ [Sent a CHANNEL_COMMANDS (print E (allo_interaction_to_cjson (pj E) (parse E) i))]"
  by (simp_all add: send_interaction_to_client_def)

lemma add_entity_simps:
  assumes "add_entity E owner spec s = Some (e, s')"
  shows "agents s' = agents s" "tracks s' = tracks s" "next_free_track_id s' = next_free_track_id s"
    "events s' = events s" "launch_requests s' = launch_requests s"
  using assms by (auto simp: add_entity_def split: option.splits)

lemma app_launched_simps [simp]:
  "agents (handle_app_launched E t e s) = agents s" "tracks (handle_app_launched E t e s) = tracks s"
  "next_free_track_id (handle_app_launched E t e s) = next_free_track_id s"
  by (simp_all add: handle_app_launched_def Let_def split: option.split)

section \<open>Requests are answered\<close>

definition answer_event :: "('j, 'g) place_env \<Rightarrow> nat \<Rightarrow> allo_interaction \<Rightarrow> 'j \<Rightarrow> place_event" where
  "answer_event E a i respbody =
     Sent a CHANNEL_COMMANDS (print E (allo_interaction_to_cjson (pj E) (parse E) (place_response E [] (request_id i) respbody)))"

text \<open>Among the events since \<open>s\<close> is a response to the request, sent to the agent that made it.\<close>

definition answered ::
  "('j, 'g) place_env \<Rightarrow> nat \<Rightarrow> allo_interaction \<Rightarrow> ('j, 'g) place_server \<Rightarrow> ('j, 'g) place_server \<Rightarrow> bool" where
  "answered E a i s s' \<longleftrightarrow> (\<exists>evs respbody. events s' = events s @ evs \<and> answer_event E a i respbody \<in> set evs)"

lemma answered_response:
  "events s1 = events s @ evs \<Longrightarrow> answered E a i s (send_place_interaction_response E a i respbody s1)"
  by (auto simp: answered_def send_place_interaction_response_def answer_event_def)

lemma answered_same [simp, intro]:
  "events s1 = events s \<Longrightarrow> answered E a i s (send_place_interaction_response E a i respbody s1)"
  by (rule answered_response [of _ _ "[]"]) simp

lemma answered_log: "answered E a i s s' \<Longrightarrow> answered E a i s (log_event ev s')"
  by (auto simp: answered_def)

lemma app_launched_events: "\<exists>evs. events (handle_app_launched E t e s) = events s @ evs"
  by (auto simp: handle_app_launched_def Let_def split: option.split)

lemma invalid_answered:
  "handle_invalid_place_interaction E a i msg s1 = Some s' \<Longrightarrow> itype i = Some ''request'' \<Longrightarrow>
   events s1 = events s \<Longrightarrow> answered E a i s s'"
  by (auto simp: handle_invalid_place_interaction_def Let_def)

lemma answered_launched:
  assumes "events s1 = events s"
  shows "answered E a i s (send_place_interaction_response E a i respbody (handle_app_launched E t e s1))"
proof -
  obtain evs where "events (handle_app_launched E t e s1) = events s @ evs"
    using app_launched_events [of E t e s1] assms by auto
  then show ?thesis by (rule answered_response)
qed

lemma announce_answered: "handle_place_announce_interaction E a i msg s = Some s' \<Longrightarrow> answered E a i s s'"
  by (auto simp: handle_place_announce_interaction_def Let_def dest!: add_entity_simps(4)
      intro!: answered_log answered_same answered_launched split: option.splits prod.splits if_splits)

lemma place_handlers_answer:
  "handle_place_change_components_interaction E a i msg s = Some s' \<Longrightarrow> answered E a i s s'"
  "handle_place_spawn_entity_interaction E a i msg s = Some s' \<Longrightarrow> answered E a i s s'"
  "handle_place_remove_entity_interaction E a i msg s = Some s' \<Longrightarrow> answered E a i s s'"
  "handle_place_allocate_track_interaction E a i msg s = Some s' \<Longrightarrow> answered E a i s s'"
  "handle_place_media_track_interaction E a i msg s = Some s' \<Longrightarrow> answered E a i s s'"
  "handle_place_add_property_animation_interaction E a i msg s = Some s' \<Longrightarrow> answered E a i s s'"
  "handle_place_remove_property_animation_interaction E a i msg s = Some s' \<Longrightarrow> answered E a i s s'"
  "handle_place_list_agents_interaction E a i msg s = Some s' \<Longrightarrow> answered E a i s s'"
  by (auto simp: handle_place_change_components_interaction_def handle_place_spawn_entity_interaction_def
      handle_place_remove_entity_interaction_def handle_place_allocate_track_interaction_def
      handle_place_media_track_interaction_def handle_place_add_property_animation_interaction_def
      handle_place_remove_property_animation_interaction_def handle_place_list_agents_interaction_def Let_def
      dest: add_entity_simps split: option.splits prod.splits if_splits)


lemma kick_answered:
  "handle_place_kick_agent_interaction E a i msg s = Some s' \<Longrightarrow> itype i = Some ''request'' \<Longrightarrow> answered E a i s s'"
  by (auto simp: handle_place_kick_agent_interaction_def Let_def intro: invalid_answered
      intro!: answered_response [of "log_event _ s" _ "[_]"] split: option.splits)

lemma launch_answered:
  "handle_place_launch_app_interaction E a i msg s = Some s' \<Longrightarrow> itype i = Some ''request'' \<Longrightarrow>
   answered E a i s s' \<or> (\<exists>token. launch_requests s' = launch_requests s @ [(token, i)])"
  by (auto simp: handle_place_launch_app_interaction_def allo_interaction_clone_def allo_interaction_create_def Let_def
      intro: invalid_answered split: option.splits prod.splits if_splits)

text \<open>What a request asks for, and the environment whose parser reads the message \<open>msg\<close>.\<close>

definition requested :: "('j, 'g) place_env \<Rightarrow> allo_interaction \<Rightarrow> string option" where
  "requested E i = Option.bind (Option.bind (body i) (parse E)) (\<lambda>msg. string_value (pj E) (GetArrayItem (pj E) msg 0))"

definition sample_place_env :: "json \<Rightarrow> (json, nat) place_env" where
  "sample_place_env msg = \<lparr>deltas = \<lparr>dj = json_ops, gen_patch = (\<lambda>old new. Some new), merge_patch = (\<lambda>old new. new),
       print_unformatted = (\<lambda>j. ''text'')\<rparr>,
     parse = (\<lambda>s. Some msg), parse_bytes = (\<lambda>bs. Some msg), print = (\<lambda>j. ''text''), rand = (\<lambda>n. (n, Suc n)),
     depth = 9, lib = approx_lib, placename = ''home'', placeurl = ''alloplace://home'', protocol_version = 3,
     agent_stats = (\<lambda>st c. ''''), http_post = (\<lambda>host path headers content. Some (200, ''''))\<rparr>"

definition sample_place_server :: "json entity list \<Rightarrow> (json, nat) place_server" where
  "sample_place_server es = \<lparr>world = \<lparr>revision = 1, entities = es, fresh_at = 50\<rparr>,
     agents = map (\<lambda>(a, n). \<lparr>agent_at = a, agent_id = n, avatar_entity_id = None, identity = Some (jobj []),
       agent_intent = allo_client_intent_create\<rparr>) [(7, ''a''), (8, ''b'')],
     tracks = [], next_free_track_id = 1, launch_requests = [], hist = statehistory_new,
     diff_cache = replicate 64 None, last_simulate_at = 0, seed = 0, events = []\<rparr>"

definition sample_request :: "string option \<Rightarrow> allo_interaction" where
  "sample_request sender = \<lparr>itype = Some ''request'', sender_entity_id = sender, receiver_entity_id = Some ''place'',
     request_id = Some ''1'', body = Some ''[]''\<rparr>"

lemma place_interaction_cases:
  assumes "handle_place_interaction E a i s = Some s'"
  obtains msg name s1 where "Option.bind (body i) (parse E) = Some msg"
    and "string_value (pj E) (GetArrayItem (pj E) msg 0) = Some name" and "s' = s1\<lparr>last_simulate_at := 0\<rparr>"
    and "(case map_of place_handlers name of Some h \<Rightarrow> h E a i msg s
          | None \<Rightarrow> handle_invalid_place_interaction E a i (Some msg) s) = Some s1"
  using assms by (auto simp: handle_place_interaction_def split: option.splits)

text \<open>
  C16. Every request to the place that the server survives is answered by a response to its sender; only a
  request to launch an app may be kept, to be answered when the app arrives.
\<close>

theorem place_request_answered:
  assumes "itype i = Some ''request''" and "handle_place_interaction E a i s = Some s'"
  shows "answered E a i s s' \<or>
    requested E i = Some ''launch_app'' \<and> (\<exists>token. launch_requests s' = launch_requests s @ [(token, i)])"
proof -
  obtain msg name s1 where m: "Option.bind (body i) (parse E) = Some msg"
    "string_value (pj E) (GetArrayItem (pj E) msg 0) = Some name" and s': "s' = s1\<lparr>last_simulate_at := 0\<rparr>"
    and h: "(case map_of place_handlers name of Some h \<Rightarrow> h E a i msg s
             | None \<Rightarrow> handle_invalid_place_interaction E a i (Some msg) s) = Some s1"
    using assms(2) by (rule place_interaction_cases)
  have "answered E a i s s1 \<or> name = ''launch_app'' \<and> (\<exists>token. launch_requests s1 = launch_requests s @ [(token, i)])"
    using h launch_answered [OF _ assms(1), of E a msg s s1] invalid_answered [OF _ assms(1), of E a "Some msg" s s1 s]
    by (auto simp: place_handlers_def split: if_splits
        dest: announce_answered place_handlers_answer kick_answered [OF _ assms(1)])
  then show ?thesis using m s' by (auto simp: requested_def answered_def)
qed

theorem place_request_answered_witness:
  "\<exists>s'. handle_place_interaction (sample_place_env (jarr [jstr ''media_track'', jnum 5, jstr ''subscribe''])) 7
     (sample_request None) (sample_place_server []) = Some s' \<and>
   answered (sample_place_env (jarr [jstr ''media_track'', jnum 5, jstr ''subscribe''])) 7 (sample_request None) (sample_place_server []) s'"
proof -
  let ?E = "sample_place_env (jarr [jstr ''media_track'', jnum 5, jstr ''subscribe''])"
  let ?r = "handle_place_interaction ?E 7 (sample_request None) (sample_place_server [])"
  have "?r \<noteq> None" by code_simp
  then obtain s' where s': "?r = Some s'" by auto
  have "itype (sample_request None) = Some ''request''" "requested ?E (sample_request None) \<noteq> Some ''launch_app''"
    by (simp add: sample_request_def) code_simp
  then show ?thesis using place_request_answered [OF _ s'] s' by blast
qed

section \<open>Places in a message that has been taken from\<close>

text \<open>What stands behind an item that is detached moves up by one place.\<close>

lemma detached_size:
  assumes "cjson_lib C" and "0 \<le> n" and "n < k" and "GetArraySize C msg \<le> k + 1"
  shows "GetArrayItem C (snd (detach_item C msg n)) k = None \<or> GetArrayItem C msg n = None"
proof (cases "GetArrayItem C msg n")
  case (Some v)
  then have n: "n < int (length (chain C msg))"
    using assms(2) by (simp add: cjson_lib.item_law [OF assms(1)] split: if_splits)
  have "length (items C (DeleteItemFromArray C msg n)) = length (chain C msg) - 1"
    unfolding cjson_lib.delete_array_law [OF assms(1,2) n] using n assms(2)
    by (subst length_splice_out) (simp_all add: items_def nat_less_iff Suc_le_eq)
  then have "int (length (chain C (DeleteItemFromArray C msg n))) \<le> k"
    using n assms(2,4) by (simp add: items_def cjson_lib.size_law [OF assms(1)])
  then show ?thesis using Some by (simp add: detach_item_def cjson_lib.item_law [OF assms(1)])
qed simp

theorem components_never_removed:
  assumes "cjson_lib (pj E)" and "GetArraySize (pj E) msg \<le> 6"
    and "GetArrayItem (pj E) msg 1 = Some j" and "state_get_entity (world s) (string_value (pj E) (Some j)) = Some e"
    and "GetArrayItem (pj E) msg 3 = Some news"
  shows "\<exists>s'. handle_place_change_components_interaction E a i msg s = Some s' \<and>
    world s' = world (set_components (entity_at e) (replace_components (pj E) news (components e)) s)"
proof -
  obtain msg' where d: "detach_item (pj E) msg 3 = (Some news, msg')"
    using assms(5) by (simp add: detach_item_def)
  have "GetArrayItem (pj E) msg' 5 = None"
    using detached_size [OF assms(1), of 3 5 msg] assms(2,5) d by simp
  then show ?thesis
    by (simp add: handle_place_change_components_interaction_def assms(3,4) d delete_components_def chain_of_def
        Let_def send_place_interaction_response_def)
qed

theorem components_never_removed_witness:
  "\<exists>s'. handle_place_change_components_interaction (sample_place_env (jobj [])) 7 (sample_request None)
     (jarr [jstr ''change_components'', jstr ''lamp'', jstr ''add_change'', jobj [], jstr ''remove'', jarr [jstr ''light'']])
     (sample_place_server [sample_body 4 ''lamp'' ''a'' [(''light'', jnum 1)]]) = Some s' \<and>
   map components (entities (world s')) = [Some (jobj [(''light'', jnum 1)])]"
  using components_never_removed [of "sample_place_env (jobj [])"
      "jarr [jstr ''change_components'', jstr ''lamp'', jstr ''add_change'', jobj [], jstr ''remove'', jarr [jstr ''light'']]"
      "jstr ''lamp''" "sample_place_server [sample_body 4 ''lamp'' ''a'' [(''light'', jnum 1)]]"
      "sample_body 4 ''lamp'' ''a'' [(''light'', jnum 1)]" "jobj []" 7 "sample_request None"] json.cjson_lib_axioms
  by (auto simp: sample_place_env_def json_eval string_value_def sample_place_server_def sample_body_def state_get_entity_def
      set_components_def replace_components_def)

theorem reparent_ignored:
  assumes "cjson_lib (pj E)" and "GetArraySize (pj E) msg \<le> 3"
    and "string_value (pj E) (GetArrayItem (pj E) msg 1) = Some x" and "state_get_entity (world s) (Some x) = Some e"
    and "entities_ok (entities (world s))"
  shows "\<exists>s'. handle_place_remove_entity_interaction E a i msg s = Some s' \<and>
    entities (world s') = filter (\<lambda>f. \<not> descends (pj E) (entities (world s)) (entity_at e) f) (entities (world s))"
proof -
  obtain j where j: "GetArrayItem (pj E) msg 1 = Some j"
    using assms(3) by (cases "GetArrayItem (pj E) msg 1") auto
  then obtain msg' where d: "detach_item (pj E) msg 1 = (Some j, msg')"
    by (simp add: detach_item_def)
  have "GetArrayItem (pj E) msg' 2 = None"
    using detached_size [OF assms(1), of 1 2 msg] assms(2) j d by simp
  then have d2: "detach_item (pj E) msg' 2 = (None, msg')" by (simp add: detach_item_def)
  have "e \<in> set (entities (world s))"
    using assms(4) by (auto simp: state_get_entity_def find_Some_iff split: if_splits)
  from cascade_ok [OF order_refl assms(5) this, of "pj E"] show ?thesis
    using assms(3) j
    by (auto simp: handle_place_remove_entity_interaction_def d d2 allo_state_remove_entity_id_def assms(4)
        allo_state_remove_entity_def send_place_interaction_response_def dest: pruned_descendants)
qed

theorem reparent_ignored_witness:
  "\<exists>s'. handle_place_remove_entity_interaction (sample_place_env (jobj [])) 7 (sample_request None)
     (jarr [jstr ''remove_entity'', jstr ''lamp'', jstr ''reparent'']) (sample_place_server [sample_body 4 ''lamp'' ''a'' []]) = Some s' \<and>
   entities (world s') = filter (\<lambda>f. \<not> descends json_ops [sample_body 4 ''lamp'' ''a'' []] 4 f) [sample_body 4 ''lamp'' ''a'' []]"
  using reparent_ignored [of "sample_place_env (jobj [])" "jarr [jstr ''remove_entity'', jstr ''lamp'', jstr ''reparent'']" "''lamp''"
      "sample_place_server [sample_body 4 ''lamp'' ''a'' []]" "sample_body 4 ''lamp'' ''a'' []" 7 "sample_request None"]
    json.cjson_lib_axioms
  by (simp add: sample_place_env_def json_eval string_value_def sample_place_server_def sample_body_def state_get_entity_def
      entities_ok_def)

section \<open>A client that does not announce itself\<close>

lemma tick_world:
  assumes "broadcast_server_state E s = Some s'"
  shows "world s' = (world s)\<lparr>revision := next_revision (revision (world s))\<rparr>"
proof -
  have "world s2 = world s1" if "send_deltas E cs s1 = Some s2" for cs s1 s2
    using that by (induction cs arbitrary: s1) (auto split: option.splits prod.splits)
  then show ?thesis using assms by (auto simp: broadcast_server_state_def Let_def split: option.splits)
qed

lemma tick_without_avatar:
  assumes "tick E goalDt now s = Some s'" and "last_simulate_at s + goalDt \<le> now"
    and "agents s = c # cs" and "intent_entity_id (agent_intent c) = None"
  shows "\<exists>old st d. tick_clock (pj E) now (world s, None) = Some (old, st, d) \<and>
    world s' = st\<lparr>revision := next_revision (revision st)\<rparr>"
proof -
  have "simulate_intents (lib E) (pj E) (depth E) (agent_intent c # intents) dt (agent_intent c # intents) sd = Some (False, sd)"
    for intents dt sd
    by (simp add: assms(4) state_get_entity_def)
  then have "allo_simulate (lib E) (pj E) (depth E) (map agent_intent (take 32 (agents s))) now (world s, None) =
      map_option snd (tick_clock (pj E) now (world s, None))"
    by (simp add: allo_simulate_def allo_simulate_iteration_def assms(3) split: option.split)
  then show ?thesis
    using assms(1,2) by (auto simp: tick_def Let_def split: option.splits prod.splits dest!: tick_world)
qed

section \<open>Distributing media\<close>

lemma media_loop:
  "set ls \<subseteq> agent_at ` set (agents s) \<Longrightarrow>
   fold_opt (\<lambda>l s. if l \<in> agent_at ` set (agents s) then Some (log_event (Sent_media l channel data) s) else None) ls s =
     Some (s\<lparr>events := events s @ map (\<lambda>l. Sent_media l channel data) ls\<rparr>)"
  by (induction ls arbitrary: s) (auto simp: log_event_def)

lemma media_loop_dangling:
  "l \<in> set ls \<Longrightarrow> l \<notin> agent_at ` set (agents s) \<Longrightarrow>
   fold_opt (\<lambda>l s. if l \<in> agent_at ` set (agents s) then Some (log_event (Sent_media l channel data) s) else None) ls s = None"
  by (induction ls arbitrary: s) auto

text \<open>
  A packet of the agent that allocated its track goes once to each listener of the track, in their
  order, as it came, and changes nothing else; a packet of anybody else goes nowhere.
\<close>

theorem media_reaches_listeners:
  assumes "packet_track data = Some i" and "media_track_find (tracks s) i = Some n"
    and "set (listeners (tracks s ! n)) \<subseteq> agent_at ` set (agents s)"
  shows "handle_media a data channel s =
    Some (s\<lparr>events := events s @ (if origin (tracks s ! n) = Some a
       then map (\<lambda>l. Sent_media l channel data) (listeners (tracks s ! n)) else [])\<rparr>)"
  by (simp add: handle_media_def assms(1,2) media_loop [OF assms(3)])

definition sample_track :: "nat list \<Rightarrow> unit media_track" where
  "sample_track ls = (media_track_new 1 allo_media_type_audio)\<lparr>origin := Some 7, listeners := ls\<rparr>"

theorem media_reaches_listeners_witness:
  "map_option events (handle_media 7 [0, 0, 0, 1, 5, 6, 7, 8] CHANNEL_AUDIO
     (sample_place_server []\<lparr>tracks := [sample_track [8, 7]]\<rparr>)) =
   Some [Sent_media 8 CHANNEL_AUDIO [0, 0, 0, 1, 5, 6, 7, 8], Sent_media 7 CHANNEL_AUDIO [0, 0, 0, 1, 5, 6, 7, 8]]"
proof -
  have "packet_track [0, 0, 0, 1, 5, 6, 7, 8] = Some 1" by code_simp
  then show ?thesis
    by (simp add: media_reaches_listeners [of _ 1 _ 0] media_track_find_def sample_place_server_def sample_track_def
        media_track_new_def)
qed

text \<open>
  An agent may subscribe to a track twice, and is taken out of its listeners only once when it leaves:
  the next packet of the track is sent to an agent that has been freed.
\<close>

lemma in_remove_first: "count_list xs x \<ge> 2 \<Longrightarrow> x \<in> set (remove_first (\<lambda>y. y = x) xs)"
  by (induction xs) (auto simp: count_notin split: if_splits intro: ccontr)

lemma find_dropped_track:
  assumes "media_track_find ts i = Some n" and "origin (ts ! n) = Some o'" and "o' \<noteq> a"
  shows "\<exists>m. media_track_find (drop_tracks a ts) i = Some m \<and>
    drop_tracks a ts ! m = (ts ! n)\<lparr>listeners := remove_first (\<lambda>l. l = a) (listeners (ts ! n))\<rparr>"
  using assms
proof (induction ts arbitrary: n)
  case (Cons t ts)
  show ?case
  proof (cases "track_id t = i")
    case True
    then show ?thesis using Cons.prems(1-3) by (auto simp: media_track_find_def drop_tracks_def)
  next
    case False
    then obtain k where k: "n = Suc k" "media_track_find ts i = Some k"
      using Cons.prems(1) by (auto simp: media_track_find_def Let_def split: if_splits)
    then obtain m where "media_track_find (drop_tracks a ts) i = Some m"
      "drop_tracks a ts ! m = (ts ! k)\<lparr>listeners := remove_first (\<lambda>l. l = a) (listeners (ts ! k))\<rparr>"
      using Cons.IH [of k] Cons.prems(2,3) by auto
    then show ?thesis using False k
      by (cases "origin t = Some a") (auto simp: media_track_find_def drop_tracks_def Let_def split: if_splits)
  qed
qed (simp add: media_track_find_def)

lemma clients_changed_simps:
  assumes "clients_changed E (Some r) s = Some s'"
  shows "agents s' = agents s" "tracks s' = drop_tracks (agent_at r) (tracks s)"
    "next_free_track_id s' = next_free_track_id s" "events s' = events s"
  using assms by (auto simp: clients_changed_def)

theorem double_subscription_dangles:
  assumes "agent_lost E r s = Some s'" and "distinct (map agent_at (agents s))"
    and "media_track_find (tracks s) i = Some n" and "origin (tracks s ! n) = Some o'" and "o' \<noteq> agent_at r"
    and "2 \<le> count_list (listeners (tracks s ! n)) (agent_at r)" and "packet_track data = Some i"
  shows "handle_media o' data channel s' = None"
proof -
  obtain m where m: "media_track_find (tracks s') i = Some m"
    "tracks s' ! m = (tracks s ! n)\<lparr>listeners := remove_first (\<lambda>l. l = agent_at r) (listeners (tracks s ! n))\<rparr>"
    using find_dropped_track [OF assms(3-5)] clients_changed_simps(2) [OF assms(1) [unfolded agent_lost_def]] by auto
  have "agents s' = remove_first (\<lambda>c. agent_at c = agent_at r) (agents s)"
    using clients_changed_simps(1) [OF assms(1) [unfolded agent_lost_def]] by simp
  moreover have "agent_at r \<notin> agent_at ` set (remove_first (\<lambda>c. agent_at c = agent_at r) cs)"
    if "distinct (map agent_at cs)" for cs
    using that by (induction cs) auto
  ultimately have gone: "agent_at r \<notin> agent_at ` set (agents s')" using assms(2) by simp
  have "agent_at r \<in> set (listeners (tracks s' ! m))" using in_remove_first [OF assms(6)] m(2) by simp
  from media_loop_dangling [OF this gone, of channel data] show ?thesis
    by (simp add: handle_media_def assms(7) m(1) m(2) assms(4))
qed

theorem double_subscription_dangles_witness:
  "\<exists>s'. agent_lost (sample_place_env (jobj [])) (agents (sample_place_server []) ! 1)
       (sample_place_server []\<lparr>tracks := [sample_track [8, 8]]\<rparr>) = Some s' \<and>
     handle_media 7 [0, 0, 0, 1, 5, 6, 7, 8] CHANNEL_AUDIO s' = None"
proof -
  have p: "packet_track [0, 0, 0, 1, 5, 6, 7, 8] = Some 1" by code_simp
  have "agent_lost (sample_place_env (jobj [])) (agents (sample_place_server []) ! 1)
       (sample_place_server []\<lparr>tracks := [sample_track [8, 8]]\<rparr>) \<noteq> None" by code_simp
  then obtain s' where s': "agent_lost (sample_place_env (jobj [])) (agents (sample_place_server []) ! 1)
       (sample_place_server []\<lparr>tracks := [sample_track [8, 8]]\<rparr>) = Some s'" by auto
  show ?thesis
    using double_subscription_dangles [OF s', of 1 0 7 "[0, 0, 0, 1, 5, 6, 7, 8]" CHANNEL_AUDIO] p s'
    by (simp add: sample_place_server_def sample_track_def media_track_find_def media_track_new_def)
qed

section \<open>Tracks of the place\<close>

text \<open>The same agents at their addresses, and tracks with the same ids and origins.\<close>

definition same_tracks :: "('j, 'g) place_server \<Rightarrow> ('j, 'g) place_server \<Rightarrow> bool" where
  "same_tracks s s' \<longleftrightarrow> map agent_at (agents s') = map agent_at (agents s) \<and>
     map track_id (tracks s') = map track_id (tracks s) \<and> map origin (tracks s') = map origin (tracks s) \<and>
     next_free_track_id s' = next_free_track_id s"

lemma same_update_agent [simp]:
  "(\<And>c. agent_at (f c) = agent_at c) \<Longrightarrow> same_tracks s (update_agent a f s') = same_tracks s s'"
  by (simp add: same_tracks_def update_agent_def comp_def if_distrib [of agent_at] cong: if_cong)

lemma same_tracks_simps [simp]:
  "same_tracks s (send_place_interaction_response E a i b s') = same_tracks s s'"
  "same_tracks s (send_interaction_to_client E a i s') = same_tracks s s'"
  "same_tracks s (log_event ev s') = same_tracks s s'" "same_tracks s (set_components x c s') = same_tracks s s'"
  "same_tracks s (handle_app_launched E t e s') = same_tracks s s'" "same_tracks s s"
  by (simp_all add: same_tracks_def send_place_interaction_response_def)

lemma same_tracks_update [simp]:
  "same_tracks s (s'\<lparr>world := w\<rparr>) = same_tracks s s'" "same_tracks s (s'\<lparr>seed := g\<rparr>) = same_tracks s s'"
  "same_tracks s (s'\<lparr>launch_requests := q\<rparr>) = same_tracks s s'" "same_tracks s (s'\<lparr>last_simulate_at := t\<rparr>) = same_tracks s s'"
  "same_tracks s (s'\<lparr>hist := h\<rparr>) = same_tracks s s'" "same_tracks s (s'\<lparr>diff_cache := d\<rparr>) = same_tracks s s'"
  by (simp_all add: same_tracks_def)

lemma same_add_entity: "add_entity E owner spec s = Some (e, s') \<Longrightarrow> same_tracks s s'"
  by (simp add: same_tracks_def add_entity_simps)

lemma invalid_same: "handle_invalid_place_interaction E a i msg s1 = Some s' \<Longrightarrow> same_tracks s s1 \<Longrightarrow> same_tracks s s'"
  by (auto simp: handle_invalid_place_interaction_def Let_def split: option.splits if_splits)

lemma announce_same: "handle_place_announce_interaction E a i msg s = Some s' \<Longrightarrow> same_tracks s s'"
  by (auto simp: handle_place_announce_interaction_def Let_def dest: same_add_entity split: option.splits prod.splits if_splits)

lemma map_update_same: "f y = f (xs ! n) \<Longrightarrow> map f (xs[n := y]) = map f xs"
  by (cases "n < length xs") (simp_all add: map_update list_update_same_conv list_update_beyond)

lemma place_handlers_same:
  "handle_place_media_track_interaction E a i msg s = Some s' \<Longrightarrow> same_tracks s s'"
  "handle_place_change_components_interaction E a i msg s = Some s' \<Longrightarrow> same_tracks s s'"
  "handle_place_spawn_entity_interaction E a i msg s = Some s' \<Longrightarrow> same_tracks s s'"
  "handle_place_remove_entity_interaction E a i msg s = Some s' \<Longrightarrow> same_tracks s s'"
  "handle_place_add_property_animation_interaction E a i msg s = Some s' \<Longrightarrow> same_tracks s s'"
  "handle_place_remove_property_animation_interaction E a i msg s = Some s' \<Longrightarrow> same_tracks s s'"
  "handle_place_list_agents_interaction E a i msg s = Some s' \<Longrightarrow> same_tracks s s'"
  "handle_place_kick_agent_interaction E a i msg s = Some s' \<Longrightarrow> same_tracks s s'"
  "handle_place_launch_app_interaction E a i msg s = Some s' \<Longrightarrow> same_tracks s s'"
  by (auto simp: handle_place_media_track_interaction_def same_tracks_def [of s "s\<lparr>tracks := _\<rparr>"] map_update_same
      handle_place_change_components_interaction_def handle_place_spawn_entity_interaction_def
      handle_place_remove_entity_interaction_def handle_place_add_property_animation_interaction_def
      handle_place_remove_property_animation_interaction_def handle_place_list_agents_interaction_def
      handle_place_kick_agent_interaction_def handle_place_launch_app_interaction_def Let_def
      dest: same_add_entity intro: invalid_same split: option.splits prod.splits if_splits)

lemma same_handle_intent: "same_tracks s (handle_intent a intent s)"
  by (simp add: handle_intent_def)

lemma same_clock: "handle_clock E a cmd now s = Some s' \<Longrightarrow> same_tracks s s'"
  by (auto simp: handle_clock_def Let_def split: option.splits)

lemma same_media: "handle_media a data channel s = Some s' \<Longrightarrow> same_tracks s s'"
proof -
  have "same_tracks s s''" if "fold_opt (\<lambda>l s. if l \<in> agent_at ` set (agents s)
      then Some (log_event (Sent_media l channel data) s) else None) ls s1 = Some s''" "same_tracks s s1" for ls s1 s''
    using that by (induction ls arbitrary: s1) (auto split: if_splits)
  then show "handle_media a data channel s = Some s' \<Longrightarrow> same_tracks s s'"
    by (auto simp: handle_media_def Let_def split: option.splits if_splits)
qed

lemma same_tick: "tick E goalDt now s = Some s' \<Longrightarrow> same_tracks s s'"
proof -
  have "same_tracks s s2" if "send_deltas E cs s1 = Some s2" "same_tracks s s1" for cs s1 s2
    using that by (induction cs arbitrary: s1) (auto split: option.splits prod.splits)
  then show "tick E goalDt now s = Some s' \<Longrightarrow> same_tracks s s'"
    by (fastforce simp: tick_def broadcast_server_state_def Let_def split: option.splits if_splits prod.splits)
qed

text \<open>
  Agents stand at different addresses, tracks have different ids, which have been given out, and the
  agent that allocated a track is still there.
\<close>

definition tracks_ok :: "('j, 'g) place_server \<Rightarrow> bool" where
  "tracks_ok s \<longleftrightarrow> distinct (map agent_at (agents s)) \<and> distinct (map track_id (tracks s)) \<and>
     1 \<le> next_free_track_id s \<and> next_free_track_id s < 2147483648 \<and>
     list_all (\<lambda>i. 1 \<le> uint i \<and> uint i < next_free_track_id s) (map track_id (tracks s)) \<and>
     set (map origin (tracks s)) \<subseteq> Some ` set (map agent_at (agents s))"

lemma tracks_ok_same: "same_tracks s s' \<Longrightarrow> tracks_ok s \<Longrightarrow> tracks_ok s'"
  by (simp only: same_tracks_def tracks_ok_def)

lemma track_find_None: "media_track_find ts i = None \<longleftrightarrow> i \<notin> track_id ` set ts"
  by (induction ts) (auto simp: media_track_find_def Let_def)

lemma tracks_ok_allocated:
  assumes "handle_place_allocate_track_interaction E a i msg s = Some s'" and "tracks_ok s" and "a \<in> agent_at ` set (agents s)"
  shows "tracks_ok s'"
proof (cases "same_tracks s s'")
  case False
  define n where "n = next_free_track_id s"
  define ty where "ty = media_track_type_from_string (string_value (pj E) (GetArrayItem (pj E) msg 1))"
  have n: "1 \<le> n" "n < 2147483648" using assms(2) by (simp_all add: tracks_ok_def n_def)
  then have u: "uint (word_of_int n :: u32) = n" by (simp add: uint_word_of_int)
  have "word_of_int n \<notin> track_id ` set (tracks s)"
    using assms(2) u by (force simp: tracks_ok_def n_def list_all_iff)
  then have new: "media_track_find_or_create (tracks s) (word_of_int n) ty =
      (tracks s @ [media_track_new (word_of_int n) ty], length (tracks s))"
    by (simp add: media_track_find_or_create_def media_track_create_def track_find_None [symmetric])
  have s': "agents s' = agents s \<and> n < 2147483647 \<and> next_free_track_id s' = n + 1 \<and>
      tracks s' = tracks s @ [(media_track_new (word_of_int n) ty)\<lparr>origin := Some a\<rparr>]"
    using assms(1) False n(2) new
    by (auto simp: handle_place_allocate_track_interaction_def Let_def n_def [symmetric] ty_def
        send_place_interaction_response_def split: option.splits if_splits)
  then show ?thesis
    using assms(2,3) \<open>word_of_int n \<notin> track_id ` set (tracks s)\<close> n u
    by (auto simp: tracks_ok_def media_track_new_def list_all_iff n_def [symmetric])
qed (use assms tracks_ok_same in blast)

lemma tracks_ok_place_interaction:
  assumes "handle_place_interaction E a i s = Some s'" and "tracks_ok s" and "a \<in> agent_at ` set (agents s)"
  shows "tracks_ok s'"
proof -
  obtain msg name s1 where "Option.bind (body i) (parse E) = Some msg"
    "string_value (pj E) (GetArrayItem (pj E) msg 0) = Some name" and s': "s' = s1\<lparr>last_simulate_at := 0\<rparr>"
    and h: "(case map_of place_handlers name of Some h \<Rightarrow> h E a i msg s
             | None \<Rightarrow> handle_invalid_place_interaction E a i (Some msg) s) = Some s1"
    using assms(1) by (rule place_interaction_cases)
  have "same_tracks s s1 \<or> handle_place_allocate_track_interaction E a i msg s = Some s1"
    using h invalid_same [of E a i "Some msg" s s1 s]
    by (auto simp: place_handlers_def split: if_splits dest: announce_same place_handlers_same)
  then have "tracks_ok s1"
    using tracks_ok_same [OF _ assms(2)] tracks_ok_allocated [OF _ assms(2,3)] by (elim disjE)
  then show ?thesis using s' by (simp add: tracks_ok_def)
qed

lemma tracks_ok_received:
  assumes "received_from_client E a channel data now s = Some s'" and "tracks_ok s" and "a \<in> agent_at ` set (agents s)"
  shows "tracks_ok s'"
proof -
  have "same_tracks s s' \<or> (\<exists>i. handle_place_interaction E a i s = Some s')"
    using assms(1)
    by (auto simp: received_from_client_def handle_interaction_def same_handle_intent
        split: if_splits option.splits intro: invalid_same dest: same_clock same_media)
  then show ?thesis
    using tracks_ok_same [OF _ assms(2)] tracks_ok_place_interaction [OF _ assms(2,3)] by (elim disjE exE)
qed

lemma map_remove_first: "map f (remove_first (\<lambda>c. f c = x) cs) = remove1 x (map f cs)"
  by (induction cs) auto

lemma tracks_ok_lost:
  assumes "agent_lost E r s = Some s'" and "tracks_ok s" and "r \<in> set (agents s)"
  shows "tracks_ok s'"
proof -
  note s' = clients_changed_simps [OF assms(1) [unfolded agent_lost_def]]
  have ids: "map track_id (drop_tracks a ts) = map track_id (filter (\<lambda>t. origin t \<noteq> Some a) ts)"
    "set (map origin (drop_tracks a ts)) = set (map origin ts) - {Some a}" for a and ts :: "unit media_track list"
    by (induction ts) (auto simp: drop_tracks_def)
  have "agent_at ` set (agents s') = agent_at ` set (agents s) - {agent_at r}" "distinct (map agent_at (agents s'))"
    using assms(2) s'(1) by (simp_all add: tracks_ok_def map_remove_first flip: set_map)
  then show ?thesis
    using assms(2) s'(2,3) ids(2) [of "agent_at r" "tracks s"]
    by (auto simp: tracks_ok_def ids(1) distinct_map_filter list_all_iff image_set_diff)
qed

section \<open>Reachable servers\<close>

inductive place_step :: "('j, 'g) place_env \<Rightarrow> ('j, 'g) place_server \<Rightarrow> ('j, 'g) place_server \<Rightarrow> bool" for E where
  step_connected: "a \<notin> agent_at ` set (agents s) \<Longrightarrow> place_step E s (agent_connected E a s)"
| step_received: "a \<in> agent_at ` set (agents s) \<Longrightarrow> received_from_client E a channel data now s = Some s' \<Longrightarrow> place_step E s s'"
| step_lost: "r \<in> set (agents s) \<Longrightarrow> agent_lost E r s = Some s' \<Longrightarrow> place_step E s s'"
| step_tick: "tick E goalDt now s = Some s' \<Longrightarrow> place_step E s s'"

inductive place_reachable :: "('j, 'g) place_env \<Rightarrow> ('j, 'g) place_server \<Rightarrow> bool" for E where
  reachable_start: "start_standalone E g = Some s \<Longrightarrow> place_reachable E s"
| reachable_step: "place_reachable E s \<Longrightarrow> place_step E s s' \<Longrightarrow> place_reachable E s'"

lemma tracks_ok_step: "place_step E s s' \<Longrightarrow> tracks_ok s \<Longrightarrow> tracks_ok s'"
proof (induction rule: place_step.induct)
  case (step_connected a s)
  then show ?case by (auto simp: tracks_ok_def agent_connected_def list_all_iff split: prod.splits)
qed (auto intro: tracks_ok_received tracks_ok_lost tracks_ok_same same_tick)

text \<open>
  C10. Of a server that has been started, whatever its clients sent: the tracks have different ids, each
  given out before, the next id to give is not one of them, and the agent that allocated a track is
  connected.
\<close>

theorem tracks_belong_to_agents:
  assumes "place_reachable E s"
  shows "distinct (map track_id (tracks s)) \<and> word_of_int (next_free_track_id s) \<notin> set (map track_id (tracks s)) \<and>
    set (map origin (tracks s)) \<subseteq> Some ` set (map agent_at (agents s))"
proof -
  have ok: "tracks_ok s"
    using assms
  proof induction
    case (reachable_start g s)
    then show ?case
      by (auto simp: start_standalone_def add_place_def Let_def tracks_ok_def dest: add_entity_simps(1-3))
  qed (rule tracks_ok_step)
  have "uint (word_of_int (next_free_track_id s) :: u32) = next_free_track_id s"
    using ok by (simp add: tracks_ok_def uint_word_of_int)
  then have "word_of_int (next_free_track_id s) \<notin> set (map track_id (tracks s))"
    using ok by (force simp: tracks_ok_def list_all_iff)
  with ok show ?thesis by (simp add: tracks_ok_def)
qed

definition sample_allocation :: "(json, nat) place_env" where
  "sample_allocation = (sample_place_env (jarr [jstr ''allocate_track'', jstr ''audio'', jstr ''opus'', jobj []]))
     \<lparr>parse_bytes := (\<lambda>bs. Some (jarr [jstr ''interaction'', jstr ''request'', jstr ''place'', jstr ''place'', jstr ''1'', jarr []]))\<rparr>"

theorem tracks_belong_to_agents_witness:
  "\<exists>s. place_reachable sample_allocation s \<and> map track_id (tracks s) = [1] \<and>
     word_of_int (next_free_track_id s) \<notin> set (map track_id (tracks s)) \<and>
     set (map origin (tracks s)) \<subseteq> Some ` set (map agent_at (agents s))"
proof -
  have "(case start_standalone sample_allocation 0 of None \<Rightarrow> False
     | Some s0 \<Rightarrow> map agent_at (agents s0) = [] \<and>
         (case received_from_client sample_allocation 7 CHANNEL_COMMANDS [] 1 (agent_connected sample_allocation 7 s0) of
            None \<Rightarrow> False | Some s \<Rightarrow> map track_id (tracks s) = [1]))"
    by code_simp
  then obtain s0 s where s0: "start_standalone sample_allocation 0 = Some s0" "agents s0 = []"
    and s: "received_from_client sample_allocation 7 CHANNEL_COMMANDS [] 1 (agent_connected sample_allocation 7 s0) = Some s"
      "map track_id (tracks s) = [1]"
    by (auto split: option.splits)
  have "place_reachable sample_allocation (agent_connected sample_allocation 7 s0)"
    by (rule reachable_step [OF reachable_start [OF s0(1)]], rule step_connected) (simp add: s0(2))
  then have "place_reachable sample_allocation s"
    by (rule reachable_step) (rule step_received [OF _ s(1)], simp add: agent_connected_def split: prod.split)
  then show ?thesis using tracks_belong_to_agents [of sample_allocation s] s(2) by (intro exI [of _ s] conjI) simp_all
qed

section \<open>A newest client without an avatar\<close>

text \<open>Only announcing and an intent change an agent; an agent without an avatar has no intent for one.\<close>

definition waits :: "'j agent \<Rightarrow> bool" where
  "waits c \<longleftrightarrow> (avatar_entity_id c = None \<longrightarrow> intent_entity_id (agent_intent c) = None)"

definition all_wait :: "('j, 'g) place_server \<Rightarrow> bool" where
  "all_wait s \<longleftrightarrow> list_all waits (agents s)"

lemma all_wait_simps [simp]:
  "all_wait (send_place_interaction_response E a i b s) = all_wait s"
  "all_wait (send_interaction_to_client E a i s) = all_wait s"
  "all_wait (log_event ev s) = all_wait s" "all_wait (set_components x c s) = all_wait s"
  "all_wait (handle_app_launched E token ava s) = all_wait s"
  "all_wait (s\<lparr>world := w\<rparr>) = all_wait s" "all_wait (s\<lparr>seed := g\<rparr>) = all_wait s"
  "all_wait (s\<lparr>launch_requests := q\<rparr>) = all_wait s" "all_wait (s\<lparr>last_simulate_at := t\<rparr>) = all_wait s"
  "all_wait (s\<lparr>hist := h\<rparr>) = all_wait s" "all_wait (s\<lparr>diff_cache := d\<rparr>) = all_wait s"
  "all_wait (s\<lparr>tracks := ts\<rparr>) = all_wait s" "all_wait (s\<lparr>next_free_track_id := n\<rparr>) = all_wait s"
  by (simp_all add: all_wait_def send_place_interaction_response_def)

lemma all_wait_update_agent: "(\<And>c. waits (f c)) \<Longrightarrow> all_wait s \<Longrightarrow> all_wait (update_agent a f s)"
  by (auto simp: all_wait_def update_agent_def list_all_iff)

lemma all_wait_add_entity: "add_entity E owner spec s = Some (e, s') \<Longrightarrow> all_wait s' = all_wait s"
  by (simp add: all_wait_def add_entity_simps)

lemma all_wait_invalid: "handle_invalid_place_interaction E a i msg s = Some s' \<Longrightarrow> all_wait s' = all_wait s"
  by (auto simp: handle_invalid_place_interaction_def Let_def split: option.splits if_splits)

lemma all_wait_announce:
  "handle_place_announce_interaction E a i msg s = Some s' \<Longrightarrow> all_wait s \<Longrightarrow> all_wait s'"
  by (auto simp: handle_place_announce_interaction_def Let_def waits_def all_wait_add_entity
      intro!: all_wait_update_agent split: option.splits prod.splits if_splits)

lemma all_wait_handlers:
  "handle_place_allocate_track_interaction E a i msg s = Some s' \<Longrightarrow> all_wait s' = all_wait s"
  "handle_place_media_track_interaction E a i msg s = Some s' \<Longrightarrow> all_wait s' = all_wait s"
  "handle_place_change_components_interaction E a i msg s = Some s' \<Longrightarrow> all_wait s' = all_wait s"
  "handle_place_spawn_entity_interaction E a i msg s = Some s' \<Longrightarrow> all_wait s' = all_wait s"
  "handle_place_remove_entity_interaction E a i msg s = Some s' \<Longrightarrow> all_wait s' = all_wait s"
  "handle_place_add_property_animation_interaction E a i msg s = Some s' \<Longrightarrow> all_wait s' = all_wait s"
  "handle_place_remove_property_animation_interaction E a i msg s = Some s' \<Longrightarrow> all_wait s' = all_wait s"
  "handle_place_list_agents_interaction E a i msg s = Some s' \<Longrightarrow> all_wait s' = all_wait s"
  "handle_place_kick_agent_interaction E a i msg s = Some s' \<Longrightarrow> all_wait s' = all_wait s"
  "handle_place_launch_app_interaction E a i msg s = Some s' \<Longrightarrow> all_wait s' = all_wait s"
  by (auto simp: handle_place_allocate_track_interaction_def handle_place_media_track_interaction_def
      handle_place_change_components_interaction_def handle_place_spawn_entity_interaction_def
      handle_place_remove_entity_interaction_def handle_place_add_property_animation_interaction_def
      handle_place_remove_property_animation_interaction_def handle_place_list_agents_interaction_def
      handle_place_kick_agent_interaction_def handle_place_launch_app_interaction_def Let_def
      all_wait_invalid all_wait_add_entity split: option.splits prod.splits if_splits)

lemma all_wait_place_interaction:
  assumes "handle_place_interaction E a i s = Some s'" and "all_wait s"
  shows "all_wait s'"
proof -
  obtain msg name s1 where "Option.bind (body i) (parse E) = Some msg"
    "string_value (pj E) (GetArrayItem (pj E) msg 0) = Some name" and s': "s' = s1\<lparr>last_simulate_at := 0\<rparr>"
    and h: "(case map_of place_handlers name of Some h \<Rightarrow> h E a i msg s
             | None \<Rightarrow> handle_invalid_place_interaction E a i (Some msg) s) = Some s1"
    using assms(1) by (rule place_interaction_cases)
  have "all_wait s1"
    using h assms(2)
    by (auto simp: place_handlers_def split: if_splits dest: all_wait_announce all_wait_handlers all_wait_invalid)
  then show ?thesis using s' by simp
qed

lemma all_wait_media: "handle_media a data channel s = Some s' \<Longrightarrow> all_wait s' = all_wait s"
proof -
  have "all_wait s2 = all_wait s1" if "fold_opt (\<lambda>l s. if l \<in> agent_at ` set (agents s)
      then Some (log_event (Sent_media l channel data) s) else None) ls s1 = Some s2" for ls s1 s2
    using that by (induction ls arbitrary: s1) (auto split: if_splits)
  then show "handle_media a data channel s = Some s' \<Longrightarrow> all_wait s' = all_wait s"
    by (auto simp: handle_media_def Let_def split: option.splits if_splits)
qed

lemma all_wait_tick: "tick E goalDt now s = Some s' \<Longrightarrow> all_wait s' = all_wait s"
proof -
  have "all_wait s2 = all_wait s1" if "send_deltas E cs s1 = Some s2" for cs s1 s2
    using that by (induction cs arbitrary: s1) (auto split: option.splits prod.splits)
  then show "tick E goalDt now s = Some s' \<Longrightarrow> all_wait s' = all_wait s"
    by (fastforce simp: tick_def broadcast_server_state_def Let_def split: option.splits if_splits prod.splits)
qed

lemma all_wait_received:
  assumes "received_from_client E a channel data now s = Some s'" and "all_wait s"
  shows "all_wait s'"
proof -
  have "all_wait (handle_intent a intent s)" for intent
    using assms(2) by (auto simp: handle_intent_def waits_def intro: all_wait_update_agent)
  moreover have "all_wait s'" if "handle_clock E a cmd now s = Some s'" for cmd
    using that assms(2) by (auto simp: handle_clock_def Let_def split: option.splits)
  ultimately show ?thesis using assms
    by (auto simp: received_from_client_def handle_interaction_def all_wait_media
        split: if_splits option.splits dest: all_wait_place_interaction all_wait_invalid)
qed

lemma all_wait_reachable: "place_reachable E s \<Longrightarrow> all_wait s"
proof (induction rule: place_reachable.induct)
  case (reachable_start g s)
  then show ?case
    by (auto simp: start_standalone_def add_place_def Let_def all_wait_add_entity) (simp add: all_wait_def)
next
  case (reachable_step s s')
  from reachable_step.hyps(2) reachable_step.IH show ?case
  proof (induction rule: place_step.induct)
    case (step_connected a s)
    then show ?case
      by (auto simp: all_wait_def agent_connected_def waits_def allo_client_intent_create_def split: prod.split)
  next
    case (step_lost r s s')
    have "set (remove_first p cs) \<subseteq> set cs" for p and cs :: "'a agent list" by (induction cs) auto
    then have "list_all waits (remove_first p (agents s))" for p
      using step_lost(3) by (auto simp: all_wait_def list_all_iff)
    then show ?case
      using step_lost(2) by (auto simp: agent_lost_def all_wait_def dest!: clients_changed_simps(1))
  qed (auto simp: all_wait_tick intro: all_wait_received)
qed

text \<open>
  C38. In every state a started server can reach: while the newest client, which stands before the
  older ones, has no avatar (it has not announced itself), a tick that is due and returns moves nothing,
  also for the clients that have announced themselves. Only the clock and the revision go on.
\<close>

theorem newcomer_freezes_place:
  assumes "place_reachable E s" and "agents s = c # cs" and "avatar_entity_id c = None"
    and "tick E goalDt now s = Some s'" and "last_simulate_at s + goalDt \<le> now"
  shows "\<exists>old st d. tick_clock (pj E) now (world s, None) = Some (old, st, d) \<and>
    world s' = st\<lparr>revision := next_revision (revision st)\<rparr>"
proof (rule tick_without_avatar [OF assms(4,5,2)])
  show "intent_entity_id (agent_intent c) = None"
    using all_wait_reachable [OF assms(1)] assms(2,3) by (simp add: all_wait_def waits_def)
qed

theorem newcomer_freezes_place_witness:
  "\<exists>s s' old st d. place_reachable sample_allocation s \<and> map avatar_entity_id (agents s) = [None] \<and>
    tick sample_allocation (1 / 20) 8 s = Some s' \<and>
    tick_clock json_ops 8 (world s, None) = Some (old, st, d) \<and> world s' = st\<lparr>revision := next_revision (revision st)\<rparr>"
proof -
  have "(case start_standalone sample_allocation 0 of None \<Rightarrow> False
     | Some s0 \<Rightarrow> map agent_at (agents s0) = [] \<and> last_simulate_at s0 = 0 \<and>
         tick sample_allocation (1 / 20) 8 (agent_connected sample_allocation 7 s0) \<noteq> None)"
    by code_simp
  then obtain s0 s' where s0: "start_standalone sample_allocation 0 = Some s0" "agents s0 = []" "last_simulate_at s0 = 0"
    and s': "tick sample_allocation (1 / 20) 8 (agent_connected sample_allocation 7 s0) = Some s'"
    by (auto split: option.splits)
  let ?s = "agent_connected sample_allocation 7 s0"
  have reach: "place_reachable sample_allocation ?s"
    by (rule reachable_step [OF reachable_start [OF s0(1)]], rule step_connected) (simp add: s0(2))
  obtain c where c: "agents ?s = [c]" "avatar_entity_id c = None" and t: "last_simulate_at ?s = 0"
    using s0(2,3) by (cases "allo_generate_id (rand sample_allocation) 16 (seed s0)") (auto simp: agent_connected_def)
  from newcomer_freezes_place [OF reach c s'] t s' c reach show ?thesis
    by (intro exI [of _ ?s] exI [of _ s']) (simp add: sample_allocation_def sample_place_env_def)
qed

section \<open>Entities of an agent that leaves\<close>

text \<open>No entity has a parent that stands before it, or is its own parent.\<close>

fun children_first :: "'j cjson \<Rightarrow> 'j entity list \<Rightarrow> bool" where
  "children_first C [] = True"
| "children_first C (e # es) = (list_all (\<lambda>f. parent_id C f \<noteq> Some (eid e)) (e # es) \<and> children_first C es)"

lemma children_first_append:
  "children_first C (xs @ ys) \<Longrightarrow> e \<in> set xs \<Longrightarrow> f \<in> set ys \<Longrightarrow> parent_id C f \<noteq> Some (eid e)"
  by (induction xs) (auto simp: list_all_iff)

lemma children_first_filter: "children_first C es \<Longrightarrow> children_first C (filter P es)"
  by (induction es) (auto simp: list_all_iff)

lemma descendants_before:
  assumes "descends C (pre @ e # rest) (entity_at e) f" and "entities_ok (pre @ e # rest)"
    and "children_first C (pre @ e # rest)"
  shows "f \<in> set (pre @ [e])"
proof -
  have cf: "children_first C ((pre @ [e]) @ rest)" using assms(3) by simp
  show ?thesis
    using assms(1)
  proof (induction rule: descends.induct)
    case (descends_self f)
    have "e \<in> set (pre @ e # rest)" by simp
    from entities_ok_same(1) [OF assms(2) descends_self(1) this] descends_self(2) show ?case by simp
  next
    case (descends_child p f)
    have "f \<notin> set rest"
      using children_first_append [OF cf descends_child.IH] descends_child.hyps(3) by blast
    then show ?case using descends_child.hyps(2) by simp
  qed
qed

lemma descends_kept:
  "descends C es a f \<Longrightarrow> \<not> descends C es b f \<Longrightarrow> descends C (filter (\<lambda>x. \<not> descends C es b x) es) a f"
proof (induction rule: descends.induct)
  case (descends_child p f)
  then have "\<not> descends C es b p" using descends.descends_child [of C es b p f] by blast
  with descends_child show ?case
    by (intro descends.descends_child [of C _ a p f]) auto
qed (auto intro: descends.intros)

lemma next_address_append:
  "distinct (map entity_at (pre @ e # rest)) \<Longrightarrow>
   next_address_of (entity_at e) (pre @ e # rest) = (case rest of [] \<Rightarrow> None | f # fs \<Rightarrow> Some (entity_at f))"
  by (induction pre) auto

lemma remove_entity_cascade:
  assumes "entities_ok (entities st)" and "e \<in> set (entities st)"
  shows "\<exists>st'. allo_state_remove_entity C st (entity_at e) AlloRemovalCascade = Some st' \<and>
    entities st' = filter (\<lambda>f. \<not> descends C (entities st) (entity_at e) f) (entities st)"
  using cascade_ok [OF order_refl assms, of C] by (auto simp: allo_state_remove_entity_def dest: pruned_descendants)

abbreviation first_address :: "'j entity list \<Rightarrow> nat option" where
  "first_address es \<equiv> map_option entity_at (case es of [] \<Rightarrow> None | e # fs \<Rightarrow> Some e)"

definition falls_with :: "'j cjson \<Rightarrow> string \<Rightarrow> 'j entity set \<Rightarrow> 'j entity list \<Rightarrow> 'j entity \<Rightarrow> bool" where
  "falls_with C owner R es f \<longleftrightarrow> (\<exists>r \<in> R. owner_agent_id r = Some owner \<and> descends C es (entity_at r) f)"

lemma falls_step:
  assumes "owner_agent_id e = Some owner"
  shows "(\<not> descends C es (entity_at e) f \<and>
      \<not> falls_with C owner R (filter (\<lambda>x. \<not> descends C es (entity_at e) x) es) f) \<longleftrightarrow>
    \<not> falls_with C owner (insert e R) es f"
proof -
  let ?K = "filter (\<lambda>x. \<not> descends C es (entity_at e) x) es"
  have "descends C ?K a f \<longleftrightarrow> descends C es a f" if "\<not> descends C es (entity_at e) f" for a
    using descends_kept [OF _ that, of a] descends_mono [of C ?K a f es] by auto
  then show ?thesis using assms by (auto simp: falls_with_def)
qed

lemma drop_entities_suffix:
  assumes "entities st = pre @ rest" and "entities_ok (pre @ rest)" and "children_first C (pre @ rest)"
    and "list_all (\<lambda>e. owner_agent_id e \<noteq> None) rest"
  shows "\<exists>st'. drop_entities C owner (length rest) (first_address rest) st = Some st' \<and>
    entities st' = filter (\<lambda>f. \<not> falls_with C owner (set rest) (pre @ rest) f) (pre @ rest)"
  using assms
proof (induction rest arbitrary: pre st)
  case Nil
  then show ?case by (simp add: falls_with_def)
next
  case (Cons e rest)
  let ?es = "pre @ e # rest"
  have get: "entity_by_address st (entity_at e) = Some e"
    using find_at [OF Cons.prems(2), of e] Cons.prems(1) by (simp add: entity_by_address_def)
  have nxt: "next_address_of (entity_at e) ?es = first_address rest"
    using next_address_append [of pre e rest] Cons.prems(2) by (cases rest) (auto simp: entities_ok_def)
  obtain o' where o': "owner_agent_id e = Some o'" using Cons.prems(4) by auto
  show ?case
  proof (cases "o' = owner")
    case False
    have "falls_with C owner (set rest) ?es f = falls_with C owner (set (e # rest)) ?es f" for f
      using False o' by (auto simp: falls_with_def)
    then show ?thesis
      using Cons.IH [of st "pre @ [e]"] Cons.prems False by (simp add: get nxt o' split del: if_split)
  next
    case True
    let ?kept = "\<lambda>f. \<not> descends C ?es (entity_at e) f"
    obtain st1 where st1: "allo_state_remove_entity C st (entity_at e) AlloRemovalCascade = Some st1"
      "entities st1 = filter ?kept ?es"
      using remove_entity_cascade [of st e C] Cons.prems(1,2) by auto
    have e_gone: "\<not> ?kept e" by (simp add: descends_self)
    have "?kept f" if "f \<in> set rest" for f
      using descendants_before [of C pre e rest f] Cons.prems(2,3) that by (auto simp: entities_ok_def)
    then have split: "filter ?kept ?es = filter ?kept pre @ rest" using e_gone by simp
    note same = falls_step [OF o' [unfolded True], of C ?es _ "set rest"]
    obtain st' where st': "drop_entities C owner (length rest) (first_address rest) st1 = Some st'"
      "entities st' = filter (\<lambda>f. \<not> falls_with C owner (set rest) (filter ?kept ?es) f) (filter ?kept ?es)"
      using Cons.IH [of st1 "filter ?kept pre"] st1(2) split entities_ok_filter [OF Cons.prems(2), of ?kept]
        children_first_filter [OF Cons.prems(3), of ?kept] Cons.prems(4) by auto
    have "entities st' = filter (\<lambda>f. \<not> falls_with C owner (set (e # rest)) ?es f) ?es"
      unfolding st'(2) filter_filter by (simp only: same list.set)
    then show ?thesis using True st'(1) by (simp add: get nxt o' st1(1) Cons.prems(1))
  qed
qed

text \<open>Whatever the order of the entities: if the loop ends, it has removed these entities and no others.\<close>

lemma descends_root: "descends C es a f \<Longrightarrow> \<exists>g \<in> set es. entity_at g = a"
  by (induction rule: descends.induct) auto

lemma falls_with_present:
  assumes "entities_ok es'" and "set es \<subseteq> set es'" and "R \<subseteq> set es'"
  shows "falls_with C owner (R \<inter> set es) es f \<longleftrightarrow> falls_with C owner R es f"
proof -
  have "r \<in> set es" if "r \<in> R" "descends C es (entity_at r) f" for r
    using descends_root [OF that(2)] entities_ok_same(1) [OF assms(1), of _ r] that(1) assms(2,3) by (metis subsetD)
  then show ?thesis by (auto simp: falls_with_def)
qed

lemma drop_entities_result:
  assumes "drop_entities C owner n (first_address rest) st = Some st'" and "entities st = pre @ rest"
    and "entities_ok (pre @ rest)"
  shows "entities st' = filter (\<lambda>f. \<not> falls_with C owner (set rest) (pre @ rest) f) (pre @ rest)"
  using assms
proof (induction n arbitrary: pre rest st)
  case 0
  then show ?case by (cases rest) (simp_all add: falls_with_def)
next
  case (Suc n)
  show ?case
  proof (cases rest)
    case Nil
    with Suc.prems show ?thesis by (simp add: falls_with_def)
  next
    case (Cons e rs)
    let ?es = "pre @ e # rs"
    have es: "entities st = ?es" "entities_ok ?es" using Suc.prems(2,3) Cons by simp_all
    have get: "entity_by_address st (entity_at e) = Some e"
      using find_at [OF es(2), of e] es(1) by (simp add: entity_by_address_def)
    have nxt: "next_address_of (entity_at e) ?es = first_address rs"
      using next_address_append [of pre e rs] es(2) by (cases rs) (auto simp: entities_ok_def)
    obtain o' where o': "owner_agent_id e = Some o'"
      using Suc.prems(1) by (cases "owner_agent_id e") (auto simp: Cons get Let_def)
    show ?thesis
    proof (cases "o' = owner")
      case False
      have "falls_with C owner (set rs) ?es f = falls_with C owner (set (e # rs)) ?es f" for f
        using False o' by (auto simp: falls_with_def)
      then show ?thesis
        using Suc.IH [of rs st "pre @ [e]"] Suc.prems(1) es False by (simp add: Cons get nxt o' split del: if_split)
    next
      case True
      let ?kept = "\<lambda>f. \<not> descends C ?es (entity_at e) f"
      obtain st1 where st1: "allo_state_remove_entity C st (entity_at e) AlloRemovalCascade = Some st1"
        "entities st1 = filter ?kept ?es"
        using remove_entity_cascade [of st e C] es by auto
      have "\<not> ?kept e" by (simp add: descends_self)
      then have split: "filter ?kept ?es = filter ?kept pre @ filter ?kept rs" by simp
      have run: "drop_entities C owner n (first_address rs) st1 = Some st'"
        using Suc.prems(1) True by (simp add: Cons get nxt o' st1(1) es(1))
      have "first_address rs = first_address (filter ?kept rs)"
      proof (cases rs)
        case (Cons f fs)
        have "?kept f"
        proof (rule ccontr)
          assume "\<not> ?kept f"
          then have "entity_by_address st1 (entity_at f) = None"
            using entities_ok_same(1) [OF es(2), of _ f] Cons st1(2) by (auto simp: entity_by_address_def find_None_iff)
          with run Cons show False by (cases n) simp_all
        qed
        then show ?thesis using Cons by simp
      qed simp
      with run have "entities st' = filter (\<lambda>f. \<not> falls_with C owner (set (filter ?kept rs)) (filter ?kept ?es) f) (filter ?kept ?es)"
        using Suc.IH [of "filter ?kept rs" st1 "filter ?kept pre"] st1(2) split entities_ok_filter [OF es(2), of ?kept]
        by (simp only: split)
      moreover have "falls_with C owner (set (filter ?kept rs)) (filter ?kept ?es) f = falls_with C owner (set rs) (filter ?kept ?es) f" for f
      proof -
        have "set (filter ?kept rs) = set rs \<inter> set (filter ?kept ?es)" by auto
        moreover have "falls_with C owner (set rs \<inter> set (filter ?kept ?es)) (filter ?kept ?es) f =
            falls_with C owner (set rs) (filter ?kept ?es) f"
          by (rule falls_with_present [OF es(2)]) auto
        ultimately show ?thesis by (simp only:)
      qed
      moreover note falls_step [OF o' [unfolded True], of C ?es _ "set rs"]
      ultimately have "entities st' = filter (\<lambda>f. \<not> falls_with C owner (set (e # rs)) ?es f) ?es"
        unfolding filter_filter by (simp only: list.set)
      then show ?thesis by (simp only: Cons)
    qed
  qed
qed

text \<open>
  C7. When an agent is lost, if the handler returns then exactly the entities of the agent and all their
  descendants are gone, and the tracks it had allocated. It does return when every entity has an owner
  and no child stands behind its parent, as entities are added: the loop over the entities keeps
  a pointer to the next one, which a child behind its parent takes with it (\<open>freed_entity_followed\<close>).
\<close>

theorem disconnect_removes_entities:
  assumes "entities_ok (entities (world s))"
  shows "case agent_lost E r s of
      None \<Rightarrow> \<not> (children_first (pj E) (entities (world s)) \<and> list_all (\<lambda>e. owner_agent_id e \<noteq> None) (entities (world s)))
    | Some s' \<Rightarrow>
        entities (world s') = filter (\<lambda>f. \<not> falls_with (pj E) (agent_id r) (set (entities (world s))) (entities (world s)) f)
          (entities (world s)) \<and>
        map track_id (tracks s') = map track_id (filter (\<lambda>t. origin t \<noteq> Some (agent_at r)) (tracks s))"
proof (cases "agent_lost E r s")
  case None
  then show ?thesis
    using drop_entities_suffix [of "world s" "[]" "entities (world s)" "pj E" "agent_id r"] assms
    by (auto simp: agent_lost_def clients_changed_def)
next
  case (Some s')
  have "map track_id (drop_tracks a ts) = map track_id (filter (\<lambda>t. origin t \<noteq> Some a) ts)" for a and ts :: "unit media_track list"
    by (induction ts) (auto simp: drop_tracks_def)
  with Some show ?thesis
    using drop_entities_result [where st = "world s" and pre = "[]" and rest = "entities (world s)"] assms
    by (auto simp: agent_lost_def clients_changed_def)
qed

lemma parent_of_body: "parent_id json_ops (sample_body a i owner kvs) =
    string_value json_ops (get_cs json_ops (assoc ((=) ''relationships'') kvs) ''parent'')"
  by (simp add: parent_id_def sample_body_def json_eval)

theorem disconnect_removes_entities_witness:
  "\<exists>s'. agent_lost (sample_place_env (jobj [])) (agents (sample_place_server []) ! 1)
       (sample_place_server [sample_torso, sample_body 2 ''alice'' ''a'' [], sample_body 3 ''bob'' ''b'' []]) = Some s' \<and>
     map eid (entities (world s')) = [''torso'', ''alice'']"
proof -
  let ?es = "[sample_torso, sample_body 2 ''alice'' ''a'' [], sample_body 3 ''bob'' ''b'' []]"
  have pj: "pj (sample_place_env (jobj [])) = json_ops" by (simp add: sample_place_env_def)
  have cf: "children_first json_ops ?es"
    by (simp add: sample_torso_def parent_of_body) (simp add: sample_body_def json_eval string_value_def)
  have falls: "falls_with json_ops ''b'' (set ?es) ?es f \<longleftrightarrow> f = sample_body 3 ''bob'' ''b'' []" for f
  proof -
    have "g = sample_body 3 ''bob'' ''b'' []" if "descends json_ops ?es 3 g" for g
      using that
    proof induction
      case (descends_child p g)
      then show ?case
        by (auto simp: sample_torso_def parent_of_body) (auto simp: sample_body_def json_eval string_value_def)
    qed (auto simp: sample_torso_def sample_body_def)
    then have d: "descends json_ops ?es 3 f \<longleftrightarrow> f = sample_body 3 ''bob'' ''b'' []"
      by (auto intro: descends_self simp: sample_body_def)
    then show ?thesis by (auto simp: falls_with_def sample_torso_def sample_body_def)
  qed
  have parts: "entities (world (sample_place_server ?es)) = ?es" "agent_id (agents (sample_place_server []) ! 1) = ''b''"
    by (simp_all add: sample_place_server_def)
  have ok: "entities_ok ?es" and own: "list_all (\<lambda>e. owner_agent_id e \<noteq> None) ?es"
    by (simp_all add: entities_ok_def sample_torso_def sample_body_def)
  note removes = disconnect_removes_entities [of "sample_place_server ?es" "sample_place_env (jobj [])" "agents (sample_place_server []) ! 1",
      unfolded pj parts, OF ok]
  have rest: "map eid (filter (\<lambda>f. \<not> falls_with json_ops ''b'' (set ?es) ?es f) ?es) = [''torso'', ''alice'']"
    unfolding falls by (simp add: sample_torso_def sample_body_def)
  obtain s' where "agent_lost (sample_place_env (jobj [])) (agents (sample_place_server []) ! 1) (sample_place_server ?es) = Some s'"
    using removes cf own by (cases "agent_lost (sample_place_env (jobj [])) (agents (sample_place_server []) ! 1) (sample_place_server ?es)") auto
  with removes rest show ?thesis by (intro exI [of _ s']) (simp only: option.case)
qed

text \<open>
  When an entity of the agent is followed by a child of its own, the child is freed with it, and the
  loop goes on with the freed entity.
\<close>

lemma drop_entities_late:
  assumes "entities st = pre @ mid @ e # f # post" and "entities_ok (entities st)"
    and "list_all (\<lambda>g. owner_agent_id g \<noteq> None \<and> owner_agent_id g \<noteq> Some owner) mid"
    and "owner_agent_id e = Some owner" and "parent_id C f = Some (eid e)"
  shows "drop_entities C owner n (first_address (mid @ e # f # post)) st = None"
  using assms(1,3)
proof (induction mid arbitrary: pre n)
  case Nil
  have in_st: "e \<in> set (entities st)" "f \<in> set (entities st)" using Nil(1) by simp_all
  have get: "entity_by_address st (entity_at e) = Some e"
    using find_at [OF assms(2) in_st(1)] by (simp add: entity_by_address_def)
  have nxt: "next_address_of (entity_at e) (entities st) = Some (entity_at f)"
    using next_address_append [of pre e "f # post"] Nil(1) assms(2) by (simp add: entities_ok_def)
  obtain st1 where st1: "allo_state_remove_entity C st (entity_at e) AlloRemovalCascade = Some st1"
    "entities st1 = filter (\<lambda>g. \<not> descends C (entities st) (entity_at e) g) (entities st)"
    using remove_entity_cascade [OF assms(2) in_st(1), of C] by auto
  have "descends C (entities st) (entity_at e) f"
    using descends_self [OF in_st(1) refl, of C] in_st(2) assms(5) by (rule descends_child)
  then have "entity_by_address st1 (entity_at f) = None"
    using entities_ok_same(1) [OF assms(2) _ in_st(2)] st1(2) by (auto simp: entity_by_address_def find_None_iff)
  then have dead: "drop_entities C owner m (Some (entity_at f)) st1 = None" for m by (cases m) simp_all
  then show ?case by (cases n) (simp_all add: get nxt assms(4) st1(1))
next
  case (Cons g mid)
  have get: "entity_by_address st (entity_at g) = Some g"
    using find_at [OF assms(2), of g] Cons.prems(1) by (simp add: entity_by_address_def)
  have nxt: "next_address_of (entity_at g) (entities st) = first_address (mid @ e # f # post)"
    using next_address_append [of pre g "mid @ e # f # post"] Cons.prems(1) assms(2)
    by (cases mid) (auto simp: entities_ok_def)
  have "drop_entities C owner m (first_address (mid @ e # f # post)) st = None" for m
    using Cons.IH [of "pre @ [g]" m] Cons.prems by simp
  then show ?case using Cons.prems(2) by (cases n) (auto simp: get nxt split: option.split)
qed

theorem freed_entity_followed:
  assumes "entities (world s) = mid @ e # f # post" and "entities_ok (entities (world s))"
    and "list_all (\<lambda>g. owner_agent_id g \<noteq> None \<and> owner_agent_id g \<noteq> Some (agent_id r)) mid"
    and "owner_agent_id e = Some (agent_id r)" and "parent_id (pj E) f = Some (eid e)"
  shows "agent_lost E r s = None"
  using drop_entities_late [of "world s" "[]" mid e f post "agent_id r" "pj E"] assms
  by (simp add: agent_lost_def clients_changed_def)

theorem freed_entity_followed_witness:
  "agent_lost (sample_place_env (jobj [])) (agents (sample_place_server []) ! 0)
     (sample_place_server [sample_body 2 ''alice'' ''a'' [], sample_torso]) = None"
  by (rule freed_entity_followed [where mid = "[]" and e = "sample_body 2 ''alice'' ''a'' []" and f = sample_torso and post = "[]"])
    (simp_all add: sample_place_server_def entities_ok_def sample_place_env_def parent_of_body sample_torso_def,
     simp_all add: sample_body_def json_eval string_value_def)

section \<open>Listing agents\<close>

text \<open>An agent that has not announced itself has no avatar, and listing the agents follows a null pointer.\<close>

lemma fold_opt_None: "x \<in> set xs \<Longrightarrow> (\<And>s. f x s = None) \<Longrightarrow> fold_opt f xs s = None"
  by (induction xs arbitrary: s) (auto split: option.split)

theorem unannounced_agent_breaks_list:
  assumes "c \<in> set (agents s)" and "avatar_entity_id c = None"
  shows "handle_place_list_agents_interaction E a i msg s = None"
  using fold_opt_None [OF assms(1), of "\<lambda>c l. map_option (AddItemToArray (pj E) l) (describe_agent E (world s) c)"] assms(2)
  by (simp add: handle_place_list_agents_interaction_def describe_agent_def state_get_entity_def)

theorem unannounced_agent_breaks_list_witness:
  "handle_place_list_agents_interaction (sample_place_env (jobj [])) 7 (sample_request None) (jarr [jstr ''list_agents'']) (sample_place_server []) = None"
  by (rule unannounced_agent_breaks_list [of "agents (sample_place_server []) ! 0"]) (simp_all add: sample_place_server_def)

end
