(* ===== verification/Media_Correct.thy ===== *)
theory Media_Correct
  imports Place_Correct
begin

text \<open>
  Media from the agent that sends them to the agents that listen: the tracks of a client always have
  the coder of their type, and a packet of sound arrives, by way of the place, under the id of its
  track.
\<close>

section \<open>Tracks of a client\<close>

definition track_ready :: "'d media_track \<Rightarrow> bool" where
  "track_ready t = (case (subsystem t, info t) of
       (Some Audio_subsystem, Opus (Some d)) \<Rightarrow> track_type t = allo_media_type_audio
     | (Some Mjpeg_subsystem, Mjpeg) \<Rightarrow> track_type t = allo_media_type_video
     | _ \<Rightarrow> False)"

definition client_tracks_ok :: "'d media_track list \<Rightarrow> bool" where
  "client_tracks_ok ts \<longleftrightarrow> distinct (map track_id ts) \<and> list_all track_ready ts"

lemma choose_subsystem_ready:
  assumes "choose_subsystem E ss t component = Some t'" and "opus_create E \<noteq> None" and "subsystem t = None"
  shows "track_id t' = track_id t \<and> (subsystem t' = None \<or> track_ready t')"
  using assms
proof (induction ss arbitrary: t)
  case (Cons s ss)
  show ?case
  proof (cases s)
    case Audio_subsystem
    then show ?thesis using Cons by (auto simp: track_initialize_def audio_track_initialize_def track_ready_def split: if_splits)
  next
    case Mjpeg_subsystem
    then show ?thesis using Cons
      by (auto simp: track_initialize_def video_track_initialize_def track_ready_def split: if_splits option.splits)
  qed
qed simp

lemma tracks_ok_removed: "client_tracks_ok ts \<Longrightarrow> media_track_destroy ts n = Some ts' \<Longrightarrow> client_tracks_ok ts'"
proof -
  have "distinct (splice_out xs n 1)" if "distinct xs" for xs :: "u32 list"
    using that by (auto simp: splice_out_def dest: set_take_disj_set_drop_if_distinct [of _ n "Suc n"])
  then show "client_tracks_ok ts \<Longrightarrow> media_track_destroy ts n = Some ts' \<Longrightarrow> client_tracks_ok ts'"
    using set_splice_out [of ts n 1]
    by (auto simp: client_tracks_ok_def media_track_destroy_def list_all_iff splice_out_map [symmetric]
        split: option.splits media_subsystem.splits media_info.splits)
qed

lemma tracks_ok_found:
  assumes "client_track_find_or_create E ss i ty component ts = Some ts'" and "opus_create E \<noteq> None" and "client_tracks_ok ts"
  shows "client_tracks_ok ts'"
proof (cases "media_track_find ts i")
  case None
  let ?new = "media_track_new i ty"
  obtain t where t: "choose_subsystem E ss ?new component = Some t"
    and ts': "if subsystem t = None then media_track_destroy (ts @ [t]) (length ts) = Some ts' else ts' = ts @ [t]"
    using assms(1) None by (auto simp: client_track_find_or_create_def media_track_create_def split: option.splits if_splits)
  have ready: "track_id t = i" "subsystem t = None \<or> track_ready t"
    using choose_subsystem_ready [OF t assms(2)] by (simp_all add: media_track_new_def)
  have "i \<notin> set (map track_id ts)" using None by (simp add: track_find_None)
  then show ?thesis
    using ts' assms(3) ready by (auto simp: client_tracks_ok_def media_track_destroy_def split: if_splits)
qed (use assms in \<open>auto simp: client_track_find_or_create_def split: if_splits\<close>)

lemma tracks_ok_added:
  "add_track_from_comp E ss cdata ts = Some ts' \<Longrightarrow> opus_create E \<noteq> None \<Longrightarrow> client_tracks_ok ts \<Longrightarrow> client_tracks_ok ts'"
  by (auto simp: add_track_from_comp_def split: option.splits dest: tracks_ok_found)

lemma tracks_ok_removed_comp:
  "remove_track_from_comp C cdata ts = Some ts' \<Longrightarrow> client_tracks_ok ts \<Longrightarrow> client_tracks_ok ts'"
  by (auto simp: remove_track_from_comp_def client_track_destroy_def split: option.splits dest: tracks_ok_removed)

lemma fold_opt_invariant:
  "fold_opt f xs s = Some s' \<Longrightarrow> P s \<Longrightarrow> (\<And>x s s'. f x s = Some s' \<Longrightarrow> P s \<Longrightarrow> P s') \<Longrightarrow> P s'"
  by (induction xs arbitrary: s) (auto split: option.splits)

lemma tracks_ok_statediff:
  assumes "media_handle_statediff E ss diff ts = Some ts'" and "opus_create E \<noteq> None" and "client_tracks_ok ts"
  shows "client_tracks_ok ts'"
proof -
  let ?live = "filter (\<lambda>r. ref_name r = ''live_media'')"
  obtain ts1 ts2 where f: "fold_opt (\<lambda>r. add_track_from_comp E ss (newdata r)) (?live (new_components diff)) ts = Some ts1"
    "fold_opt (\<lambda>r ts. case remove_track_from_comp (mj E) (olddata r) ts of None \<Rightarrow> None
       | Some ts' \<Rightarrow> add_track_from_comp E ss (newdata r) ts') (?live (updated_components diff)) ts1 = Some ts2"
    "fold_opt (\<lambda>r. remove_track_from_comp (mj E) (olddata r)) (?live (deleted_components diff)) ts2 = Some ts'"
    using assms(1) by (auto simp: media_handle_statediff_def Let_def split: option.splits)
  have "client_tracks_ok ts1"
    using f(1) assms(3) by (rule fold_opt_invariant) (rule tracks_ok_added [OF _ assms(2)])
  with f(2) have "client_tracks_ok ts2"
    by (rule fold_opt_invariant) (auto split: option.splits intro: tracks_ok_added [OF _ assms(2)] dest: tracks_ok_removed_comp)
  with f(3) show ?thesis by (rule fold_opt_invariant) (rule tracks_ok_removed_comp)
qed

text \<open>
  C24. If the tracks of a client have different ids, and each the subsystem of its type with the coder that
  belongs to it, then this is so after any change of the state, as long as Opus makes decoders. So
  a packet of seven bytes or more is handled without a failed assertion, unless Opus cannot decode it;
  a shorter one fails the first assertion.
\<close>

theorem tracks_have_coders:
  assumes "media_handle_statediff E ss diff ts = Some ts'" and "opus_create E \<noteq> None" and "client_tracks_ok ts"
    and "packet_track data = Some i"
  shows "client_tracks_ok ts' \<and> (parse_media E ac vc data ts' \<noteq> None \<or>
    (\<exists>n d. media_track_find ts' i = Some n \<and> info (ts' ! n) = Opus (Some d) \<and> fst (opus_decode E d (drop 4 data)) = None))"
proof -
  have ok: "client_tracks_ok ts'" by (rule tracks_ok_statediff [OF assms(1-3)])
  show ?thesis
  proof (cases "media_track_find ts' i")
    case (Some n)
    then have "n < length ts'" by (auto simp: media_track_find_def Let_def split: if_splits)
    then have "track_ready (ts' ! n)" using ok by (simp add: client_tracks_ok_def list_all_length)
    then show ?thesis using ok Some assms(4)
      by (auto simp: parse_media_def track_ready_def subsystem_parse_def Let_def
          split: option.splits media_subsystem.splits media_info.splits prod.splits)
  qed (use ok assms(4) in \<open>simp add: parse_media_def\<close>)
qed

definition sample_media :: "(json, unit, unit) media_env" where
  "sample_media = \<lparr>mj = json_ops, opus_create = Some (), opus_decode = (\<lambda>d bytes. (Some [7], ())),
     opus_encode = (\<lambda>pcm. Some [9, 8, 7]), jpeg_chunks = (\<lambda>p. [[1, 2], [3]]), jpeg_decode = (\<lambda>bytes. Some ((), 4, 4)),
     picture_is_rgba = (\<lambda>p. True)\<rparr>"

definition sample_live :: "json state_diff" where
  "sample_live = allo_state_diff_init\<lparr>new_components := [\<lparr>ref_eid = ''lamp'', ref_name = ''live_media'', olddata = None,
     newdata = Some (jobj [(''track_id'', jnum 5), (''type'', jstr ''audio''), (''format'', jstr ''opus'')])\<rparr>]\<rparr>"

theorem tracks_have_coders_witness:
  "\<exists>ts. media_handle_statediff sample_media (media_initialize []) sample_live [] = Some ts \<and> map track_id ts = [5] \<and>
     parse_media sample_media True True [0, 0, 0, 5, 1, 2, 3] ts \<noteq> None"
proof -
  let ?r = "media_handle_statediff sample_media (media_initialize []) sample_live []"
  have "?r \<noteq> None \<and> map track_id (the ?r) = [5]" by code_simp
  then obtain ts where ts: "?r = Some ts" "map track_id ts = [5]" by auto
  have p: "packet_track [0, 0, 0, 5, 1, 2, 3] = Some 5" by code_simp
  have "opus_create sample_media \<noteq> None" "client_tracks_ok ([] :: unit media_track list)"
    by (simp_all add: sample_media_def client_tracks_ok_def)
  from tracks_have_coders [OF ts(1) this p, of True True] show ?thesis
    using ts by (auto simp: sample_media_def)
qed

section \<open>Sound by way of the place\<close>

lemma packet_track_be32: "3 \<le> length bytes \<Longrightarrow> packet_track (be32 i @ bytes) = Some i"
  by (cases bytes; cases "tl bytes"; cases "tl (tl bytes)") (auto simp: packet_track_def be32_def)

text \<open>
  C13. A packet of sound that a client sends on its own track is passed on by the place to the listeners
  of the track as it is, and a listener calls back with the id of the track and the sound that Opus
  makes of what it encoded.
\<close>

theorem sound_reaches_listeners:
  assumes "alloclient_send_audio E True True i pcm sent = Some (Some packet, sent')"
    and "media_track_find (tracks s) i = Some n" and "origin (tracks s ! n) = Some a"
    and "set (listeners (tracks s ! n)) \<subseteq> agent_at ` set (agents s)"
    and "media_track_find heard i = Some m" and "subsystem (heard ! m) = Some Audio_subsystem"
    and "info (heard ! m) = Opus (Some d)" and "opus_encode E pcm = Some bytes" and "opus_decode E d bytes = (Some out, d')"
  shows "received_from_client P a CHANNEL_AUDIO packet now s =
      Some (s\<lparr>events := events s @ map (\<lambda>l. Sent_media l CHANNEL_AUDIO packet) (listeners (tracks s ! n))\<rparr>) \<and>
    map_option snd (parse_media E True vc packet heard) = Some [Audio_callback i out]"
proof -
  have packet: "packet = be32 i @ bytes" "3 \<le> length bytes"
    using assms(1,8) by (auto simp: alloclient_send_audio_def split: if_splits)
  have i: "packet_track packet = Some i" by (simp add: packet packet_track_be32)
  have "received_from_client P a CHANNEL_AUDIO packet now s = handle_media a packet CHANNEL_AUDIO s"
    by (simp add: received_from_client_def CHANNEL_AUDIO_def CHANNEL_STATEDIFFS_def CHANNEL_COMMANDS_def CHANNEL_CLOCK_def)
  moreover have "track_id (heard ! m) = i"
    using assms(5) nth_length_takeWhile [of "\<lambda>t. track_id t \<noteq> i" heard]
    by (auto simp: media_track_find_def Let_def split: if_splits)
  moreover have "drop 4 packet = bytes" by (simp add: packet be32_def)
  ultimately show ?thesis
    using media_loop [OF assms(4), of CHANNEL_AUDIO packet] assms(2,3,5-7,9)
    by (simp add: handle_media_def i parse_media_def subsystem_parse_def Let_def)
qed

definition sample_heard :: "unit media_track" where
  "sample_heard = (media_track_new 1 allo_media_type_audio)\<lparr>subsystem := Some Audio_subsystem, info := Opus (Some ())\<rparr>"

theorem sound_reaches_listeners_witness:
  "\<exists>packet sent'. alloclient_send_audio sample_media True True 1 (replicate 480 0) [] = Some (Some packet, sent') \<and>
     map_option events (received_from_client (sample_place_env (jobj [])) 7 CHANNEL_AUDIO packet 2
       (sample_place_server []\<lparr>tracks := [sample_track [8]]\<rparr>)) = Some [Sent_media 8 CHANNEL_AUDIO packet] \<and>
     map_option snd (parse_media sample_media True True packet [sample_heard]) = Some [Audio_callback 1 [7]]"
proof -
  have sent: "alloclient_send_audio sample_media True True 1 (replicate 480 0) ([] :: unit media_track list) =
      Some (Some (be32 1 @ [9, 8, 7]), [])"
    by (simp add: alloclient_send_audio_def sample_media_def count_sent_def media_track_find_def)
  show ?thesis
    using sound_reaches_listeners [OF sent, of "sample_place_server []\<lparr>tracks := [sample_track [8]]\<rparr>" 0 7 "[sample_heard]" 0 "()"
        "[9, 8, 7]" "[7]" "()" "sample_place_env (jobj [])" 2 True] sent
    by (simp add: sample_place_server_def sample_track_def sample_heard_def media_track_find_def media_track_new_def sample_media_def)
qed

text \<open>A track id that comes back with another type stops the client.\<close>

lemma reused_track_aborts:
  assumes "media_track_find ts i = Some n" and "track_type (ts ! n) \<noteq> ty"
  shows "client_track_find_or_create E ss i ty component ts = None"
  using assms by (simp add: client_track_find_or_create_def)

end
