(* ===== verification/Gltf.thy ===== *)
theory Gltf
  imports Movement Sha256
begin

text \<open>
  The models of assets, \<^verbatim>\<open>src/allo_gltf.cpp\<close>: the table of loaded models, the box around one, and the
  transform of one of its nodes. \<open>tinygltf\<close>, a submodule, parses the bytes; the records below have the
  fields of its structures that the code reads, with the values the library documents for those that are
  missing (no mesh and no buffer view is -1). \<open>None\<close> is an access outside a vector.
\<close>

section \<open>A parsed model\<close>

record gltf_primitive =
  attributes :: "string \<rightharpoonup> int"

record gltf_node =
  node_name :: string
  node_mesh :: int
  node_translation :: "rat list"
  node_rotation :: "rat list"
  node_scale :: "rat list"
  node_matrix :: "rat list"

record gltf_accessor =
  acc_bufferView :: int
  acc_byteOffset :: size_t
  acc_count :: size_t

record gltf_buffer_view =
  bv_buffer :: int
  bv_byteOffset :: size_t

record gltf_model =
  gltf_nodes :: "gltf_node list"
  gltf_meshes :: "gltf_primitive list list"
  gltf_accessors :: "gltf_accessor list"
  gltf_bufferViews :: "gltf_buffer_view list"
  gltf_buffers :: "u8 list list"

text \<open>\<open>LoadBinaryFromMemory\<close>, and \<open>mat4_scale\<close> of \<open>mathc\<close>.\<close>

record gltf_lib =
  load_binary :: "u8 list \<Rightarrow> gltf_model option"
  mat4_scale :: "allo_m4x4 \<Rightarrow> allo_vector \<Rightarrow> allo_m4x4"

section \<open>The table of models\<close>

type_synonym model_manager = "string \<rightharpoonup> gltf_model"

definition allo_gltf_load :: "gltf_lib \<Rightarrow> model_manager \<Rightarrow> string \<Rightarrow> u8 list \<Rightarrow> bool \<times> model_manager" where
  "allo_gltf_load G models name bs =
     (if models name \<noteq> None then (True, models)
      else case load_binary G bs of
             Some model \<Rightarrow> (True, models(name \<mapsto> model))
           | None \<Rightarrow> (False, models))"

definition allo_gltf_unload :: "model_manager \<Rightarrow> string \<Rightarrow> bool \<times> model_manager" where
  "allo_gltf_unload models name =
     (if models name \<noteq> None then (True, models(name := None)) else (False, models))"

section \<open>The box around a model\<close>

record allo_gltf_bb =
  bb_min :: allo_vector
  bb_max :: allo_vector

definition FLT_MAX :: rat where "FLT_MAX = (2 ^ 24 - 1) * 2 ^ 104"

definition FLT_MIN :: rat where "FLT_MIN = 1 / 2 ^ 126"

definition c_MIN :: "rat \<Rightarrow> rat \<Rightarrow> rat" where "c_MIN a b = (if a < b then a else b)"

definition c_MAX :: "rat \<Rightarrow> rat \<Rightarrow> rat" where "c_MAX a b = (if b < a then a else b)"

text \<open>A vector of C++ read at an \<open>int\<close>, which becomes a \<open>size_t\<close>.\<close>

definition vector_at :: "'a list \<Rightarrow> int \<Rightarrow> 'a option" where
  "vector_at xs i = (if 0 \<le> i \<and> nat i < length xs then Some (xs ! nat i) else None)"

text \<open>
  A \<open>float\<close> of four bytes on a little-endian machine: sign, exponent and fraction. Infinities and NaN, which
  the format does not allow in positions, are left out.
\<close>

definition float_value :: "u32 \<Rightarrow> rat" where
  "float_value w =
     (let s = (if bit w 31 then - 1 else 1);
          e = unat (take_bit 8 (drop_bit 23 w));
          f = of_nat (unat (take_bit 23 w)) / 2 ^ 23
      in if e = 0 then s * f / 2 ^ 126 else s * (1 + f) * 2 ^ e / 2 ^ 127)"

definition float_at :: "u8 list \<Rightarrow> nat \<Rightarrow> rat" where
  "float_at bs i = float_value (le32_get (bs ! i) (bs ! (i + 1)) (bs ! (i + 2)) (bs ! (i + 3)))"

text \<open>\<open>attributes["POSITION"]\<close> of a \<open>std::map\<close>: a missing key is put in with 0.\<close>

definition position_accessor :: "gltf_primitive \<Rightarrow> int \<times> gltf_primitive" where
  "position_accessor prim =
     (case attributes prim ''POSITION'' of
        Some i \<Rightarrow> (i, prim)
      | None \<Rightarrow> (0, prim\<lparr>attributes := (attributes prim)(''POSITION'' \<mapsto> 0)\<rparr>))"

text \<open>The turn of the inner loop: vertex \<open>i\<close> of the positions that start at \<open>start\<close>.\<close>

definition vertex :: "u8 list \<Rightarrow> nat \<Rightarrow> nat \<Rightarrow> allo_vector" where
  "vertex bs start i = vec (float_at bs (start + 12 * i)) (float_at bs (start + 12 * i + 4)) (float_at bs (start + 12 * i + 8))"

definition extend_box :: "allo_vector \<Rightarrow> allo_vector \<Rightarrow> allo_gltf_bb \<Rightarrow> allo_gltf_bb" where
  "extend_box scale p bb =
     (let q = allo_vector_mul p scale
      in \<lparr>bb_min = vec (c_MIN (vx (bb_min bb)) (vx q)) (c_MIN (vy (bb_min bb)) (vy q)) (c_MIN (vz (bb_min bb)) (vz q)),
          bb_max = vec (c_MAX (vx (bb_max bb)) (vx q)) (c_MAX (vy (bb_max bb)) (vy q)) (c_MAX (vz (bb_max bb)) (vz q))\<rparr>)"

text \<open>Where the positions of an accessor lie: the buffer, the first byte and the number of vertices.\<close>

definition accessor_data :: "gltf_model \<Rightarrow> int \<Rightarrow> (u8 list \<times> nat \<times> nat) option" where
  "accessor_data model i =
     (case vector_at (gltf_accessors model) i of
        None \<Rightarrow> None
      | Some accessor \<Rightarrow>
          (case vector_at (gltf_bufferViews model) (acc_bufferView accessor) of
             None \<Rightarrow> None
           | Some bufferview \<Rightarrow>
               (case vector_at (gltf_buffers model) (bv_buffer bufferview) of
                  None \<Rightarrow> None
                | Some data \<Rightarrow>
                    (let start = unat (bv_byteOffset bufferview + acc_byteOffset accessor);
                         count = unat (acc_count accessor)
                     in if start < length data \<and> start + 12 * count \<le> length data
                        then Some (data, start, count) else None))))"

text \<open>The loop over the primitives of a mesh; it gives them back with the keys that were put in.\<close>

fun primitives_box ::
  "gltf_model \<Rightarrow> allo_vector \<Rightarrow> gltf_primitive list \<Rightarrow> allo_gltf_bb \<Rightarrow> (gltf_primitive list \<times> allo_gltf_bb) option" where
  "primitives_box model scale [] bb = Some ([], bb)"
| "primitives_box model scale (prim # prims) bb =
     (case position_accessor prim of (i, prim') \<Rightarrow>
        (case accessor_data model i of
           None \<Rightarrow> None
         | Some (data, start, count) \<Rightarrow>
             (let bb' = fold (\<lambda>i. extend_box scale (vertex data start i)) [0 ..< count] bb
              in map_option (\<lambda>(prims', bb''). (prim' # prims', bb'')) (primitives_box model scale prims bb'))))"

definition scale_of :: "gltf_node \<Rightarrow> allo_vector" where
  "scale_of node =
     (let s = (if length (node_scale node) < 3 then [1, 1, 1] else node_scale node) in vec (s ! 0) (s ! 1) (s ! 2))"

text \<open>The loop over the nodes.\<close>

definition node_box :: "gltf_node \<Rightarrow> gltf_model \<times> allo_gltf_bb \<Rightarrow> (gltf_model \<times> allo_gltf_bb) option" where
  "node_box node s =
     (case s of (model, bb) \<Rightarrow>
        (case vector_at (gltf_meshes model) (node_mesh node) of
           None \<Rightarrow> None
         | Some mesh \<Rightarrow>
             map_option (\<lambda>(mesh', bb'). (model\<lparr>gltf_meshes := (gltf_meshes model)[nat (node_mesh node) := mesh']\<rparr>, bb'))
               (primitives_box model (scale_of node) mesh bb)))"

definition empty_box :: allo_gltf_bb where
  "empty_box = \<lparr>bb_min = vec FLT_MAX FLT_MAX FLT_MAX, bb_max = vec FLT_MIN FLT_MIN FLT_MIN\<rparr>"

definition allo_gltf_get_aabb :: "model_manager \<Rightarrow> string \<Rightarrow> (allo_gltf_bb option \<times> model_manager) option" where
  "allo_gltf_get_aabb models name =
     (case models name of
        None \<Rightarrow> Some (None, models)
      | Some model \<Rightarrow>
          (case fold_opt node_box (gltf_nodes model) (model, empty_box) of
             None \<Rightarrow> None
           | Some (model', bb) \<Rightarrow> Some (Some bb, models(name \<mapsto> model'))))"

section \<open>The transform of a node\<close>

definition invalid_transform :: allo_m4x4 where
  "invalid_transform = allo_m4x4_identity\<lparr>c1r1 := - 1, c2r2 := - 1, c3r3 := - 1, c4r4 := - 1\<rparr>"

definition node_transform :: "gltf_lib \<Rightarrow> simlib \<Rightarrow> gltf_node \<Rightarrow> allo_m4x4" where
  "node_transform G L node =
     (if length (node_matrix node) \<noteq> 16 then
        (let t = node_translation node; r = node_rotation node; s = node_scale node;
             m = (if length t = 3 then allo_m4x4_translate (vec (t ! 0) (t ! 1) (t ! 2)) else allo_m4x4_identity);
             m' = (if length r = 4
                   then allo_m4x4_concat (mathc_of L) m
                          (mat4_rotation_quat L \<lparr>qx = r ! 0, qy = r ! 1, qz = r ! 2, qw = r ! 3\<rparr>)
                   else m)
         in if length s = 3 then mat4_scale G m' (vec (s ! 0) (s ! 1) (s ! 2)) else m')
      else m_of_list (node_matrix node))"

definition allo_gltf_get_node_transform :: "gltf_lib \<Rightarrow> simlib \<Rightarrow> u8 list \<Rightarrow> string \<Rightarrow> allo_m4x4" where
  "allo_gltf_get_node_transform G L bs name =
     (case load_binary G bs of
        None \<Rightarrow> invalid_transform
      | Some model \<Rightarrow>
          (case List.find (\<lambda>node. node_name node = name) (gltf_nodes model) of
             None \<Rightarrow> invalid_transform
           | Some node \<Rightarrow> node_transform G L node))"

end
