(* ===== verification/Gltf_Correct.thy ===== *)
theory Gltf_Correct
  imports Gltf
begin

text \<open>
  The box around a model is the least one around all its vertices, and around a point of its own: the
  numbers it starts with. And the transforms of its nodes.
\<close>

section \<open>The vertices of a model\<close>

definition points_at :: "(int \<Rightarrow> (u8 list \<times> nat \<times> nat) option) \<Rightarrow> allo_vector \<Rightarrow> int \<Rightarrow> allo_vector list option" where
  "points_at acc scale i = map_option (\<lambda>(data, start, count). map (\<lambda>i. allo_vector_mul (vertex data start i) scale) [0 ..< count]) (acc i)"

definition primitive_points :: "gltf_model \<Rightarrow> allo_vector \<Rightarrow> gltf_primitive \<Rightarrow> allo_vector list option" where
  "primitive_points model scale prim = points_at (accessor_data model) scale (fst (position_accessor prim))"

definition node_points :: "gltf_model \<Rightarrow> gltf_node \<Rightarrow> allo_vector list option" where
  "node_points model node =
     (case vector_at (gltf_meshes model) (node_mesh node) of
        None \<Rightarrow> None
      | Some mesh \<Rightarrow> map_option concat (those (map (primitive_points model (scale_of node)) mesh)))"

text \<open>All of them, when every node has a mesh and every index and range is within bounds.\<close>

definition model_points :: "gltf_model \<Rightarrow> allo_vector list option" where
  "model_points model = map_option concat (those (map (node_points model) (gltf_nodes model)))"

text \<open>The least box around the vertices and the two corners the code starts with.\<close>

definition box_of :: "allo_vector list \<Rightarrow> allo_gltf_bb" where
  "box_of ps =
     \<lparr>bb_min = vec (Min (insert FLT_MAX (vx ` set ps))) (Min (insert FLT_MAX (vy ` set ps))) (Min (insert FLT_MAX (vz ` set ps))),
      bb_max = vec (Max (insert FLT_MIN (vx ` set ps))) (Max (insert FLT_MIN (vy ` set ps))) (Max (insert FLT_MIN (vz ` set ps)))\<rparr>"

lemma box_of_Nil: "box_of [] = empty_box"
  by (simp add: box_of_def empty_box_def)

lemma c_MIN_MAX: "c_MIN a b = min b a" "c_MAX a b = max b a"
  by (auto simp: c_MIN_def c_MAX_def min_def max_def)

lemma extend_box_of: "extend_box scale p (box_of ps) = box_of (ps @ [allo_vector_mul p scale])"
proof -
  have "Min (insert a (insert q A)) = min q (Min (insert a A))" "Max (insert a (insert q A)) = max q (Max (insert a A))"
    if "finite A" for a q :: rat and A using that by (subst insert_commute, subst Min_insert Max_insert; simp)+
  then show ?thesis by (simp add: extend_box_def box_of_def Let_def c_MIN_MAX)
qed

lemma extend_boxes_of:
  "fold (\<lambda>i. extend_box scale (v i)) is (box_of ps) = box_of (ps @ map (\<lambda>i. allo_vector_mul (v i) scale) is)"
  by (induction "is" arbitrary: ps) (simp_all add: extend_box_of)

section \<open>The loops\<close>

lemma those_Cons_Some: "those (x # xs) = Some zs \<longleftrightarrow> (\<exists>y ys. x = Some y \<and> those xs = Some ys \<and> zs = y # ys)"
  by (cases x) auto

text \<open>The keys that are put in leave the vertices as they are.\<close>

lemma position_accessor_again:
  "position_accessor prim = (i, prim') \<Longrightarrow> fst (position_accessor prim') = i"
  by (auto simp: position_accessor_def split: option.splits)

lemma primitives_box_points:
  "those (map (primitive_points model scale) prims) = Some pss \<Longrightarrow>
   \<exists>prims'. primitives_box model scale prims (box_of ps) = Some (prims', box_of (ps @ concat pss)) \<and>
     map (fst \<circ> position_accessor) prims' = map (fst \<circ> position_accessor) prims"
proof (induction prims arbitrary: pss ps)
  case (Cons prim prims)
  obtain i prim' where pos: "position_accessor prim = (i, prim')" by force
  from Cons.prems obtain d start count pss' where
    a: "accessor_data model i = Some (d, start, count)" and r: "those (map (primitive_points model scale) prims) = Some pss'"
    and pss: "pss = map (\<lambda>i. allo_vector_mul (vertex d start i) scale) [0 ..< count] # pss'"
    unfolding list.map those_Cons_Some by (auto simp: primitive_points_def [of model scale prim] points_at_def pos)
  let ?v = "\<lambda>i. allo_vector_mul (vertex d start i) scale"
  obtain prims' where "primitives_box model scale prims (box_of (ps @ map ?v [0 ..< count])) =
      Some (prims', box_of ((ps @ map ?v [0 ..< count]) @ concat pss'))"
    and "map (fst \<circ> position_accessor) prims' = map (fst \<circ> position_accessor) prims"
    using Cons.IH [OF r] by blast
  then show ?case using position_accessor_again [OF pos] by (simp add: pos a pss extend_boxes_of Let_def comp_def)
qed simp

definition same_geometry :: "gltf_model \<Rightarrow> gltf_model \<Rightarrow> bool" where
  "same_geometry model model' \<longleftrightarrow>
     gltf_accessors model' = gltf_accessors model \<and> gltf_bufferViews model' = gltf_bufferViews model \<and>
     gltf_buffers model' = gltf_buffers model \<and>
     map (map (fst \<circ> position_accessor)) (gltf_meshes model') = map (map (fst \<circ> position_accessor)) (gltf_meshes model)"

lemma same_accessor_data: "same_geometry model model' \<Longrightarrow> accessor_data model' = accessor_data model"
  unfolding accessor_data_def [abs_def] same_geometry_def by (elim conjE) (simp only:)

lemma same_node_points:
  assumes "same_geometry model model'"
  shows "node_points model' node = node_points model node"
proof -
  let ?pos = "map (map (fst \<circ> position_accessor))"
  have alt: "node_points model node = (case vector_at (?pos (gltf_meshes model)) (node_mesh node) of
      None \<Rightarrow> None
    | Some is \<Rightarrow> map_option concat (those (map (points_at (accessor_data model) (scale_of node)) is)))" for model
    by (simp add: node_points_def vector_at_def primitive_points_def [abs_def] comp_def)
  have "?pos (gltf_meshes model') = ?pos (gltf_meshes model)" using assms by (simp add: same_geometry_def)
  then show ?thesis unfolding alt same_accessor_data [OF assms] by (rule arg_cong)
qed

lemma node_box_points:
  assumes "node_points model node = Some qs"
  shows "\<exists>model'. node_box node (model, box_of ps) = Some (model', box_of (ps @ qs)) \<and> same_geometry model model'"
proof -
  obtain mesh pss where m: "vector_at (gltf_meshes model) (node_mesh node) = Some mesh"
    and pss: "those (map (primitive_points model (scale_of node)) mesh) = Some pss" and qs: "qs = concat pss"
    using assms by (auto simp: node_points_def split: option.splits)
  obtain mesh' where b: "primitives_box model (scale_of node) mesh (box_of ps) = Some (mesh', box_of (ps @ qs))"
    and same: "map (fst \<circ> position_accessor) mesh' = map (fst \<circ> position_accessor) mesh"
    using primitives_box_points [OF pss] qs by blast
  let ?k = "nat (node_mesh node)"
  have k: "?k < length (gltf_meshes model)" "mesh = gltf_meshes model ! ?k"
    using m by (auto simp: vector_at_def split: if_splits)
  have "map (map (fst \<circ> position_accessor)) ((gltf_meshes model)[?k := mesh']) = map (map (fst \<circ> position_accessor)) (gltf_meshes model)"
    using k same by (simp add: map_update) (metis list_update_id nth_map)
  then show ?thesis using m b by (simp add: node_box_def same_geometry_def)
qed

lemma same_geometry_trans: "same_geometry a b \<Longrightarrow> same_geometry b c \<Longrightarrow> same_geometry a c"
  by (simp add: same_geometry_def)

lemma nodes_box_points:
  "those (map (node_points model) nodes) = Some qss \<Longrightarrow>
   \<exists>model'. fold_opt node_box nodes (model, box_of ps) = Some (model', box_of (ps @ concat qss)) \<and> same_geometry model model'"
proof (induction nodes arbitrary: model ps qss)
  case Nil
  then show ?case by (simp add: same_geometry_def)
next
  case (Cons node nodes)
  then obtain qs qss' where q: "node_points model node = Some qs" and r: "those (map (node_points model) nodes) = Some qss'"
    and qss: "qss = qs # qss'" unfolding list.map those_Cons_Some by blast
  obtain model' where b: "node_box node (model, box_of ps) = Some (model', box_of (ps @ qs))" and s: "same_geometry model model'"
    using node_box_points [OF q] by blast
  have "map (node_points model') nodes = map (node_points model) nodes"
    using same_node_points [OF s] by (intro map_cong refl)
  then have "those (map (node_points model') nodes) = Some qss'" using r by (simp only:)
  from Cons.IH [OF this, of "ps @ qs"] show ?case
    using b s same_geometry_trans by (fastforce simp: qss)
qed

section \<open>Properties\<close>

lemma same_model_points:
  assumes "same_geometry model model'" and "gltf_nodes model' = gltf_nodes model"
  shows "model_points model' = model_points model"
proof -
  have "map (node_points model') (gltf_nodes model) = map (node_points model) (gltf_nodes model)"
    using same_node_points [OF assms(1)] by (intro map_cong refl)
  then show ?thesis unfolding model_points_def assms(2) by (simp only:)
qed

lemma node_box_nodes: "node_box node (model, bb) = Some (model', bb') \<Longrightarrow> gltf_nodes model' = gltf_nodes model"
  by (auto simp: node_box_def split: option.splits)

lemma nodes_box_nodes:
  "fold_opt node_box nodes (model, bb) = Some (model', bb') \<Longrightarrow> gltf_nodes model' = gltf_nodes model"
proof (induction nodes arbitrary: model bb)
  case (Cons node nodes)
  from Cons.prems obtain m b where n: "node_box node (model, bb) = Some (m, b)" and r: "fold_opt node_box nodes (m, b) = Some (model', bb')"
    by (auto split: option.splits)
  show ?case using Cons.IH [OF r] node_box_nodes [OF n] by simp
qed simp

lemma aabb_box:
  assumes "models name = Some model" and "model_points model = Some ps"
  shows "\<exists>model'. allo_gltf_get_aabb models name = Some (Some (box_of ps), models(name \<mapsto> model')) \<and> model_points model' = Some ps"
proof -
  obtain qss where q: "those (map (node_points model) (gltf_nodes model)) = Some qss" and ps: "ps = concat qss"
    using assms(2) by (auto simp: model_points_def)
  obtain model' where m: "fold_opt node_box (gltf_nodes model) (model, box_of []) = Some (model', box_of ([] @ concat qss))"
    and s: "same_geometry model model'" using nodes_box_points [OF q] by blast
  have "model_points model' = Some ps"
    using same_model_points [OF s nodes_box_nodes [OF m]] assms(2) by simp
  moreover have "allo_gltf_get_aabb models name = Some (Some (box_of ps), models(name \<mapsto> model'))"
    using m by (simp add: allo_gltf_get_aabb_def assms(1) ps box_of_Nil)
  ultimately show ?thesis by blast
qed

text \<open>
  C37. The box of a model whose indices and ranges are within bounds is the least one around all its vertices,
  scaled by their nodes, and the corners the code starts with; asking for it leaves the vertices as they are.
\<close>

theorem aabb_is_least_box:
  assumes "models name = Some model" and "model_points model = Some ps"
  shows "\<exists>model'. allo_gltf_get_aabb models name = Some (Some (box_of ps), models(name \<mapsto> model')) \<and> model_points model' = Some ps"
  using assms by (rule aabb_box)

text \<open>A model of one vertex, whose primitive names no accessor.\<close>

definition sample_model :: gltf_model where
  "sample_model =
     \<lparr>gltf_nodes = [\<lparr>node_name = ''n'', node_mesh = 0, node_translation = [], node_rotation = [], node_scale = [2, 2, 2], node_matrix = []\<rparr>],
      gltf_meshes = [[\<lparr>attributes = (\<lambda>x. None)\<rparr>]],
      gltf_accessors = [\<lparr>acc_bufferView = 0, acc_byteOffset = 4, acc_count = 1\<rparr>],
      gltf_bufferViews = [\<lparr>bv_buffer = 0, bv_byteOffset = 0\<rparr>],
      gltf_buffers = [[0, 0, 0, 0,  0, 0, 0x80, 0xbf,  0, 0, 0, 0xc0,  0, 0, 0, 0xbf]]\<rparr>"

lemma sample_model_points: "model_points sample_model = Some [vec (- 2) (- 4) (- 1)]"
  by (simp add: sample_model_def model_points_def node_points_def vector_at_def primitive_points_def points_at_def
      position_accessor_def accessor_data_def Let_def scale_of_def allo_vector_mul_def vertex_def float_at_def
      float_value_def le32_get_def)

theorem aabb_is_least_box_witness:
  "\<exists>model'. allo_gltf_get_aabb [''m'' \<mapsto> sample_model] ''m'' =
      Some (Some (box_of [vec (- 2) (- 4) (- 1)]), [''m'' \<mapsto> sample_model](''m'' \<mapsto> model')) \<and>
    model_points model' = Some [vec (- 2) (- 4) (- 1)]"
  by (rule aabb_is_least_box [OF _ sample_model_points]) simp

text \<open>
  \<open>FLT_MIN\<close> is the least positive number, not the least one: the box of a model that lies on the negative
  side of an axis reaches beyond the origin.
\<close>

theorem negative_box_reaches_origin:
  assumes "models name = Some model" and "model_points model = Some ps" and "\<forall>p \<in> set ps. vx p < 0"
  shows "\<exists>bb models'. allo_gltf_get_aabb models name = Some (Some bb, models') \<and> 0 < vx (bb_max bb) \<and>
    (\<forall>p \<in> set ps. vx p < vx (bb_max bb))"
proof -
  have pos: "0 < FLT_MIN" by (simp add: FLT_MIN_def)
  have "Max (insert FLT_MIN (vx ` set ps)) = FLT_MIN"
    using assms(3) pos by (intro Max_eqI) (force dest: bspec)+
  then have "vx (bb_max (box_of ps)) = FLT_MIN" by (simp add: box_of_def)
  then show ?thesis
    using aabb_box [where models = models, OF assms(1,2)] assms(3) pos by (metis less_trans)
qed

theorem negative_box_reaches_origin_witness:
  "\<exists>bb models'. allo_gltf_get_aabb [''m'' \<mapsto> sample_model] ''m'' = Some (Some bb, models') \<and> 0 < vx (bb_max bb) \<and>
    (\<forall>p \<in> set [vec (- 2) (- 4) (- 1)]. vx p < vx (bb_max bb))"
  by (rule negative_box_reaches_origin [OF _ sample_model_points]) simp_all

text \<open>A node without a mesh, such as a camera or a group of nodes, has -1 for its mesh and is looked up all the same.\<close>

theorem node_without_mesh_out_of_bounds:
  assumes "models name = Some model" and "node \<in> set (gltf_nodes model)" and "node_mesh node = - 1"
  shows "allo_gltf_get_aabb models name = None"
proof -
  have "fold_opt node_box nodes s = None" if "node \<in> set nodes" for nodes s
    using that
  proof (induction nodes arbitrary: s)
    case (Cons n nodes)
    then show ?case using assms(3) by (cases s) (auto simp: node_box_def vector_at_def split: option.split)
  qed simp
  then show ?thesis using assms(1,2) by (simp add: allo_gltf_get_aabb_def)
qed

definition camera_node :: gltf_node where
  "camera_node = \<lparr>node_name = ''n'', node_mesh = - 1, node_translation = [1, 2, 3], node_rotation = [], node_scale = [], node_matrix = []\<rparr>"

definition camera_model :: gltf_model where
  "camera_model = sample_model\<lparr>gltf_nodes := [camera_node]\<rparr>"

theorem node_without_mesh_out_of_bounds_witness: "allo_gltf_get_aabb [''m'' \<mapsto> camera_model] ''m'' = None"
  by (rule node_without_mesh_out_of_bounds [of _ _ camera_model camera_node])
    (simp_all add: camera_model_def camera_node_def)

text \<open>A name keeps the model of the first bytes that could be parsed until it is unloaded; other names are not touched.\<close>

theorem first_load_counts:
  assumes "allo_gltf_load G models name bs = (True, models')"
  shows "allo_gltf_load G models' name bs' = (True, models')"
    and "snd (allo_gltf_unload models' name) = models(name := None)"
  using assms by (auto simp: allo_gltf_load_def allo_gltf_unload_def split: if_splits option.splits)

theorem first_load_counts_witness:
  "allo_gltf_load \<lparr>load_binary = (\<lambda>bs. Some sample_model), mat4_scale = (\<lambda>m v. m)\<rparr> [''m'' \<mapsto> sample_model] ''m'' [1] = (True, [''m'' \<mapsto> sample_model])"
  by (rule first_load_counts(1) [where models = Map.empty and bs = "[]"]) (simp add: allo_gltf_load_def)

text \<open>A node with a translation alone moves a point by it; a name that is not found is marked by a negative diagonal.\<close>

theorem translated_node:
  assumes "load_binary G bs = Some model" and "List.find (\<lambda>node. node_name node = name) (gltf_nodes model) = Some node"
    and "node_translation node = [x, y, z]" and "node_rotation node = []" and "node_scale node = []" and "node_matrix node = []"
  shows "allo_m4x4_transform (allo_gltf_get_node_transform G L bs name) p True = allo_vector_add p (vec x y z)"
  by (simp add: allo_gltf_get_node_transform_def assms node_transform_def Let_def m_defs vector_defs)

theorem translated_node_witness:
  "allo_m4x4_transform (allo_gltf_get_node_transform \<lparr>load_binary = (\<lambda>bs. Some camera_model), mat4_scale = (\<lambda>m v. m)\<rparr>
      approx_lib [] ''n'') (vec 1 1 1) True = allo_vector_add (vec 1 1 1) (vec 1 2 3)"
  by (rule translated_node [of _ _ camera_model _ camera_node]) (simp_all add: camera_model_def camera_node_def)

end
