(* ===== verification/Simple_Api.thy ===== *)
theory Simple_Api
  imports Client
begin

text \<open>
  The interface for scripting languages, \<^verbatim>\<open>src/alloclient_simple_api.c\<close>: commands and results are texts of
  JSON, and what the client calls back between two commands is returned as a list of events. The client is
  the one without threads. \<open>None\<close> is a null pointer that is followed, the use of the client after it has
  been freed, or a number that has no \<open>int\<close>.
\<close>

section \<open>Events\<close>

record ('j, 's) alloclient_simple =
  simple_client :: "('j, 's) alloclient option"
  command_result_buffer :: "string option"
  pending_events :: "'j list option"

definition push_event :: "'j \<Rightarrow> ('j, 's) alloclient_simple \<Rightarrow> ('j, 's) alloclient_simple" where
  "push_event jevent s =
     s\<lparr>pending_events := Some ((case pending_events s of None \<Rightarrow> [] | Some es \<Rightarrow> es) @ [jevent])\<rparr>"

definition disconnected_event :: "'j cjson \<Rightarrow> int \<Rightarrow> string option \<Rightarrow> 'j" where
  "disconnected_event C code msg = create_object_until C
     [(''event'', Some (CreateString C ''disconnected'')), (''code'', Some (CreateNumber C (of_int code))),
      (''message'', map_option (CreateString C) msg)]"

definition clock_event :: "'j cjson \<Rightarrow> rat \<Rightarrow> rat \<Rightarrow> 'j" where
  "clock_event C latency delta = cjson_create_object C
     [(''event'', CreateString C ''clock''), (''latency'', CreateNumber C latency), (''delta'', CreateNumber C delta)]"

definition state_event :: "'j cjson \<Rightarrow> 'j allo_state \<Rightarrow> 'j" where
  "state_event C st = cjson_create_object C
     [(''event'', CreateString C ''state''), (''state'', allo_state_to_json C st True)]"

definition interaction_event :: "'j cjson \<Rightarrow> (string \<Rightarrow> 'j option) \<Rightarrow> allo_interaction \<Rightarrow> 'j" where
  "interaction_event C parse i = cjson_create_object C
     [(''event'', CreateString C ''interaction''), (''interaction'', allo_interaction_to_cjson C parse i)]"

text \<open>The callbacks that are set, and the event of a call.\<close>

definition simple_callbacks :: client_callbacks where
  "simple_callbacks = \<lparr>wants_state = True, wants_interaction = True, wants_disconnected = True,
     wants_asset_request_bytes = False, wants_asset_receive = False, wants_asset_state = False,
     wants_raw_state_delta = False, wants_clock = True\<rparr>"

fun event_of :: "'j cjson \<Rightarrow> (string \<Rightarrow> 'j option) \<Rightarrow> 'j client_call \<Rightarrow> 'j option" where
  "event_of C parse (Disconnected code msg) = Some (disconnected_event C code msg)"
| "event_of C parse (Clock_changed latency delta) = Some (clock_event C latency delta)"
| "event_of C parse (State_changed st diff) = Some (state_event C st)"
| "event_of C parse (Interaction_received i) = Some (interaction_event C parse i)"
| "event_of C parse c = None"

text \<open>The client after it has run, with the events of the calls it has made since.\<close>

definition after_calls ::
  "('j, 's) client_env \<Rightarrow> ('j, 's) alloclient \<Rightarrow> ('j, 's) alloclient \<Rightarrow> ('j, 's) alloclient_simple \<Rightarrow> ('j, 's) alloclient_simple" where
  "after_calls E cl cl' s =
     fold push_event (List.map_filter (event_of (ce_json E) (ce_parse E)) (drop (length (client_calls cl)) (client_calls cl')))
       (s\<lparr>simple_client := Some cl'\<rparr>)"

section \<open>Commands\<close>

definition JOP_INVALID :: int where "JOP_INVALID = - 1"
definition JOP_POLL :: int where "JOP_POLL = 0"
definition JOP_CONNECT :: int where "JOP_CONNECT = 1"
definition JOP_INTERACTION :: int where "JOP_INTERACTION = 2"
definition JOP_INTENT :: int where "JOP_INTENT = 3"

text \<open>\<open>(int)\<close> of \<open>cJSON_GetNumberValue\<close>, which is a NaN for what is not a number.\<close>

definition int_of_number :: "'j cjson \<Rightarrow> 'j \<Rightarrow> int option" where
  "int_of_number C j =
     (case number_value C (Some j) of
        None \<Rightarrow> None
      | Some r \<Rightarrow> (let n = (if 0 \<le> r then \<lfloor>r\<rfloor> else - \<lfloor>- r\<rfloor>) in if - 2147483648 \<le> n \<and> n < 2147483648 then Some n else None))"

definition jopcode :: "'j cjson \<Rightarrow> 'j option \<Rightarrow> int option" where
  "jopcode C jop =
     (case jop of
        None \<Rightarrow> Some JOP_INVALID
      | Some j \<Rightarrow>
          if IsString C j then
            (let op = valuestring C j
             in if op = ''poll'' then Some JOP_POLL
                else if op = ''connect'' then Some JOP_CONNECT
                else if op = ''interaction'' then Some JOP_INTERACTION
                else if op = ''intent'' then Some JOP_INTENT
                else Some JOP_INVALID)
          else int_of_number C j)"

text \<open>The client a command works on; it may be missing, before the first call of \<open>alloclient_simple_init\<close>, or freed.\<close>

definition live_client :: "('j, 's) alloclient_simple \<Rightarrow> ('j, 's) alloclient option" where
  "live_client s = (case simple_client s of None \<Rightarrow> None | Some cl \<Rightarrow> if deallocated cl then None else Some cl)"

definition command_poll ::
  "('j, 's) client_env \<Rightarrow> enet_event list \<Rightarrow> 'j \<Rightarrow> ('j, 's) alloclient_simple \<Rightarrow> ('j, 's) alloclient_simple option" where
  "command_poll E received jcommand s =
     (let C = ce_json E;
          jtimeout = GetObjectItemCS C jcommand ''timeout'';
          timeout = (case jtimeout of None \<Rightarrow> Some 100 | Some j \<Rightarrow> if IsNumber C j then int_of_number C j else Some 100)
      in case (timeout, live_client s) of
           (Some t, Some cl) \<Rightarrow> map_option (\<lambda>(any, cl'). after_calls E cl cl' s) (alloclient_poll E received cl)
         | _ \<Rightarrow> None)"

definition command_connect ::
  "('j, 's) client_env \<Rightarrow> connect_env \<Rightarrow> 'j \<Rightarrow> ('j, 's) alloclient_simple \<Rightarrow> (bool \<times> ('j, 's) alloclient_simple) option" where
  "command_connect E N jcommand s =
     (let C = ce_json E;
          url = string_value C (GetObjectItemCS C jcommand ''url'');
          identity = string_value C (GetObjectItemCS C jcommand ''identity'');
          avatar_spec = string_value C (GetObjectItemCS C jcommand ''avatar_spec'')
      in case live_client s of
           None \<Rightarrow> None
         | Some cl \<Rightarrow>
             if url = None \<and> host_created N then None
             else map_option (\<lambda>(ret, cl'). (ret, after_calls E cl cl' s))
                    (alloclient_connect E N (case url of None \<Rightarrow> [] | Some u \<Rightarrow> u) identity avatar_spec cl))"

definition command_interaction ::
  "('j, 's) client_env \<Rightarrow> 'j \<Rightarrow> ('j, 's) alloclient_simple \<Rightarrow> ('j, 's) alloclient_simple option" where
  "command_interaction E jcommand s =
     (let C = ce_json E
      in case (live_client s,
               Option.bind (GetObjectItemCS C jcommand ''interaction'') (allo_interaction_parse_cjson C (ce_print E))) of
           (Some cl, Some interaction) \<Rightarrow>
             map_option (\<lambda>cl'. after_calls E cl cl' s) (alloclient_send_interaction E interaction cl)
         | _ \<Rightarrow> None)"

definition command_intent ::
  "('j, 's) client_env \<Rightarrow> 'j \<Rightarrow> ('j, 's) alloclient_simple \<Rightarrow> ('j, 's) alloclient_simple option" where
  "command_intent E jcommand s =
     (let C = ce_json E
      in case (live_client s, allo_client_intent_parse_cjson C (GetObjectItemCS C jcommand ''intent'')) of
           (Some cl, Some intent) \<Rightarrow> Some (after_calls E cl (alloclient_set_intent intent cl) s)
         | _ \<Rightarrow> None)"

text \<open>The switch over the operations: the result so far and the state.\<close>

definition run_command ::
  "('j, 's) client_env \<Rightarrow> connect_env \<Rightarrow> enet_event list \<Rightarrow> string \<Rightarrow> ('j, 's) alloclient_simple \<Rightarrow>
   ('j \<times> ('j, 's) alloclient_simple) option" where
  "run_command E N received command s =
     (let C = ce_json E; result = CreateObject C
      in case ce_parse E command of
           None \<Rightarrow>
             Some (AddItemToObject C result ''error'' (cjson_create_object C
               [(''message'', CreateString C ''Malformed command''), (''command'', CreateString C command)]), s)
         | Some jcommand \<Rightarrow>
             (case jopcode C (GetObjectItemCS C jcommand ''op'') of
                None \<Rightarrow> None
              | Some op \<Rightarrow>
                  if op = JOP_POLL then map_option (Pair result) (command_poll E received jcommand s)
                  else if op = JOP_CONNECT then
                    map_option (\<lambda>(ret, s'). (AddItemToObject C result ''return'' (CreateBool C ret), s'))
                      (command_connect E N jcommand s)
                  else if op = JOP_INTERACTION then map_option (Pair result) (command_interaction E jcommand s)
                  else if op = JOP_INTENT then map_option (Pair result) (command_intent E jcommand s)
                  else Some (result, s)))"

text \<open>And the end of every command: the events go into the result.\<close>

definition simple_result ::
  "('j, 's) client_env \<Rightarrow> 'j \<times> ('j, 's) alloclient_simple \<Rightarrow> 'j \<times> ('j, 's) alloclient_simple" where
  "simple_result E rs =
     (case rs of (result, s) \<Rightarrow>
        (let C = ce_json E;
             result' = (case pending_events s of
                          None \<Rightarrow> result
                        | Some es \<Rightarrow> AddItemToObject C result ''events'' (foldl (AddItemToArray C) (CreateArray C) es))
         in (result', s\<lparr>command_result_buffer := Some (ce_print E result'), pending_events := None\<rparr>)))"

definition alloclient_simple_communicate ::
  "('j, 's) client_env \<Rightarrow> connect_env \<Rightarrow> enet_event list \<Rightarrow> string \<Rightarrow> ('j, 's) alloclient_simple \<Rightarrow>
   ('j \<times> ('j, 's) alloclient_simple) option" where
  "alloclient_simple_communicate E N received command s =
     map_option (simple_result E) (run_command E N received command s)"

section \<open>Starting\<close>

definition simple_start :: "('j, 's) alloclient_simple" where
  "simple_start = \<lparr>simple_client = None, command_result_buffer = None, pending_events = None\<rparr>"

definition alloclient_simple_init :: "'s \<Rightarrow> ('j, 's) alloclient_simple \<Rightarrow> int \<times> ('j, 's) alloclient_simple" where
  "alloclient_simple_init store s =
     (if simple_client s \<noteq> None then (1, s) else (1, s\<lparr>simple_client := Some (alloclient_create store)\<rparr>))"

definition alloclient_simple_free :: "('j, 's) alloclient_simple \<Rightarrow> int \<times> ('j, 's) alloclient_simple" where
  "alloclient_simple_free s = (1, s)"

end
