(* ===== verification/Simple_Api_Correct.thy ===== *)
theory Simple_Api_Correct
  imports Simple_Api Client_Correct Server_Correct
begin

text \<open>
  Every call the client makes is reported as an event once and in order; a command that is not JSON changes
  nothing; and connecting as the header documents it frees the client.
\<close>

section \<open>The calls of a client only grow\<close>

definition calls_from :: "'j client_call list \<Rightarrow> ('j, 's) alloclient \<Rightarrow> bool" where
  "calls_from cs cl \<longleftrightarrow> (\<exists>more. client_calls cl = cs @ more)"

lemma calls_from_refl [simp]: "calls_from (client_calls cl) cl"
  by (simp add: calls_from_def)

lemma calls_from_same: "client_calls cl' = client_calls cl \<Longrightarrow> calls_from cs cl \<Longrightarrow> calls_from cs cl'"
  by (simp add: calls_from_def)

lemma calls_from_add [simp]: "calls_from cs cl \<Longrightarrow> calls_from cs (add_call c cl)"
  by (auto simp: calls_from_def add_call_def)

lemma calls_from_call_if [simp]: "calls_from cs cl \<Longrightarrow> calls_from cs (call_if b c cl)"
  by (simp add: call_if_def)

lemma calls_from_updates [simp]:
  "calls_from cs (cl\<lparr>place := p\<rparr>) = calls_from cs cl" "calls_from cs (cl\<lparr>states := h\<rparr>) = calls_from cs cl"
  "calls_from cs (cl\<lparr>latest_intent := i\<rparr>) = calls_from cs cl" "calls_from cs (cl\<lparr>avatar_id := a\<rparr>) = calls_from cs cl"
  "calls_from cs (cl\<lparr>client_assets := s\<rparr>) = calls_from cs cl" "calls_from cs (cl\<lparr>connection := c\<rparr>) = calls_from cs cl"
  "calls_from cs (cl\<lparr>latest_intent_ts := t\<rparr>) = calls_from cs cl" "calls_from cs (cl\<lparr>latest_clockreq_ts := t\<rparr>) = calls_from cs cl"
  "calls_from cs (cl\<lparr>deallocated := b\<rparr>) = calls_from cs cl" "calls_from cs (cl\<lparr>client_rates := r\<rparr>) = calls_from cs cl"
  "calls_from cs (cl\<lparr>clock_latency := l\<rparr>) = calls_from cs cl" "calls_from cs (cl\<lparr>clock_deltaToServer := d\<rparr>) = calls_from cs cl"
  "calls_from cs (cl\<lparr>sent_packets := ps\<rparr>) = calls_from cs cl"
  by (simp_all add: calls_from_def)

lemma client_log_calls: "client_log cl = Some cl' \<Longrightarrow> calls_from cs cl \<Longrightarrow> calls_from cs cl'"
  by (simp add: client_log_def split: if_splits)

lemma peer_send_calls: "client_peer_send E ch p cl = Some cl' \<Longrightarrow> calls_from cs cl \<Longrightarrow> calls_from cs cl'"
  by (auto simp: client_peer_send_def Let_def split: if_splits)

lemma asset_send_keeps: "keeps (calls_from cs) (client_asset_send_func E mid header data len)"
  by (rule keepsI) (auto simp: client_asset_send_func_def split: if_splits option.splits dest: peer_send_calls)

lemma asset_request_bytes_keeps: "keeps (calls_from cs) (client_asset_request_bytes_func E i offset len)"
proof (rule keepsI)
  fix w w'
  assume P: "calls_from cs w" and run: "client_asset_request_bytes_func E i offset len w = Some w'"
  have "keeps (calls_from cs) (asset_deliver_bytes (ce_json E) (send_only (client_asset_send_func E)) i d off n tot)" for d off n tot
    by (intro deliver_bytes_keeps send_only_keep asset_send_keeps)
  note step = keepsD [OF this]
  have ok: "calls_from cs (w\<lparr>client_assets := s\<rparr>)" for s using P by simp
  from P run show "calls_from cs w'"
    by (auto simp: client_asset_request_bytes_func_def Let_def split: if_splits option.splits dest: step [OF ok])
qed

lemma asset_state_keeps: "keeps (calls_from cs) (client_asset_state_func E i st)"
  by (rule keepsI) (auto simp: client_asset_state_func_def)

lemma handle_assets_calls: "client_handle_assets E data cl = Some cl' \<Longrightarrow> calls_from cs cl \<Longrightarrow> calls_from cs cl'"
proof -
  have "keeps (calls_from cs) (client_handle_assets E data)"
    unfolding client_handle_assets_def [abs_def]
    by (intro asset_handle_keeps)
      (auto simp: handlers_keep_def asset_request_bytes_keeps asset_send_keeps asset_state_keeps
        client_asset_write_func_def split: if_splits)
  then show "client_handle_assets E data cl = Some cl' \<Longrightarrow> calls_from cs cl \<Longrightarrow> calls_from cs cl'"
    by (simp add: keeps_def)
qed

lemma parsed_statediff_calls:
  "handle_parsed_statediff E cmd rep diff cl = Some cl' \<Longrightarrow> calls_from cs cl \<Longrightarrow> calls_from cs cl'"
  by (auto simp: handle_parsed_statediff_def Let_def alloclient_ack_rev_def split: option.splits)

lemma parse_statediff_calls:
  "alloclient_parse_statediff E cmd cl = Some (r, cl') \<Longrightarrow> calls_from cs cl \<Longrightarrow> calls_from cs cl'"
  by (auto simp: alloclient_parse_statediff_def allo_delta_apply_def delta_handled_def Let_def
      split: if_splits option.splits intro: parsed_statediff_calls)

lemma parse_command_calls: "parse_command E j cl = Some (b, cl') \<Longrightarrow> calls_from cs cl \<Longrightarrow> calls_from cs cl'"
  by (auto simp: parse_command_def parse_interaction_def announced_def Let_def
      split: if_splits option.splits bool.splits prod.splits)

lemma parse_clock_calls: "parse_clock E j cl = Some cl' \<Longrightarrow> calls_from cs cl \<Longrightarrow> calls_from cs cl'"
  by (auto simp: parse_clock_def Let_def split: option.splits)

lemma count_received_calls [simp]: "calls_from cs (count_received ch p cl) = calls_from cs cl"
  by (simp add: count_received_def Let_def)

lemma parse_packet_calls:
  "parse_packet_from_channel E packet ch cl = Some (b, cl') \<Longrightarrow> calls_from cs cl \<Longrightarrow> calls_from cs cl'"
  by (auto simp: parse_packet_from_channel_def Let_def split: if_splits option.splits
      dest: parse_statediff_calls parse_command_calls handle_assets_calls parse_clock_calls)

lemma poll_events_calls:
  "poll_events E evs lst any cl = Some (b, cl') \<Longrightarrow> calls_from cs cl \<Longrightarrow> calls_from cs cl'"
proof (induction E evs lst any cl arbitrary: b cl' rule: poll_events.induct)
  case (1 E lst any cl)
  then show ?case by (auto split: option.splits dest: parse_packet_calls)
next
  case (2 E event events lst any cl)
  then show ?case
    by (auto split: enet_event.splits if_splits option.splits bool.splits dest: parse_packet_calls client_log_calls)
qed

lemma poll_calls: "alloclient_poll E evs cl = Some (b, cl') \<Longrightarrow> calls_from cs cl \<Longrightarrow> calls_from cs cl'"
  by (auto simp: alloclient_poll_def Let_def send_clock_request_def send_latest_intent_def
      split: if_splits option.splits dest!: poll_events_calls peer_send_calls)

lemma send_interaction_calls:
  "alloclient_send_interaction E i cl = Some cl' \<Longrightarrow> calls_from cs cl \<Longrightarrow> calls_from cs cl'"
  unfolding alloclient_send_interaction_def by (rule peer_send_calls)

lemma disconnect_calls: "alloclient_disconnect cl = Some cl' \<Longrightarrow> calls_from cs cl \<Longrightarrow> calls_from cs cl'"
  by (auto simp: alloclient_disconnect_def calls_from_def split: option.splits)

lemma announce_calls: "announce E i a cl = Some (b, cl') \<Longrightarrow> calls_from cs cl \<Longrightarrow> calls_from cs cl'"
  by (auto simp: announce_def Let_def split: if_splits dest: client_log_calls send_interaction_calls)

lemma connect_calls: "alloclient_connect E N u i a cl = Some (b, cl') \<Longrightarrow> calls_from cs cl \<Longrightarrow> calls_from cs cl'"
  by (auto simp: alloclient_connect_def Let_def split: if_splits option.splits bool.splits prod.splits
      dest!: client_log_calls disconnect_calls announce_calls)

section \<open>Every call is reported once\<close>

lemma push_events:
  "fold push_event es s = (if es = [] then s
     else s\<lparr>pending_events := Some ((case pending_events s of None \<Rightarrow> [] | Some p \<Rightarrow> p) @ es)\<rparr>)"
  by (induction es arbitrary: s) (auto simp: push_event_def split: option.splits)

text \<open>The events of a list of calls, and those in a result.\<close>

definition events_of :: "('j, 's) client_env \<Rightarrow> 'j client_call list \<Rightarrow> 'j list" where
  "events_of E cs = List.map_filter (event_of (ce_json E) (ce_parse E)) cs"

definition reported :: "'j cjson \<Rightarrow> 'j \<Rightarrow> 'j list" where
  "reported C result = (case GetObjectItemCS C result ''events'' of None \<Rightarrow> [] | Some es \<Rightarrow> items C es)"

lemma events_of_append: "events_of E (cs @ ds) = events_of E cs @ events_of E ds"
  by (simp add: events_of_def map_filter_def)

text \<open>What a command leaves: the client with its new calls, their events, and an object without any.\<close>

definition command_effect ::
  "('j, 's) client_env \<Rightarrow> ('j, 's) alloclient_simple \<Rightarrow> ('j, 's) alloclient \<Rightarrow> 'j \<times> ('j, 's) alloclient_simple \<Rightarrow> bool" where
  "command_effect E s cl rs \<longleftrightarrow>
     (\<exists>result cl' more. client_calls cl' = client_calls cl @ more \<and>
        rs = (result, fold push_event (events_of E more) (s\<lparr>simple_client := Some cl'\<rparr>)) \<and>
        (result = CreateObject (ce_json E) \<or> (\<exists>k v. k \<noteq> ''events'' \<and> result = AddItemToObject (ce_json E) (CreateObject (ce_json E)) k v)))"

lemma after_calls_effect:
  assumes "calls_from (client_calls cl) cl'"
  shows "\<exists>more. client_calls cl' = client_calls cl @ more \<and>
    after_calls E cl cl' s = fold push_event (events_of E more) (s\<lparr>simple_client := Some cl'\<rparr>)"
  using assms by (auto simp: calls_from_def after_calls_def events_of_def)

lemma live_clientD: "live_client s = Some cl \<Longrightarrow> simple_client s = Some cl"
  by (auto simp: live_client_def split: option.splits if_splits)

lemma same_client: "simple_client s = Some cl \<Longrightarrow> s\<lparr>simple_client := Some cl\<rparr> = s"
  by (cases s) simp

text \<open>Each command of the client ends in \<open>after_calls\<close>.\<close>

lemma commands_run_client:
  assumes cl: "simple_client s = Some cl"
  shows "command_poll E received j s = Some s' \<Longrightarrow> \<exists>cl'. calls_from (client_calls cl) cl' \<and> s' = after_calls E cl cl' s"
    and "command_connect E N j s = Some (b, s') \<Longrightarrow> \<exists>cl'. calls_from (client_calls cl) cl' \<and> s' = after_calls E cl cl' s"
    and "command_interaction E j s = Some s' \<Longrightarrow> \<exists>cl'. calls_from (client_calls cl) cl' \<and> s' = after_calls E cl cl' s"
    and "command_intent E j s = Some s' \<Longrightarrow> \<exists>cl'. calls_from (client_calls cl) cl' \<and> s' = after_calls E cl cl' s"
proof -
  have live: "live_client s = Some c \<Longrightarrow> c = cl" for c using cl live_clientD by fastforce
  note start = calls_from_refl [of cl]
  show "command_poll E received j s = Some s' \<Longrightarrow> \<exists>cl'. calls_from (client_calls cl) cl' \<and> s' = after_calls E cl cl' s"
    by (auto simp: command_poll_def Let_def split: option.splits dest!: live dest: poll_calls [OF _ start])
  show "command_connect E N j s = Some (b, s') \<Longrightarrow> \<exists>cl'. calls_from (client_calls cl) cl' \<and> s' = after_calls E cl cl' s"
    by (auto simp: command_connect_def Let_def split: option.splits if_splits dest!: live dest: connect_calls [OF _ start])
  show "command_interaction E j s = Some s' \<Longrightarrow> \<exists>cl'. calls_from (client_calls cl) cl' \<and> s' = after_calls E cl cl' s"
    by (auto simp: command_interaction_def Let_def split: option.splits dest!: live dest: send_interaction_calls [OF _ start])
  show "command_intent E j s = Some s' \<Longrightarrow> \<exists>cl'. calls_from (client_calls cl) cl' \<and> s' = after_calls E cl cl' s"
    by (auto simp: command_intent_def alloclient_set_intent_def Let_def split: option.splits dest!: live
        intro!: exI [of _ "alloclient_set_intent i cl" for i])
qed

lemma run_command_effect:
  assumes run: "run_command E N received command s = Some rs" and cl: "simple_client s = Some cl"
  shows "command_effect E s cl rs"
proof -
  have idle: "command_effect E s cl (result, s)" if "result = CreateObject (ce_json E) \<or>
      (\<exists>k v. k \<noteq> ''events'' \<and> result = AddItemToObject (ce_json E) (CreateObject (ce_json E)) k v)" for result
    using that cl by (auto simp: command_effect_def events_of_def map_filter_def same_client intro!: exI [of _ cl])
  have ran: "command_effect E s cl (result, after_calls E cl cl' s)" if "calls_from (client_calls cl) cl'"
      "result = CreateObject (ce_json E) \<or> (\<exists>k v. k \<noteq> ''events'' \<and> result = AddItemToObject (ce_json E) (CreateObject (ce_json E)) k v)"
    for result cl'
    using after_calls_effect [OF that(1), of E s] that(2) by (fastforce simp: command_effect_def)
  have ran_return: "command_effect E s cl (AddItemToObject (ce_json E) (CreateObject (ce_json E)) ''return'' v, after_calls E cl cl' s)"
    if "calls_from (client_calls cl) cl'" for v cl'
    by (rule ran [OF that], intro disjI2 exI [of _ "''return''"] exI [of _ v]) simp
  note client = commands_run_client [OF cl]
  show ?thesis
  proof (cases "ce_parse E command")
    case None
    then have "rs = (AddItemToObject (ce_json E) (CreateObject (ce_json E)) ''error'' (cjson_create_object (ce_json E)
        [(''message'', CreateString (ce_json E) ''Malformed command''), (''command'', CreateString (ce_json E) command)]), s)"
      using run by (simp add: run_command_def Let_def)
    moreover have "command_effect E s cl (AddItemToObject (ce_json E) (CreateObject (ce_json E)) ''error'' v, s)" for v
      by (rule idle, intro disjI2 exI [of _ "''error''"] exI [of _ v]) simp
    ultimately show ?thesis by (simp only:)
  next
    case (Some j)
    then show ?thesis
      using run by (auto simp: run_command_def Let_def split: option.splits if_splits
          intro!: idle dest!: client intro: ran ran_return)
  qed
qed

context cjson_lib begin

lemma items_built: "items C (foldl (AddItemToArray C) j es) = items C j @ es"
  by (induction es arbitrary: j) (simp_all add: add_array_law)

lemma reported_result:
  assumes r: "result = CreateObject C \<or> (\<exists>k v. k \<noteq> ''events'' \<and> result = AddItemToObject C (CreateObject C) k v)"
  shows "reported C result = []"
    and "reported C (AddItemToObject C result ''events'' (foldl (AddItemToArray C) (CreateArray C) es)) = es"
proof -
  have "assoc ((=) ''events'') (chain C result) = None" using r by (auto simp: empty_law add_object_law)
  then show "reported C result = []"
    and "reported C (AddItemToObject C result ''events'' (foldl (AddItemToArray C) (CreateArray C) es)) = es"
    by (simp_all add: reported_def object_cs_law add_object_law assoc_append items_built) (simp add: items_def empty_law)
qed

end

lemma communicate_effect:
  assumes lib: "cjson_lib (ce_json E)" and cl: "simple_client s = Some cl" and pend: "pending_events s = None"
    and run: "alloclient_simple_communicate E N received command s = Some (result, s')"
  shows "\<exists>cl' more. simple_client s' = Some cl' \<and> pending_events s' = None \<and>
    client_calls cl' = client_calls cl @ more \<and> reported (ce_json E) result = events_of E more"
proof -
  from run obtain rs where rc: "run_command E N received command s = Some rs" and res: "(result, s') = simple_result E rs"
    by (auto simp: alloclient_simple_communicate_def)
  obtain r cl' more where c: "client_calls cl' = client_calls cl @ more"
    and rs: "rs = (r, fold push_event (events_of E more) (s\<lparr>simple_client := Some cl'\<rparr>))"
    and shape: "r = CreateObject (ce_json E) \<or> (\<exists>k v. k \<noteq> ''events'' \<and> r = AddItemToObject (ce_json E) (CreateObject (ce_json E)) k v)"
    using run_command_effect [OF rc cl] unfolding command_effect_def by blast
  note report = cjson_lib.reported_result [OF lib shape]
  show ?thesis
  proof (cases "events_of E more = []")
    case True
    then show ?thesis using res c pend report(1) by (simp add: rs simple_result_def Let_def)
  next
    case False
    then show ?thesis using res c pend report(2) by (simp add: rs push_events simple_result_def Let_def)
  qed
qed

section \<open>Properties\<close>

fun communicate_all ::
  "(('j, 's) client_env \<times> connect_env \<times> enet_event list \<times> string) list \<Rightarrow> ('j, 's) alloclient_simple \<Rightarrow>
   ('j list \<times> ('j, 's) alloclient_simple) option" where
  "communicate_all [] s = Some ([], s)"
| "communicate_all ((E, N, received, command) # steps) s =
     (case alloclient_simple_communicate E N received command s of
        None \<Rightarrow> None
      | Some (result, s') \<Rightarrow> map_option (\<lambda>(results, s''). (result # results, s'')) (communicate_all steps s'))"

lemma communicate_all_effect:
  assumes "cjson_lib C"
  shows "\<lbrakk>\<forall>(E, N, received, command) \<in> set steps. ce_json E = C \<and> ce_parse E = parse;
     simple_client s = Some cl; pending_events s = None; communicate_all steps s = Some (results, s')\<rbrakk> \<Longrightarrow>
   \<exists>cl' more. simple_client s' = Some cl' \<and> client_calls cl' = client_calls cl @ more \<and>
     concat (map (reported C) results) = List.map_filter (event_of C parse) more"
proof (induction steps arbitrary: s cl results)
  case Nil
  then show ?case by (auto simp: map_filter_def)
next
  case (Cons step steps)
  obtain E N received command where step: "step = (E, N, received, command)" by (cases step) auto
  from Cons.prems(4) obtain result s1 rest where
    c: "alloclient_simple_communicate E N received command s = Some (result, s1)"
    and r: "communicate_all steps s1 = Some (rest, s')" "results = result # rest"
    by (auto simp: step split: option.splits)
  have E: "ce_json E = C" "ce_parse E = parse" using Cons.prems(1) by (auto simp: step)
  obtain cl1 more1 where 1: "simple_client s1 = Some cl1" "pending_events s1 = None"
    "client_calls cl1 = client_calls cl @ more1" "reported C result = events_of E more1"
    using communicate_effect [OF _ Cons.prems(2,3) c] assms unfolding E by blast
  obtain cl' more where "simple_client s' = Some cl'" "client_calls cl' = client_calls cl1 @ more"
    "concat (map (reported C) rest) = List.map_filter (event_of C parse) more"
    using Cons.IH [OF _ 1(1,2) r(1)] Cons.prems(1) by auto
  then show ?case using 1 E by (auto simp: r(2) events_of_def map_filter_def)
qed

text \<open>
  C30. Over any sequence of commands that return, the events of the results, one after the other, are the calls of
  the client in their order: none is lost, repeated or reported before the command that caused it.
\<close>

theorem events_reported_in_order:
  assumes "cjson_lib C" and "\<forall>(E, N, received, command) \<in> set steps. ce_json E = C \<and> ce_parse E = parse"
    and "simple_client s = Some cl" and "pending_events s = None"
    and "communicate_all steps s = Some (results, s')"
  shows "\<exists>cl' more. simple_client s' = Some cl' \<and> client_calls cl' = client_calls cl @ more \<and>
    concat (map (reported C) results) = List.map_filter (event_of C parse) more"
  using assms(2-) by (rule communicate_all_effect [OF assms(1)])

text \<open>A sample: a client that is told of its clock in a poll.\<close>

definition poll_command :: json where
  "poll_command = jobj [(''op'', jstr ''poll'')]"

definition clock_answer :: json where
  "clock_answer = jobj [(''client_time'', jnum 4), (''server_time'', jnum 9)]"

definition simple_env :: "(json, unit) client_env" where
  "simple_env = sample_client_env\<lparr>ce_parse := (\<lambda>s. if s = ''poll'' then Some poll_command else None),
     ce_parse_bytes := (\<lambda>bs. (Some clock_answer, 0)), ce_callbacks := simple_callbacks\<rparr>"

definition simple_connected :: "(json, unit) alloclient_simple" where
  "simple_connected = simple_start\<lparr>simple_client := Some ((alloclient_create ())\<lparr>connection := Some 0\<rparr>)\<rparr>"

definition no_network :: connect_env where
  "no_network = \<lparr>host_created = False, connect_peer = (\<lambda>h p. None), connect_event = False, encoder_created = False\<rparr>"

lemma simple_env_sel [simp]:
  "ce_json simple_env = json_ops" "ce_callbacks simple_env = simple_callbacks" "ts_mono simple_env = 5000" "ts_monod simple_env = 5"
  "ce_parse simple_env s = (if s = ''poll'' then Some poll_command else None)" "ce_parse_bytes simple_env bs = (Some clock_answer, 0)"
  "ce_accepts simple_env" "ce_print simple_env j = ''text''"
  by (simp_all add: simple_env_def sample_client_env_def ce_json_def sample_delta_env_def)

lemma sample_communicates:
  "\<exists>results s'. communicate_all [(simple_env, no_network, [Receive 0 CHANNEL_CLOCK []], ''poll''), (simple_env, no_network, [], ''?'')]
     simple_connected = Some (results, s')"
  by (simp add: alloclient_simple_communicate_def run_command_def poll_command_def json_defs jopcode_def JOP_POLL_def
      command_poll_def live_client_def simple_connected_def simple_start_def alloclient_create_def alloclient_poll_def
      send_clock_request_def send_latest_intent_def client_peer_send_def Let_def parse_packet_from_channel_def
      parse_clock_def clock_answer_def simple_result_def CHANNEL_CLOCK_def CHANNEL_STATEDIFFS_def CHANNEL_COMMANDS_def
      CHANNEL_ASSETS_def CHANNEL_AUDIO_def CHANNEL_VIDEO_def split: option.split)

theorem events_reported_in_order_witness:
  "\<exists>results s' cl' more. communicate_all [(simple_env, no_network, [Receive 0 CHANNEL_CLOCK []], ''poll''), (simple_env, no_network, [], ''?'')]
      simple_connected = Some (results, s') \<and>
    simple_client s' = Some cl' \<and> client_calls cl' = [] @ more \<and>
    concat (map (reported json_ops) results) = List.map_filter (event_of json_ops (ce_parse simple_env)) more"
proof -
  obtain results s' where c: "communicate_all [(simple_env, no_network, [Receive 0 CHANNEL_CLOCK []], ''poll''), (simple_env, no_network, [], ''?'')]
      simple_connected = Some (results, s')" using sample_communicates by blast
  have "\<exists>cl' more. simple_client s' = Some cl' \<and> client_calls cl' = client_calls ((alloclient_create ())\<lparr>connection := Some 0\<rparr>) @ more \<and>
    concat (map (reported json_ops) results) = List.map_filter (event_of json_ops (ce_parse simple_env)) more"
    by (rule events_reported_in_order [OF json.cjson_lib_axioms _ _ _ c]) (simp_all add: simple_connected_def simple_start_def)
  then show ?thesis using c by (simp add: alloclient_create_def)
qed

text \<open>A command that is not JSON is answered with an error and changes nothing.\<close>

theorem malformed_command_harmless:
  assumes "cjson_lib (ce_json E)" and "ce_parse E command = None" and "pending_events s = None"
  shows "\<exists>result s'. alloclient_simple_communicate E N received command s = Some (result, s') \<and>
    simple_client s' = simple_client s \<and> pending_events s' = None \<and>
    get_cs (ce_json E) (GetObjectItemCS (ce_json E) result ''error'') ''command'' = Some (CreateString (ce_json E) command)"
  using assms by (simp add: alloclient_simple_communicate_def run_command_def simple_result_def Let_def
      cjson_lib.object_cs_law cjson_lib.add_object_law cjson_lib.empty_law cjson_lib.chain_create_object)

theorem malformed_command_harmless_witness:
  "\<exists>result s'. alloclient_simple_communicate simple_env no_network [] ''?'' simple_connected = Some (result, s') \<and>
    simple_client s' = simple_client simple_connected \<and> pending_events s' = None \<and>
    get_cs (ce_json simple_env) (GetObjectItemCS (ce_json simple_env) result ''error'') ''command'' = Some (CreateString (ce_json simple_env) ''?'')"
  by (rule malformed_command_harmless) (simp_all add: json.cjson_lib_axioms simple_connected_def simple_start_def)

text \<open>
  The header shows \<open>identity\<close> and \<open>avatar_spec\<close> as objects; the code takes their text and has none for an
  object. The announcement then lacks its last parts, the client is freed, and the pointer to it stays.
\<close>

theorem documented_connect_frees_client:
  assumes lib: "cjson_lib (ce_json E)" and op: "jopcode (ce_json E) (GetObjectItemCS (ce_json E) j ''op'') = Some JOP_CONNECT"
    and parse: "ce_parse E command = Some j" and live: "live_client s = Some cl"
    and url: "string_value (ce_json E) (GetObjectItemCS (ce_json E) j ''url'') = Some u"
    and identity: "GetObjectItemCS (ce_json E) j ''identity'' = Some i" "\<not> IsString (ce_json E) i"
    and split: "split_url u = Some (Some (justhost, justport))"
    and net: "host_created N" "connect_peer N justhost (address_port justport) = Some p" "connect_event N" "encoder_created N"
    and hist: "allo_delta_clear (states cl) = Some h"
  shows "\<exists>result s'. alloclient_simple_communicate E N received command s = Some (result, s') \<and>
    GetObjectItemCS (ce_json E) result ''return'' = Some (CreateBool (ce_json E) False) \<and>
    (\<exists>gone. simple_client s' = Some gone \<and> deallocated gone) \<and>
    command_poll E' received' j' s' = None"
proof -
  let ?C = "ce_json E" and ?cl = "cl\<lparr>connection := Some p\<rparr>"
  have alive: "\<not> deallocated cl" using live by (auto simp: live_client_def split: option.splits if_splits)
  have none: "string_value ?C (GetObjectItemCS ?C j ''identity'') = None" by (simp add: identity string_value_def)
  have "announce E None a ?cl = Some (False, ?cl)" for a
    using alive by (simp add: announce_def Let_def cjson_lib.size_law [OF lib] client_log_def
        cjson_lib.length_items [OF lib, symmetric] cjson_lib.items_create_list [OF lib] del: cjson_create_list.simps)
  then have "alloclient_connect E N u None a cl = Some (False, ?cl\<lparr>states := h, deallocated := True\<rparr>)" for a
    by (simp add: alloclient_connect_def split net Let_def alloclient_disconnect_def hist)
  then have "command_connect E N j s = Some (False, after_calls E cl (?cl\<lparr>states := h, deallocated := True\<rparr>) s)"
    by (simp add: command_connect_def Let_def url none live)
  then show ?thesis
    using op parse
    by (simp add: alloclient_simple_communicate_def run_command_def Let_def JOP_CONNECT_def JOP_POLL_def simple_result_def
        after_calls_def map_filter_def cjson_lib.object_cs_law [OF lib] cjson_lib.add_object_law [OF lib]
        cjson_lib.empty_law [OF lib] command_poll_def live_client_def assoc_append split: option.split)
qed

definition documented_connect :: json where
  "documented_connect = jobj [(''op'', jstr ''connect''), (''url'', jstr ''alloplace://h''),
     (''identity'', jobj [(''display_name'', jstr ''My App Name'')]), (''avatar_spec'', jobj [])]"

definition good_network :: connect_env where
  "good_network = \<lparr>host_created = True, connect_peer = (\<lambda>h p. Some 1), connect_event = True, encoder_created = True\<rparr>"

lemma new_client_alive: "\<not> deallocated (alloclient_create store)"
  by (simp add: alloclient_create_def)

theorem documented_connect_frees_client_witness:
  "\<exists>result s'. alloclient_simple_communicate (simple_env\<lparr>ce_parse := (\<lambda>s. Some documented_connect)\<rparr>) good_network []
      ''connect'' (snd (alloclient_simple_init () simple_start)) = Some (result, s') \<and>
    GetObjectItemCS json_ops result ''return'' = Some (CreateBool json_ops False) \<and>
    (\<exists>gone. simple_client s' = Some gone \<and> deallocated gone) \<and>
    command_poll simple_env [] poll_command s' = None"
proof -
  let ?E = "simple_env\<lparr>ce_parse := (\<lambda>s. Some documented_connect)\<rparr>"
  have E: "ce_json ?E = json_ops" by (simp add: simple_env_def sample_client_env_def ce_json_def sample_delta_env_def)
  obtain h where h: "allo_delta_clear (states (alloclient_create ())) = Some (h :: json statehistory)"
    by (simp add: alloclient_create_def statehistory_new_def allo_delta_clear_def)
  show ?thesis
    by (rule documented_connect_frees_client [of ?E documented_connect _ _ "alloclient_create ()" "''alloplace://h''"
          "jobj [(''display_name'', jstr ''My App Name'')]" "Some ''h''" None good_network 1 h, unfolded E])
      (simp_all add: json.cjson_lib_axioms documented_connect_def json_eval jopcode_def live_client_def alloclient_simple_init_def
        simple_start_def string_value_def split_url_def allo_strndup_def good_network_def h JOP_CONNECT_def new_client_alive)
qed

end
