(* ===== verification/Libav.thy ===== *)
theory Libav
  imports Media Client
begin

text \<open>
  The media subsystem on ffmpeg, \<^verbatim>\<open>src/media/video/libav.c\<close>, for programs that call \<open>allo_libav_initialize\<close>: the
  coders of a track are made when the first picture or packet comes, and everything that is allocated from
  ffmpeg and outlives the call is counted (a frame that is made and freed in one call is not). ffmpeg is a parameter. A codec context that has not been opened refuses frames and
  packets, as the library documents. \<open>None\<close> is a failed assertion, a null pointer that is followed or a picture whose size has no \<open>int\<close>.
\<close>

section \<open>ffmpeg\<close>

text \<open>The fields of an encoder context that the code sets.\<close>

record encoder_settings =
  es_width :: i32
  es_height :: i32
  es_time_base :: "int \<times> int"
  es_bit_rate :: int
  es_gop_size :: int
  es_max_b_frames :: int
  es_thread_count :: int
  es_refs :: int
  es_trellis :: int
  es_options :: "(string \<times> string) list"

datatype pixel_format = RGB555 | RGB565 | RGBA | BGRA | ZRGB

text \<open>
  \<open>'c\<close> is an opened codec, \<open>'f\<close> a frame in YUV, \<open>'p\<close> an array of pixels. The functions that return an
  error code give \<open>None\<close> for one.
\<close>

record ('c, 'f, 'p) av_env =
  has_encoder :: bool
  has_decoder :: bool
  open_encoder :: "encoder_settings \<Rightarrow> 'c option"
  open_decoder :: "i32 \<Rightarrow> i32 \<Rightarrow> 'c option"
  frame_get_buffer :: bool
  send_frame :: "'c \<Rightarrow> 'f \<Rightarrow> int \<Rightarrow> 'c option"
  receive_packet :: "'c \<Rightarrow> u8 list option \<times> 'c"
  send_packet :: "'c \<Rightarrow> u8 list \<Rightarrow> 'c option"
  receive_frame :: "'c \<Rightarrow> ('f \<times> i32 \<times> i32) option \<times> 'c"
  scale_to_frame :: "allopicture \<Rightarrow> pixel_format \<Rightarrow> i32 \<Rightarrow> i32 \<Rightarrow> 'f"
  scale_to_pixels :: "'f \<Rightarrow> i32 \<Rightarrow> i32 \<Rightarrow> 'p"
  fresh_bytes :: "u8 list"

datatype 'c codec_context = Unopened | Opened 'c

text \<open>The coders of a track; a Boolean tells whether the pointer is set.\<close>

record 'c av_track =
  is_h264 :: bool
  enc_codec :: bool
  enc_context :: "'c codec_context option"
  enc_settings :: encoder_settings
  enc_packet :: bool
  enc_scaler :: bool
  dec_codec :: bool
  dec_context :: "'c codec_context option"
  dec_scaler :: bool
  dec_packet :: bool
  dec_frame :: bool
  track_width :: i32
  track_height :: i32
  framenr :: int

text \<open>What is allocated and not yet freed.\<close>

record av_live =
  contexts :: int
  av_packets :: int
  frames :: int
  scalers :: int
  pictures :: int

section \<open>Encoding\<close>

definition settings_of :: "i32 \<Rightarrow> i32 \<Rightarrow> encoder_settings" where
  "settings_of w h = \<lparr>es_width = w, es_height = h, es_time_base = (9000, 1), es_bit_rate = 10 * 1000 * 1000,
     es_gop_size = 15, es_max_b_frames = 0, es_thread_count = 1, es_refs = 3, es_trellis = 0,
     es_options = [(''preset'', ''ultrafast''), (''tune'', ''zerolatency''), (''g'', ''30'')]\<rparr>"

text \<open>The encoder of a track, made for its first picture; false when the function gives up.\<close>

definition make_encoder :: "('c, 'f, 'p) av_env \<Rightarrow> 'c av_track \<times> av_live \<Rightarrow> bool \<times> 'c av_track \<times> av_live" where
  "make_encoder E s =
     (case s of (t, live) \<Rightarrow>
        if enc_codec t then (True, t, live)
        else if \<not> has_encoder E then (False, t, live)
        else (let set = settings_of (track_width t) (track_height t);
                  t1 = t\<lparr>enc_codec := True, enc_context := Some Unopened, enc_settings := set, enc_packet := True, enc_scaler := False\<rparr>;
                  live1 = live\<lparr>contexts := contexts live + 1, av_packets := av_packets live + 1\<rparr>
              in case open_encoder E set of
                   None \<Rightarrow> (False, t1, live1)
                 | Some c \<Rightarrow> (True, t1\<lparr>enc_context := Some (Opened c)\<rparr>, live1)))"

fun source_format :: "allopicture_format \<Rightarrow> pixel_format" where
  "source_format rgb1555 = RGB555"
| "source_format rgb565 = RGB565"
| "source_format rgba8888 = RGBA"
| "source_format bgra8888 = BGRA"
| "source_format xrgb8888 = ZRGB"

text \<open>A scaler is kept from call to call; \<open>sws_getCachedContext\<close> frees one that does not fit.\<close>

definition cached_scaler :: "bool \<Rightarrow> av_live \<Rightarrow> av_live" where
  "cached_scaler present live = (if present then live else live\<lparr>scalers := scalers live + 1\<rparr>)"

definition video_write_h264 ::
  "('c, 'f, 'p) av_env \<Rightarrow> allopicture \<Rightarrow> 'c av_track \<times> av_live \<Rightarrow> (u8 list option \<times> 'c av_track \<times> av_live) option" where
  "video_write_h264 E picture s =
     (case make_encoder E s of
        (False, s1) \<Rightarrow> Some (None, s1)
      | (True, t1, live1) \<Rightarrow>
          (case enc_context t1 of
             None \<Rightarrow> None
           | Some ctx \<Rightarrow>
               if \<not> frame_get_buffer E then None
               else (let nr = framenr t1 + 1;
                         frame = scale_to_frame E picture (source_format (picture_format picture))
                           (es_width (enc_settings t1)) (es_height (enc_settings t1));
                         live2 = cached_scaler (enc_scaler t1) live1
                     in case ctx of
                          Unopened \<Rightarrow> None
                        | Opened c \<Rightarrow>
                            (case send_frame E c frame nr of
                               None \<Rightarrow> None
                             | Some c1 \<Rightarrow>
                                 (case receive_packet E c1 of (encoded, c2) \<Rightarrow>
                                    Some (map_option (\<lambda>bytes. fresh_bytes E @ bytes) encoded,
                                      t1\<lparr>framenr := nr, enc_scaler := True, enc_context := Some (Opened c2)\<rparr>,
                                      live2\<lparr>pictures := pictures live2 - 1\<rparr>))))))"

section \<open>Decoding\<close>

definition make_decoder :: "('c, 'f, 'p) av_env \<Rightarrow> 'c av_track \<times> av_live \<Rightarrow> 'c av_track \<times> av_live" where
  "make_decoder E s =
     (case s of (t, live) \<Rightarrow>
        if dec_codec t then (t, live)
        else (t\<lparr>dec_codec := has_decoder E,
                dec_context := Some (if has_decoder E
                  then (case open_decoder E (track_width t) (track_height t) of None \<Rightarrow> Unopened | Some c \<Rightarrow> Opened c)
                  else Unopened),
                dec_frame := True, dec_packet := True, dec_scaler := False\<rparr>,
              live\<lparr>contexts := contexts live + 1, frames := frames live + 1, av_packets := av_packets live + 1\<rparr>))"

text \<open>The pixels with their size, when the packet completes a frame; a width or height of zero is the frame's.\<close>

definition video_parse_h264 ::
  "('c, 'f, 'p) av_env \<Rightarrow> u8 list \<Rightarrow> i32 \<Rightarrow> i32 \<Rightarrow> 'c av_track \<times> av_live \<Rightarrow>
   (('p \<times> i32 \<times> i32) option \<times> 'c av_track \<times> av_live) option" where
  "video_parse_h264 E data wide high s =
     (case make_decoder E s of (t1, live1) \<Rightarrow>
        (case dec_context t1 of
           None \<Rightarrow> None
         | Some Unopened \<Rightarrow> Some (None, t1, live1)
         | Some (Opened c) \<Rightarrow>
             (case send_packet E c data of
                None \<Rightarrow> Some (None, t1, live1)
              | Some c1 \<Rightarrow>
                  (case receive_frame E c1 of
                     (None, c2) \<Rightarrow> Some (None, t1\<lparr>dec_context := Some (Opened c2)\<rparr>, live1)
                   | (Some (frame, w, h), c2) \<Rightarrow>
                       (let wide' = (if wide = 0 then w else wide); high' = (if high = 0 then h else high)
                        in if sint wide' * sint high' < 0 \<or> 2 ^ 31 \<le> sint wide' * sint high' then None
                           else Some (Some (scale_to_pixels E frame wide' high', wide', high'),
                             t1\<lparr>dec_context := Some (Opened c2), dec_scaler := True\<rparr>,
                             cached_scaler (dec_scaler t1) live1))))))"

section \<open>The subsystem\<close>

definition av_track_new :: "'c av_track" where
  "av_track_new = \<lparr>is_h264 = False, enc_codec = False, enc_context = None, enc_settings = settings_of 0 0, enc_packet = False,
     enc_scaler = False, dec_codec = False, dec_context = None, dec_scaler = False, dec_packet = False, dec_frame = False,
     track_width = 0, track_height = 0, framenr = 0\<rparr>"

definition h264_track_initialize :: "'j cjson \<Rightarrow> media_type \<Rightarrow> 'c av_track \<Rightarrow> 'j \<Rightarrow> (bool \<times> 'c av_track) option" where
  "h264_track_initialize C ty t component =
     (if ty \<noteq> allo_media_type_video then Some (False, t)
      else case string_value C (GetObjectItemCS C component ''format'') of
             None \<Rightarrow> None
           | Some f \<Rightarrow>
               if f \<noteq> ''h264'' then Some (False, t)
               else (let jmeta = GetObjectItemCS C component ''metadata''
                     in case (get_cs C jmeta ''width'', get_cs C jmeta ''height'') of
                          (Some jwidth, Some jheight) \<Rightarrow>
                            Some (True, t\<lparr>is_h264 := True, track_width := valueint C jwidth, track_height := valueint C jheight\<rparr>)
                        | _ \<Rightarrow> None))"

definition free_if :: "bool \<Rightarrow> int" where
  "free_if b = (if b then 1 else 0)"

definition h264_track_destroy :: "'c av_track \<times> av_live \<Rightarrow> 'c av_track \<times> av_live" where
  "h264_track_destroy s =
     (case s of (t, live) \<Rightarrow>
        if \<not> is_h264 t then (t, live)
        else (t\<lparr>enc_context := None, enc_packet := False, enc_scaler := False, dec_context := None, dec_frame := False,
                dec_packet := False, dec_scaler := False\<rparr>,
              live\<lparr>contexts := contexts live - free_if (enc_context t \<noteq> None) - free_if (dec_context t \<noteq> None),
                av_packets := av_packets live - free_if (enc_packet t) - free_if (dec_packet t),
                frames := frames live - free_if (dec_frame t),
                scalers := scalers live - free_if (enc_scaler t) - free_if (dec_scaler t)\<rparr>))"

text \<open>A packet of the track: the callback it makes, if one is set.\<close>

definition h264_parse_video ::
  "('c, 'f, 'p) av_env \<Rightarrow> bool \<Rightarrow> u32 \<Rightarrow> u8 list \<Rightarrow> 'c av_track \<times> av_live \<Rightarrow>
   ('p media_callback list \<times> 'c av_track \<times> av_live) option" where
  "h264_parse_video E video_callback i data s =
     (if \<not> video_callback then Some ([], s)
      else map_option (\<lambda>(pixels, s'). (case pixels of None \<Rightarrow> [] | Some (p, w, h) \<Rightarrow> [Video_callback i p w h], s'))
             (video_parse_h264 E data (track_width (fst s)) (track_height (fst s)) s))"

end
