(* ===== verification/Libav_Correct.thy ===== *)
theory Libav_Correct
  imports Libav
begin

text \<open>
  Everything a track allocates from ffmpeg is freed with it, as long as there is a decoder; and what
  happens when a coder is missing or cannot be opened.
\<close>

section \<open>What a track holds\<close>

definition holds :: "'c av_track \<Rightarrow> av_live \<Rightarrow> bool" where
  "holds t live \<longleftrightarrow>
     contexts live = free_if (enc_context t \<noteq> None) + free_if (dec_context t \<noteq> None) \<and>
     av_packets live = free_if (enc_packet t) + free_if (dec_packet t) \<and>
     frames live = free_if (dec_frame t) \<and> scalers live = free_if (enc_scaler t) + free_if (dec_scaler t) \<and>
     (\<not> enc_codec t \<longrightarrow> enc_context t = None \<and> \<not> enc_packet t \<and> \<not> enc_scaler t) \<and>
     (\<not> dec_codec t \<longrightarrow> dec_context t = None \<and> \<not> dec_packet t \<and> \<not> dec_frame t \<and> \<not> dec_scaler t) \<and> is_h264 t"

lemma free_if_simps [simp]: "free_if True = 1" "free_if False = 0"
  by (simp_all add: free_if_def)

lemma make_encoder_holds:
  assumes m: "make_encoder E (t, live) = (b, t', live')" and h: "holds t live"
  shows "holds t' live' \<and> (b \<longrightarrow> enc_codec t')"
proof (cases "enc_codec t \<or> \<not> has_encoder E")
  case True
  then show ?thesis using m h by (cases "enc_codec t") (auto simp: make_encoder_def)
next
  case False
  then have t: "enc_context t = None" "\<not> enc_packet t" "\<not> enc_scaler t" using h by (simp_all add: holds_def)
  show ?thesis
  proof (cases "open_encoder E (settings_of (track_width t) (track_height t))")
    case None
    then have "t' = t\<lparr>enc_codec := True, enc_context := Some Unopened, enc_settings := settings_of (track_width t) (track_height t),
        enc_packet := True, enc_scaler := False\<rparr>"
      and "live' = live\<lparr>contexts := contexts live + 1, av_packets := av_packets live + 1\<rparr>" and "b = False"
      using m False by (simp_all add: make_encoder_def Let_def)
    then show ?thesis using h t by (simp add: holds_def)
  next
    case (Some c)
    then have "t' = t\<lparr>enc_codec := True, enc_settings := settings_of (track_width t) (track_height t),
        enc_packet := True, enc_scaler := False, enc_context := Some (Opened c)\<rparr>"
      and "live' = live\<lparr>contexts := contexts live + 1, av_packets := av_packets live + 1\<rparr>"
      using m False by (simp_all add: make_encoder_def Let_def)
    then show ?thesis using h t by (simp add: holds_def)
  qed
qed

lemma make_decoder_holds:
  assumes m: "make_decoder E (t, live) = (t', live')" and d: "has_decoder E" and h: "holds t live"
  shows "holds t' live' \<and> dec_codec t'"
proof (cases "dec_codec t")
  case True
  then show ?thesis using m h by (simp add: make_decoder_def)
next
  case False
  then have "dec_context t = None" "\<not> dec_packet t" "\<not> dec_frame t" "\<not> dec_scaler t" using h by (simp_all add: holds_def)
  then show ?thesis using False m d h by (auto simp: make_decoder_def holds_def)
qed

lemma write_holds:
  assumes w: "video_write_h264 E picture (t, live) = Some (packet, t', live')" and h: "holds t live"
  shows "holds t' live'"
proof -
  obtain b t1 live1 where m: "make_encoder E (t, live) = (b, t1, live1)" by (metis prod_cases3)
  have h1: "holds t1 live1" using make_encoder_holds [OF m h] by blast
  show ?thesis
  proof (cases b)
    case False
    then show ?thesis using w h1 by (simp add: video_write_h264_def m)
  next
    case True
    from w obtain c c1 c2 where c: "enc_context t1 = Some (Opened c)"
      and t': "t' = t1\<lparr>framenr := framenr t1 + 1, enc_scaler := True, enc_context := Some (Opened c2)\<rparr>"
      and l': "live' = (cached_scaler (enc_scaler t1) live1)\<lparr>pictures := pictures (cached_scaler (enc_scaler t1) live1) - 1\<rparr>"
      by (auto simp: video_write_h264_def m True Let_def split: option.splits codec_context.splits if_splits prod.splits)
    have "enc_codec t1" using make_encoder_holds [OF m h] True by blast
    then show ?thesis using h1 c by (cases "enc_scaler t1") (simp_all add: t' l' holds_def cached_scaler_def)
  qed
qed

lemma parse_holds:
  assumes p: "video_parse_h264 E data w high (t, live) = Some (pixels, t', live')" and d: "has_decoder E" and h: "holds t live"
  shows "holds t' live'"
proof -
  obtain t1 live1 where m: "make_decoder E (t, live) = (t1, live1)" by force
  have h1: "holds t1 live1" "dec_codec t1" using make_decoder_holds [OF m d h] by blast+
  from p consider "t' = t1" "live' = live1"
    | c c2 where "dec_context t1 = Some (Opened c)" "t' = t1\<lparr>dec_context := Some (Opened c2)\<rparr>" "live' = live1"
    | c c2 where "dec_context t1 = Some (Opened c)" "t' = t1\<lparr>dec_context := Some (Opened c2), dec_scaler := True\<rparr>"
        "live' = cached_scaler (dec_scaler t1) live1"
    by (auto simp: video_parse_h264_def m Let_def split: option.splits codec_context.splits if_splits prod.splits)
  then show ?thesis
  proof cases
    case 1
    then show ?thesis using h1 by simp
  next
    case 2
    then show ?thesis using h1 by (simp add: holds_def)
  next
    case 3
    then show ?thesis using h1 by (cases "dec_scaler t1") (simp_all add: holds_def cached_scaler_def)
  qed
qed

datatype av_operation = Write_picture allopicture | Parse_packet bool u32 "u8 list"

definition av_step :: "('c, 'f, 'p) av_env \<Rightarrow> av_operation \<Rightarrow> 'c av_track \<times> av_live \<Rightarrow> ('c av_track \<times> av_live) option" where
  "av_step E operation s =
     (case operation of
        Write_picture picture \<Rightarrow> map_option snd (video_write_h264 E picture s)
      | Parse_packet callback i data \<Rightarrow> map_option snd (h264_parse_video E callback i data s))"

lemma av_step_holds: "av_step E operation (t, live) = Some (t', live') \<Longrightarrow> has_decoder E \<Longrightarrow> holds t live \<Longrightarrow> holds t' live'"
  by (auto simp: av_step_def h264_parse_video_def split: av_operation.splits if_splits dest: write_holds parse_holds)

lemma av_steps_hold:
  "fold_opt (av_step E) operations s = Some s' \<Longrightarrow> has_decoder E \<Longrightarrow> holds (fst s) (snd s) \<Longrightarrow> holds (fst s') (snd s')"
proof (induction operations arbitrary: s)
  case (Cons operation operations)
  from Cons.prems(1) obtain s1 where s1: "av_step E operation s = Some s1" and r: "fold_opt (av_step E) operations s1 = Some s'"
    by (auto split: option.splits)
  have "holds (fst s1) (snd s1)" using av_step_holds [of E operation "fst s" "snd s" "fst s1" "snd s1"] s1 Cons.prems(2,3) by simp
  from Cons.IH [OF r Cons.prems(2) this] show ?case .
qed simp

section \<open>Properties\<close>

definition nothing_live :: av_live where
  "nothing_live = \<lparr>contexts = 0, av_packets = 0, frames = 0, scalers = 0, pictures = 0\<rparr>"

text \<open>
  C40. When ffmpeg has a decoder for H.264: a track that is set up, used for any pictures and packets in any
  order, and destroyed leaves no context, packet, frame or scaler behind, whether or not its coders could
  be opened. Without that decoder every packet leaks (\<open>missing_decoder_leaks\<close>).
\<close>

theorem h264_track_frees_all:
  assumes "has_decoder E" and "h264_track_initialize C allo_media_type_video av_track_new component = Some (True, t)"
    and "fold_opt (av_step E) operations (t, nothing_live) = Some s" and "h264_track_destroy s = (t', live)"
  shows "contexts live = 0 \<and> av_packets live = 0 \<and> frames live = 0 \<and> scalers live = 0"
proof -
  have "holds t nothing_live"
    using assms(2) by (auto simp: h264_track_initialize_def av_track_new_def nothing_live_def holds_def Let_def split: option.splits if_splits)
  from av_steps_hold [OF assms(3,1)] this have "holds (fst s) (snd s)" by simp
  then show ?thesis using assms(4) by (cases s) (auto simp: h264_track_destroy_def holds_def)
qed


text \<open>Samples: a coder that passes its input on, frames and pixels that are lists of bytes.\<close>

definition video_component :: json where
  "video_component = jobj [(''type'', jstr ''video''), (''format'', jstr ''h264''),
     (''metadata'', jobj [(''width'', jnum 2), (''height'', jnum 1)])]"

definition copy_codec :: "bool \<Rightarrow> bool \<Rightarrow> (u8 list, u8 list, u8 list) av_env" where
  "copy_codec decoder opens = \<lparr>has_encoder = True, has_decoder = decoder, open_encoder = (\<lambda>es. if opens then Some [] else None),
     open_decoder = (\<lambda>w h. Some []), frame_get_buffer = True, send_frame = (\<lambda>c f n. Some f), receive_packet = (\<lambda>c. (Some c, [])),
     send_packet = (\<lambda>c d. Some d), receive_frame = (\<lambda>c. (Some (c, 2, 1), [])), scale_to_frame = (\<lambda>p f w h. plane0 p),
     scale_to_pixels = (\<lambda>f w h. f), fresh_bytes = [9, 9, 9, 9]\<rparr>"

definition small_picture :: allopicture where
  "small_picture = \<lparr>plane0 = [1, 2, 3, 4, 5, 6, 7, 8], picture_format = rgba8888, picture_width = 2, picture_height = 1,
     plane_count = 1, plane_byte_length = 8, plane_stride = 8\<rparr>"

definition small_track :: "u8 list av_track" where
  "small_track = av_track_new\<lparr>is_h264 := True, track_width := 2, track_height := 1\<rparr>"

lemma small_track_initialized:
  "h264_track_initialize json_ops allo_media_type_video av_track_new video_component = Some (True, small_track)"
  by (simp add: h264_track_initialize_def video_component_def small_track_def json_defs string_value_def)

lemma copy_codec_sel [simp]:
  "has_encoder (copy_codec d b)" "has_decoder (copy_codec d b) = d"
  "open_encoder (copy_codec d b) es = (if b then Some [] else None)" "open_decoder (copy_codec d b) w h = Some []"
  "frame_get_buffer (copy_codec d b)" "send_frame (copy_codec d b) c f n = Some f"
  "receive_packet (copy_codec d b) c = (Some c, [])" "send_packet (copy_codec d b) c data = Some data"
  "receive_frame (copy_codec d b) c = (Some (c, 2, 1), [])" "scale_to_frame (copy_codec d b) p fm w h = plane0 p"
  "fresh_bytes (copy_codec d b) = [9, 9, 9, 9]"
  by (simp_all add: copy_codec_def)

lemma small_run:
  "\<exists>s. fold_opt (av_step (copy_codec True True)) [Write_picture small_picture, Parse_packet True 7 [1, 2]] (small_track, nothing_live) = Some s"
  by (simp add: av_step_def video_write_h264_def make_encoder_def small_track_def av_track_new_def Let_def
      h264_parse_video_def video_parse_h264_def make_decoder_def)

theorem h264_track_frees_all_witness:
  "\<exists>s t' live. fold_opt (av_step (copy_codec True True)) [Write_picture small_picture, Parse_packet True 7 [1, 2]]
      (small_track, nothing_live) = Some s \<and> h264_track_destroy s = (t', live) \<and>
    contexts live = 0 \<and> av_packets live = 0 \<and> frames live = 0 \<and> scalers live = 0"
proof -
  obtain s where s: "fold_opt (av_step (copy_codec True True)) [Write_picture small_picture, Parse_packet True 7 [1, 2]]
      (small_track, nothing_live) = Some s" using small_run by blast
  obtain t' live where d: "h264_track_destroy s = (t', live)" by force
  from h264_track_frees_all [OF _ small_track_initialized s d] s d show ?thesis by auto
qed

text \<open>
  Without a decoder every packet makes a new context, packet and frame and forgets the ones before: after
  \<open>n + 1\<close> packets \<open>n\<close> of each stay behind when the track is destroyed.
\<close>

theorem missing_decoder_leaks:
  assumes "\<not> has_decoder E" and "h264_track_initialize C allo_media_type_video av_track_new component = Some (True, t)"
  shows "\<exists>s. fold_opt (av_step E) (replicate (Suc n) (Parse_packet True i data)) (t, nothing_live) = Some s \<and>
    contexts (snd (h264_track_destroy s)) = int n \<and> frames (snd (h264_track_destroy s)) = int n \<and>
    av_packets (snd (h264_track_destroy s)) = int n"
proof -
  let ?t = "t\<lparr>dec_codec := False, dec_context := Some Unopened, dec_frame := True, dec_packet := True, dec_scaler := False\<rparr>"
  let ?live = "\<lambda>k. \<lparr>contexts = k, av_packets = k, frames = k, scalers = 0, pictures = 0\<rparr>"
  have t: "enc_context t = None" "\<not> enc_packet t" "\<not> enc_scaler t" "\<not> dec_codec t" "is_h264 t"
    using assms(2) by (auto simp: h264_track_initialize_def av_track_new_def Let_def split: option.splits if_splits)
  have step: "av_step E (Parse_packet True i data) (u, ?live k) =
      Some (u\<lparr>dec_codec := False, dec_context := Some Unopened, dec_frame := True, dec_packet := True, dec_scaler := False\<rparr>, ?live (k + 1))"
    if "\<not> dec_codec u" for u :: "'a av_track" and k
    using that assms(1) by (simp add: av_step_def h264_parse_video_def video_parse_h264_def make_decoder_def)
  have "fold_opt (av_step E) (replicate m (Parse_packet True i data)) (?t, ?live k) = Some (?t, ?live (k + int m))" for m k
    by (induction m arbitrary: k) (simp_all add: step ac_simps)
  moreover have "av_step E (Parse_packet True i data) (t, nothing_live) = Some (?t, ?live 1)"
    using step [of t 0] t(4) by (simp add: nothing_live_def)
  ultimately have "fold_opt (av_step E) (replicate (Suc n) (Parse_packet True i data)) (t, nothing_live) = Some (?t, ?live (1 + int n))"
    by simp
  then show ?thesis using t by (simp add: h264_track_destroy_def)
qed

theorem missing_decoder_leaks_witness:
  "\<exists>s. fold_opt (av_step (copy_codec False True)) (replicate (Suc 2) (Parse_packet True 7 [1, 2])) (small_track, nothing_live) = Some s \<and>
    contexts (snd (h264_track_destroy s)) = int 2 \<and> frames (snd (h264_track_destroy s)) = int 2 \<and>
    av_packets (snd (h264_track_destroy s)) = int 2"
  by (rule missing_decoder_leaks [OF _ small_track_initialized]) simp

text \<open>An encoder that cannot be opened is reported for the first picture; the second picture fails an assertion.\<close>

theorem unopened_encoder_aborts:
  assumes "has_encoder E" and "open_encoder E (settings_of (track_width t) (track_height t)) = None" and "\<not> enc_codec t"
  shows "\<exists>s. video_write_h264 E picture (t, live) = Some (None, s) \<and> video_write_h264 E picture' s = None"
  using assms by (simp add: video_write_h264_def make_encoder_def Let_def)

theorem unopened_encoder_aborts_witness:
  "\<exists>s. video_write_h264 (copy_codec True False) small_picture (small_track, nothing_live) = Some (None, s) \<and>
    video_write_h264 (copy_codec True False) small_picture s = None"
  by (rule unopened_encoder_aborts) (simp_all add: small_track_def av_track_new_def)

text \<open>
  The packet leaves room for the id of the track in front of the bytes of the encoder: the receiver finds the
  id and hands over the same bytes.
\<close>

theorem h264_packet_carries_bytes:
  assumes "video_write_h264 E picture s = Some (Some packet, s')" and "length (fresh_bytes E) = 4" and "7 \<le> length packet"
  shows "packet_track (blit packet 0 (be32 i)) = Some i \<and> fresh_bytes E @ drop 4 (blit packet 0 (be32 i)) = packet"
proof -
  obtain b t1 live1 where m: "make_encoder E s = (b, t1, live1)" by (metis prod_cases3)
  from assms(1) obtain bytes where p: "packet = fresh_bytes E @ bytes"
    by (auto simp: video_write_h264_def m Let_def split: bool.splits option.splits codec_context.splits if_splits prod.splits)
  have w: "blit packet 0 (be32 i) = be32 i @ bytes" using assms(2) by (simp add: p blit_def)
  have "3 \<le> length bytes" using assms(2,3) by (simp add: p)
  then obtain x y z rest where "bytes = x # y # z # rest"
    by (metis Suc_le_length_iff numeral_3_eq_3)
  then show ?thesis unfolding w by (simp add: p packet_track_def be32_def)
qed

theorem h264_packet_carries_bytes_witness:
  "packet_track (blit ([9, 9, 9, 9] @ plane0 small_picture) 0 (be32 7)) = Some 7 \<and>
   fresh_bytes (copy_codec True True) @ drop 4 (blit ([9, 9, 9, 9] @ plane0 small_picture) 0 (be32 7)) = [9, 9, 9, 9] @ plane0 small_picture"
proof -
  obtain s' where "video_write_h264 (copy_codec True True) small_picture (small_track, nothing_live) =
      Some (Some ([9, 9, 9, 9] @ plane0 small_picture), s')"
    by (simp add: video_write_h264_def make_encoder_def small_track_def av_track_new_def Let_def)
  from h264_packet_carries_bytes [OF this, of 7] show ?thesis by (simp add: small_picture_def)
qed

end
