(* ===== verification/Statistics.thy ===== *)
theory Statistics
  imports Place Client_Proxy Asset_Store
begin

text \<open>
  The reports of what was sent and received: the rates of \<^verbatim>\<open>src/util.h\<close>, \<open>alloserv_get_stats\<close> of
  \<^verbatim>\<open>src/server.c\<close>, \<open>allo_media_get_stats\<close> of \<^verbatim>\<open>src/media/media.c\<close> and the reports of the client and of the
  threaded client. They are written into a buffer of the caller, which is a list of
  characters here, piece by piece, with \<open>snprintf\<close>. Offsets into it are natural numbers, which the \<open>int\<close> of the
  code holds for reports below two gigabytes. \<open>None\<close> is a write outside the buffer, a string without an
  end, a null pointer or a conversion of a \<open>double\<close> that no \<open>size_t\<close> can hold.
\<close>

section \<open>Rates\<close>

record bitrate_snapshot =
  snapshot :: bitrate_data
  snapshot_time :: rat

record bitrate_deltas_t =
  delta_time :: rat
  delta_sent_bytes :: rat
  delta_received_bytes :: rat
  delta_sent_packets :: size_t
  delta_received_packets :: size_t

definition size_of_double :: "rat \<Rightarrow> size_t option" where
  "size_of_double x = (if - 1 < x \<and> x < 2 ^ 64 then Some (word_of_nat (nat \<lfloor>x\<rfloor>)) else None)"

text \<open>
  With no time passed the rates are no numbers, and converting those of packets is undefined. The
  snapshot is renewed after five seconds, or when the clock has gone back.
\<close>

definition bitrate_deltas :: "bitrate_data \<Rightarrow> rat \<Rightarrow> bitrate_snapshot \<Rightarrow> (bitrate_deltas_t \<times> bitrate_snapshot) option" where
  "bitrate_deltas data time snap =
     (let dtime = time - snapshot_time snap;
          per_second = (\<lambda>now before. of_nat (unat (now - before :: size_t)) / dtime)
      in if dtime = 0 then None
         else case (size_of_double (per_second (sent_packet_count data) (sent_packet_count (snapshot snap))),
                    size_of_double (per_second (received_packet_count data) (received_packet_count (snapshot snap)))) of
                (Some sent, Some received) \<Rightarrow>
                  Some (\<lparr>delta_time = dtime, delta_sent_bytes = per_second (sent_bytes data) (sent_bytes (snapshot snap)),
                         delta_received_bytes = per_second (received_bytes data) (received_bytes (snapshot snap)),
                         delta_sent_packets = sent, delta_received_packets = received\<rparr>,
                    if 5 < dtime \<or> dtime < 0 then \<lparr>snapshot = data, snapshot_time = time\<rparr> else snap)
              | _ \<Rightarrow> None)"

section \<open>Text in a buffer\<close>

abbreviation NUL :: char where "NUL \<equiv> CHR 0x00"

text \<open>\<open>snprintf (buffer + off, room, ...)\<close> with the text it makes; it returns the length of the text.\<close>

definition snprintf_at :: "nat \<Rightarrow> size_t \<Rightarrow> string \<Rightarrow> string \<Rightarrow> string option" where
  "snprintf_at off room txt buf =
     (if room = 0 then Some buf
      else let out = take (unat room - 1) txt @ [NUL]
           in if off + length out \<le> length buf then Some (blit buf off out) else None)"

definition strlen_at :: "nat \<Rightarrow> string \<Rightarrow> nat option" where
  "strlen_at off buf = (if NUL \<in> set (drop off buf) then Some (length (takeWhile (\<lambda>c. c \<noteq> NUL) (drop off buf))) else None)"

text \<open>A piece that goes behind the text the buffer has: \<open>buffer\<close> and \<open>bufferlen\<close> move by \<open>strlen\<close>.\<close>

definition append_line :: "string \<Rightarrow> nat \<times> size_t \<times> string \<Rightarrow> (nat \<times> size_t \<times> string) option" where
  "append_line txt s =
     (case s of (off, room, buf) \<Rightarrow>
        Option.bind (strlen_at off buf) (\<lambda>len.
          map_option (\<lambda>buf'. (off + len, room - word_of_nat len, buf'))
            (snprintf_at (off + len) (room - word_of_nat len) txt buf)))"

text \<open>\<open>%u\<close> and \<open>%d\<close>; \<open>%s\<close> of a null pointer as the GNU library prints it; \<open>%.3f\<close> is a parameter.\<close>

abbreviation unsigned_decimal :: "nat \<Rightarrow> string" where
  "unsigned_decimal \<equiv> Asset_Store.decimal"

definition signed_decimal :: "int \<Rightarrow> string" where
  "signed_decimal i = (if i < 0 then ''-'' @ unsigned_decimal (nat (- i)) else unsigned_decimal (nat i))"

definition text_or_null :: "string option \<Rightarrow> string" where
  "text_or_null s = (case s of None \<Rightarrow> ''(null)'' | Some s \<Rightarrow> s)"

text \<open>What ENet knows of a connection and of the host, and how it and the library print numbers.\<close>

record enet_figures =
  packets_lost :: i32
  round_trip_time :: i32
  packet_throttle :: u32

record stats_env =
  fixed :: "nat \<Rightarrow> rat \<Rightarrow> string"
  throttle_scale :: rat
  figures :: "nat \<Rightarrow> enet_figures"
  connected_peers :: size_t
  limited_peers :: size_t

definition throttle_percent :: "stats_env \<Rightarrow> enet_figures \<Rightarrow> string" where
  "throttle_percent F p = fixed F 0 (of_nat (unat (packet_throttle p)) / throttle_scale F * 100)"

definition TAB :: string where "TAB = [CHR 0x09]"
definition NL :: string where "NL = [CHR 0x0A]"

section \<open>The channels\<close>

definition channel_names :: "string list" where
  "channel_names = [''audio'', ''cmd'', ''diff'', ''asset'', ''video'', ''clock'', ''total'']"

definition channel_line :: "stats_env \<Rightarrow> nat \<Rightarrow> bitrate_deltas_t \<Rightarrow> string" where
  "channel_line F i d = ''ch'' @ unsigned_decimal i @ ''-'' @ channel_names ! i @ TAB @ ''('' @ unsigned_decimal (unat (delta_sent_packets d)) @ '', '' @
     unsigned_decimal (unat (delta_received_packets d)) @ '') '' @ fixed F 3 (delta_sent_bytes d / 1024) @ ''/'' @
     fixed F 3 (delta_received_bytes d / 1024) @ ''kbps'' @ NL"

definition channel_step ::
  "stats_env \<Rightarrow> rat \<Rightarrow> (nat \<Rightarrow> bitrate_data) \<Rightarrow> nat \<Rightarrow> (nat \<Rightarrow> bitrate_snapshot) \<times> nat \<times> size_t \<times> string \<Rightarrow>
   ((nat \<Rightarrow> bitrate_snapshot) \<times> nat \<times> size_t \<times> string) option" where
  "channel_step F time rates i s =
     (case s of (snaps, buf) \<Rightarrow>
        Option.bind (bitrate_deltas (rates i) time (snaps i)) (\<lambda>(d, snap).
          map_option (Pair (snaps(i := snap))) (append_line (channel_line F i d) buf)))"

definition channel_lines ::
  "stats_env \<Rightarrow> rat \<Rightarrow> (nat \<Rightarrow> bitrate_data) \<Rightarrow> (nat \<Rightarrow> bitrate_snapshot) \<times> nat \<times> size_t \<times> string \<Rightarrow>
   ((nat \<Rightarrow> bitrate_snapshot) \<times> nat \<times> size_t \<times> string) option" where
  "channel_lines F time rates = fold_opt (channel_step F time rates) [0 ..< CHANNEL_COUNT + 1]"

section \<open>The tracks\<close>

definition track_line :: "stats_env \<Rightarrow> 'd media_track \<Rightarrow> bitrate_deltas_t \<Rightarrow> string" where
  "track_line F t d = (if track_type t = allo_media_type_audio then ''audio'' else ''video'') @ '' track '' @
     signed_decimal (sint (track_id t)) @ TAB @ fixed F 3 (delta_sent_bytes d / 1024) @ ''/'' @
     fixed F 3 (delta_received_bytes d / 1024) @ ''kb/s'' @ NL"

text \<open>Each track comes with its snapshot; the tracks that were reported get theirs back.\<close>

fun allo_media_get_stats ::
  "stats_env \<Rightarrow> rat \<Rightarrow> ('d media_track \<times> bitrate_snapshot) list \<Rightarrow> nat \<times> size_t \<times> string \<Rightarrow>
   (('d media_track \<times> bitrate_snapshot) list \<times> nat \<times> size_t \<times> string) option" where
  "allo_media_get_stats F time [] s = Some ([], s)"
| "allo_media_get_stats F time ((t, snap) # ts) s =
     Option.bind (bitrate_deltas (bitrates t) time snap) (\<lambda>(d, snap').
       Option.bind (append_line (track_line F t d) s) (\<lambda>s'.
         map_option (\<lambda>(ts', s''). ((t, snap') # ts', s'')) (allo_media_get_stats F time ts s')))"

section \<open>The server\<close>

text \<open>\<open>desc\<close> is an array of 255 characters.\<close>

definition alloserv_describe_client :: "'j cjson \<Rightarrow> 'j agent \<Rightarrow> string" where
  "alloserv_describe_client C a = take 254
     (text_or_null (string_value C (get_cs C (identity a) ''display_name'')) @ '' (ava '' @ text_or_null (avatar_entity_id a) @
      ''/agent '' @ agent_id a @ '')'')"

text \<open>The entities of an agent are counted by \<open>strcmp\<close>, which takes no null pointer.\<close>

definition entity_count :: "'j entity list \<Rightarrow> string \<Rightarrow> nat option" where
  "entity_count es agent =
     (if \<exists>e \<in> set es. owner_agent_id e = None then None else Some (length (filter (\<lambda>e. owner_agent_id e = Some agent) es)))"

definition client_header :: "'j cjson \<Rightarrow> 'j agent \<Rightarrow> string" where
  "client_header C a = alloserv_describe_client C a @ NL"

definition client_body :: "stats_env \<Rightarrow> bool \<Rightarrow> nat \<Rightarrow> enet_figures \<Rightarrow> string" where
  "client_body F header n p =
     (let indent = (if header then TAB else [])
      in indent @ ''Entities'' @ TAB @ unsigned_decimal n @ NL @ indent @ ''Packets lost'' @ TAB @ signed_decimal (sint (packets_lost p)) @ NL @
         indent @ ''RTT'' @ TAB @ signed_decimal (sint (round_trip_time p)) @ ''ms'' @ TAB @ NL @
         indent @ ''Packet throttle'' @ TAB @ throttle_percent F p @ ''%'' @ NL)"

text \<open>The length is that of the whole text, also when \<open>snprintf\<close> has cut it.\<close>

definition alloserv_get_client_stats ::
  "'j cjson \<Rightarrow> stats_env \<Rightarrow> 'j entity list \<Rightarrow> 'j agent \<Rightarrow> bool \<Rightarrow> nat \<Rightarrow> size_t \<Rightarrow> string \<Rightarrow> (nat \<times> string) option" where
  "alloserv_get_client_stats C F es a header off room buf =
     Option.bind (entity_count es (agent_id a)) (\<lambda>n.
       let title = (if header then client_header C a else []); body = client_body F header n (figures F (agent_at a))
       in Option.bind (if header then snprintf_at off room title buf else Some buf) (\<lambda>buf1.
            map_option (Pair (length title + length body))
              (snprintf_at (off + length title) (room - word_of_nat (length title)) body buf1)))"

fun clients_stats ::
  "'j cjson \<Rightarrow> stats_env \<Rightarrow> 'j entity list \<Rightarrow> size_t \<Rightarrow> 'j agent list \<Rightarrow> nat \<Rightarrow> string \<Rightarrow> string option" where
  "clients_stats C F es room [] off buf = Some buf"
| "clients_stats C F es room (a # as) off buf =
     Option.bind (alloserv_get_client_stats C F es a True off (room - word_of_nat off) buf)
       (\<lambda>(len, buf'). clients_stats C F es room as (off + len) buf')"

definition peers_line :: "stats_env \<Rightarrow> string" where
  "peers_line F = TAB @ ''Peers'' @ TAB @ unsigned_decimal (unat (connected_peers F)) @ '' (limited '' @ unsigned_decimal (unat (limited_peers F)) @ '')'' @ NL"

definition alloserv_get_stats ::
  "'j cjson \<Rightarrow> stats_env \<Rightarrow> rat \<Rightarrow> 'j entity list \<Rightarrow> 'j agent list \<Rightarrow> (nat \<Rightarrow> bitrate_data) \<Rightarrow> (nat \<Rightarrow> bitrate_snapshot) \<Rightarrow>
   size_t \<Rightarrow> string \<Rightarrow> ((nat \<Rightarrow> bitrate_snapshot) \<times> string) option" where
  "alloserv_get_stats C F time es as rates snaps room buf =
     Option.bind (snprintf_at 0 room (peers_line F) buf) (\<lambda>buf1.
       Option.bind (clients_stats C F es room as (length (peers_line F)) buf1) (\<lambda>buf2.
         map_option (\<lambda>(snaps', off, rest, buf3). (snaps', buf3)) (channel_lines F time rates (snaps, 0, room, buf2))))"

section \<open>The client\<close>

definition client_summary :: "stats_env \<Rightarrow> nat \<times> nat \<Rightarrow> enet_figures \<Rightarrow> string" where
  "client_summary F counts p =
     ''State: set:'' @ unsigned_decimal (fst counts) @ '' delta:'' @ unsigned_decimal (snd counts) @ NL @
     ''Packets lost'' @ TAB @ signed_decimal (sint (packets_lost p)) @ NL @
     ''RTT'' @ TAB @ signed_decimal (sint (round_trip_time p)) @ ''ms'' @ TAB @ NL @
     ''Packet throttle'' @ TAB @ throttle_percent F p @ ''%'' @ NL"

text \<open>
  The clock is read twice; the channels are measured by the time of the server as the client knows it.
\<close>

definition client_get_stats ::
  "stats_env \<Rightarrow> nat \<times> nat \<Rightarrow> rat \<Rightarrow> rat \<Rightarrow> (nat \<Rightarrow> bitrate_snapshot) \<Rightarrow> ('d media_track \<times> bitrate_snapshot) list \<Rightarrow> ('j, 's) alloclient \<Rightarrow>
   size_t \<Rightarrow> string \<Rightarrow> ((nat \<Rightarrow> bitrate_snapshot) \<times> ('d media_track \<times> bitrate_snapshot) list \<times> string) option" where
  "client_get_stats F counts time1 time2 snaps ts cl room buf =
     (case connection cl of
        None \<Rightarrow> map_option (\<lambda>b. (snaps, ts, b)) (snprintf_at 0 room ''(disconnected, no stats available)'' buf)
      | Some p \<Rightarrow>
          Option.bind (snprintf_at 0 room (client_summary F counts (figures F p)) buf) (\<lambda>buf1.
            Option.bind (channel_lines F (time1 + clock_deltaToServer cl) (client_rates cl) (snaps, 0, room, buf1)) (\<lambda>(snaps', off, rest, buf2).
              Option.bind (strlen_at off buf2) (\<lambda>len.
                map_option (\<lambda>(ts', off', rest', buf3). (snaps', ts', buf3))
                  (allo_media_get_stats F time2 ts (off + len, rest - word_of_nat len, buf2))))))"

definition proxy_get_stats ::
  "stats_env \<Rightarrow> nat \<times> nat \<Rightarrow> rat \<Rightarrow> rat \<Rightarrow> (nat \<Rightarrow> bitrate_snapshot) \<Rightarrow> ('d media_track \<times> bitrate_snapshot) list \<Rightarrow>
   ('j, 's, 'u) proxy_state \<Rightarrow> string \<Rightarrow> size_t \<Rightarrow> string \<Rightarrow>
   ((nat \<Rightarrow> bitrate_snapshot) \<times> ('d media_track \<times> bitrate_snapshot) list \<times> string) option" where
  "proxy_get_stats F counts time1 time2 snaps ts st extra room buf =
     Option.bind (client_get_stats F counts time1 time2 snaps ts (bridgeclient st) 1024 extra) (\<lambda>(snaps', ts', extra').
       Option.bind (strlen_at 0 extra') (\<lambda>n.
         map_option (\<lambda>buf'. (snaps', ts', buf'))
           (snprintf_at 0 room (''p2b '' @ signed_decimal (sint (proxy_to_bridge_len st)) @ NL @
              ''b2p '' @ signed_decimal (sint (bridge_to_proxy_len st)) @ NL @ take n extra') buf)))"

end
