(* ===== verification/Statistics_Correct.thy ===== *)
theory Statistics_Correct
  imports Statistics
begin

text \<open>
  The rates are those of what was counted since the snapshot. A report that is written behind the text of its
  buffer is cut to the buffer; the report of the server, which adds up the lengths that \<open>snprintf\<close> would
  have liked to write, leaves its buffer instead.
\<close>

section \<open>Rates\<close>

text \<open>A clock that counts milliseconds, and fewer packets than $2^{53}$.\<close>

lemma size_of_rate:
  assumes "1 / 1000 \<le> dtime" and "n < 2 ^ 53"
  shows "size_of_double (of_nat n / dtime) \<noteq> None"
proof -
  have d: "0 < dtime" using assms(1) by (rule less_le_trans [rotated]) simp
  have "rat_of_nat n / dtime \<le> rat_of_nat n / (1 / 1000)" using assms(1) by (intro divide_left_mono) (use d in auto)
  also have "\<dots> = of_nat (n * 1000)" by simp
  also have "\<dots> < of_nat (2 ^ 64)" using assms(2) by (intro iffD2 [OF of_nat_less_iff]) simp
  finally have "rat_of_nat n / dtime < 2 ^ 64" by simp
  moreover have "0 \<le> rat_of_nat n / dtime" using d by simp
  then have "- 1 < rat_of_nat n / dtime" by (rule less_le_trans [rotated]) simp
  ultimately show ?thesis by (simp add: size_of_double_def)
qed

lemma deltas_defined:
  assumes "1 / 1000 \<le> time - snapshot_time snap"
    and "unat (sent_packet_count data - sent_packet_count (snapshot snap)) < 2 ^ 53"
    and "unat (received_packet_count data - received_packet_count (snapshot snap)) < 2 ^ 53"
  shows "bitrate_deltas data time snap \<noteq> None"
  using size_of_rate [OF assms(1,2)] size_of_rate [OF assms(1,3)] assms(1)
  by (auto simp: bitrate_deltas_def Let_def split: option.splits)

lemma sent_bytes_added:
  "sent_bytes (fold (\<lambda>n br. bitrate_increment_sent br n) ns br) = sent_bytes br + sum_list ns"
  by (induction ns arbitrary: br) (simp_all add: bitrate_increment_sent_def ac_simps)

lemma sum_list_words: "sum_list (map unat ns) < 2 ^ 64 \<Longrightarrow> unat (sum_list ns :: size_t) = sum_list (map unat ns)"
proof (induction ns)
  case (Cons n ns)
  have r: "unat (sum_list ns) = sum_list (map unat ns)" using Cons by simp
  have "unat n + unat (sum_list ns) < 2 ^ LENGTH(64)" using Cons.prems by (simp add: r)
  from unat_plus_small [OF this] show ?case by (simp add: r)
qed simp

text \<open>The rate that is reported is the number of bytes sent since the snapshot over the time since.\<close>

theorem rate_counts_sent_bytes:
  assumes "bitrate_deltas (fold (\<lambda>n br. bitrate_increment_sent br n) ns (snapshot snap)) time snap = Some (d, snap')"
    and "sum_list (map unat ns) < 2 ^ 64"
  shows "delta_sent_bytes d * (time - snapshot_time snap) = of_nat (sum_list (map unat ns))"
proof -
  have "unsigned (sum_list ns) = rat_of_nat (sum_list (map unat ns))"
    by (simp flip: sum_list_words [OF assms(2)])
  then show ?thesis using assms(1)
    by (auto simp: bitrate_deltas_def Let_def sent_bytes_added split: if_splits option.splits)
qed

text \<open>A second report at the time of a renewed snapshot divides by zero.\<close>

theorem renewed_snapshot_undefined:
  assumes "bitrate_deltas data time snap = Some (d, snap')" and "5 < time - snapshot_time snap"
  shows "bitrate_deltas data' time snap' = None"
  using assms by (auto simp: bitrate_deltas_def Let_def split: if_splits option.splits)

section \<open>Text in a buffer\<close>

text \<open>The buffer shows a text that ends within its first \<open>n\<close> characters.\<close>

definition shown :: "nat \<Rightarrow> string \<Rightarrow> string \<Rightarrow> bool" where
  "shown n s buf \<longleftrightarrow> length s < n \<and> n \<le> length buf \<and> NUL \<notin> set s \<and> take (length s + 1) buf = s @ [NUL]"

definition cstring :: "string \<Rightarrow> string" where
  "cstring buf = takeWhile (\<lambda>c. c \<noteq> NUL) buf"

lemma shown_split: "shown n s buf \<Longrightarrow> buf = s @ NUL # drop (length s + 1) buf"
  unfolding shown_def by (metis append.assoc append_Cons append_Nil append_take_drop_id)

lemma shownI: "buf = s @ NUL # rest \<Longrightarrow> length s < n \<Longrightarrow> n \<le> length buf \<Longrightarrow> NUL \<notin> set s \<Longrightarrow> shown n s buf"
  by (simp add: shown_def)

lemma shown_cstring: assumes "shown n s buf" shows "cstring buf = s"
proof -
  have "NUL \<notin> set s" using assms by (simp add: shown_def)
  then have "cstring (s @ NUL # rest) = s" for rest by (simp add: cstring_def takeWhile_append)
  then show ?thesis using shown_split [OF assms] by metis
qed

lemma take_take_append: "take k (take k xs @ ys) = take k (xs @ ys)"
  by (cases "length xs \<le> k") simp_all

lemma NUL_take: "NUL \<notin> set xs \<Longrightarrow> NUL \<notin> set (take k xs)"
  using in_set_takeD by metis

text \<open>Writing where the text ends.\<close>

lemma write_at_end:
  assumes "length r < n" and "n \<le> length buf" and "take (length r) buf = r" and "NUL \<notin> set r" and "NUL \<notin> set txt"
    and "unat room = n - length r"
  shows "\<exists>buf'. snprintf_at (length r) room txt buf = Some buf' \<and> shown n (take (n - 1) (r @ txt)) buf' \<and> length buf' = length buf"
proof -
  let ?out = "take (unat room - 1) txt @ [NUL]"
  have "room \<noteq> 0" using assms(1,6) by auto
  moreover have fits: "length r + length ?out \<le> length buf" using assms(1,2,6) by auto
  ultimately have w: "snprintf_at (length r) room txt buf = Some (blit buf (length r) ?out)" by (simp add: snprintf_at_def)
  have t: "take (n - 1) (r @ txt) = r @ take (unat room - 1) txt"
    using assms(1,6) by (simp add: take_all [of r "n - Suc 0"])
  have b: "blit buf (length r) ?out = take (n - 1) (r @ txt) @ NUL # drop (length r + length ?out) buf"
    unfolding t using assms(3) by (simp add: blit_def)
  have "shown n (take (n - 1) (r @ txt)) (blit buf (length r) ?out)"
  proof (rule shownI [OF b])
    show "length (take (n - 1) (r @ txt)) < n" using assms(1) by auto
    show "n \<le> length (blit buf (length r) ?out)" using assms(2) fits by simp
    show "NUL \<notin> set (take (n - 1) (r @ txt))" using assms(4,5) by (intro NUL_take) simp
  qed
  then show ?thesis using w fits by simp
qed

section \<open>Lines behind the text\<close>

definition report :: "nat \<Rightarrow> string \<Rightarrow> nat \<times> size_t \<times> string \<Rightarrow> bool" where
  "report n s st \<longleftrightarrow> (case st of (off, room, buf) \<Rightarrow> shown n s buf \<and> off \<le> length s \<and> unat room = n - off \<and> n < 2 ^ 64)"

lemma report_strlen: assumes "report n s (off, room, buf)" shows "strlen_at off buf = Some (length s - off)"
proof -
  have s: "shown n s buf" "off \<le> length s" using assms by (simp_all add: report_def)
  have "drop off buf = drop off s @ NUL # drop (length s + 1) buf"
    using shown_split [OF s(1)] s(2) by (metis diff_is_0_eq' drop0 drop_append)
  moreover have "NUL \<notin> set (drop off s)" using s(1) in_set_dropD [of NUL off s] by (auto simp: shown_def)
  ultimately show ?thesis by (simp add: strlen_at_def takeWhile_append)
qed

lemma append_line_report:
  assumes "report n s st" and "NUL \<notin> set txt"
  shows "\<exists>st'. append_line txt st = Some st' \<and> report n (take (n - 1) (s @ txt)) st' \<and> length (snd (snd st')) = length (snd (snd st))"
proof -
  obtain off room buf where st: "st = (off, room, buf)" by (cases st)
  have r: "shown n s buf" "off \<le> length s" "unat room = n - off" "n < 2 ^ 64" using assms(1) by (simp_all add: st report_def)
  have len: "length s < n" "n \<le> length buf" "NUL \<notin> set s" using r(1) by (simp_all add: shown_def)
  have "take (length s) buf = s" using shown_split [OF r(1)] by (metis append_eq_conv_conj)
  moreover have room: "unat (room - word_of_nat (length s - off)) = n - length s"
  proof -
    have w: "unat (word_of_nat (length s - off) :: size_t) = length s - off" using len r(4) by (intro unat_of_nat_64) simp
    then have "word_of_nat (length s - off) \<le> room" using len r(2,3) by (simp add: word_le_nat_alt)
    from unat_minus_small [OF this] show ?thesis using w r(2,3) len by simp
  qed
  ultimately obtain buf' where w: "snprintf_at (length s) (room - word_of_nat (length s - off)) txt buf = Some buf'"
      "shown n (take (n - 1) (s @ txt)) buf'" "length buf' = length buf"
    using write_at_end [OF len(1,2) _ len(3) assms(2)] by blast
  have "length s \<le> length (take (n - 1) (s @ txt))" using len by simp
  then show ?thesis using w r(2,4) room by (simp add: st append_line_def report_strlen [OF assms(1) [unfolded st]] report_def)
qed

lemma report_start: "shown n s buf \<Longrightarrow> n < 2 ^ 64 \<Longrightarrow> report n s (0, word_of_nat n, buf)"
  by (simp add: report_def unat_of_nat_64)

text \<open>The formats of the library print no end of a string; neither do names.\<close>

definition printable :: "stats_env \<Rightarrow> bool" where
  "printable F \<longleftrightarrow> (\<forall>d x. NUL \<notin> set (fixed F d x))"

lemma NUL_no_digit: "NUL \<notin> set (unsigned_decimal n)"
  using decimal_digits [of n] by auto

lemma NUL_signed: "NUL \<notin> set (signed_decimal i)"
  by (simp add: signed_decimal_def NUL_no_digit)

lemma NUL_names: "i < length channel_names \<Longrightarrow> NUL \<notin> set (channel_names ! i)"
  by (auto simp: channel_names_def less_Suc_eq numeral_eq_Suc)

lemmas printed = NUL_no_digit NUL_signed TAB_def NL_def

lemma channel_line_printed: "printable F \<Longrightarrow> i \<le> CHANNEL_COUNT \<Longrightarrow> NUL \<notin> set (channel_line F i d)"
  by (simp add: channel_line_def printed printable_def NUL_names channel_names_def [THEN arg_cong [where f = length]] CHANNEL_COUNT_def)

lemma track_line_printed: "printable F \<Longrightarrow> NUL \<notin> set (track_line F t d)"
  by (simp add: track_line_def printed printable_def)

lemma summary_printed: "printable F \<Longrightarrow> NUL \<notin> set (client_summary F counts p)"
  by (simp add: client_summary_def printed printable_def throttle_percent_def)

lemma peers_line_printed: "NUL \<notin> set (peers_line F)"
  by (simp add: peers_line_def printed)

lemma body_printed: "printable F \<Longrightarrow> NUL \<notin> set (client_body F h n p)"
  by (simp add: client_body_def Let_def printed printable_def throttle_percent_def)

text \<open>What the channels and the tracks report.\<close>

definition channel_report :: "stats_env \<Rightarrow> rat \<Rightarrow> (nat \<Rightarrow> bitrate_data) \<Rightarrow> (nat \<Rightarrow> bitrate_snapshot) \<Rightarrow> nat list \<Rightarrow> string" where
  "channel_report F time rates snaps is =
     concat (map (\<lambda>i. channel_line F i (fst (the (bitrate_deltas (rates i) time (snaps i))))) is)"

lemma channels_reported:
  "\<lbrakk>report n s st; printable F; distinct is; \<forall>i \<in> set is. i \<le> CHANNEL_COUNT \<and> bitrate_deltas (rates i) time (snaps i) \<noteq> None\<rbrakk> \<Longrightarrow>
   \<exists>snaps' st'. fold_opt (channel_step F time rates) is (snaps, st) = Some (snaps', st') \<and>
     report n (take (n - 1) (s @ channel_report F time rates snaps is)) st' \<and> length (snd (snd st')) = length (snd (snd st))"
proof (induction "is" arbitrary: s st snaps)
  case Nil
  then show ?case by (auto simp: channel_report_def report_def shown_def)
next
  case (Cons i "is")
  from Cons.prems(4) obtain d snap where d: "bitrate_deltas (rates i) time (snaps i) = Some (d, snap)" by fastforce
  obtain st1 where 1: "append_line (channel_line F i d) st = Some st1" "report n (take (n - 1) (s @ channel_line F i d)) st1"
    "length (snd (snd st1)) = length (snd (snd st))"
    using append_line_report [OF Cons.prems(1) channel_line_printed [OF Cons.prems(2), of i]] Cons.prems(4) by fastforce
  let ?snaps = "snaps(i := snap)"
  have dis: "distinct is" using Cons.prems(3) by simp
  have side: "\<forall>j \<in> set is. j \<le> CHANNEL_COUNT \<and> bitrate_deltas (rates j) time (?snaps j) \<noteq> None"
    using Cons.prems(3,4) by auto
  have same: "channel_report F time rates ?snaps is = channel_report F time rates snaps is"
    using Cons.prems(3) by (auto simp: channel_report_def intro!: arg_cong [where f = concat] map_cong)
  obtain snaps' st' where "fold_opt (channel_step F time rates) is (?snaps, st1) = Some (snaps', st')"
    "report n (take (n - 1) (take (n - 1) (s @ channel_line F i d) @ channel_report F time rates ?snaps is)) st'"
    "length (snd (snd st')) = length (snd (snd st1))"
    using Cons.IH [OF 1(2) Cons.prems(2) dis side] by blast
  moreover have "channel_report F time rates snaps (i # is) = channel_line F i d @ channel_report F time rates ?snaps is"
    unfolding same by (simp add: channel_report_def d)
  moreover have "channel_step F time rates i (snaps, st) = Some (?snaps, st1)" by (simp add: channel_step_def d 1(1))
  ultimately show ?case using 1(3) by (auto simp: take_take_append simp del: take_append)
qed

definition track_report :: "stats_env \<Rightarrow> rat \<Rightarrow> ('d media_track \<times> bitrate_snapshot) list \<Rightarrow> string" where
  "track_report F time ts = concat (map (\<lambda>(t, snap). track_line F t (fst (the (bitrate_deltas (bitrates t) time snap)))) ts)"

lemma tracks_reported:
  "\<lbrakk>report n s st; printable F; \<forall>(t, snap) \<in> set ts. bitrate_deltas (bitrates t) time snap \<noteq> None\<rbrakk> \<Longrightarrow>
   \<exists>ts' st'. allo_media_get_stats F time ts st = Some (ts', st') \<and> map fst ts' = map fst ts \<and>
     report n (take (n - 1) (s @ track_report F time ts)) st' \<and> length (snd (snd st')) = length (snd (snd st))"
proof (induction ts arbitrary: s st)
  case Nil
  then show ?case by (auto simp: track_report_def report_def shown_def)
next
  case (Cons tsnap ts)
  obtain t snap where t: "tsnap = (t, snap)" by force
  have side: "\<forall>(t, snap) \<in> set ts. bitrate_deltas (bitrates t) time snap \<noteq> None" using Cons.prems(3) by simp
  from Cons.prems(3) obtain d snap' where d: "bitrate_deltas (bitrates t) time snap = Some (d, snap')" by (auto simp: t)
  obtain st1 where 1: "append_line (track_line F t d) st = Some st1" "report n (take (n - 1) (s @ track_line F t d)) st1"
    "length (snd (snd st1)) = length (snd (snd st))"
    using append_line_report [OF Cons.prems(1) track_line_printed [OF Cons.prems(2)]] by blast
  obtain ts' st' where "allo_media_get_stats F time ts st1 = Some (ts', st')" "map fst ts' = map fst ts"
    "report n (take (n - 1) (take (n - 1) (s @ track_line F t d) @ track_report F time ts)) st'"
    "length (snd (snd st')) = length (snd (snd st1))"
    using Cons.IH [OF 1(2) Cons.prems(2) side] by blast
  then show ?case using 1 by (simp add: t d take_take_append track_report_def del: take_append)
qed

section \<open>Pieces at counted lengths\<close>

fun write_pieces :: "size_t \<Rightarrow> string list \<Rightarrow> nat \<Rightarrow> string \<Rightarrow> string option" where
  "write_pieces room [] off buf = Some buf"
| "write_pieces room (piece # pieces) off buf =
     Option.bind (snprintf_at off (room - word_of_nat off) piece buf) (write_pieces room pieces (off + length piece))"

definition client_pieces :: "'j cjson \<Rightarrow> stats_env \<Rightarrow> 'j entity list \<Rightarrow> 'j agent \<Rightarrow> string list" where
  "client_pieces C F es a = [client_header C a, client_body F True (the (entity_count es (agent_id a))) (figures F (agent_at a))]"

lemma clients_pieces:
  "\<forall>a \<in> set as. entity_count es (agent_id a) \<noteq> None \<Longrightarrow>
   clients_stats C F es room as off buf = write_pieces room (concat (map (client_pieces C F es) as)) off buf"
proof (induction as arbitrary: off buf)
  case (Cons a as)
  then obtain n where n: "entity_count es (agent_id a) = Some n" by auto
  show ?case using Cons
    by (cases "snprintf_at off (room - word_of_nat off) (client_header C a) buf")
      (auto simp: client_pieces_def n alloserv_get_client_stats_def Let_def diff_diff_add add.assoc map_option_case split: bind_split option.split)
qed simp

text \<open>As long as every piece but the last ends within the buffer, it shows the whole, cut.\<close>

lemma pieces_shown:
  "\<lbrakk>take (min (length r) (n - 1)) buf = take (n - 1) r; shown n (take (n - 1) r) buf; NUL \<notin> set r; \<forall>piece \<in> set pieces. NUL \<notin> set piece;
    n < 2 ^ 64; pieces \<noteq> [] \<longrightarrow> length (r @ concat (butlast pieces)) \<le> n\<rbrakk> \<Longrightarrow>
   \<exists>buf'. write_pieces (word_of_nat n) pieces (length r) buf = Some buf' \<and> shown n (take (n - 1) (r @ concat pieces)) buf' \<and>
     length buf' = length buf"
proof (induction pieces arbitrary: r buf)
  case (Cons piece pieces)
  have le: "length r \<le> n" using Cons.prems(6) by simp
  obtain buf1 where 1: "snprintf_at (length r) (word_of_nat n - word_of_nat (length r)) piece buf = Some buf1"
    "shown n (take (n - 1) (r @ piece)) buf1" "length buf1 = length buf"
  proof (cases "length r = n")
    case True
    have "snprintf_at (length r) (word_of_nat n - word_of_nat (length r)) piece buf = Some buf" by (simp add: snprintf_at_def True)
    moreover have "take (n - 1) (r @ piece) = take (n - 1) r" using True by simp
    ultimately show ?thesis using that [of buf] Cons.prems(2) by (simp del: take_append)
  next
    case False
    then have lt: "length r < n" using le by simp
    then have r: "take (n - 1) r = r" by simp
    have room: "unat (word_of_nat n - word_of_nat (length r) :: size_t) = n - length r"
      using lt Cons.prems(5) by (subst unat_minus_small) (simp_all add: word_le_nat_alt unat_of_nat_64)
    have "n \<le> length buf" using Cons.prems(2) by (simp add: shown_def)
    moreover have "take (length r) buf = r" using Cons.prems(1) lt r by (simp add: min_def split: if_splits)
    ultimately show ?thesis
      using write_at_end [OF lt _ _ Cons.prems(3) _ room] Cons.prems(4) that by auto
  qed
  have t: "take (min (length (r @ piece)) (n - 1)) buf1 = take (n - 1) (r @ piece)"
    using shown_split [OF 1(2)] by (metis append_eq_conv_conj length_take)
  have "pieces \<noteq> [] \<longrightarrow> length ((r @ piece) @ concat (butlast pieces)) \<le> n" using Cons.prems(6) by auto
  from Cons.IH [OF t 1(2) _ _ Cons.prems(5) this] Cons.prems(3,4) 1 show ?case by auto
qed auto

text \<open>And a piece that would begin behind the buffer is written there.\<close>

lemma pieces_beyond:
  "\<lbrakk>length buf = n; n < 2 ^ 64; n < length (r @ concat (butlast pieces)); pieces \<noteq> []; length (r @ concat pieces) < 2 ^ 64\<rbrakk> \<Longrightarrow>
   write_pieces (word_of_nat n) pieces (length r) buf = None"
proof (induction pieces arbitrary: r buf)
  case (Cons piece pieces)
  show ?case
  proof (cases "n < length r")
    case True
    have "word_of_nat n - word_of_nat (length r) \<noteq> (0 :: size_t)"
    proof
      assume "word_of_nat n - word_of_nat (length r) = (0 :: size_t)"
      then have "unat (word_of_nat n :: size_t) = unat (word_of_nat (length r) :: size_t)" by simp
      then show False using True Cons.prems(2,5) by (simp add: unat_of_nat_64)
    qed
    then show ?thesis using True Cons.prems(1) by (simp add: snprintf_at_def)
  next
    case False
    then have ne: "pieces \<noteq> []" using Cons.prems(3) by auto
    show ?thesis
    proof (cases "snprintf_at (length r) (word_of_nat n - word_of_nat (length r)) piece buf")
      case (Some buf1)
      then have "length buf1 = n" using Cons.prems(1) by (auto simp: snprintf_at_def Let_def split: if_splits)
      from Cons.IH [OF this Cons.prems(2), of "r @ piece"] Cons.prems(3,5) ne Some show ?thesis by simp
    qed simp
  qed
qed simp

section \<open>The reports\<close>

lemma first_write:
  assumes "0 < n" and "n \<le> length buf" and "n < 2 ^ 64" and "NUL \<notin> set piece"
  shows "\<exists>buf'. snprintf_at 0 (word_of_nat n) piece buf = Some buf' \<and> shown n (take (n - 1) piece) buf' \<and> length buf' = length buf"
  using write_at_end [of "[]" n buf piece "word_of_nat n"] assms by (simp add: unat_of_nat_64)

lemma channel_lines_shown:
  assumes "shown n s buf" and "n < 2 ^ 64" and "printable F" and "\<forall>i \<le> CHANNEL_COUNT. bitrate_deltas (rates i) time (snaps i) \<noteq> None"
  shows "\<exists>snaps' st'. channel_lines F time rates (snaps, 0, word_of_nat n, buf) = Some (snaps', st') \<and>
    report n (take (n - 1) (s @ channel_report F time rates snaps [0 ..< CHANNEL_COUNT + 1])) st' \<and> length (snd (snd st')) = length buf"
  using channels_reported [OF report_start [OF assms(1,2)] assms(3), of "[0 ..< CHANNEL_COUNT + 1]" rates time snaps] assms(4)
  by (auto simp: channel_lines_def)

text \<open>The pieces of the report of the server before its channels.\<close>

definition server_pieces :: "'j cjson \<Rightarrow> stats_env \<Rightarrow> 'j entity list \<Rightarrow> 'j agent list \<Rightarrow> string list" where
  "server_pieces C F es as = peers_line F # concat (map (client_pieces C F es) as)"

text \<open>
  C39. The report of the server fits its buffer, cut behind its last character, exactly when every piece before
  the channels but the last ends within it: with more or longer clients it is written behind the buffer.
\<close>

theorem server_report_fits_or_overflows:
  assumes F: "printable F" and n: "0 < length buf" "length buf < 2 ^ 64"
    and owners: "\<forall>a \<in> set as. entity_count es (agent_id a) \<noteq> None" and names: "\<forall>a \<in> set as. NUL \<notin> set (client_header C a)"
    and defined: "\<forall>i \<le> CHANNEL_COUNT. bitrate_deltas (rates i) time (snaps i) \<noteq> None"
    and total: "length (concat (server_pieces C F es as)) < 2 ^ 64"
  shows "if length (concat (butlast (server_pieces C F es as))) \<le> length buf
    then \<exists>snaps' buf'. alloserv_get_stats C F time es as rates snaps (word_of_nat (length buf)) buf = Some (snaps', buf') \<and>
      length buf' = length buf \<and>
      cstring buf' = take (length buf - 1) (concat (server_pieces C F es as) @ channel_report F time rates snaps [0 ..< CHANNEL_COUNT + 1])
    else alloserv_get_stats C F time es as rates snaps (word_of_nat (length buf)) buf = None"
proof -
  let ?n = "length buf" and ?ps = "concat (map (client_pieces C F es) as)" and ?r = "peers_line F"
  obtain buf1 where 1: "snprintf_at 0 (word_of_nat ?n) ?r buf = Some buf1" "shown ?n (take (?n - 1) ?r) buf1" "length buf1 = ?n"
    using first_write [OF n(1) order_refl n(2) peers_line_printed] by blast
  have start: "take (min (length ?r) (?n - 1)) buf1 = take (?n - 1) ?r"
    using shown_split [OF 1(2)] by (metis append_eq_conv_conj length_take)
  have pieces: "\<forall>piece \<in> set ?ps. NUL \<notin> set piece" using names body_printed [OF F] by (auto simp: client_pieces_def)
  have last_piece: "butlast (?r # ?ps) = (if ?ps = [] then [] else ?r # butlast ?ps)" by (rule butlast.simps)
  have head: "concat (butlast (server_pieces C F es as)) = ?r @ concat (butlast ?ps)" if "?ps \<noteq> []"
    unfolding server_pieces_def last_piece if_not_P [OF that] by (rule concat.simps(2))
  show ?thesis
  proof (cases "length (concat (butlast (server_pieces C F es as))) \<le> ?n")
    case True
    then have "?ps \<noteq> [] \<longrightarrow> length (?r @ concat (butlast ?ps)) \<le> ?n" using head by fastforce
    from pieces_shown [OF start 1(2) peers_line_printed pieces n(2) this]
    obtain buf2 where 2: "clients_stats C F es (word_of_nat ?n) as (length ?r) buf1 = Some buf2"
      "shown ?n (take (?n - 1) (concat (server_pieces C F es as))) buf2" "length buf2 = ?n"
      using 1(3) by (auto simp: clients_pieces [OF owners] server_pieces_def)
    from channel_lines_shown [OF 2(2) n(2) F defined]
    obtain snaps' off rest buf3 where 3: "channel_lines F time rates (snaps, 0, word_of_nat ?n, buf2) = Some (snaps', off, rest, buf3)"
      "shown ?n (take (?n - 1) (take (?n - 1) (concat (server_pieces C F es as)) @ channel_report F time rates snaps [0 ..< CHANNEL_COUNT + 1])) buf3"
      "length buf3 = ?n"
      using 2(3) by (auto simp: report_def)
    then show ?thesis using True 1 2 shown_cstring [OF 3(2)]
      by (simp add: alloserv_get_stats_def take_take_append del: take_append)
  next
    case False
    have ne: "?ps \<noteq> []"
    proof
      assume e: "?ps = []"
      show False using False unfolding server_pieces_def last_piece if_P [OF e] by simp
    qed
    then have long: "?n < length (?r @ concat (butlast ?ps))" using False head by simp
    have "write_pieces (word_of_nat ?n) ?ps (length ?r) buf1 = None"
      by (rule pieces_beyond [OF 1(3) n(2) long ne]) (use total in \<open>simp add: server_pieces_def\<close>)
    then show ?thesis using False 1 by (simp add: alloserv_get_stats_def clients_pieces [OF owners])
  qed
qed

text \<open>The report of a client always fits, and is cut to its buffer.\<close>

lemma client_report:
  assumes F: "printable F" and n: "0 < n" "n \<le> length buf" "n < 2 ^ 64" and p: "connection cl = Some p"
    and channels: "\<forall>i \<le> CHANNEL_COUNT. bitrate_deltas (client_rates cl i) (time1 + clock_deltaToServer cl) (snaps i) \<noteq> None"
    and tracks: "\<forall>(t, snap) \<in> set ts. bitrate_deltas (bitrates t) time2 snap \<noteq> None"
  shows "\<exists>snaps' ts' buf'. client_get_stats F counts time1 time2 snaps ts cl (word_of_nat n) buf = Some (snaps', ts', buf') \<and>
    shown n (take (n - 1) (client_summary F counts (figures F p) @
      channel_report F (time1 + clock_deltaToServer cl) (client_rates cl) snaps [0 ..< CHANNEL_COUNT + 1] @ track_report F time2 ts)) buf'"
proof -
  let ?c = "channel_report F (time1 + clock_deltaToServer cl) (client_rates cl) snaps [0 ..< CHANNEL_COUNT + 1]"
  obtain buf1 where 1: "snprintf_at 0 (word_of_nat n) (client_summary F counts (figures F p)) buf = Some buf1"
    "shown n (take (n - 1) (client_summary F counts (figures F p))) buf1"
    using first_write [OF n summary_printed [OF F]] by blast
  obtain snaps' off rest buf2 where 2: "channel_lines F (time1 + clock_deltaToServer cl) (client_rates cl) (snaps, 0, word_of_nat n, buf1) = Some (snaps', off, rest, buf2)"
    and r0: "report n (take (n - 1) (client_summary F counts (figures F p) @ ?c)) (off, rest, buf2)"
    using channel_lines_shown [OF 1(2) n(3) F channels] by (auto simp: take_take_append simp del: take_append)
  obtain s where s: "s = take (n - 1) (client_summary F counts (figures F p) @ ?c)" by simp
  have r: "report n s (off, rest, buf2)" using r0 by (simp only: s)
  have len: "strlen_at off buf2 = Some (length s - off)" by (rule report_strlen [OF r])
  have off: "off \<le> length s" "length s < n" "unat rest = n - off" "shown n s buf2" using r by (auto simp: report_def shown_def)
  have w: "unat (word_of_nat (length s - off) :: size_t) = length s - off" using off n(3) by (intro unat_of_nat_64) simp
  have "unat (rest - word_of_nat (length s - off)) = n - length s"
    using unat_minus_small [of "word_of_nat (length s - off)" rest] off w by (simp add: word_le_nat_alt)
  then have r': "report n s (off + (length s - off), rest - word_of_nat (length s - off), buf2)"
    using off n(3) by (simp add: report_def)
  from tracks_reported [OF r' F tracks] obtain ts' off' rest' buf3
    where 3: "allo_media_get_stats F time2 ts (off + (length s - off), rest - word_of_nat (length s - off), buf2) = Some (ts', off', rest', buf3)"
      "report n (take (n - 1) (s @ track_report F time2 ts)) (off', rest', buf3)" by auto
  have "shown n (take (n - 1) (s @ track_report F time2 ts)) buf3" using 3(2) by (simp add: report_def)
  then have "shown n (take (n - 1) (client_summary F counts (figures F p) @ ?c @ track_report F time2 ts)) buf3"
    by (simp only: s take_take_append append_assoc)
  then show ?thesis using 1(1) 2 len 3(1) by (auto simp: client_get_stats_def p simp del: take_append)
qed

text \<open>
  The report of the threaded client: the lengths of its queues, and in front of them nothing is lost but what
  goes beyond the buffers of the two.
\<close>

definition queues_report :: "('j, 's, 'u) proxy_state \<Rightarrow> string" where
  "queues_report st = ''p2b '' @ signed_decimal (sint (proxy_to_bridge_len st)) @ NL @ ''b2p '' @ signed_decimal (sint (bridge_to_proxy_len st)) @ NL"

theorem threaded_report_cut:
  assumes F: "printable F" and n: "0 < n" "n \<le> length buf" "n < 2 ^ 64" and extra: "length extra = 1024"
    and p: "connection (bridgeclient st) = Some p"
    and channels: "\<forall>i \<le> CHANNEL_COUNT. bitrate_deltas (client_rates (bridgeclient st) i) (time1 + clock_deltaToServer (bridgeclient st)) (snaps i) \<noteq> None"
    and tracks: "\<forall>(t, snap) \<in> set ts. bitrate_deltas (bitrates t) time2 snap \<noteq> None"
  shows "\<exists>snaps' ts' buf'. proxy_get_stats F counts time1 time2 snaps ts st extra (word_of_nat n) buf = Some (snaps', ts', buf') \<and>
    cstring buf' = take (n - 1) (queues_report st @ take 1023 (client_summary F counts (figures F p) @
      channel_report F (time1 + clock_deltaToServer (bridgeclient st)) (client_rates (bridgeclient st)) snaps [0 ..< CHANNEL_COUNT + 1] @
      track_report F time2 ts))"
proof -
  have "(0 :: nat) < 1024" "1024 \<le> length extra" "1024 < (2 :: nat) ^ 64" by (simp_all add: extra)
  note r = client_report [OF F this p channels tracks, of counts]
  obtain full where full: "full = client_summary F counts (figures F p) @
      channel_report F (time1 + clock_deltaToServer (bridgeclient st)) (client_rates (bridgeclient st)) snaps [0 ..< CHANNEL_COUNT + 1] @
      track_report F time2 ts" by simp
  define s where "s = take 1023 full"
  obtain snaps' ts' extra' where
    c: "client_get_stats F counts time1 time2 snaps ts (bridgeclient st) 1024 extra = Some (snaps', ts', extra')" "shown 1024 s extra'"
    using r unfolding full [symmetric] by (auto simp: s_def)
  have "report 1024 s (0, word_of_nat 1024, extra')" by (rule report_start [OF c(2)]) simp
  from report_strlen [OF this] have len: "strlen_at 0 extra' = Some (length s)" by simp
  have t: "take (length s) extra' = s" using shown_split [OF c(2)] by (metis append_eq_conv_conj)
  have "NUL \<notin> set (queues_report st @ s)" using c(2) by (simp add: queues_report_def printed shown_def)
  from first_write [OF n this] obtain buf'
    where "snprintf_at 0 (word_of_nat n) (queues_report st @ s) buf = Some buf'" "shown n (take (n - 1) (queues_report st @ s)) buf'" by blast
  then show ?thesis using c(1) len t shown_cstring [of n _ buf']
    unfolding full [symmetric] by (simp add: proxy_get_stats_def queues_report_def s_def del: take_append)
qed

section \<open>Samples\<close>

definition sample_stats :: stats_env where
  "sample_stats = \<lparr>fixed = (\<lambda>d x. ''0''), throttle_scale = 32,
     figures = (\<lambda>p. \<lparr>packets_lost = 0, round_trip_time = 5, packet_throttle = 32\<rparr>), connected_peers = 1, limited_peers = 0\<rparr>"

definition sample_row :: "json agent" where
  "sample_row = \<lparr>agent_at = 1, agent_id = ''a'', avatar_entity_id = Some ''b'', identity = None, agent_intent = allo_client_intent_create\<rparr>"

definition no_bytes :: bitrate_data where
  "no_bytes = \<lparr>sent_bytes = 0, sent_packet_count = 0, received_bytes = 0, received_packet_count = 0\<rparr>"

definition old_snapshot :: bitrate_snapshot where
  "old_snapshot = \<lparr>snapshot = no_bytes, snapshot_time = 0\<rparr>"

lemma sample_printable: "printable sample_stats"
  by (simp add: printable_def sample_stats_def)

lemma sample_deltas: "bitrate_deltas no_bytes 1 old_snapshot \<noteq> None"
  by (rule deltas_defined) (simp_all add: old_snapshot_def)

theorem rate_counts_sent_bytes_witness:
  "\<exists>d snap'. bitrate_deltas (fold (\<lambda>n br. bitrate_increment_sent br n) [100, 20] (snapshot old_snapshot)) 2 old_snapshot = Some (d, snap') \<and>
     delta_sent_bytes d * (2 - snapshot_time old_snapshot) = of_nat (sum_list (map unat [100 :: size_t, 20]))"
proof -
  have "bitrate_deltas (fold (\<lambda>n br. bitrate_increment_sent br n) [100, 20] (snapshot old_snapshot)) 2 old_snapshot \<noteq> None"
    by (rule deltas_defined) (simp_all add: old_snapshot_def no_bytes_def bitrate_increment_sent_def)
  then obtain d snap' where d: "bitrate_deltas (fold (\<lambda>n br. bitrate_increment_sent br n) [100, 20] (snapshot old_snapshot)) 2 old_snapshot = Some (d, snap')"
    by auto
  from rate_counts_sent_bytes [OF d] d show ?thesis by simp
qed

theorem renewed_snapshot_undefined_witness:
  "\<exists>d snap'. bitrate_deltas no_bytes 6 old_snapshot = Some (d, snap') \<and> bitrate_deltas no_bytes 6 snap' = None"
proof -
  have "bitrate_deltas no_bytes 6 old_snapshot \<noteq> None" by (rule deltas_defined) (simp_all add: old_snapshot_def)
  then obtain d snap' where d: "bitrate_deltas no_bytes 6 old_snapshot = Some (d, snap')" by auto
  from renewed_snapshot_undefined [OF d] d show ?thesis by (simp add: old_snapshot_def)
qed

text \<open>One client and a buffer of 16 characters: the body of the client is written behind it.\<close>

lemma sample_pieces:
  "server_pieces json_ops sample_stats [] [sample_row] =
   [TAB @ ''Peers'' @ TAB @ ''1 (limited 0)'' @ NL, ''(null) (ava b/agent a)'' @ NL,
    TAB @ ''Entities'' @ TAB @ ''0'' @ NL @ TAB @ ''Packets lost'' @ TAB @ ''0'' @ NL @ TAB @ ''RTT'' @ TAB @ ''5ms'' @ TAB @ NL @
    TAB @ ''Packet throttle'' @ TAB @ ''0%'' @ NL]"
  by (simp add: server_pieces_def peers_line_def client_pieces_def client_header_def alloserv_describe_client_def text_or_null_def
      string_value_def client_body_def entity_count_def throttle_percent_def signed_decimal_def sample_stats_def sample_row_def
      Asset_Store.decimal.simps Asset_Store.digit_def)

theorem server_report_fits_or_overflows_witness:
  "alloserv_get_stats json_ops sample_stats 1 [] [sample_row] (\<lambda>i. no_bytes) (\<lambda>i. old_snapshot)
     (word_of_nat (length (replicate 16 NUL))) (replicate 16 NUL) = None"
proof -
  have "NUL \<notin> set (client_header json_ops sample_row)"
    by (simp add: client_header_def alloserv_describe_client_def text_or_null_def string_value_def sample_row_def NL_def)
  then show ?thesis
    using server_report_fits_or_overflows [OF sample_printable, of "replicate 16 NUL" "[sample_row]" "[]" json_ops "\<lambda>i. no_bytes" 1 "\<lambda>i. old_snapshot"]
    by (simp add: sample_deltas sample_pieces entity_count_def TAB_def NL_def)
qed

definition sample_threads :: "(json, unit, unit) proxy_state" where
  "sample_threads = clientproxy_create ((alloclient_create ())\<lparr>connection := Some 1\<rparr>) (alloclient_create ()) ()"

theorem threaded_report_cut_witness:
  "\<exists>snaps' ts' buf'. proxy_get_stats sample_stats (0, 0) 1 1 (\<lambda>i. old_snapshot) ([] :: (unit media_track \<times> bitrate_snapshot) list) sample_threads
     (replicate 1024 NUL) (word_of_nat 40) (replicate 40 NUL) = Some (snaps', ts', buf') \<and>
    cstring buf' = take (40 - 1) (queues_report sample_threads @ take 1023 (client_summary sample_stats (0, 0) (figures sample_stats 1) @
      channel_report sample_stats (1 + clock_deltaToServer (bridgeclient sample_threads)) (client_rates (bridgeclient sample_threads))
        (\<lambda>i. old_snapshot) [0 ..< CHANNEL_COUNT + 1] @
      track_report sample_stats 1 ([] :: (unit media_track \<times> bitrate_snapshot) list)))"
  by (rule threaded_report_cut [OF sample_printable])
    (simp_all add: sample_threads_def clientproxy_create_def alloclient_create_def sample_deltas [unfolded no_bytes_def])

end
