(* ===== verification/Local_Simulation.thy ===== *)
theory Local_Simulation
  imports Client_Correct Simulation_Correct
begin

text \<open>
  \<open>alloclient_simulate\<close> of \<^verbatim>\<open>src/client/client.c\<close>: between two states of the server a client moves its own copy
  of the scene by its own intent. The prediction keeps the entities and is replaced by the next state.
\<close>

text \<open>\<open>monod\<close> is the clock in seconds.\<close>

definition alloclient_simulate ::
  "simlib \<Rightarrow> nat \<Rightarrow> ('j, 's) client_env \<Rightarrow> ('j, 's) alloclient \<Rightarrow> ('j, 's) alloclient option" where
  "alloclient_simulate L depth E cl =
     (let intents = [latest_intent cl]; now = alloclient_get_time (ts_monod E) cl
      in case allo_simulate L (ce_json E) depth intents now (place cl, Some allo_state_diff_init) of
           None \<Rightarrow> None
         | Some (st, diff) \<Rightarrow>
             Some (call_if (wants_state (ce_callbacks E))
               (State_changed st (case diff of None \<Rightarrow> allo_state_diff_init | Some d \<Rightarrow> d)) (cl\<lparr>place := st\<rparr>)))"

section \<open>A tick keeps the entities\<close>

lemma pose_entities_same:
  "pose_entities C owner others intent es sd = Some sd' \<Longrightarrow> same_entities (fst sd) (fst sd')"
proof (induction es arbitrary: intent sd)
  case (Cons e es)
  obtain intent' m where p: "pose_entity C owner others intent e = Some (intent', m)"
    using Cons.prems by (auto split: option.splits)
  show ?case
  proof (cases m)
    case None
    then show ?thesis using Cons.prems by (intro Cons.IH [of intent']) (simp add: p)
  next
    case (Some n)
    then have "same_entities (fst (move_entity C e n sd)) (fst sd')"
      using Cons.prems by (intro Cons.IH [of intent']) (simp add: p)
    then show ?thesis by (rule same_entities_trans [OF same_move])
  qed
qed simp

lemma pose_movements_same: "allosim_pose_movements C av i others sd = Some sd' \<Longrightarrow> same_entities (fst sd) (fst sd')"
  unfolding allosim_pose_movements_def by (rule pose_entities_same)

lemma stick_same: "allosim_stick_movement L C av head intent dt b sd = Some (m, sd') \<Longrightarrow> same_entities (fst sd) (fst sd')"
  by (auto simp: allosim_stick_movement_def Let_def split: option.splits if_splits)

lemma grab_same: "handle_grab L C depth held g sd = Some sd' \<Longrightarrow> same_entities (fst sd) (fst sd')"
  by (auto simp: handle_grab_def Let_def split: option.splits)

lemma grabs_same: "allosim_handle_grabs L C depth av i sd = Some sd' \<Longrightarrow> same_entities (fst sd) (fst sd')"
  by (auto simp: allosim_handle_grabs_def split: option.splits dest!: grab_same intro: same_entities_trans)

lemma simulate_intents_same:
  "simulate_intents L C depth others dt intents sd = Some (b, sd') \<Longrightarrow> same_entities (fst sd) (fst sd')"
proof (induction intents arbitrary: sd)
  case (Cons i ins)
  show ?case
  proof (cases "state_get_entity (fst sd) (intent_entity_id i)")
    case None
    then show ?thesis using Cons.prems by simp
  next
    case (Some av)
    with Cons.prems obtain head m sd1 sd2 sd3 where
        stick: "allosim_stick_movement L C (Some av) head i dt True sd = Some (m, sd1)"
      and pose: "allosim_pose_movements C av i others sd1 = Some sd2"
      and grabs: "allosim_handle_grabs L C depth av i sd2 = Some sd3"
      and rest: "simulate_intents L C depth others dt ins sd3 = Some (b, sd')"
      by (auto split: option.splits)
    from stick_same [OF stick] pose_movements_same [OF pose] grabs_same [OF grabs] Cons.IH [OF rest]
    show ?thesis by (blast intro: same_entities_trans)
  qed
qed simp

lemma animate_entity_identity: "animate_entity L C t (e, diff) = Some (e', diff') \<Longrightarrow> identity_of e' = identity_of e"
  by (auto simp: animate_entity_def identity_of_def Let_def split: option.splits)

lemma animate_entities_identity:
  "animate_entities L C t es diff = Some (es', diff') \<Longrightarrow> map identity_of es' = map identity_of es"
  by (induction es arbitrary: diff es') (auto split: option.splits dest: animate_entity_identity)

lemma iteration_same: "allo_simulate_iteration L C depth intents t dt sd = Some sd' \<Longrightarrow> same_entities (fst sd) (fst sd')"
proof -
  assume s: "allo_simulate_iteration L C depth intents t dt sd = Some sd'"
  then obtain b sd1 where 1: "simulate_intents L C depth intents dt intents sd = Some (b, sd1)"
    by (auto simp: allo_simulate_iteration_def split: option.splits)
  have "same_entities (fst sd1) (fst sd')"
    using s 1 by (cases b) (auto simp: allo_simulate_iteration_def allosim_animate_def same_entities_def dest!: animate_entities_identity)
  then show ?thesis using simulate_intents_same [OF 1] same_entities_trans by blast
qed

lemma tick_clock_same: "tick_clock C t sd = Some (old, sd') \<Longrightarrow> same_entities (fst sd) (fst sd')"
  by (auto simp: tick_clock_def same_entities_def identity_of_def comp_def if_distrib [of "\<lambda>f. f _"] split: option.splits cong: if_cong)

lemma simulate_same: "allo_simulate L C depth intents t sd = Some sd' \<Longrightarrow> same_entities (fst sd) (fst sd')"
  by (auto simp: allo_simulate_def split: option.splits dest!: tick_clock_same iteration_same intro: same_entities_trans)

lemma copy_ok_same: "same_entities st st' \<Longrightarrow> copy_ok st \<Longrightarrow> copy_ok st' \<and> map eid (entities st') = map eid (entities st)"
proof -
  assume s: "same_entities st st'" and c: "copy_ok st"
  have eids: "map eid es = map (fst \<circ> snd) (map identity_of es)" for es :: "'a entity list"
    by (simp add: identity_of_def comp_def)
  have e: "map eid (entities st') = map eid (entities st)" "map entity_at (entities st') = map entity_at (entities st)"
    unfolding eids addresses_identity using s by (simp_all only: same_entities_def)
  have "entity_at ` set (entities st') = entity_at ` set (entities st)" using e(2) by (metis set_map)
  then have "\<forall>a \<in> entity_at ` set (entities st'). a < fresh_at st" using c by (simp add: copy_ok_def)
  then show ?thesis using c s e by (simp add: copy_ok_def entities_ok_def same_entities_def)
qed

section \<open>The prediction is corrected\<close>

text \<open>
  C26. A client that mirrors a state, predicts any number of ticks and then handles the delta to a new state
  mirrors the new state: nothing of the prediction stays.
\<close>

theorem prediction_is_corrected:
  assumes "cjson_lib C" and "C = ce_json E" and "mirrors C (place cl) (chain_of C (get_cs C known ''entities''))"
    and "fold_opt (\<lambda>E1. alloclient_simulate L depth E1) frames cl = Some cl1"
    and "described_by C (chain_of C (GetObjectItemCS C rep ''entities''))"
    and "delta_between C (fst ` set (chain_of C (get_cs C known ''entities'')))
           (chain_of C (GetObjectItemCS C delta ''entities'')) (fst ` set (chain_of C (GetObjectItemCS C rep ''entities'')))"
    and "GetObjectItemCS C rep ''revision'' = Some rj"
  shows "\<exists>cl2. handle_parsed_statediff E delta (Some rep) (entity_changes C known rep delta allo_state_diff_init) cl1 = Some cl2 \<and>
    mirrors C (place cl2) (chain_of C (GetObjectItemCS C rep ''entities''))"
proof -
  have "fold_opt (\<lambda>E1. alloclient_simulate L depth E1) frames cl = Some cl1 \<Longrightarrow> same_entities (place cl) (place cl1)" for cl
  proof (induction frames arbitrary: cl)
    case (Cons E1 frames)
    then obtain cl' where 1: "alloclient_simulate L depth E1 cl = Some cl'"
      and r: "fold_opt (\<lambda>E1. alloclient_simulate L depth E1) frames cl' = Some cl1" by (auto split: option.splits)
    have "same_entities (place cl) (place cl')"
      using 1 by (auto simp: alloclient_simulate_def call_if_def add_call_def Let_def split: option.splits dest!: simulate_same)
    then show ?case using Cons.IH [OF r] same_entities_trans by blast
  qed simp
  from copy_ok_same [OF this [OF assms(4)]] assms(3)
  have "copy_ok (place cl1)" "set (map eid (entities (place cl1))) = fst ` set (chain_of C (get_cs C known ''entities''))"
    by (auto simp: mirrors_def)
  from handled_delta_mirrors [OF assms(1,2) this assms(5-7)] show ?thesis by blast
qed

text \<open>A client of one entity, which moves nothing; its state is replaced by the new one.\<close>

definition mirroring_client :: "(json, unit) alloclient" where
  "mirroring_client = (alloclient_create ())\<lparr>place := \<lparr>revision = 1, entities = [\<lparr>entity_at = 0, eid = ''a'',
     owner_agent_id = None, components = Some (jobj [(''size'', jnum 1)])\<rparr>], fresh_at = 1\<rparr>\<rparr>"

lemma mirroring_client_predicts: "fold_opt (\<lambda>E1. alloclient_simulate approx_lib 3 E1) [sample_client_env] mirroring_client \<noteq> None"
  by (simp add: alloclient_simulate_def mirroring_client_def alloclient_create_def allo_simulate_def tick_clock_def
      state_get_entity_def allo_simulate_iteration_def allo_client_intent_create_def Let_def split: option.split)

theorem prediction_is_corrected_witness:
  "\<exists>cl1 cl2. fold_opt (\<lambda>E1. alloclient_simulate approx_lib 3 E1) [sample_client_env] mirroring_client = Some cl1 \<and>
    handle_parsed_statediff sample_client_env (state_with [(''a'', entity_desc ''a'' 2)]) (Some (state_with [(''a'', entity_desc ''a'' 2)]))
      (entity_changes json_ops (Some (state_with [(''a'', entity_desc ''a'' 1)])) (state_with [(''a'', entity_desc ''a'' 2)])
        (state_with [(''a'', entity_desc ''a'' 2)]) allo_state_diff_init) cl1 = Some cl2 \<and>
    mirrors json_ops (place cl2) [(''a'', entity_desc ''a'' 2)]"
proof -
  obtain cl1 where c: "fold_opt (\<lambda>E1. alloclient_simulate approx_lib 3 E1) [sample_client_env] mirroring_client = Some cl1"
    using mirroring_client_predicts by blast
  have m: "mirrors json_ops (place mirroring_client) [(''a'', entity_desc ''a'' 1)]"
    by (simp add: mirroring_client_def mirrors_def copy_ok_def entities_ok_def entity_desc_def json_defs)
  have d: "described_by json_ops [(''a'', entity_desc ''a'' 2)]"
    by (simp add: described_by_def entity_desc_def json_defs string_value_def)
  have b: "delta_between json_ops {''a''} [(''a'', entity_desc ''a'' 2)] {''a''}"
    by (simp add: delta_between_def entity_desc_def json_defs)
  show ?thesis
    using prediction_is_corrected [OF json.cjson_lib_axioms sample_env_json [symmetric], of mirroring_client
        "Some (state_with [(''a'', entity_desc ''a'' 1)])" approx_lib 3 "[sample_client_env]" cl1
        "state_with [(''a'', entity_desc ''a'' 2)]" "state_with [(''a'', entity_desc ''a'' 2)]" "jnum 2"] c m d b
    by simp
qed

end
