(* ===== verification/Standalone.thy ===== *)
theory Standalone
  imports Place_Correct
begin

text \<open>
  The life of the program around the server, the end of \<^verbatim>\<open>src/standalone_server.cpp\<close>: starting with retries,
  polling, running until a poll fails, stopping. The globals of the file live as long as the process, so a
  server that is started again begins with those of the one before.
\<close>

text \<open>\<open>serving\<close> tells whether the global pointer to the server is set.\<close>

record ('j, 'g) standalone =
  serving :: bool
  globals :: "('j, 'g) place_server"

text \<open>The outcome of each attempt to listen; the attempt that succeeds, with \<open>retries\<close> left after the first.\<close>

primrec open_socket :: "(nat \<Rightarrow> bool) \<Rightarrow> nat \<Rightarrow> nat \<Rightarrow> nat option" where
  "open_socket listens attempt 0 = (if listens attempt then Some attempt else None)"
| "open_socket listens attempt (Suc retries) =
     (if listens attempt then Some attempt else open_socket listens (Suc attempt) retries)"

definition alloserv_stop_standalone :: "('j, 'g) standalone \<Rightarrow> ('j, 'g) standalone" where
  "alloserv_stop_standalone st = st\<lparr>serving := False, globals := (globals st)\<lparr>agents := []\<rparr>\<rparr>"

definition alloserv_start_standalone ::
  "('j, 'g) place_env \<Rightarrow> bool \<Rightarrow> (nat \<Rightarrow> bool) \<Rightarrow> ('j, 'g) standalone \<Rightarrow> (bool \<times> ('j, 'g) standalone) option" where
  "alloserv_start_standalone E initialized listens st =
     (if \<not> initialized then Some (False, st)
      else if serving st then None
      else case open_socket listens 0 3 of
             None \<Rightarrow> Some (False, alloserv_stop_standalone st)
           | Some _ \<Rightarrow>
               map_option (\<lambda>g. (True, \<lparr>serving = True, globals = g\<rparr>))
                 (add_place E ((globals st)\<lparr>world := allo_state_init, agents := []\<rparr>)))"

text \<open>What a call of \<open>interbeat\<close> may bring; the events that are there are handled before the tick.\<close>

datatype net_event = Net_connected nat | Net_received nat nat "u8 list" rat | Net_lost nat

fun handle_net_event :: "('j, 'g) place_env \<Rightarrow> net_event \<Rightarrow> ('j, 'g) place_server \<Rightarrow> ('j, 'g) place_server option" where
  "handle_net_event E (Net_connected a) s = Some (agent_connected E a s)"
| "handle_net_event E (Net_received a channel data now) s =
     (if a \<in> agent_at ` set (agents s) then received_from_client E a channel data now s else None)"
| "handle_net_event E (Net_lost a) s =
     (case List.find (\<lambda>c. agent_at c = a) (agents s) of None \<Rightarrow> None | Some r \<Rightarrow> agent_lost E r s)"

definition server_step ::
  "('j, 'g) place_env \<Rightarrow> rat \<Rightarrow> net_event list \<Rightarrow> rat \<Rightarrow> ('j, 'g) place_server \<Rightarrow> ('j, 'g) place_server option" where
  "server_step E goalDt evs now s = Option.bind (fold_opt (handle_net_event E) evs s) (tick E goalDt now)"

datatype select_result = Selected | Interrupted | Select_failed

definition alloserv_poll_standalone ::
  "('j, 'g) place_env \<Rightarrow> select_result \<times> net_event list \<times> rat \<Rightarrow> ('j, 'g) standalone \<Rightarrow> (bool \<times> ('j, 'g) standalone) option" where
  "alloserv_poll_standalone E p st =
     (case p of (selectr, evs, now) \<Rightarrow>
        if selectr = Select_failed then Some (False, st)
        else if \<not> serving st then None
        else map_option (\<lambda>g. (True, st\<lparr>globals := g\<rparr>)) (server_step E (1 / 5) evs now (globals st)))"

text \<open>The loop over what the polls bring: none while it is still running, and then what it returns.\<close>

fun run_loop ::
  "('j, 'g) place_env \<Rightarrow> (select_result \<times> net_event list \<times> rat) list \<Rightarrow> ('j, 'g) standalone \<Rightarrow> (bool option \<times> ('j, 'g) standalone) option" where
  "run_loop E [] st = Some (None, st)"
| "run_loop E (p # ps) st =
     (case alloserv_poll_standalone E p st of
        None \<Rightarrow> None
      | Some (False, st') \<Rightarrow> Some (Some False, alloserv_stop_standalone st')
      | Some (True, st') \<Rightarrow> run_loop E ps st')"

definition alloserv_run_standalone ::
  "('j, 'g) place_env \<Rightarrow> bool \<Rightarrow> (nat \<Rightarrow> bool) \<Rightarrow> (select_result \<times> net_event list \<times> rat) list \<Rightarrow> ('j, 'g) standalone \<Rightarrow>
   (bool option \<times> ('j, 'g) standalone) option" where
  "alloserv_run_standalone E initialized listens ps st =
     (case alloserv_start_standalone E initialized listens st of
        None \<Rightarrow> None
      | Some (started, st1) \<Rightarrow>
          (let st2 = st1\<lparr>globals := (globals st1)\<lparr>tracks := []\<rparr>\<rparr>
           in if \<not> started then Some (Some False, st2) else run_loop E ps st2))"

section \<open>Properties\<close>

text \<open>Four attempts are made to open the socket.\<close>

theorem four_attempts_to_listen:
  "open_socket listens 0 3 = None \<longleftrightarrow> \<not> (listens 0 \<or> listens 1 \<or> listens 2 \<or> listens 3)"
  by (simp add: numeral_eq_Suc)

text \<open>The documented result for a server that shuts down is never returned.\<close>

theorem run_never_returns_true:
  "alloserv_run_standalone E initialized listens ps st \<noteq> Some (Some True, st')"
proof -
  have "run_loop E ps st \<noteq> Some (Some True, st')" for st
    by (induction ps arbitrary: st) (auto split: option.splits bool.splits)
  then show ?thesis by (simp add: alloserv_run_standalone_def Let_def split: option.splits prod.splits)
qed

text \<open>
  A server that is started again keeps the texts the one before has cached: when its revision and what a client
  has acknowledged come by those of a cached text, the client is sent the scene of the old server.
\<close>

lemma globals_restarted:
  assumes "alloserv_start_standalone E True listens (alloserv_stop_standalone st) = Some (True, st1)"
  shows "diff_cache (globals st1) = diff_cache (globals st) \<and> hist (globals st1) = hist (globals st)"
  using assms by (auto simp: alloserv_start_standalone_def alloserv_stop_standalone_def add_place_def add_entity_def Let_def
      split: option.splits if_splits)

theorem restart_sends_old_scene:
  assumes "alloserv_start_standalone E True listens (alloserv_stop_standalone st) = Some (True, st1)"
    and "s = (globals st1)\<lparr>world := w, agents := [c]\<rparr>"
    and "allo_delta_insert (pj E) (hist s) (allo_state_to_json (pj E) (w\<lparr>revision := next_revision (revision w)\<rparr>) False) = Some h"
    and "slot_index (sint (ack_state_rev (agent_intent c))) = Some i"
    and "diff_cache (globals st) ! i = Some (sint (ack_state_rev (agent_intent c)), latest_revision h, old_text)"
    and "broadcast_server_state E s = Some s'"
  shows "events s' = events s @ [Sent (agent_at c) CHANNEL_STATEDIFFS old_text]"
proof -
  have cache: "diff_cache (globals st1) = diff_cache (globals st)" using globals_restarted [OF assms(1)] by simp
  show ?thesis using assms(6,3,4,5)
    by (auto simp: broadcast_server_state_def assms(2) Let_def allo_delta_compute_def cache log_event_def
        split: option.splits slot.splits if_splits)
qed

text \<open>A server whose client was sent the first state, and that was stopped and started again.\<close>

definition stopped_server :: "(json, nat) standalone" where
  "stopped_server = \<lparr>serving = False, globals = (sample_place_server [])\<lparr>agents := [], diff_cache := (replicate 64 None)[0 := Some (0, 2, ''old'')]\<rparr>\<rparr>"

definition newcomer :: "json agent" where
  "newcomer = \<lparr>agent_at = 9, agent_id = ''n'', avatar_entity_id = None, identity = None, agent_intent = allo_client_intent_create\<rparr>"

lemma restarted_broadcasts:
  "case alloserv_start_standalone (sample_place_env (jobj [])) True (\<lambda>k. True) (alloserv_stop_standalone stopped_server) of
     Some (True, st1) \<Rightarrow>
       (case allo_delta_insert json_ops (hist (globals st1))
               (allo_state_to_json json_ops (allo_state_init\<lparr>revision := next_revision (revision (allo_state_init :: json allo_state))\<rparr>) False) of
          Some h \<Rightarrow> latest_revision h = 2
        | None \<Rightarrow> False) \<and>
       broadcast_server_state (sample_place_env (jobj [])) ((globals st1)\<lparr>world := allo_state_init, agents := [newcomer]\<rparr>) \<noteq> None
   | _ \<Rightarrow> False"
  by code_simp

theorem restart_sends_old_scene_witness:
  "\<exists>st1 s'. alloserv_start_standalone (sample_place_env (jobj [])) True (\<lambda>k. True) (alloserv_stop_standalone stopped_server) = Some (True, st1) \<and>
     broadcast_server_state (sample_place_env (jobj [])) ((globals st1)\<lparr>world := allo_state_init, agents := [newcomer]\<rparr>) = Some s' \<and>
     events s' = events (globals st1) @ [Sent 9 CHANNEL_STATEDIFFS ''old'']"
proof -
  let ?E = "sample_place_env (jobj [])"
  have E: "pj ?E = json_ops" by (simp add: sample_place_env_def)
  obtain st1 h s' where st1: "alloserv_start_standalone ?E True (\<lambda>k. True) (alloserv_stop_standalone stopped_server) = Some (True, st1)"
    and h: "allo_delta_insert (pj ?E) (hist (globals st1))
      (allo_state_to_json (pj ?E) (allo_state_init\<lparr>revision := next_revision (revision (allo_state_init :: json allo_state))\<rparr>) False) = Some h" "latest_revision h = 2"
    and s': "broadcast_server_state ?E ((globals st1)\<lparr>world := allo_state_init, agents := [newcomer]\<rparr>) = Some s'"
    using restarted_broadcasts unfolding E by (auto split: option.splits bool.splits prod.splits)
  have h': "allo_delta_insert (pj ?E) (hist ((globals st1)\<lparr>world := allo_state_init, agents := [newcomer]\<rparr>))
      (allo_state_to_json (pj ?E) (allo_state_init\<lparr>revision := next_revision (revision (allo_state_init :: json allo_state))\<rparr>) False) = Some h"
    using h(1) by simp
  have "events s' = events ((globals st1)\<lparr>world := allo_state_init, agents := [newcomer]\<rparr>) @ [Sent (agent_at newcomer) CHANNEL_STATEDIFFS ''old'']"
    by (rule restart_sends_old_scene [OF st1 refl h' _ _ s', of 0])
      (use h(2) in \<open>simp_all add: newcomer_def allo_client_intent_create_def slot_index_def stopped_server_def\<close>)
  then show ?thesis using st1 s' by (auto simp: newcomer_def)
qed

end
