(* ===== verification/Math_Text.thy ===== *)
theory Math_Text
  imports Statistics
begin

text \<open>
  The rest of \<^verbatim>\<open>src/math.c\<close>: angles, the printed forms of vectors and matrices, and the product that stands
  behind the return of \<open>allo_m4x4_concat\<close> with the comment that it is wrong.
\<close>

text \<open>Of a vector without length the angle is no number.\<close>

definition allo_vector_angle :: "simlib \<Rightarrow> (rat \<Rightarrow> rat option) \<Rightarrow> allo_vector \<Rightarrow> allo_vector \<Rightarrow> rat option" where
  "allo_vector_angle L acos l r =
     (let d = allo_vector_length L l * allo_vector_length L r in if d = 0 then None else acos (allo_vector_dot l r / d))"

section \<open>The product behind the return\<close>

text \<open>The macro \<open>rc\<close>.\<close>

definition matrix_cell :: "allo_m4x4 \<Rightarrow> nat \<Rightarrow> nat \<Rightarrow> rat" where
  "matrix_cell m r c = v_of m ! (r * 4 + c)"

definition concat_behind_return :: "allo_m4x4 \<Rightarrow> allo_m4x4 \<Rightarrow> allo_m4x4" where
  "concat_behind_return a b = m_of_list (concat (map (\<lambda>r. map (\<lambda>c.
     matrix_cell a r 0 * matrix_cell b 0 c + matrix_cell a r 1 * matrix_cell b 1 c +
     matrix_cell a r 2 * matrix_cell b 2 c + matrix_cell a r 3 * matrix_cell b 3 c) [0, 1, 2, 3]) [0, 1, 2, 3]))"

text \<open>It takes the array by rows, where it is stored by columns: the product in the other order.\<close>

theorem concat_behind_return_swaps: "concat_behind_return a b = product b a"
  by (simp add: concat_behind_return_def matrix_cell_def v_of_def product_def m_of_def algebra_simps)

section \<open>Printed forms\<close>

definition with_sign :: "stats_env \<Rightarrow> rat \<Rightarrow> string" where
  "with_sign F x = (if 0 \<le> x then ''+'' else []) @ fixed F 2 x"

definition matrix_row :: "stats_env \<Rightarrow> rat list \<Rightarrow> string" where
  "matrix_row F xs = TAB @ with_sign F (xs ! 0) @ '' '' @ with_sign F (xs ! 1) @ '' '' @ with_sign F (xs ! 2) @ '' '' @ with_sign F (xs ! 3)"

text \<open>The strings are cut to the blocks that are allocated for them.\<close>

definition allo_m4x4_string :: "stats_env \<Rightarrow> allo_m4x4 \<Rightarrow> string" where
  "allo_m4x4_string F m = take 254
     (matrix_row F [c1r1 m, c2r1 m, c3r1 m, c4r1 m] @ NL @ matrix_row F [c1r2 m, c2r2 m, c3r2 m, c4r2 m] @ NL @
      matrix_row F [c1r3 m, c2r3 m, c3r3 m, c4r3 m] @ NL @ matrix_row F [c1r4 m, c2r4 m, c3r4 m, c4r4 m])"

definition allo_vec_string :: "stats_env \<Rightarrow> allo_vector \<Rightarrow> string" where
  "allo_vec_string F l = take 39 (fixed F 2 (vx l) @ '' '' @ fixed F 2 (vy l) @ '' '' @ fixed F 2 (vz l))"

text \<open>A matrix is printed whole when its numbers take up to 14 characters, the sign in front included.\<close>

theorem matrix_string_whole:
  assumes "\<forall>x \<in> set (v_of m). length (with_sign F x) \<le> 14"
  shows "allo_m4x4_string F m = matrix_row F [c1r1 m, c2r1 m, c3r1 m, c4r1 m] @ NL @ matrix_row F [c1r2 m, c2r2 m, c3r2 m, c4r2 m] @ NL @
      matrix_row F [c1r3 m, c2r3 m, c3r3 m, c4r3 m] @ NL @ matrix_row F [c1r4 m, c2r4 m, c3r4 m, c4r4 m]"
  unfolding allo_m4x4_string_def by (rule take_all) (use assms in \<open>simp add: matrix_row_def v_of_def TAB_def NL_def\<close>)

theorem matrix_string_whole_witness:
  "allo_m4x4_string \<lparr>fixed = (\<lambda>d x. ''0.00''), throttle_scale = 32, figures = (\<lambda>p. \<lparr>packets_lost = 0, round_trip_time = 0,
      packet_throttle = 0\<rparr>), connected_peers = 0, limited_peers = 0\<rparr> allo_m4x4_identity =
    concat (replicate 3 (TAB @ ''+0.00 +0.00 +0.00 +0.00'' @ NL)) @ TAB @ ''+0.00 +0.00 +0.00 +0.00''"
  using matrix_string_whole [of allo_m4x4_identity "\<lparr>fixed = (\<lambda>d x. ''0.00''), throttle_scale = 32, figures = (\<lambda>p. \<lparr>packets_lost = 0,
      round_trip_time = 0, packet_throttle = 0\<rparr>), connected_peers = 0, limited_peers = 0\<rparr>"]
  by (simp add: with_sign_def matrix_row_def v_of_def m_defs numeral_eq_Suc)

end
