(* ===== verification/Spec2Isabelle.thy ===== *)
theory Spec2Isabelle
  imports Jobs Sha1_Correct Asset_Store_Correct Asset_Transfer Server_Props State_Json Delta_Correct
    Client_Correct Client_Proxy_Correct Animation_Correct Simulation_Correct Place_Correct Media_Correct Gltf_Correct
    Simple_Api_Correct Libav_Correct Statistics_Correct Local_Simulation Standalone Math_Text
begin

text \<open>
  A verification of allonet, the network library of Alloverse: a \<^emph>\<open>place\<close> is a server that keeps a
  scene of entities, and the \<^emph>\<open>clients\<close> connected to it over ENet receive its changes, send intents and
  interactions, and exchange assets.

  \<^bold>\<open>The parts and how they work together\<close>

  \<^item> A server (\<^verbatim>\<open>src/server.c\<close>) polls ENet. Connections and disconnections change its list of clients;
    a packet of the asset channel goes through the asset protocol (\<^verbatim>\<open>src/asset.c\<close>), which calls the
    server back for bytes, writes and sends; the bytes come from the asset store
    (\<^verbatim>\<open>src/assetstore.c\<close>) or are searched for among the other clients.
  \<^item> The scene is a state (\<^verbatim>\<open>src/state.c\<close>) of entities whose components are JSON. The server keeps the
    JSON of the last 64 states and sends each client the change since the one it has acknowledged
    (\<^verbatim>\<open>src/delta.c\<close>).
  \<^item> A client (\<^verbatim>\<open>src/client/client.c\<close>) applies the deltas to its own copy of the scene. It runs on the
    caller's thread, or behind a proxy (\<^verbatim>\<open>src/clientproxy.c\<close>) that passes messages to and from a
    network thread.
  \<^item> The program around the server (\<^verbatim>\<open>src/standalone_server.cpp\<close>) answers the interactions of clients with
    the place, hands media packets to the listeners of their track, and five times a second simulates
    the intents of the clients (\<^verbatim>\<open>src/simulation\<close>) and sends the deltas. The tracks a client hears and
    sees, with their coders, follow the components of the place (\<^verbatim>\<open>src/media\<close>).
  \<^item> Below these lie dynamic arrays, the job scheduler, SHA-256 for the ids of assets, matrices, and
    cJSON, ENet and mathc, which are not part of the repository.

  \<^bold>\<open>Theories\<close>

  \<^item> \<open>Prelude\<close>: the C integer types as words, byte order, lists as C arrays, \<open>fold_opt\<close>.
  \<^item> \<open>Dyn_Array\<close> (\<^verbatim>\<open>include/allonet/arr.h\<close>, \<^verbatim>\<open>arr.c\<close>): each macro on a record of the buffer, length and
    capacity; the growth loop ends, and every operation refines the one on lists, which is why the other
    theories use lists for \<open>arr_t\<close>.
  \<^item> \<open>Jobs\<close> (\<^verbatim>\<open>jobs.c\<close>): the scheduler; a tick as a loop whose jobs may change the array.
  \<^item> \<open>Sha256\<close>, \<open>Sha256_Correct\<close> (\<^verbatim>\<open>sha256.c\<close>): the unrolled block function on words, equal to the standard's
    compression function; incremental hashing equals hashing at once; the id of an asset.
  \<^item> \<open>Sha1\<close>, \<open>Sha1_Correct\<close> (\<^verbatim>\<open>sha1.c\<close>): the block function whose words are expanded in place, the counter in two
    words, padding byte by byte; the digest is the standard's.
  \<^item> \<open>Cjson\<close> (\<^verbatim>\<open>util.cpp\<close> and the cJSON submodule): the operations of cJSON as a record, their documented
    laws as the locale \<open>cjson_lib\<close>, interpreted on trees of JSON; the helpers of the repository on top.
  \<^item> \<open>Ranges\<close>, \<open>Asset_Store\<close>, \<open>Asset_Store_Correct\<close> (\<^verbatim>\<open>assetstore.c\<close>): the ranges of an asset that are
    present, kept in JSON as the code does, refine sets of byte positions; the memory store with its
    heap of blocks, reads, writes, pruning, and the store that only counts.
  \<^item> \<open>Asset_Protocol\<close>, \<open>Asset_Transfer\<close> (\<^verbatim>\<open>asset.c\<close>): headers, packets and the handler over the function
    pointers it is given; a transfer between two sides ends with every byte in place.
  \<^item> \<open>Server\<close>, \<open>Server_Correct\<close>, \<open>Server_Props\<close> (\<^verbatim>\<open>server.c\<close>): the server as a state machine over the events
    of ENet, its invariant, and the life of a search for a missing asset.
  \<^item> \<open>Math\<close> (\<^verbatim>\<open>math.c\<close>): vectors and matrices over the rationals; the locale \<open>mathc_lib\<close> states what is
    relied on of mathc and is interpreted on the product of matrices and the inverse by cofactors that the
    file keeps behind the return. \<open>Math_Text\<close>: angles, printed forms, and the product the code doubts.
  \<^item> \<open>State\<close>, \<open>Intent\<close>, \<open>State_Correct\<close>, \<open>State_Json\<close> (\<^verbatim>\<open>state.c\<close>): entities known by their addresses, the
    scene graph their relationships make, specifications, transforms, intents and interactions, and
    the trips through JSON.
  \<^item> \<open>Delta\<close>, \<open>Delta_Correct\<close> (\<^verbatim>\<open>delta.c\<close>): the ring of states with empty and freed slots, computing and
    applying deltas, and the report of what a delta changes.
  \<^item> \<open>Client\<close>, \<open>Client_Correct\<close> (\<^verbatim>\<open>client/client.c\<close>): the client as a record, with the packets it sends and
    the callbacks it makes recorded in order; its copy of the scene mirrors the states it receives.
  \<^item> \<open>Client_Proxy\<close>, \<open>Client_Proxy_Correct\<close> (\<^verbatim>\<open>clientproxy.c\<close>): every message and handler, and the relation
    \<open>step\<close> of the two threads with the locks they hold; order, handlers, polls, disconnecting.
  \<^item> \<open>Movement\<close>, \<open>Animation\<close>, \<open>Animation_Correct\<close>, \<open>Simulation\<close>, \<open>Simulation_Correct\<close> (\<^verbatim>\<open>simulation\<close>): movement by
    stick, by pose and by grabbing; property animations with their paths, values and easing; the tick
    and its clock. A pointer into JSON is a path of positions, and the union of a value is its 16 cells, of
    which some may be unwritten. libm, mathc and the easing curves are the record \<open>simlib\<close>.
  \<^item> \<open>Media\<close>, \<open>Media_Correct\<close> (\<^verbatim>\<open>media\<close>): tracks and subsystems, the packets that are sent and parsed; Opus
    and the JPEG coder are the record \<open>media_env\<close>.
  \<^item> \<open>Uri\<close>, \<open>Place\<close>, \<open>Place_Correct\<close> (\<^verbatim>\<open>uri.h\<close>, \<^verbatim>\<open>standalone_server.cpp\<close>): every handler of the place on a record of
    its globals, what is sent as a list of events, and the relation \<open>place_step\<close> of connections, packets,
    lost connections and ticks.
  \<^item> \<open>Gltf\<close>, \<open>Gltf_Correct\<close> (\<^verbatim>\<open>allo_gltf.cpp\<close>): the models of assets, the box around one from the bytes of its
    buffers, the transform of a node. What tinygltf parses is a record of the fields that are read.
  \<^item> \<open>Simple_Api\<close>, \<open>Simple_Api_Correct\<close> (\<^verbatim>\<open>alloclient_simple_api.c\<close>): the interface of scripts, which give commands
    as JSON and get back the events; no event is lost, repeated or out of order.
  \<^item> \<open>Libav\<close>, \<open>Libav_Correct\<close> (\<^verbatim>\<open>media/video/libav.c\<close>): the subsystem on ffmpeg that a program registers with
    \<^verbatim>\<open>allo_libav_initialize\<close>. ffmpeg is the record \<open>av_env\<close>; what is allocated from it is counted.
  \<^item> \<open>Statistics\<close>, \<open>Statistics_Correct\<close> (\<^verbatim>\<open>util.h\<close> and the reports of \<^verbatim>\<open>server.c\<close>, \<^verbatim>\<open>client.c\<close>, \<^verbatim>\<open>clientproxy.c\<close>,
    \<^verbatim>\<open>media.c\<close>): rates, and text that \<open>snprintf\<close> writes into a buffer of characters; which reports stay in it.
  \<^item> \<open>Local_Simulation\<close> (\<^verbatim>\<open>client.c\<close>): a client that predicts its own movement, and how the next state corrects it.
  \<^item> \<open>Standalone\<close> (\<^verbatim>\<open>standalone_server.cpp\<close>): starting, polling, stopping and starting again.

  \<^bold>\<open>Conventions\<close>

  An operation that can fail an assertion, follow a null pointer, leave an array or use freed memory
  returns an \<open>option\<close>, and \<open>None\<close> is that. Integers are words of their width where the code computes
  with them; a \<open>double\<close> is a rational, exact for the integers below $2^{53}$ that JSON carries, so rounding
  is not modelled. A node of JSON that is changed in place is returned changed. What a function
  does to the world through a callback or through ENet is recorded in the state it returns.

  \<^bold>\<open>Bounds and fuel\<close>

  \<open>allo_state_add_entity_from_spec\<close> and \<open>entity_get_transform_to_world\<close> follow the data and take the depth
  as an argument: \<open>add_spec_adds_tree\<close> shows that as many levels as the specification has are enough,
  \<open>convert_space_roundtrip\<close> uses the depth at which both entities are reached, and
  \<open>parent_cycle_never_returns\<close> that no depth is enough for a cycle. \<open>allo_state_remove_entity\<close> takes the number
  of entities, which \<open>cascade_removes_descendants\<close> shows to be enough. The loop over the
  entities of a lost agent takes their number, which \<open>disconnect_removes_entities\<close> shows to be enough.
  The loops over the wanted assets of the
  server may not end and are partial functions; \<open>lost_connection_removes_client\<close> shows that the one of a
  disconnect ends.

  \<^bold>\<open>What the lemmas show\<close>

  Invariants: the server's peers, clients and wanted assets; the store and its blocks; the ring of
  states; the cache of the deltas; the queues of the threaded client. Refinement: arrays to lists, ranges to sets of bytes, the
  client's copy to the server's state, the proxy's poll to steps of its thread. Round trips: packets,
  states, intents, interactions, transforms, deltas. Termination: the scheduler, the growth of arrays,
  transfers, disconnects. And the inputs for which the code does not do what it means to, each as a theorem
  over the same definitions: a gap of one byte that is marked as complete, joints of hands that do not
  arrive, cycles of parents, revisions below zero, a clock that is late, a disconnect inside a callback,
  matrices that are animated backwards, a silent client that stops the simulation, components that are
  never removed, listeners that dangle, entities that are used after they are freed.

  Across components: \<open>sound_reaches_listeners\<close> follows a packet from the client that sends it through the
  place to the client that hears it, \<open>disconnect_removes_entities\<close> rests on the removal of the scene graph,
  \<open>newcomer_freezes_place\<close> on the simulation and the server together, and \<open>clients_move_their_own\<close> on all
  movements of a tick.

  \<^bold>\<open>Not modelled\<close>

  The threaded client and the client record the media packets they would hand to \<open>Media\<close>. How long
  \<open>select\<close> and ENet wait is left out, and so is the wait of a client for the answer to its disconnect, which ends
  in the same state. The mutexes of the store and of the shared part of a client are left out, as each is
  held for the length of a function. The vendored libraries, the bindings and the tests are not part of the
  program's own logic.
\<close>

end
